(* ===== verification/Prelude.thy ===== *)
theory Prelude
  imports Main "HOL-Library.State_Monad" "HOL-Library.AList"
begin

text \<open>
  Shared ground of the development: the collections of simplification rules the component
  proofs draw on, a small weakest-precondition calculus for the state monad in which the
  stateful handlers are written, and generic facts on lists, options and association lists.
\<close>

named_theorems wp_simps "weakest preconditions of the monadic building blocks"
named_theorems go_lib "characteristic equations of the Go library functions"

section \<open>Weakest preconditions for the state monad\<close>

text \<open>
  \<open>wp m Q w\<close>: running \<open>m\<close> from \<open>w\<close> ends with a result and a state that satisfy \<open>Q\<close>.
  Every computation of the model is total, so this is total correctness.
\<close>

definition wp :: "('s, 'a) state \<Rightarrow> ('a \<Rightarrow> 's \<Rightarrow> bool) \<Rightarrow> 's \<Rightarrow> bool" where
  "wp m Q w = (case run_state m w of (r, w') \<Rightarrow> Q r w')"

definition gets :: "('s \<Rightarrow> 'a) \<Rightarrow> ('s, 'a) state" where
  "gets f = State (\<lambda>s. (f s, s))"

definition modify :: "('s \<Rightarrow> 's) \<Rightarrow> ('s, unit) state" where
  "modify f = State (\<lambda>s. ((), f s))"

lemma run_gets [simp]: "run_state (gets f) s = (f s, s)"
  by (simp add: gets_def)

lemma run_modify [simp]: "run_state (modify f) s = ((), f s)"
  by (simp add: modify_def)

text \<open>The rules are equations between predicates, so that they also apply below a binder.\<close>

lemma wp_return [wp_simps]: "wp (State_Monad.return x) Q = Q x"
  by (rule ext) (simp add: wp_def)

lemma wp_bind [wp_simps]: "wp (State_Monad.bind m f) Q = wp m (\<lambda>r. wp (f r) Q)"
  by (rule ext) (simp add: wp_def split: prod.splits)

lemma wp_gets [wp_simps]: "wp (gets f) Q = (\<lambda>w. Q (f w) w)"
  by (rule ext) (simp add: wp_def)

lemma wp_modify [wp_simps]: "wp (modify f) Q = (\<lambda>w. Q () (f w))"
  by (rule ext) (simp add: wp_def)

lemma wp_if [wp_simps]: "wp (if b then m else n) Q = (if b then wp m Q else wp n Q)"
  by simp

lemma wp_let [wp_simps]: "wp (let x = t in f x) Q = (let x = t in wp (f x) Q)"
  by simp

lemma wp_case_sum [wp_simps]:
  "wp (case s of Inl e \<Rightarrow> f e | Inr v \<Rightarrow> g v) Q = (case s of Inl e \<Rightarrow> wp (f e) Q | Inr v \<Rightarrow> wp (g v) Q)"
  by (cases s) auto

lemma wp_case_option [wp_simps]:
  "wp (case s of None \<Rightarrow> f | Some v \<Rightarrow> g v) Q = (case s of None \<Rightarrow> wp f Q | Some v \<Rightarrow> wp (g v) Q)"
  by (cases s) auto

lemma wp_case_prod [wp_simps]:
  "wp (case p of (a, b) \<Rightarrow> f a b) Q = (case p of (a, b) \<Rightarrow> wp (f a b) Q)"
  by (cases p) auto

text \<open>The same as introduction rules.\<close>

lemma wp_retI: "Q x w \<Longrightarrow> wp (State_Monad.return x) Q w"
  by (simp add: wp_return)

lemma wp_condI: "(b \<Longrightarrow> wp m Q w) \<Longrightarrow> (\<not> b \<Longrightarrow> wp n Q w) \<Longrightarrow> wp (if b then m else n) Q w"
  by simp

lemma wp_sumI:
  "(\<And>e. s = Inl e \<Longrightarrow> wp (f e) Q w) \<Longrightarrow> (\<And>v. s = Inr v \<Longrightarrow> wp (g v) Q w) \<Longrightarrow>
   wp (case s of Inl e \<Rightarrow> f e | Inr v \<Rightarrow> g v) Q w"
  by (cases s) auto

lemma wp_optionI:
  "(s = None \<Longrightarrow> wp f Q w) \<Longrightarrow> (\<And>v. s = Some v \<Longrightarrow> wp (g v) Q w) \<Longrightarrow>
   wp (case s of None \<Rightarrow> f | Some v \<Rightarrow> g v) Q w"
  by (cases s) auto

lemma wp_bindI: "wp m (\<lambda>r. wp (f r) Q) w \<Longrightarrow> wp (State_Monad.bind m f) Q w"
  by (simp add: wp_bind)

lemma wp_mono: "wp m P w \<Longrightarrow> (\<And>r w'. P r w' \<Longrightarrow> Q r w') \<Longrightarrow> wp m Q w"
  by (auto simp: wp_def split: prod.splits)

lemma wp_conj: "wp m P w \<Longrightarrow> wp m Q w \<Longrightarrow> wp m (\<lambda>r w'. P r w' \<and> Q r w') w"
  by (auto simp: wp_def split: prod.splits)

lemma wp_runD: "wp m Q w \<Longrightarrow> run_state m w = (r, w') \<Longrightarrow> Q r w'"
  by (simp add: wp_def)

lemma wp_runI: "(\<And>r w'. run_state m w = (r, w') \<Longrightarrow> Q r w') \<Longrightarrow> wp m Q w"
  by (simp add: wp_def split: prod.splits)

section \<open>Association lists as Go maps\<close>

text \<open>
  A Go \<^verbatim>\<open>map[string]string\<close> is an association list with distinct keys: \<open>map_of\<close> is the
  lookup, \<open>AList.update\<close> the assignment, \<open>AList.delete\<close> the built-in delete, and the length of
  the list is \<^verbatim>\<open>len\<close>.
\<close>

type_synonym smap = "(string \<times> string) list"

definition wf_map :: "('k \<times> 'v) list \<Rightarrow> bool" where
  "wf_map m \<longleftrightarrow> distinct (map fst m)"

lemma wf_map_Nil [simp]: "wf_map []"
  by (simp add: wf_map_def)

lemma wf_map_update [intro]: "wf_map m \<Longrightarrow> wf_map (AList.update k v m)"
  by (simp add: wf_map_def distinct_update)

lemma wf_map_delete [intro]: "wf_map m \<Longrightarrow> wf_map (AList.delete k m)"
  by (simp add: wf_map_def distinct_delete)

lemma map_of_update [simp]:
  "map_of (AList.update k v m) k' = (if k' = k then Some v else map_of m k')"
  by (simp add: update_conv')

lemma map_of_delete [simp]:
  "map_of (AList.delete k m) k' = (if k' = k then None else map_of m k')"
  by (simp add: delete_conv')

lemma map_of_eq_None_keys: "map_of m k = None \<longleftrightarrow> k \<notin> fst ` set m"
  by (rule map_of_eq_None_iff)

section \<open>Lists\<close>

text \<open>A left fold in which one step keeps an invariant.\<close>

lemma fold_invariant_set:
  assumes "P s" and "\<And>x s. x \<in> set xs \<Longrightarrow> P s \<Longrightarrow> P (f x s)"
  shows "P (fold f xs s)"
  using assms by (induction xs arbitrary: s) auto

lemma find_Some_D: "List.find P xs = Some x \<Longrightarrow> x \<in> set xs \<and> P x"
  by (auto simp: find_Some_iff)

lemma list_all_permute: "set xs = set ys \<Longrightarrow> list_all P xs = list_all P ys"
  by (simp add: list_all_iff)

end
