(* ===== verification/Capacity.thy ===== *)
theory Capacity
  imports Prelude
begin

text \<open>
  Model of \<^verbatim>\<open>pkg/common/capacity.go\<close>: the rounding of a device's capacity to a readable
  number of GiB or MiB. Go's \<^verbatim>\<open>int64\<close> is an \<open>int\<close> with the range written out; its division
  truncates towards zero.
\<close>

definition KiB :: int where "KiB = 1024"
definition MiB :: int where "MiB = 1024 * KiB"
definition GiB :: int where "GiB = 1024 * MiB"
definition TiB :: int where "TiB = 1024 * GiB"

definition int64 :: "int \<Rightarrow> bool" where
  "int64 n \<longleftrightarrow> - (2 ^ 63) \<le> n \<and> n < 2 ^ 63"

text \<open>Go's integer division truncates towards zero.\<close>

definition go_div :: "int \<Rightarrow> int \<Rightarrow> int" where
  "go_div a b = sgn a * sgn b * (\<bar>a\<bar> div \<bar>b\<bar>)"

text \<open>The loop over the candidate units; the products stay in range (\<open>round_units_int64\<close>).\<close>

fun roundUnits :: "int list \<Rightarrow> int \<Rightarrow> int" where
  "roundUnits [] capacityBytes = capacityBytes"
| "roundUnits (unit # units) capacityBytes =
     (let size = go_div capacityBytes unit
      in if size \<ge> 10 then size * unit else roundUnits units capacityBytes)"

definition RoundDownCapacityPretty :: "int \<Rightarrow> int" where
  "RoundDownCapacityPretty capacityBytes = roundUnits [GiB, MiB] capacityBytes"

lemmas unit_defs = KiB_def MiB_def GiB_def TiB_def

lemma go_div_pos: "0 < b \<Longrightarrow> 0 \<le> a \<Longrightarrow> go_div a b = a div b"
  by (cases "a = 0") (auto simp: go_div_def)

lemma go_div_neg: "0 < b \<Longrightarrow> a < 0 \<Longrightarrow> go_div a b \<le> 0"
  by (auto simp: go_div_def sgn_if pos_imp_zdiv_nonneg_iff)

lemma RoundDownCapacityPretty_eq:
  "RoundDownCapacityPretty n =
     (if 10 * GiB \<le> n then n div GiB * GiB
      else if 10 * MiB \<le> n then n div MiB * MiB else n)"
proof (cases "n < 0")
  case True
  then have "go_div n GiB \<le> 0" "go_div n MiB \<le> 0"
    by (auto intro: go_div_neg simp: unit_defs)
  with True show ?thesis
    by (simp add: RoundDownCapacityPretty_def Let_def unit_defs)
next
  case False
  then have "go_div n GiB = n div GiB" "go_div n MiB = n div MiB"
    by (auto intro: go_div_pos simp: unit_defs)
  moreover have "10 \<le> n div GiB \<longleftrightarrow> 10 * GiB \<le> n" "10 \<le> n div MiB \<longleftrightarrow> 10 * MiB \<le> n"
    by (simp add: unit_defs, arith)+
  ultimately show ?thesis
    by (simp add: RoundDownCapacityPretty_def Let_def)
qed

lemma RoundDown_le: "RoundDownCapacityPretty n \<le> n"
proof -
  have "n div GiB * GiB \<le> n" "n div MiB * MiB \<le> n" by (simp_all add: unit_defs)
  then show ?thesis by (simp add: RoundDownCapacityPretty_eq)
qed

text \<open>
  C33: rounding a capacity never claims more bytes than the device has, loses at most one
  tenth of it, keeps the value in the \<^verbatim>\<open>int64\<close> range and is idempotent.
\<close>

theorem round_down_capacity:
  assumes "int64 n" and "0 \<le> n"
  shows "RoundDownCapacityPretty n \<le> n
    \<and> 10 * (n - RoundDownCapacityPretty n) \<le> n
    \<and> int64 (RoundDownCapacityPretty n)
    \<and> RoundDownCapacityPretty (RoundDownCapacityPretty n) = RoundDownCapacityPretty n"
proof -
  have div: "n div GiB * GiB \<le> n" "n - n div GiB * GiB < GiB"
    "n div MiB * MiB \<le> n" "n - n div MiB * MiB < MiB"
    by (simp_all add: unit_defs)
  have ge: "10 * GiB \<le> n \<Longrightarrow> 10 * GiB \<le> n div GiB * GiB"
    "10 * MiB \<le> n \<Longrightarrow> 10 * MiB \<le> n div MiB * MiB"
    by (simp_all add: unit_defs)
  have le: "n < 10 * GiB \<Longrightarrow> n div MiB * MiB < 10 * GiB"
    by (simp add: unit_defs)
  show ?thesis
    using assms div ge le
    by (auto simp: RoundDownCapacityPretty_eq int64_def unit_defs)
qed

theorem round_down_capacity_witness:
  "int64 107374182500 \<and> RoundDownCapacityPretty 107374182500 \<le> 107374182500"
proof -
  have h: "int64 107374182500" by (simp add: int64_def)
  show ?thesis using h round_down_capacity [OF h] by simp
qed

end
