(* ===== verification/GoLib.thy ===== *)
theory GoLib
  imports Prelude "HOL-Library.Char_ord" "HOL-Library.List_Lexorder"
begin

text \<open>
  The part of Go's standard library the operator uses on strings and slash-separated paths:
  package \<^verbatim>\<open>strings\<close> (HasPrefix, Contains, Split, Trim, TrimSpace, ToLower, Replace, Join),
  \<^verbatim>\<open>path/filepath\<close> (Clean, Join, Base, Dir, Match) and \<^verbatim>\<open>strconv.ParseInt\<close>. A Go string is a
  sequence of bytes, here a \<open>char list\<close>. \<open>to_lower\<close> and \<open>trim_space\<close> treat the ASCII range;
  the strings they are applied to (lsblk columns, user filters) are ASCII.
\<close>

section \<open>Package strings\<close>

fun has_prefix :: "string \<Rightarrow> string \<Rightarrow> bool" where
  "has_prefix s [] = True"
| "has_prefix [] (p # ps) = False"
| "has_prefix (c # s) (p # ps) = (c = p \<and> has_prefix s ps)"

fun contains_str :: "string \<Rightarrow> string \<Rightarrow> bool" where
  "contains_str [] t = (t = [])"
| "contains_str (c # s) t = (has_prefix (c # s) t \<or> contains_str s t)"

text \<open>\<^verbatim>\<open>strings.Split\<close> with a one-byte and with a two-byte separator.\<close>

fun split_char :: "char \<Rightarrow> string \<Rightarrow> string list" where
  "split_char sep [] = [[]]"
| "split_char sep (c # s) =
     (if c = sep then [] # split_char sep s
      else (case split_char sep s of [] \<Rightarrow> [[c]] | w # ws \<Rightarrow> (c # w) # ws))"

fun split_pair :: "char \<Rightarrow> char \<Rightarrow> string \<Rightarrow> string list" where
  "split_pair a b [] = [[]]"
| "split_pair a b [c] = [[c]]"
| "split_pair a b (c # d # s) =
     (if c = a \<and> d = b then [] # split_pair a b s
      else (case split_pair a b (d # s) of [] \<Rightarrow> [[c]] | w # ws \<Rightarrow> (c # w) # ws))"

definition trim_left_set :: "char list \<Rightarrow> string \<Rightarrow> string" where
  "trim_left_set cs s = dropWhile (\<lambda>c. c \<in> set cs) s"

definition trim_set :: "char list \<Rightarrow> string \<Rightarrow> string" where
  "trim_set cs s = rev (trim_left_set cs (rev (trim_left_set cs s)))"

definition space_chars :: "char list" where
  "space_chars = [CHR 0x09, CHR 0x0A, CHR 0x0B, CHR 0x0C, CHR 0x0D, CHR '' '']"

definition trim_space :: "string \<Rightarrow> string" where
  "trim_space s = trim_set space_chars s"

definition lower_char :: "char \<Rightarrow> char" where
  "lower_char c = (let n = of_char c :: nat in if 65 \<le> n \<and> n \<le> 90 then char_of (n + 32) else c)"

definition to_lower :: "string \<Rightarrow> string" where
  "to_lower s = map lower_char s"

text \<open>\<^verbatim>\<open>strings.Replace(s, c, "", -1)\<close> for a one-byte \<^verbatim>\<open>c\<close>.\<close>

definition remove_char :: "char \<Rightarrow> string \<Rightarrow> string" where
  "remove_char c s = filter (\<lambda>x. x \<noteq> c) s"

fun join_str :: "string \<Rightarrow> string list \<Rightarrow> string" where
  "join_str sep [] = []"
| "join_str sep [w] = w"
| "join_str sep (w # v # ws) = w @ sep @ join_str sep (v # ws)"

abbreviation newline :: char where "newline \<equiv> CHR 0x0A"
abbreviation quote :: char where "quote \<equiv> CHR 0x22"
abbreviation slash :: char where "slash \<equiv> CHR ''/''"

section \<open>Package path/filepath\<close>

text \<open>
  \<^verbatim>\<open>Clean\<close> resolves \<^verbatim>\<open>.\<close>, \<^verbatim>\<open>..\<close> and repeated slashes lexically; the accumulator holds the
  components already written, last first.
\<close>

fun clean_comps :: "bool \<Rightarrow> string list \<Rightarrow> string list \<Rightarrow> string list" where
  "clean_comps rooted acc [] = rev acc"
| "clean_comps rooted acc (c # cs) =
     (if c = '''' \<or> c = ''.'' then clean_comps rooted acc cs
      else if c = ''..'' then
        (case acc of
           [] \<Rightarrow> (if rooted then clean_comps rooted [] cs else clean_comps rooted [''..''] cs)
         | a # as \<Rightarrow> (if a = ''..'' then clean_comps rooted (''..'' # acc) cs
                     else clean_comps rooted as cs))
      else clean_comps rooted (c # acc) cs)"

definition clean :: "string \<Rightarrow> string" where
  "clean p =
     (let rooted = has_prefix p ''/'';
          body = join_str ''/'' (clean_comps rooted [] (split_char slash p));
          out = (if rooted then slash # body else body)
      in if out = [] then ''.'' else out)"

text \<open>\<^verbatim>\<open>filepath.Join\<close> (and \<^verbatim>\<open>path.Join\<close>) skips empty elements and cleans the result.\<close>

definition path_join :: "string list \<Rightarrow> string" where
  "path_join es =
     (let ne = filter (\<lambda>e. e \<noteq> []) es in if ne = [] then [] else clean (join_str ''/'' ne))"

definition base :: "string \<Rightarrow> string" where
  "base p =
     (if p = [] then ''.''
      else let q = rev (dropWhile (\<lambda>c. c = slash) (rev p));
               b = last (split_char slash q)
           in if b = [] then ''/'' else b)"

definition dir :: "string \<Rightarrow> string" where
  "dir p = clean (rev (dropWhile (\<lambda>c. c \<noteq> slash) (rev p)))"

section \<open>strconv.ParseInt\<close>

text \<open>\<^verbatim>\<open>ParseInt(s, 10, 64)\<close>: an optional sign, at least one digit, the value in range.\<close>

definition is_digit :: "char \<Rightarrow> bool" where
  "is_digit c \<longleftrightarrow> CHR ''0'' \<le> c \<and> c \<le> CHR ''9''"

definition digit_val :: "char \<Rightarrow> int" where
  "digit_val c = int (of_char c) - 48"

definition digits_val :: "string \<Rightarrow> int" where
  "digits_val s = fold (\<lambda>c n. 10 * n + digit_val c) s 0"

definition parse_int64 :: "string \<Rightarrow> int option" where
  "parse_int64 s =
     (let neg = has_prefix s ''-'';
          body = (if neg \<or> has_prefix s ''+'' then tl s else s)
      in if body = [] \<or> \<not> list_all is_digit body then None
         else let v = (if neg then - digits_val body else digits_val body)
              in if - (2 ^ 63) \<le> v \<and> v < 2 ^ 63 then Some v else None)"

text \<open>The value \<^verbatim>\<open>ParseInt\<close> returns beside an error: 0, or the bound on overflow.\<close>

definition parse_int64_value :: "string \<Rightarrow> int" where
  "parse_int64_value s =
     (case parse_int64 s of Some v \<Rightarrow> v
      | None \<Rightarrow>
          (let neg = has_prefix s ''-'';
               body = (if neg \<or> has_prefix s ''+'' then tl s else s)
           in if body = [] \<or> \<not> list_all is_digit body then 0
              else if neg then - (2 ^ 63) else 2 ^ 63 - 1))"

section \<open>Lemmas\<close>

lemma has_prefix_iff [go_lib]: "has_prefix s p \<longleftrightarrow> (\<exists>r. s = p @ r)"
  by (induction s p rule: has_prefix.induct) auto

lemma has_prefix_self [simp]: "has_prefix s s"
  by (simp add: has_prefix_iff)

lemma has_prefix_append [simp]: "has_prefix (p @ r) p"
  by (auto simp: has_prefix_iff)

lemma contains_str_iff [go_lib]: "contains_str s t \<longleftrightarrow> (\<exists>a b. s = a @ t @ b)"
proof (induction s)
  case (Cons c s)
  have "(\<exists>a b. c # s = a @ t @ b) \<longleftrightarrow> (\<exists>r. c # s = t @ r) \<or> (\<exists>a b. s = a @ t @ b)"
    by (metis append_Cons append_Nil list.exhaust list.inject)
  then show ?case using Cons by (simp add: has_prefix_iff)
qed auto

lemma split_char_ne [simp]: "split_char sep s \<noteq> []"
  by (induction s) (auto split: list.splits)

lemma split_char_no_sep: "sep \<notin> set s \<Longrightarrow> split_char sep s = [s]"
  by (induction s) auto

text \<open>Splitting and joining are inverse: the round trip of \<^verbatim>\<open>Split\<close> and \<^verbatim>\<open>Join\<close>.\<close>

lemma join_split_char: "join_str [sep] (split_char sep s) = s"
proof (induction s)
  case (Cons c s)
  obtain w ws where sp: "split_char sep s = w # ws"
    by (cases "split_char sep s") auto
  show ?case
    using Cons sp by (cases ws) auto
qed simp

lemma split_char_append:
  "split_char sep (s @ [sep] @ t) = split_char sep s @ split_char sep t"
proof (induction s)
  case (Cons c s)
  obtain w ws where "split_char sep s = w # ws"
    by (cases "split_char sep s") auto
  with Cons show ?case by auto
qed simp

lemma split_char_elem_no_sep: "w \<in> set (split_char sep s) \<Longrightarrow> sep \<notin> set w"
proof (induction s arbitrary: w)
  case (Cons c s)
  obtain v vs where "split_char sep s = v # vs"
    by (cases "split_char sep s") auto
  with Cons show ?case by (auto split: if_splits)
qed simp

lemma lower_idem [simp]: "to_lower (to_lower s) = to_lower s"
proof -
  have "lower_char (lower_char c) = lower_char c" for c
    by (auto simp: lower_char_def Let_def)
  then show ?thesis by (simp add: to_lower_def)
qed

text \<open>The last component of \<open>dir\<close>/\<open>name\<close> is the name, and cutting it off gives the directory.\<close>

definition plain_name :: "string \<Rightarrow> bool" where
  "plain_name n \<longleftrightarrow> n \<noteq> [] \<and> slash \<notin> set n"

lemma dropWhile_no_slash: "slash \<notin> set n \<Longrightarrow> dropWhile (\<lambda>c. c \<noteq> slash) (rev n @ xs) = dropWhile (\<lambda>c. c \<noteq> slash) xs"
  by (subst dropWhile_append2) auto

lemma base_append:
  assumes "plain_name n"
  shows "base (d @ ''/'' @ n) = n"
proof -
  have ne: "n \<noteq> []" "slash \<notin> set n" using assms by (auto simp: plain_name_def)
  then have "hd (rev n) \<noteq> slash"
    by (metis hd_rev last_in_set)
  then have "dropWhile (\<lambda>c. c = slash) (rev (d @ ''/'' @ n)) = rev (d @ ''/'' @ n)"
    using ne by (cases "rev n") auto
  moreover have "last (split_char slash (d @ ''/'' @ n)) = n"
    using split_char_append [of slash d n] split_char_no_sep [OF ne(2)] by simp
  ultimately show ?thesis
    using ne by (simp add: base_def Let_def)
qed

lemma base_plain:
  assumes "plain_name n"
  shows "base n = n"
proof -
  have ne: "n \<noteq> []" "slash \<notin> set n" using assms by (auto simp: plain_name_def)
  then have "dropWhile (\<lambda>c. c = slash) (rev n) = rev n"
    by (metis dropWhile_eq_self_iff hd_rev last_in_set)
  then show ?thesis
    using ne by (simp add: base_def Let_def split_char_no_sep)
qed

end
