(* ===== verification/ApiTypes.thy ===== *)
theory ApiTypes
  imports GoLib
begin

text \<open>
  The data the components exchange: the custom resources of \<^verbatim>\<open>api/v1\<close> and \<^verbatim>\<open>api/v1alpha1\<close>
  (LocalVolume, LocalVolumeSet, LocalVolumeDeviceLink), the Kubernetes objects they are turned into
  (PersistentVolume, StorageClass), the block devices of \<^verbatim>\<open>pkg/internal\<close>, and the error values
  the code tells apart. Fields keep the source's names behind a prefix for the type. A timestamp
  is \<open>None\<close> when it is Go's zero time.
\<close>

type_synonym time = int

section \<open>Object metadata\<close>

record owner_ref =
  or_APIVersion :: string
  or_Kind :: string
  or_Name :: string
  or_UID :: string
  or_Controller :: "bool option"
  or_BlockOwnerDeletion :: "bool option"

record obj_meta =
  om_Name :: string
  om_Namespace :: string
  om_UID :: string
  om_Labels :: smap
  om_Annotations :: smap
  om_Finalizers :: "string list"
  om_OwnerReferences :: "owner_ref list"
  om_CreationTimestamp :: "time option"
  om_DeletionTimestamp :: "time option"
  om_Generation :: int

type_synonym namespaced_name = "string \<times> string"  \<comment> \<open>namespace, name\<close>

datatype cond_status = ConditionTrue | ConditionFalse | ConditionUnknown

record operator_condition =
  oc_Type :: string
  oc_Status :: cond_status
  oc_Reason :: string
  oc_Message :: string
  oc_LastTransitionTime :: "time option"

section \<open>Block devices\<close>

record block_device =
  bd_Name :: string
  bd_KName :: string
  bd_Type :: string
  bd_Model :: string
  bd_Vendor :: string
  bd_State :: string
  bd_FSType :: string
  bd_Size :: string
  bd_Rotational :: string
  bd_ReadOnly :: string
  bd_Removable :: string
  bd_PathByID :: string
  bd_Serial :: string
  bd_PartLabel :: string

definition empty_block_device :: block_device where
  "empty_block_device = \<lparr>bd_Name = [], bd_KName = [], bd_Type = [], bd_Model = [], bd_Vendor = [],
     bd_State = [], bd_FSType = [], bd_Size = [], bd_Rotational = [], bd_ReadOnly = [],
     bd_Removable = [], bd_PathByID = [], bd_Serial = [], bd_PartLabel = []\<rparr>"

record disk_location =
  dl_DiskNamePath :: string
  dl_UserProvidedPath :: string
  dl_DiskID :: string
  dl_BlockDevice :: block_device
  dl_ForceWipe :: bool
  dl_SymlinkPath :: string
  dl_SymlinkSource :: string

section \<open>LocalVolumeDeviceLink\<close>

datatype link_policy = PolicyUnset | PolicyNone | PolicyCurrentLinkTarget | PolicyPreferredLinkTarget

record lvdl_spec =
  ls_PersistentVolumeName :: string
  ls_NodeName :: string
  ls_Policy :: link_policy

record lvdl_status =
  lst_CurrentLinkTarget :: string
  lst_PreferredLinkTarget :: string
  lst_ValidLinkTargets :: "string list"
  lst_PersistentVolumeSymlinkPath :: string
  lst_FilesystemUUID :: string
  lst_Conditions :: "operator_condition list"

record lvdl =
  ld_meta :: obj_meta
  ld_Spec :: lvdl_spec
  ld_Status :: lvdl_status

abbreviation ld_Name :: "lvdl \<Rightarrow> string" where
  "ld_Name l \<equiv> om_Name (ld_meta l)"

abbreviation ld_targets :: "lvdl \<Rightarrow> string list" where
  "ld_targets l \<equiv> lst_ValidLinkTargets (ld_Status l)"

section \<open>PersistentVolume and StorageClass\<close>

datatype pv_phase = VolumePending | VolumeAvailable | VolumeBound | VolumeReleased | VolumeFailed

datatype reclaim_policy = ReclaimRetain | ReclaimDelete | ReclaimRecycle

datatype volume_mode = VolumeBlock | VolumeFilesystem | VolumeModeOther string

record claim_ref =
  cr_UID :: string
  cr_Namespace :: string
  cr_Name :: string

record pv =
  pv_meta :: obj_meta
  pv_LocalPath :: "string option"        \<comment> \<open>\<^verbatim>\<open>Spec.Local\<close>: nil or its path\<close>
  pv_FsType :: "string option"
  pv_StorageClassName :: string
  pv_Capacity :: int
  pv_ReclaimPolicy :: reclaim_policy
  pv_MountOptions :: "string list"
  pv_VolumeMode :: "volume_mode option"
  pv_NodeHostnames :: "string list"      \<comment> \<open>the values of the required hostname affinity\<close>
  pv_ClaimRef :: "claim_ref option"
  pv_Phase :: pv_phase

abbreviation pv_Name :: "pv \<Rightarrow> string" where
  "pv_Name p \<equiv> om_Name (pv_meta p)"

abbreviation pv_Labels :: "pv \<Rightarrow> smap" where
  "pv_Labels p \<equiv> om_Labels (pv_meta p)"

abbreviation pv_Annotations :: "pv \<Rightarrow> smap" where
  "pv_Annotations p \<equiv> om_Annotations (pv_meta p)"

record storage_class =
  sc_meta :: obj_meta
  sc_Provisioner :: string
  sc_ReclaimPolicy :: "reclaim_policy option"
  sc_BindingMode :: string
  sc_MountOptions :: "string list"
  sc_AllowedTopologies :: "string list"

abbreviation sc_Name :: "storage_class \<Rightarrow> string" where
  "sc_Name s \<equiv> om_Name (sc_meta s)"

section \<open>Node selectors\<close>

text \<open>A term is kept opaque: matching it against a node is the scheduler library's business.\<close>

record selector_term =
  st_key :: string
  st_values :: "string list"

type_synonym node_selector = "selector_term list"

record toleration =
  tol_Key :: string
  tol_Effect :: string

section \<open>DaemonSet, ConfigMap and monitoring objects\<close>

text \<open>
  The parts of a pod template the code never looks into (volumes, the rest of a container, the update
  strategy) are kept as opaque text.
\<close>

record container =
  ct_Env :: smap
  ct_Rest :: string

record pod_template =
  pt_Labels :: smap
  pt_Annotations :: smap
  pt_ServiceAccountName :: string
  pt_PriorityClassName :: string
  pt_Tolerations :: "toleration list"
  pt_Affinity :: "node_selector option"
  pt_Volumes :: string
  pt_Containers :: "container list"
  pt_HostPID :: bool

record daemonset =
  ds_meta :: obj_meta
  ds_Selector :: smap
  ds_Template :: pod_template
  ds_UpdateStrategy :: string
  ds_NumberUnavailable :: int
  ds_CurrentNumberScheduled :: int
  ds_DesiredNumberScheduled :: int
  ds_NumberReady :: int

record config_map =
  cm_meta :: obj_meta
  cm_Data :: smap

text \<open>Services, service monitors and alert rules: metadata and an opaque spec; only a Service has a cluster IP.\<close>

datatype monitor_kind = ServiceKind | ServiceMonitorKind | PrometheusRuleKind

record monitor_object =
  mo_meta :: obj_meta
  mo_ResourceVersion :: string
  mo_ClusterIP :: string
  mo_Spec :: string

section \<open>LocalVolume\<close>

datatype management_state = StateUnset | Managed | Unmanaged | Force | Removed

record storage_class_device =
  scd_StorageClassName :: string
  scd_VolumeMode :: string
  scd_FSType :: string
  scd_DevicePaths :: "string list"
  scd_ForceWipe :: bool

record generation_status =
  gs_Group :: string
  gs_Resource :: string
  gs_Namespace :: string
  gs_Name :: string
  gs_LastGeneration :: int

record lv_status =
  lvs_ObservedGeneration :: "int option"
  lvs_State :: management_state
  lvs_Conditions :: "operator_condition list"
  lvs_Generations :: "generation_status list"

record local_volume =
  lv_meta :: obj_meta
  lv_Kind :: string
  lv_APIVersion :: string
  lv_ManagementState :: management_state
  lv_LogLevel :: string
  lv_NodeSelector :: "node_selector option"
  lv_StorageClassDevices :: "storage_class_device list"
  lv_Tolerations :: "toleration list"
  lv_Status :: lv_status

abbreviation lv_Name :: "local_volume \<Rightarrow> string" where
  "lv_Name v \<equiv> om_Name (lv_meta v)"

abbreviation lv_Namespace :: "local_volume \<Rightarrow> string" where
  "lv_Namespace v \<equiv> om_Namespace (lv_meta v)"

text \<open>\<^verbatim>\<open>SetDefaults\<close> fills in the log level and the management state.\<close>

definition SetDefaults :: "local_volume \<Rightarrow> local_volume" where
  "SetDefaults local0 =
     (let local1 = (if lv_LogLevel local0 = [] then local0\<lparr>lv_LogLevel := ''Normal''\<rparr> else local0)
      in if lv_ManagementState local1 = StateUnset then local1\<lparr>lv_ManagementState := Managed\<rparr>
         else local1)"

section \<open>LocalVolumeSet\<close>

datatype mechanical_property = Rotational | NonRotational

record device_inclusion_spec =
  di_DeviceTypes :: "string list"
  di_DeviceMechanicalProperties :: "mechanical_property list"
  di_MinSize :: "int option"
  di_MaxSize :: "int option"
  di_Models :: "string list"
  di_Vendors :: "string list"

record device_exclusion_spec =
  de_DeviceNameFilter :: "string list"

record lvset_status =
  lss_Conditions :: "operator_condition list"
  lss_TotalProvisionedDeviceCount :: "int option"
  lss_ObservedGeneration :: int

record local_volume_set =
  lvset_meta :: obj_meta
  lvset_Kind :: string
  lvset_APIVersion :: string
  lvset_NodeSelector :: "node_selector option"
  lvset_StorageClassName :: string
  lvset_MaxDeviceCount :: "int option"
  lvset_VolumeMode :: string
  lvset_FSType :: string
  lvset_Tolerations :: "toleration list"
  lvset_DeviceInclusionSpec :: "device_inclusion_spec option"
  lvset_DeviceExclusionSpec :: "device_exclusion_spec option"
  lvset_Status :: lvset_status

abbreviation lvset_Name :: "local_volume_set \<Rightarrow> string" where
  "lvset_Name v \<equiv> om_Name (lvset_meta v)"

abbreviation lvset_Namespace :: "local_volume_set \<Rightarrow> string" where
  "lvset_Namespace v \<equiv> om_Namespace (lvset_meta v)"

section \<open>LocalVolumeDiscovery\<close>

datatype discovery_phase = PhaseUnset | Discovering | DiscoveryFailed

datatype device_state = DeviceAvailable | DeviceNotAvailable | DeviceUnknown

record discovered_device =
  dd_DeviceID :: string
  dd_Path :: string
  dd_Model :: string
  dd_Type :: string
  dd_Vendor :: string
  dd_Serial :: string
  dd_Size :: int
  dd_Property :: "mechanical_property option"
  dd_FSType :: string
  dd_State :: device_state

record lvd_status =
  lvds_Phase :: discovery_phase
  lvds_Conditions :: "operator_condition list"
  lvds_ObservedGeneration :: int

record local_volume_discovery =
  lvd_meta :: obj_meta
  lvd_NodeSelector :: "node_selector option"
  lvd_Tolerations :: "toleration list"
  lvd_Status :: lvd_status

record discovery_result =
  dr_meta :: obj_meta
  dr_NodeName :: string
  dr_DiscoveredTimeStamp :: string
  dr_DiscoveredDevices :: "discovered_device list"

section \<open>The API server's TLS profile\<close>

text \<open>Untyped values (\<^verbatim>\<open>interface{}\<close>) as far as they occur: nil, strings, slices and maps.\<close>

datatype json = JNull | JString string | JList "json list" | JMap "(string \<times> json) list"

record tls_spec =
  ts_Ciphers :: "string list"
  ts_MinTLSVersion :: string

record tls_profile =
  tp_Type :: string
  tp_Custom :: "tls_spec option"

record api_server_config =
  as_Labels :: smap
  as_TLSSecurityProfile :: "tls_profile option"

section \<open>Errors\<close>

text \<open>
  The constructors are the errors some caller tests for (\<^verbatim>\<open>apierrors.IsNotFound\<close>,
  \<^verbatim>\<open>errors.Is(err, os.ErrNotExist)\<close>, \<^verbatim>\<open>errors.As\<close> on the operator's own error types, the sentinel
  \<^verbatim>\<open>ErrTryAgain\<close>); \<open>Panic\<close> is a run-time panic, which ends the handler; \<open>Errorf\<close> is any other error with its text, \<open>Wrapf\<close> the \<^verbatim>\<open>%w\<close> wrapping
  behind a prefix.
\<close>

datatype error =
    NotFound string
  | AlreadyExists string
  | Conflict string
  | Gone string
  | NotExist string
  | FileExists string
  | EBUSY
  | ENOTEMPTY
  | ExitError int string
  | IDPathNotFoundError string
  | PolicyNotPreferredError string string string "lvdl option"
  | ErrTryAgain
  | Panic string
  | Errorf string
  | Wrapf string error

text \<open>The wrapped chain an \<^verbatim>\<open>errors.As\<close> or \<^verbatim>\<open>errors.Is\<close> walks.\<close>

fun err_root :: "error \<Rightarrow> error" where
  "err_root (Wrapf p e) = err_root e"
| "err_root e = e"

definition IsNotFound :: "error \<Rightarrow> bool" where
  "IsNotFound e \<longleftrightarrow> (case err_root e of NotFound _ \<Rightarrow> True | _ \<Rightarrow> False)"

definition IsAlreadyExists :: "error \<Rightarrow> bool" where
  "IsAlreadyExists e \<longleftrightarrow> (case err_root e of AlreadyExists _ \<Rightarrow> True | _ \<Rightarrow> False)"

definition IsConflict :: "error \<Rightarrow> bool" where
  "IsConflict e \<longleftrightarrow> (case err_root e of Conflict _ \<Rightarrow> True | _ \<Rightarrow> False)"

definition IsGone :: "error \<Rightarrow> bool" where
  "IsGone e \<longleftrightarrow> (case err_root e of Gone _ \<Rightarrow> True | _ \<Rightarrow> False)"

definition as_IDPathNotFound :: "error \<Rightarrow> bool" where
  "as_IDPathNotFound e \<longleftrightarrow> (case err_root e of IDPathNotFoundError _ \<Rightarrow> True | _ \<Rightarrow> False)"

definition is_ErrNotExist :: "error \<Rightarrow> bool" where
  "is_ErrNotExist e \<longleftrightarrow> (case err_root e of NotExist _ \<Rightarrow> True | _ \<Rightarrow> False)"

definition is_ENOTEMPTY :: "error \<Rightarrow> bool" where
  "is_ENOTEMPTY e \<longleftrightarrow> err_root e = ENOTEMPTY"

text \<open>\<^verbatim>\<open>os.IsNotExist\<close> and \<^verbatim>\<open>os.IsExist\<close> do not unwrap.\<close>

definition os_IsNotExist :: "error \<Rightarrow> bool" where
  "os_IsNotExist e \<longleftrightarrow> (case e of NotExist _ \<Rightarrow> True | _ \<Rightarrow> False)"

definition os_IsExist :: "error \<Rightarrow> bool" where
  "os_IsExist e \<longleftrightarrow> (case e of FileExists _ \<Rightarrow> True | _ \<Rightarrow> False)"

text \<open>The text \<^verbatim>\<open>Error()\<close> gives.\<close>

fun err_text :: "error \<Rightarrow> string" where
  "err_text (NotFound s) = s"
| "err_text (AlreadyExists s) = s"
| "err_text (Conflict s) = s"
| "err_text (Gone s) = s"
| "err_text (NotExist s) = s"
| "err_text (FileExists s) = s"
| "err_text EBUSY = ''device or resource busy''"
| "err_text ENOTEMPTY = ''directory not empty''"
| "err_text (ExitError n s) = s"
| "err_text (IDPathNotFoundError d) =
     ''IDPathNotFoundError: a symlink to  '' @ [quote] @ d @ [quote] @ '' was not found in ''
       @ [quote] @ ''/dev/disk/by-id/'' @ [quote]"
| "err_text (PolicyNotPreferredError src d p l) =
     ''found stale symlink for '' @ src @ '' in '' @ d @ '' but policy is not PreferredLinkTarget''"
| "err_text ErrTryAgain = ''retry provisioning''"
| "err_text (Panic s) = ''panic: '' @ s"
| "err_text (Errorf s) = s"
| "err_text (Wrapf p e) = p @ err_text e"

type_synonym 'a result = "error + 'a"

lemmas error_kind_defs =
  IsNotFound_def IsAlreadyExists_def IsConflict_def IsGone_def as_IDPathNotFound_def is_ErrNotExist_def
  is_ENOTEMPTY_def os_IsNotExist_def os_IsExist_def

lemma err_root_idem [simp]: "err_root (err_root e) = err_root e"
  by (induction e) auto

lemma err_root_not_Wrapf [simp]: "err_root e \<noteq> Wrapf p e'"
  by (induction e) auto

text \<open>Wrapping an error keeps its kind.\<close>

lemma kind_Wrapf [simp]:
  "IsNotFound (Wrapf p e) = IsNotFound e"
  "IsAlreadyExists (Wrapf p e) = IsAlreadyExists e"
  "IsConflict (Wrapf p e) = IsConflict e"
  "as_IDPathNotFound (Wrapf p e) = as_IDPathNotFound e"
  "is_ErrNotExist (Wrapf p e) = is_ErrNotExist e"
  by (simp_all add: error_kind_defs)

end
