(* ===== verification/DiskUtil.thy ===== *)
theory DiskUtil
  imports ApiTypes
begin

text \<open>
  Model of \<^verbatim>\<open>pkg/internal/diskutil.go\<close> and \<^verbatim>\<open>disk_location.go\<close>: the block device accessors, the
  choice of a stable \<^verbatim>\<open>/dev/disk/by-id\<close> name, the parsers of lsblk and blkid output, the
  exclusive lock and the search for orphaned symlinks. The functions the source keeps in
  replaceable package variables (glob, symlink evaluation, command execution, the mount table) and
  \<^verbatim>\<open>unix.Open\<close> are the fields of a record \<open>host\<close>, one snapshot of the node.
\<close>

section \<open>The host\<close>

record host =
  FilePathGlob :: "string \<Rightarrow> string list result"
  FilePathEvalSymLinks :: "string \<Rightarrow> string result"
  Readlink :: "string \<Rightarrow> string result"
  mountFile :: "string result"
  CmdExecutor :: "string \<Rightarrow> string list \<Rightarrow> string \<times> error option"
  OpenExclusive :: "string \<Rightarrow> int result"

definition StateSuspended :: string where "StateSuspended = ''suspended''"
definition DiskByIDDir :: string where "DiskByIDDir = ''/dev/disk/by-id/''"

definition preferredPatterns :: "string list" where
  "preferredPatterns =
     [''wwn'', ''scsi-3'', ''scsi-2'', ''scsi-8'', ''scsi-S'', ''scsi-1'', ''scsi-0'', ''scsi'',
      ''nvme-eui'', ''nvme'', '''']"

section \<open>Block device accessors\<close>

definition parseBitBool :: "string \<Rightarrow> bool result" where
  "parseBitBool s =
     (if s = ''0'' \<or> s = '''' then Inr False
      else if s = ''1'' then Inr True
      else Inl (Errorf (''lsblk bool value not 0 or 1: '' @ [quote] @ s @ [quote])))"

definition wrap_err :: "string \<Rightarrow> 'a result \<Rightarrow> 'a result" where
  "wrap_err p r = (case r of Inl e \<Rightarrow> Inl (Wrapf p e) | Inr v \<Rightarrow> Inr v)"

definition GetRotational :: "block_device \<Rightarrow> bool result" where
  "GetRotational b = wrap_err ''failed to parse rotational property: '' (parseBitBool (bd_Rotational b))"

definition GetReadOnly :: "block_device \<Rightarrow> bool result" where
  "GetReadOnly b = wrap_err ''failed to parse readOnly property: '' (parseBitBool (bd_ReadOnly b))"

definition GetRemovable :: "block_device \<Rightarrow> bool result" where
  "GetRemovable b = wrap_err ''failed to parse removable property: '' (parseBitBool (bd_Removable b))"

definition GetSize :: "block_device \<Rightarrow> int result" where
  "GetSize b =
     (case parse_int64 (bd_Size b) of
        None \<Rightarrow> Inl (Errorf ''failed to parse size property as int64'')
      | Some v \<Rightarrow> Inr v)"

definition HasChildren :: "host \<Rightarrow> block_device \<Rightarrow> bool result" where
  "HasChildren h b =
     (case FilePathGlob h (path_join [''/sys/block/'', bd_KName b, ''/*'']) of
        Inl e \<Rightarrow> Inl (Wrapf ''failed to check if device has partitions: '' e)
      | Inr paths \<Rightarrow> Inr (list_ex (\<lambda>p. has_prefix (base p) (bd_KName b)) paths))"

text \<open>The loop over the lines of the mount table: the mount point of the first match.\<close>

definition mountLineMatches :: "string \<Rightarrow> string \<Rightarrow> bool" where
  "mountLineMatches kname mountInfo =
     (contains_str mountInfo kname \<and>
      (let l = split_char (CHR '' '') mountInfo
       in 10 \<le> length l \<and> (l ! 3 = ''/'' @ kname \<or> l ! 9 = ''/dev/'' @ kname)))"

definition HasBindMounts :: "host \<Rightarrow> block_device \<Rightarrow> (bool \<times> string) result" where
  "HasBindMounts h b =
     (case mountFile h of
        Inl e \<Rightarrow> Inl (Errorf (''failed to read file /proc/1/mountinfo: '' @ err_text e))
      | Inr mountString \<Rightarrow>
          (case List.find (mountLineMatches (bd_KName b)) (split_char newline mountString) of
             None \<Rightarrow> Inr (False, '''')
           | Some l \<Rightarrow> Inr (True, split_char (CHR '' '') l ! 4)))"

text \<open>\<^verbatim>\<open>GetDevPath\<close> returns a path beside its error.\<close>

definition GetDevPath :: "block_device \<Rightarrow> string \<times> error option" where
  "GetDevPath b =
     (path_join [''/dev/'', bd_KName b],
      if bd_KName b = '''' then Some (Errorf ''empty KNAME'') else None)"

section \<open>The preferred by-id symlink\<close>

definition PathEvalsToDiskLabel :: "host \<Rightarrow> string \<Rightarrow> string \<Rightarrow> bool result" where
  "PathEvalsToDiskLabel h path devName =
     (case FilePathEvalSymLinks h path of
        Inl e \<Rightarrow> if os_IsNotExist e then Inr False
                 else Inl (Wrapf (''could not eval symLink '' @ [quote, quote] @ '':'') e)
      | Inr devPath \<Rightarrow> Inr (base devPath = devName))"

text \<open>The first path that resolves to the device; an error on the way ends the loop.\<close>

fun firstMatch :: "host \<Rightarrow> string \<Rightarrow> string list \<Rightarrow> string result" where
  "firstMatch h kname [] = Inr ''''"
| "firstMatch h kname (path # paths) =
     (case PathEvalsToDiskLabel h path kname of
        Inl e \<Rightarrow> Inl e
      | Inr isMatch \<Rightarrow> if isMatch then Inr path else firstMatch h kname paths)"

text \<open>The bucket of a symlink: the first preferred pattern that is a prefix of its name.\<close>

fun patternIndex :: "string list \<Rightarrow> string \<Rightarrow> nat" where
  "patternIndex [] name = 0"
| "patternIndex (p # ps) name = (if has_prefix name p then 0 else Suc (patternIndex ps name))"

definition bucket :: "string \<Rightarrow> nat" where
  "bucket path = patternIndex preferredPatterns (base path)"

definition sortedSymlinks :: "string list \<Rightarrow> string list list" where
  "sortedSymlinks allDisks =
     map (\<lambda>i. filter (\<lambda>path. bucket path = i) allDisks) [0..<length preferredPatterns]"

definition findDeviceInSortedSymlink :: "host \<Rightarrow> block_device \<Rightarrow> string list \<Rightarrow> string result" where
  "findDeviceInSortedSymlink h b allDisks = firstMatch h (bd_KName b) (concat (sortedSymlinks allDisks))"

text \<open>
  \<^verbatim>\<open>GetPathByID\<close> may return a path beside an error and caches the path it found in the
  receiver: path, error, updated device.
\<close>

definition GetPathByID :: "host \<Rightarrow> block_device \<Rightarrow> string \<times> error option \<times> block_device" where
  "GetPathByID h b =
     (if bd_PathByID b \<noteq> [] \<and> has_prefix (bd_PathByID b) DiskByIDDir
         \<and> PathEvalsToDiskLabel h (bd_PathByID b) (bd_KName b) = Inr True
      then (bd_PathByID b, None, b)
      else
        let b1 = b\<lparr>bd_PathByID := ''''\<rparr> in
        case FilePathGlob h (path_join [DiskByIDDir, ''/*'']) of
          Inl e \<Rightarrow> ('''', Some (Errorf (''error listing files in '' @ DiskByIDDir @ '': '' @ err_text e)), b1)
        | Inr allDisks \<Rightarrow>
            (case findDeviceInSortedSymlink h b1 allDisks of
               Inl e \<Rightarrow> ('''', Some e, b1)
             | Inr diskPathID \<Rightarrow>
                 if diskPathID \<noteq> '''' then (diskPathID, None, b1\<lparr>bd_PathByID := diskPathID\<rparr>)
                 else (case GetDevPath b1 of
                         (devPath, Some e) \<Rightarrow> ('''', Some e, b1)
                       | (devPath, None) \<Rightarrow> (devPath, Some (IDPathNotFoundError (bd_KName b1)), b1))))"

definition GetUncachedPathID :: "host \<Rightarrow> block_device \<Rightarrow> string result \<times> block_device" where
  "GetUncachedPathID h b =
     (case FilePathGlob h (path_join [DiskByIDDir, ''/*'']) of
        Inl e \<Rightarrow> (Inl (Errorf (''error listing files in '' @ DiskByIDDir @ '': '' @ err_text e)), b)
      | Inr allDisks \<Rightarrow>
          (case findDeviceInSortedSymlink h b allDisks of
             Inl e \<Rightarrow> (Inl e, b)
           | Inr diskPathID \<Rightarrow>
               if diskPathID \<noteq> '''' then (Inr diskPathID, b\<lparr>bd_PathByID := diskPathID\<rparr>)
               else (Inl (IDPathNotFoundError (bd_KName b)), b)))"

text \<open>All matching symlinks; the set is returned sorted and without duplicates.\<close>

fun matchingPaths :: "host \<Rightarrow> string \<Rightarrow> string list \<Rightarrow> string list result" where
  "matchingPaths h kname [] = Inr []"
| "matchingPaths h kname (path # paths) =
     (case PathEvalsToDiskLabel h path kname of
        Inl e \<Rightarrow> Inl e
      | Inr isMatch \<Rightarrow>
          (case matchingPaths h kname paths of
             Inl e \<Rightarrow> Inl e
           | Inr ms \<Rightarrow> Inr (if isMatch then path # ms else ms)))"

definition GetValidByIDSymlinks :: "host \<Rightarrow> block_device \<Rightarrow> string list result" where
  "GetValidByIDSymlinks h b =
     (case FilePathGlob h (DiskByIDDir @ ''*'') of
        Inl e \<Rightarrow> Inl e
      | Inr paths \<Rightarrow>
          (case matchingPaths h (bd_KName b) paths of
             Inl e \<Rightarrow> Inl e
           | Inr ms \<Rightarrow> Inr (sort (remdups ms))))"

section \<open>Commands and their output\<close>

definition executeCmdWithCombinedOutput :: "host \<Rightarrow> string \<Rightarrow> string list \<Rightarrow> string \<times> error option" where
  "executeCmdWithCombinedOutput h cmd args =
     (case CmdExecutor h cmd args of
        (output, Some e) \<Rightarrow> (output, Some e)
      | (output, None) \<Rightarrow> (trim_space output, None))"

definition exit_status_2 :: "error \<Rightarrow> bool" where
  "exit_status_2 e = (case e of ExitError n s \<Rightarrow> n = 2 | _ \<Rightarrow> False)"

definition GetFilesystemUUID :: "host \<Rightarrow> block_device \<Rightarrow> string result" where
  "GetFilesystemUUID h b =
     (case GetDevPath b of
        (_, Some e) \<Rightarrow> Inl (Wrapf (''failed to get /dev path for '' @ bd_Name b @ '': '') e)
      | (devicePath, None) \<Rightarrow>
          (case executeCmdWithCombinedOutput h ''blkid'' [''-s'', ''UUID'', ''-o'', ''value'', devicePath] of
             (_, Some e) \<Rightarrow> if exit_status_2 e then Inr '''' else Inl e
           | (output, None) \<Rightarrow> Inr (trim_space output)))"

text \<open>One line of \<^verbatim>\<open>blkid -s TYPE\<close>.\<close>

definition parseBlkidLine :: "string \<Rightarrow> smap \<Rightarrow> smap" where
  "parseBlkidLine l m =
     (if l = [] then m
      else (case split_char (CHR '':'') l of
              [dev, rest] \<Rightarrow>
                (case split_char (CHR ''='') rest of
                   [_, v] \<Rightarrow> AList.update dev (trim_set [quote] (trim_space v)) m
                 | _ \<Rightarrow> m)
            | _ \<Rightarrow> m))"

definition GetDeviceFSMap :: "host \<Rightarrow> string list \<Rightarrow> smap result" where
  "GetDeviceFSMap h devices =
     (case executeCmdWithCombinedOutput h ''blkid'' ([''-s'', ''TYPE''] @ devices) of
        (_, Some e) \<Rightarrow> if exit_status_2 e then Inr [] else Inl e
      | (output, None) \<Rightarrow> Inr (fold parseBlkidLine (split_char newline output) []))"

text \<open>One row of \<^verbatim>\<open>lsblk --pairs\<close>: the key-value pairs, or \<open>None\<close> when no name is given.\<close>

definition parsePair :: "string \<Rightarrow> smap \<Rightarrow> smap" where
  "parsePair keyValue m =
     (case split_char (CHR ''='') keyValue of
        [k, v] \<Rightarrow> AList.update (to_lower k) (trim_space (remove_char quote v)) m
      | _ \<Rightarrow> m)"

definition parseLSBLKRow :: "string \<Rightarrow> smap \<Rightarrow> smap option" where
  "parseLSBLKRow row deviceFSMap =
     (let outputMap = fold parsePair (split_pair quote (CHR '' '') row) []
      in case map_of outputMap ''name'' of
           None \<Rightarrow> None
         | Some name \<Rightarrow>
             if trim_set [CHR '' ''] name = [] then None
             else (case map_of deviceFSMap (''/dev/'' @ name) of
                     Some fs \<Rightarrow> Some (AList.update ''fsType'' fs outputMap)
                   | None \<Rightarrow> Some outputMap))"

text \<open>
  The row map goes through JSON into a \<^verbatim>\<open>BlockDevice\<close>. Object keys match the field tags without
  regard to case, in the sorted order in which they were written; a nil map is written as
  \<^verbatim>\<open>null\<close>, which leaves the zero value of the element.
\<close>

definition json_field :: "smap \<Rightarrow> string \<Rightarrow> string" where
  "json_field m k =
     (case map_of m (to_lower k) of
        Some v \<Rightarrow> v
      | None \<Rightarrow> (case map_of m k of Some v \<Rightarrow> v | None \<Rightarrow> ''''))"

definition rowDevice :: "smap option \<Rightarrow> block_device" where
  "rowDevice r =
     (case r of
        None \<Rightarrow> empty_block_device
      | Some m \<Rightarrow>
          \<lparr>bd_Name = json_field m ''name'', bd_KName = json_field m ''kname'',
           bd_Type = json_field m ''type'', bd_Model = json_field m ''model'',
           bd_Vendor = json_field m ''vendor'', bd_State = json_field m ''state'',
           bd_FSType = json_field m ''fsType'', bd_Size = json_field m ''size'',
           bd_Rotational = json_field m ''rota'', bd_ReadOnly = json_field m ''ro'',
           bd_Removable = json_field m ''rm'', bd_PathByID = json_field m ''pathByID'',
           bd_Serial = json_field m ''serial'', bd_PartLabel = json_field m ''partLabel''\<rparr>)"

text \<open>The rows are read up to the first blank one.\<close>

definition lsblkRows :: "string list \<Rightarrow> string list" where
  "lsblkRows rowList = takeWhile (\<lambda>row. trim_set [CHR '' ''] row \<noteq> []) rowList"

definition ListBlockDevices :: "host \<Rightarrow> string list \<Rightarrow> (block_device list \<times> string list) \<times> error option" where
  "ListBlockDevices h devices =
     (case GetDeviceFSMap h devices of
        Inl e \<Rightarrow> (([], []), Some (Wrapf ''failed to list block devices: '' e))
      | Inr deviceFSMap \<Rightarrow>
          (case executeCmdWithCombinedOutput h ''lsblk''
                  [''--pairs'', ''-b'', ''-o'',
                   ''NAME,ROTA,TYPE,SIZE,MODEL,VENDOR,RO,RM,STATE,KNAME,SERIAL,PARTLABEL''] of
             (output, Some e) \<Rightarrow> (([], [output]), Some e)
           | (output, None) \<Rightarrow>
               let rowList = split_char newline output;
                   rows = lsblkRows rowList;
                   outputMapList = map (\<lambda>row. parseLSBLKRow row deviceFSMap) rows;
                   badRows = filter (\<lambda>row. parseLSBLKRow row deviceFSMap = None) rows
               in if length badRows = length rowList
                  then (([], badRows), Some (Errorf ''could not parse any of the lsblk rows''))
                  else ((map rowDevice outputMapList, badRows), None)))"

section \<open>The PV creation lock\<close>

record ExclusiveFileLock =
  lk_Path :: string
  lk_locked :: bool
  lk_fd :: int

definition Lock :: "host \<Rightarrow> ExclusiveFileLock \<Rightarrow> (bool \<times> error option) \<times> ExclusiveFileLock" where
  "Lock h e =
     (case OpenExclusive h (lk_Path e) of
        Inl err \<Rightarrow> if err = EBUSY then ((False, Some err), e\<lparr>lk_fd := -1, lk_locked := False\<rparr>)
                    else ((False, Some err), e\<lparr>lk_fd := -1\<rparr>)
      | Inr fd \<Rightarrow> ((True, None), e\<lparr>lk_fd := fd, lk_locked := True\<rparr>))"

text \<open>\<^verbatim>\<open>Unlock\<close>, with the outcome of closing the descriptor.\<close>

definition Unlock :: "error option \<Rightarrow> ExclusiveFileLock \<Rightarrow> error option \<times> ExclusiveFileLock" where
  "Unlock close_err e =
     (if lk_locked e then
        (case close_err of
           None \<Rightarrow> (None, e\<lparr>lk_locked := False\<rparr>)
         | Some err \<Rightarrow> (Some (Errorf (''failed to unlock fd: '' @ err_text err)), e))
      else (None, e))"

definition GetMatchingSymlinksInDirs :: "host \<Rightarrow> string \<Rightarrow> string list \<Rightarrow> string list result" where
  "GetMatchingSymlinksInDirs h path dirs =
     (case executeCmdWithCombinedOutput h ''find'' ([''-L''] @ dirs @ [''-samefile'', path]) of
        (_, Some e) \<Rightarrow> Inl (Errorf (''failed to get symlinks in directories: '' @ err_text e))
      | (output, None) \<Rightarrow>
          let out = trim_set [CHR '' '', newline] output
          in if out = [] then Inr []
             else Inr (filter (\<lambda>l. l \<noteq> []) (map (trim_set [CHR '' '']) (split_char newline out))))"

definition GetPVCreationLock ::
  "host \<Rightarrow> string \<Rightarrow> string list \<Rightarrow> ExclusiveFileLock \<times> bool \<times> string list \<times> error option" where
  "GetPVCreationLock h device symlinkDirs =
     (case Lock h \<lparr>lk_Path = device, lk_locked = False, lk_fd = 0\<rparr> of
        ((locked, err), lock) \<Rightarrow>
          if err \<noteq> None \<and> err \<noteq> Some EBUSY then (lock, locked, [], err)
          else (case GetMatchingSymlinksInDirs h device symlinkDirs of
                  Inl symErr \<Rightarrow> (lock, locked, [], Some symErr)
                | Inr existingLinkPaths \<Rightarrow>
                    if existingLinkPaths = [] \<and> \<not> locked then (lock, locked, existingLinkPaths, err)
                    else (lock, locked, existingLinkPaths, None)))"

section \<open>Orphaned symlinks\<close>

text \<open>Whether some device of the list is the target of the path; an error ends the search.\<close>

fun anyDeviceMatches :: "host \<Rightarrow> string \<Rightarrow> block_device list \<Rightarrow> bool result" where
  "anyDeviceMatches h path [] = Inr False"
| "anyDeviceMatches h path (device # devices) =
     (case PathEvalsToDiskLabel h path (bd_KName device) of
        Inl e \<Rightarrow> Inl e
      | Inr isMatch \<Rightarrow> if isMatch then Inr True else anyDeviceMatches h path devices)"

fun orphanLoop :: "host \<Rightarrow> block_device list \<Rightarrow> string list \<Rightarrow> string list \<Rightarrow> string list \<times> error option" where
  "orphanLoop h validDevices acc [] = (acc, None)"
| "orphanLoop h validDevices acc (path # paths) =
     (case anyDeviceMatches h path validDevices of
        Inl e \<Rightarrow> (acc, Some e)
      | Inr symlinkFound \<Rightarrow>
          orphanLoop h validDevices (if symlinkFound then acc else acc @ [path]) paths)"

definition GetOrphanedSymlinks :: "host \<Rightarrow> string \<Rightarrow> block_device list \<Rightarrow> string list \<times> error option" where
  "GetOrphanedSymlinks h symlinkDir validDevices =
     (case FilePathGlob h (path_join [symlinkDir, ''/*'']) of
        Inl e \<Rightarrow> ([], Some e)
      | Inr paths \<Rightarrow> orphanLoop h validDevices [] paths)"

section \<open>Choice of the stable symlink\<close>

lemma PathEvals_Inr_True_iff:
  "PathEvalsToDiskLabel h p k = Inr True \<longleftrightarrow> (\<exists>d. FilePathEvalSymLinks h p = Inr d \<and> base d = k)"
  by (auto simp: PathEvalsToDiskLabel_def split: sum.splits if_splits)

lemma firstMatch_found:
  "firstMatch h k ps = Inr p \<Longrightarrow> p \<noteq> '''' \<Longrightarrow>
   \<exists>pre post. ps = pre @ p # post \<and> PathEvalsToDiskLabel h p k = Inr True
     \<and> (\<forall>q \<in> set pre. PathEvalsToDiskLabel h q k = Inr False)"
proof (induction ps)
  case (Cons q ps)
  show ?case
  proof (cases "PathEvalsToDiskLabel h q k = Inr True")
    case True
    with Cons.prems show ?thesis by (intro exI [of _ "[]"] exI [of _ ps]) auto
  next
    case False
    with Cons.prems have q: "PathEvalsToDiskLabel h q k = Inr False" and "firstMatch h k ps = Inr p"
      by (auto split: sum.splits if_splits)
    with Cons obtain pre post where "ps = pre @ p # post" "PathEvalsToDiskLabel h p k = Inr True"
      "\<forall>q \<in> set pre. PathEvalsToDiskLabel h q k = Inr False" by auto
    with q show ?thesis by (intro exI [of _ "q # pre"] exI [of _ post]) auto
  qed
qed simp

lemma firstMatch_none:
  "firstMatch h k ps = Inr '''' \<Longrightarrow> '''' \<notin> set ps \<Longrightarrow>
   (\<forall>q \<in> set ps. PathEvalsToDiskLabel h q k = Inr False)"
  by (induction ps) (auto split: sum.splits if_splits)

lemma bucket_less: "bucket p < length preferredPatterns"
  by (simp add: bucket_def preferredPatterns_def)

lemma set_sortedSymlinks: "set (concat (sortedSymlinks ps)) = set ps"
  using bucket_less by (auto simp: sortedSymlinks_def)

lemma sorted_concat_buckets:
  "sorted (map f (concat (map (\<lambda>i. filter (\<lambda>p. f p = i) ps) [0..<n])))"
proof (induction n)
  case (Suc n)
  have "\<forall>x \<in> set (concat (map (\<lambda>i. filter (\<lambda>p. f p = i) ps) [0..<n])). f x \<le> n"
    by auto
  moreover have "sorted (map f (filter (\<lambda>p. f p = n) ps))"
    by (induction ps) auto
  ultimately show ?case using Suc by (auto simp: sorted_append)
qed simp

lemma sorted_sortedSymlinks: "sorted (map bucket (concat (sortedSymlinks ps)))"
  by (simp add: sortedSymlinks_def sorted_concat_buckets)

lemma findDevice_preferred:
  assumes "findDeviceInSortedSymlink h b ps = Inr p" and "p \<noteq> ''''"
  shows "p \<in> set ps" and "PathEvalsToDiskLabel h p (bd_KName b) = Inr True"
    and "q \<in> set ps \<Longrightarrow> PathEvalsToDiskLabel h q (bd_KName b) = Inr True \<Longrightarrow> bucket p \<le> bucket q"
proof -
  let ?cs = "concat (sortedSymlinks ps)"
  obtain pre post where cs: "?cs = pre @ p # post"
    and p: "PathEvalsToDiskLabel h p (bd_KName b) = Inr True"
    and pre: "\<forall>q \<in> set pre. PathEvalsToDiskLabel h q (bd_KName b) = Inr False"
    using firstMatch_found assms unfolding findDeviceInSortedSymlink_def by blast
  show "p \<in> set ps" using cs set_sortedSymlinks [of ps] by auto
  show "PathEvalsToDiskLabel h p (bd_KName b) = Inr True" by (rule p)
  have "\<forall>q \<in> set post. bucket p \<le> bucket q"
    using sorted_sortedSymlinks [of ps] unfolding cs by (simp add: sorted_append)
  moreover assume "q \<in> set ps" "PathEvalsToDiskLabel h q (bd_KName b) = Inr True"
  then have "q \<in> set (p # post)" using cs set_sortedSymlinks [of ps] pre by force
  ultimately show "bucket p \<le> bucket q" by auto
qed

text \<open>
  The by-id path that \<^verbatim>\<open>GetUncachedPathID\<close> chooses for a device is one of the listed symlinks,
  resolves to the device, is remembered in the device, and no other symlink that resolves to the
  device is in a more preferred class (wwn before scsi-3 before \<dots> before nvme before the rest).
\<close>

theorem uncached_path_id_preferred:
  assumes "FilePathGlob h (path_join [DiskByIDDir, ''/*'']) = Inr allDisks"
    and "GetUncachedPathID h b = (Inr p, b')"
  shows "p \<in> set allDisks \<and> p \<noteq> ''''
    \<and> (\<exists>d. FilePathEvalSymLinks h p = Inr d \<and> base d = bd_KName b)
    \<and> b' = b\<lparr>bd_PathByID := p\<rparr>
    \<and> (\<forall>q \<in> set allDisks. (\<exists>d. FilePathEvalSymLinks h q = Inr d \<and> base d = bd_KName b)
         \<longrightarrow> bucket p \<le> bucket q)"
proof -
  have find: "findDeviceInSortedSymlink h b allDisks = Inr p" "p \<noteq> ''''" "b' = b\<lparr>bd_PathByID := p\<rparr>"
    using assms by (auto simp: GetUncachedPathID_def split: sum.splits if_splits)
  show ?thesis
    using findDevice_preferred [OF find(1,2)] find by (auto simp: PathEvals_Inr_True_iff)
qed

text \<open>A node with two names for the disk \<^verbatim>\<open>sda\<close>; the wwn name comes last in the listing.\<close>

definition demo_host :: host where
  "demo_host =
     \<lparr>FilePathGlob = (\<lambda>_. Inr [''/dev/disk/by-id/nvme-x'', ''/dev/disk/by-id/wwn-1'']),
      FilePathEvalSymLinks = (\<lambda>_. Inr ''/dev/sda''),
      Readlink = (\<lambda>_. Inr ''/dev/disk/by-id/wwn-1''),
      mountFile = Inr '''',
      CmdExecutor = (\<lambda>_ _. ('''', None)),
      OpenExclusive = (\<lambda>_. Inr 3)\<rparr>"

definition demo_device :: block_device where
  "demo_device = empty_block_device\<lparr>bd_Name := ''sda'', bd_KName := ''sda'', bd_Type := ''disk''\<rparr>"

lemma demo_uncached:
  "GetUncachedPathID demo_host demo_device =
     (Inr ''/dev/disk/by-id/wwn-1'', demo_device\<lparr>bd_PathByID := ''/dev/disk/by-id/wwn-1''\<rparr>)"
  by code_simp

theorem uncached_path_id_preferred_witness:
  "bucket ''/dev/disk/by-id/wwn-1'' \<le> bucket ''/dev/disk/by-id/nvme-x''
   \<and> GetUncachedPathID demo_host demo_device =
       (Inr ''/dev/disk/by-id/wwn-1'', demo_device\<lparr>bd_PathByID := ''/dev/disk/by-id/wwn-1''\<rparr>)"
proof -
  have g: "FilePathGlob demo_host (path_join [DiskByIDDir, ''/*'']) =
      Inr [''/dev/disk/by-id/nvme-x'', ''/dev/disk/by-id/wwn-1'']"
    by (simp add: demo_host_def)
  have e: "FilePathEvalSymLinks demo_host ''/dev/disk/by-id/nvme-x'' = Inr ''/dev/sda''"
    by (simp add: demo_host_def)
  have b: "base ''/dev/sda'' = bd_KName demo_device"
    by code_simp
  show ?thesis
    using uncached_path_id_preferred [OF g demo_uncached] e b demo_uncached by auto
qed

lemma GetPathByID_ok:
  assumes "GetPathByID h b = (p, None, b')"
  shows "(\<exists>d. FilePathEvalSymLinks h p = Inr d \<and> base d = bd_KName b) \<and> p \<noteq> []
    \<and> b' = b\<lparr>bd_PathByID := p\<rparr>"
proof (cases "bd_PathByID b \<noteq> [] \<and> has_prefix (bd_PathByID b) DiskByIDDir
         \<and> PathEvalsToDiskLabel h (bd_PathByID b) (bd_KName b) = Inr True")
  case True
  with assms show ?thesis by (auto simp: GetPathByID_def PathEvals_Inr_True_iff)
next
  case False
  with assms obtain ps where
    f: "findDeviceInSortedSymlink h (b\<lparr>bd_PathByID := ''''\<rparr>) ps = Inr p" "p \<noteq> ''''" "b' = b\<lparr>bd_PathByID := p\<rparr>"
    by (auto simp: GetPathByID_def Let_def split: sum.splits prod.splits option.splits if_splits)
  with findDevice_preferred(2) [OF f(1,2)] show ?thesis
    by (auto simp: PathEvals_Inr_True_iff)
qed

section \<open>Valid links, orphans and the lock\<close>

lemma matchingPaths_Inr:
  "matchingPaths h k ps = Inr ms \<Longrightarrow>
     ms = filter (\<lambda>p. PathEvalsToDiskLabel h p k = Inr True) ps"
  by (induction ps arbitrary: ms) (auto split: sum.splits if_splits)

lemma GetValidByIDSymlinks_Inr:
  assumes "GetValidByIDSymlinks h b = Inr ls"
  obtains ps where "FilePathGlob h (DiskByIDDir @ ''*'') = Inr ps"
    and "ls = sort (remdups (filter (\<lambda>p. PathEvalsToDiskLabel h p (bd_KName b) = Inr True) ps))"
  using assms matchingPaths_Inr by (fastforce simp: GetValidByIDSymlinks_def split: sum.splits)

lemma valid_links_sorted:
  "GetValidByIDSymlinks h b = Inr ls \<Longrightarrow> sorted ls \<and> distinct ls"
  by (auto elim!: GetValidByIDSymlinks_Inr)

lemma anyDeviceMatches_Inr:
  "anyDeviceMatches h p ds = Inr r \<Longrightarrow>
     r = (\<exists>d \<in> set ds. PathEvalsToDiskLabel h p (bd_KName d) = Inr True)"
  by (induction ds arbitrary: r) (auto split: sum.splits if_splits)

lemma orphanLoop_None:
  "orphanLoop h ds acc ps = (r, None) \<Longrightarrow>
     r = acc @ filter (\<lambda>p. \<not> (\<exists>d \<in> set ds. PathEvalsToDiskLabel h p (bd_KName d) = Inr True)) ps"
proof (induction ps arbitrary: acc)
  case (Cons p ps)
  then obtain f where f: "anyDeviceMatches h p ds = Inr f"
    "orphanLoop h ds (if f then acc else acc @ [p]) ps = (r, None)"
    by (auto split: sum.splits)
  show ?case
    using Cons.IH [OF f(2)] anyDeviceMatches_Inr [OF f(1)] by auto
qed simp

text \<open>
  When it reports no error, \<^verbatim>\<open>GetOrphanedSymlinks\<close> returns exactly the entries of the storage
  class directory, in listing order, that resolve to none of the devices still selected by the spec.
\<close>

theorem orphaned_symlinks_exact:
  assumes "FilePathGlob h (path_join [symlinkDir, ''/*'']) = Inr paths"
    and "GetOrphanedSymlinks h symlinkDir validDevices = (orphans, None)"
  shows "orphans = filter (\<lambda>p. \<not> (\<exists>d \<in> set validDevices. \<exists>t.
            FilePathEvalSymLinks h p = Inr t \<and> base t = bd_KName d)) paths"
  using assms orphanLoop_None [of h validDevices "[]" paths orphans]
  by (simp add: GetOrphanedSymlinks_def PathEvals_Inr_True_iff)

theorem orphaned_symlinks_exact_witness:
  "GetOrphanedSymlinks demo_host ''/mnt/local-storage/sc'' [] =
     ([''/dev/disk/by-id/nvme-x'', ''/dev/disk/by-id/wwn-1''], None)
   \<and> [''/dev/disk/by-id/nvme-x'', ''/dev/disk/by-id/wwn-1''] =
      filter (\<lambda>p. \<not> (\<exists>d \<in> set ([] :: block_device list). \<exists>t.
            FilePathEvalSymLinks demo_host p = Inr t \<and> base t = bd_KName d))
        [''/dev/disk/by-id/nvme-x'', ''/dev/disk/by-id/wwn-1'']"
proof -
  have g: "FilePathGlob demo_host (path_join [''/mnt/local-storage/sc'', ''/*'']) =
      Inr [''/dev/disk/by-id/nvme-x'', ''/dev/disk/by-id/wwn-1'']"
    by (simp add: demo_host_def)
  have o: "GetOrphanedSymlinks demo_host ''/mnt/local-storage/sc'' [] =
     ([''/dev/disk/by-id/nvme-x'', ''/dev/disk/by-id/wwn-1''], None)"
    by code_simp
  show ?thesis using orphaned_symlinks_exact [OF g o] o by simp
qed

text \<open>
  C31: \<^verbatim>\<open>GetPVCreationLock\<close> never lets a caller believe the device is free when it is not: if it
  reports no error and no existing symlink then the device was opened exclusively and the returned
  lock is held, and whenever the lock is reported as taken, \<^verbatim>\<open>Unlock\<close> releases it.
\<close>

theorem pv_creation_lock_safe:
  assumes "GetPVCreationLock h device dirs = (lock, locked, links, err)"
  shows "(links = [] \<and> err = None \<longrightarrow> locked)
    \<and> lk_locked lock = locked
    \<and> (locked \<longleftrightarrow> (\<exists>fd. OpenExclusive h device = Inr fd \<and> lk_fd lock = fd))
    \<and> lk_locked (snd (Unlock None lock)) = False"
  using assms
  by (auto simp: GetPVCreationLock_def Lock_def Unlock_def split: sum.splits if_splits)

theorem pv_creation_lock_safe_witness:
  "\<exists>lock. GetPVCreationLock demo_host ''/dev/sda'' [''/mnt/local-storage''] = (lock, True, [], None)
     \<and> lk_fd lock = 3"
proof -
  have e: "GetPVCreationLock demo_host ''/dev/sda'' [''/mnt/local-storage''] =
      (\<lparr>lk_Path = ''/dev/sda'', lk_locked = True, lk_fd = 3\<rparr>, True, [], None)"
    by code_simp
  show ?thesis using pv_creation_lock_safe [OF e] e by auto
qed

end
