(* ===== verification/LinkCache.thy ===== *)
theory LinkCache
  imports DiskUtil
begin

text \<open>
  Model of \<^verbatim>\<open>pkg/common/pv_link_cache.go\<close>: the in-memory index from a \<^verbatim>\<open>/dev/disk/by-id\<close> path to the
  LocalVolumeDeviceLink objects that list it as a valid target. The reconcilers use it to find the
  PV of a device whose symlink has been lost. A Go map is an association list with distinct keys; the
  loops over maps only test and remove entries one at a time, so their order does not matter. Each
  operation runs under the mutex and is one atomic step; the informer's event handlers and the
  write-through after a status update are sequences of these steps.
\<close>

type_synonym device_info = "(string \<times> lvdl) list"  \<comment> \<open>\<^verbatim>\<open>CurrentBlockDeviceInfo.lvdls\<close>\<close>

record link_cache =
  lc_localNodeName :: string
  lc_synced :: bool
  lc_localDeviceInfos :: "(string \<times> device_info) list"

definition NewLocalVolumeDeviceLinkCache :: "string \<Rightarrow> link_cache" where
  "NewLocalVolumeDeviceLinkCache localNodeName =
     \<lparr>lc_localNodeName = localNodeName, lc_synced = False, lc_localDeviceInfos = []\<rparr>"

definition IsSynced :: "link_cache \<Rightarrow> bool" where
  "IsSynced l = lc_synced l"

definition shouldIndexLVDL :: "link_cache \<Rightarrow> lvdl \<Rightarrow> bool" where
  "shouldIndexLVDL l d \<longleftrightarrow> ls_NodeName (ld_Spec d) = lc_localNodeName l"

text \<open>The first loop: the object leaves every entry that is not among its new targets.\<close>

definition dropEntry :: "string \<Rightarrow> string list \<Rightarrow> string \<times> device_info \<Rightarrow> (string \<times> device_info) list" where
  "dropEntry name newTargets e =
     (let (symlink, info) = e in
      if symlink \<in> set newTargets then [(symlink, info)]
      else if map_of info name = None then [(symlink, info)]
      else let info' = AList.delete name info
           in if info' = [] then [] else [(symlink, info')])"

definition dropStale :: "string \<Rightarrow> string list \<Rightarrow> (string \<times> device_info) list \<Rightarrow> (string \<times> device_info) list" where
  "dropStale name newTargets infos = concat (map (dropEntry name newTargets) infos)"

text \<open>The second loop: the object is stored under each of its targets.\<close>

definition addTarget :: "lvdl \<Rightarrow> string \<Rightarrow> (string \<times> device_info) list \<Rightarrow> (string \<times> device_info) list" where
  "addTarget d linkTarget infos =
     (let info = (case map_of infos linkTarget of None \<Rightarrow> [] | Some i \<Rightarrow> i)
      in AList.update linkTarget (AList.update (ld_Name d) d info) infos)"

definition addOrUpdateLVDL :: "lvdl \<Rightarrow> link_cache \<Rightarrow> link_cache" where
  "addOrUpdateLVDL d l =
     (if \<not> shouldIndexLVDL l d then l
      else l\<lparr>lc_localDeviceInfos :=
               fold (addTarget d) (ld_targets d)
                 (dropStale (ld_Name d) (ld_targets d) (lc_localDeviceInfos l))\<rparr>)"

definition removeTarget :: "lvdl \<Rightarrow> string \<Rightarrow> (string \<times> device_info) list \<Rightarrow> (string \<times> device_info) list" where
  "removeTarget d linkTarget infos =
     (case map_of infos linkTarget of
        None \<Rightarrow> infos
      | Some info \<Rightarrow>
          let info' = AList.delete (ld_Name d) info
          in if info' = [] then AList.delete linkTarget infos else AList.update linkTarget info' infos)"

definition removeLVDL :: "lvdl \<Rightarrow> link_cache \<Rightarrow> link_cache" where
  "removeLVDL d l =
     l\<lparr>lc_localDeviceInfos := fold (removeTarget d) (ld_targets d) (lc_localDeviceInfos l)\<rparr>"

text \<open>
  \<^verbatim>\<open>Start\<close> up to the point where it waits: the initial list of objects, or the error that ended it,
  is the parameter.
\<close>

definition Start :: "lvdl list result \<Rightarrow> link_cache \<Rightarrow> error option \<times> link_cache" where
  "Start listed l =
     (if lc_localNodeName l = '''' then
        (Some (Errorf ''LocalVolumeDeviceLink cache requires a local node name''), l)
      else case listed of
        Inl e \<Rightarrow> (Some (Wrapf ''failed to list LocalVolumeDeviceLink objects: '' e), l)
      | Inr items \<Rightarrow> (None, (fold addOrUpdateLVDL items l)\<lparr>lc_synced := True\<rparr>))"

datatype lvdl_event = AddFunc lvdl | UpdateFunc lvdl lvdl | DeleteFunc lvdl

primrec watchForEvents :: "lvdl_event \<Rightarrow> link_cache \<Rightarrow> link_cache" where
  "watchForEvents (AddFunc d) l = addOrUpdateLVDL d l"
| "watchForEvents (UpdateFunc old new) l = addOrUpdateLVDL new l"
| "watchForEvents (DeleteFunc d) l = removeLVDL d l"

text \<open>\<^verbatim>\<open>maps.Copy\<close>: the entries of the second map win.\<close>

definition maps_Copy :: "device_info \<Rightarrow> device_info \<Rightarrow> device_info" where
  "maps_Copy dst src = fold (\<lambda>(k, v). AList.update k v) src dst"

definition collectInfos :: "link_cache \<Rightarrow> string list \<Rightarrow> device_info" where
  "collectInfos l validLinkTargets =
     fold (\<lambda>linkTarget acc. case map_of (lc_localDeviceInfos l) linkTarget of
                              None \<Rightarrow> acc | Some info \<Rightarrow> maps_Copy acc info) validLinkTargets []"

definition FindLSOManagedDeviceInfo ::
  "host \<Rightarrow> link_cache \<Rightarrow> string \<Rightarrow> block_device \<Rightarrow> device_info \<times> bool \<times> error option" where
  "FindLSOManagedDeviceInfo h l symlink blockDevice =
     (case map_of (lc_localDeviceInfos l) symlink of
        Some info \<Rightarrow> (info, True, None)
      | None \<Rightarrow>
          (case GetValidByIDSymlinks h blockDevice of
             Inl e \<Rightarrow> ([], False, Some (Wrapf (''error listing valid symlinks in '' @ DiskByIDDir
                 @ '' for finding stale pvs for device '' @ bd_Name blockDevice @ '': '') e))
           | Inr validLinkTargets \<Rightarrow>
               let current = collectInfos l validLinkTargets
               in if current = [] then (current, False, None) else (current, True, None)))"

section \<open>What the index means\<close>

text \<open>Lookup of an object by target and name.\<close>

definition lookup2 :: "link_cache \<Rightarrow> string \<Rightarrow> string \<Rightarrow> lvdl option" where
  "lookup2 l t n = (case map_of (lc_localDeviceInfos l) t of None \<Rightarrow> None | Some info \<Rightarrow> map_of info n)"

text \<open>The intended content: the current objects of this node by name, seen from their targets.\<close>

type_synonym link_spec = "string \<Rightarrow> lvdl option"

definition indexed :: "link_spec \<Rightarrow> string \<Rightarrow> string \<Rightarrow> lvdl option" where
  "indexed A t n = (case A n of None \<Rightarrow> None | Some d \<Rightarrow> if t \<in> set (ld_targets d) then Some d else None)"

definition infos_ok :: "(string \<times> device_info) list \<Rightarrow> bool" where
  "infos_ok infos \<longleftrightarrow> wf_map infos \<and> (\<forall>(t, info) \<in> set infos. wf_map info \<and> info \<noteq> [])"

definition represents :: "link_cache \<Rightarrow> link_spec \<Rightarrow> bool" where
  "represents l A \<longleftrightarrow> infos_ok (lc_localDeviceInfos l)
     \<and> (\<forall>t n. lookup2 l t n = indexed A t n)
     \<and> (\<forall>n d. A n = Some d \<longrightarrow> ld_Name d = n \<and> shouldIndexLVDL l d)"

lemma represents_own: "represents l A \<Longrightarrow> A n = Some d \<Longrightarrow> ld_Name d = n \<and> shouldIndexLVDL l d"
  by (simp add: represents_def)

definition look :: "(string \<times> device_info) list \<Rightarrow> string \<Rightarrow> string \<Rightarrow> lvdl option" where
  "look infos t n = (case map_of infos t of None \<Rightarrow> None | Some info \<Rightarrow> map_of info n)"

lemma lookup2_look: "lookup2 l t n = look (lc_localDeviceInfos l) t n"
  by (simp add: lookup2_def look_def)

lemma infos_okD:
  assumes "infos_ok infos" "map_of infos t = Some info"
  shows "wf_map info" "info \<noteq> []"
  using assms map_of_SomeD by (fastforce simp: infos_ok_def)+

lemma map_of_empty_iff: "wf_map m \<Longrightarrow> (\<forall>k. map_of m k = None) \<longleftrightarrow> m = []"
  by (cases m) auto

lemma set_update_subset: "set (AList.update k v m) \<subseteq> insert (k, v) (set m)"
  by (induction m) auto

lemma update_ne_Nil [simp]: "AList.update k v m \<noteq> []"
  by (cases m) auto

lemma infos_ok_update:
  "infos_ok infos \<Longrightarrow> wf_map info \<Longrightarrow> info \<noteq> [] \<Longrightarrow> infos_ok (AList.update t info infos)"
  using set_update_subset [of t info infos] by (auto simp: infos_ok_def)

lemma infos_ok_delete: "infos_ok infos \<Longrightarrow> infos_ok (AList.delete t infos)"
  using wf_map_delete [of infos t] by (auto simp: infos_ok_def AList.delete_eq)

lemma addTarget_ok: "infos_ok infos \<Longrightarrow> infos_ok (addTarget d t infos)"
  by (auto simp: addTarget_def Let_def intro!: infos_ok_update wf_map_update
      dest: infos_okD split: option.splits simp del: update.simps)

lemma look_addTarget:
  "look (addTarget d t infos) t' n = (if t' = t \<and> n = ld_Name d then Some d else look infos t' n)"
  by (auto simp: look_def addTarget_def Let_def split: option.splits)

lemma addTargets:
  "infos_ok infos \<Longrightarrow> infos_ok (fold (addTarget d) ts infos)
   \<and> look (fold (addTarget d) ts infos) t n
       = (if t \<in> set ts \<and> n = ld_Name d then Some d else look infos t n)"
  by (induction ts arbitrary: infos) (auto simp: addTarget_ok look_addTarget)

lemma removeTarget_ok: "infos_ok infos \<Longrightarrow> infos_ok (removeTarget d t infos)"
  by (auto simp: removeTarget_def Let_def infos_ok_delete wf_map_delete
      intro!: infos_ok_update dest: infos_okD split: option.splits)

lemma look_removeTarget:
  assumes "infos_ok infos"
  shows "look (removeTarget d t infos) t' n = (if t' = t \<and> n = ld_Name d then None else look infos t' n)"
proof (cases "map_of infos t")
  case None
  then show ?thesis by (auto simp: removeTarget_def look_def)
next
  case (Some info)
  have "map_of info n = None" if "AList.delete (ld_Name d) info = []" "n \<noteq> ld_Name d" for n
    using map_of_delete [of "ld_Name d" info n] that by simp
  with Some show ?thesis by (auto simp: removeTarget_def look_def Let_def)
qed

lemma removeTargets:
  "infos_ok infos \<Longrightarrow> infos_ok (fold (removeTarget d) ts infos)
   \<and> look (fold (removeTarget d) ts infos) t n
       = (if t \<in> set ts \<and> n = ld_Name d then None else look infos t n)"
  by (induction ts arbitrary: infos) (auto simp: removeTarget_ok look_removeTarget)

text \<open>The first loop of an update.\<close>

lemma dropEntry_key: "e' \<in> set (dropEntry name ts e) \<Longrightarrow> fst e' = fst e"
  by (auto simp: dropEntry_def Let_def split: prod.splits if_splits)

lemma dropStale_Cons [simp]: "dropStale name ts (e # infos) = dropEntry name ts e @ dropStale name ts infos"
  by (simp add: dropStale_def)

lemma dropStale_keys: "t \<in> fst ` set (dropStale name ts infos) \<Longrightarrow> t \<in> fst ` set infos"
  by (induction infos) (auto dest!: dropEntry_key simp: dropStale_def)

lemma dropStale_ok: "infos_ok infos \<Longrightarrow> infos_ok (dropStale name ts infos)"
proof (induction infos)
  case (Cons e infos)
  then have ok: "infos_ok (dropStale name ts infos)" and f: "fst e \<notin> fst ` set (dropStale name ts infos)"
    and wf: "wf_map (snd e)" "snd e \<noteq> []"
    using dropStale_keys [of "fst e" name ts infos] by (auto simp: infos_ok_def wf_map_def)
  show ?case
    using ok f wf by (cases e) (auto simp: dropEntry_def Let_def infos_ok_def wf_map_def distinct_delete)
qed (simp add: dropStale_def infos_ok_def)

lemma map_of_dropStale:
  assumes "wf_map infos"
  shows "map_of (dropStale name ts infos) t =
    (case map_of infos t of
       None \<Rightarrow> None
     | Some info \<Rightarrow>
         if t \<in> set ts \<or> map_of info name = None then Some info
         else let info' = AList.delete name info
              in if info' = [] then None else Some info')"
  using assms
proof (induction infos)
  case (Cons e infos)
  obtain s info where e: "e = (s, info)" by fastforce
  with Cons.prems have wf: "wf_map infos" and fresh: "s \<notin> fst ` set infos"
    by (auto simp: wf_map_def)
  have "t = s \<Longrightarrow> map_of (dropStale name ts infos) t = None"
    using fresh dropStale_keys [of s name ts infos] by (auto simp: map_of_eq_None_iff)
  moreover have "t \<noteq> s \<Longrightarrow> map_of (dropEntry name ts e) t = None"
    by (auto simp: e dropEntry_def Let_def)
  ultimately show ?case
    using Cons.IH [OF wf] fresh by (auto simp: e dropEntry_def Let_def map_add_def split: option.splits)
qed (simp add: dropStale_def)

lemma look_dropStale:
  assumes "infos_ok infos"
  shows "look (dropStale name ts infos) t n = (if t \<notin> set ts \<and> n = name then None else look infos t n)"
proof -
  have wf: "wf_map infos" using assms by (simp add: infos_ok_def)
  have d: "AList.delete name info = [] \<Longrightarrow> n \<noteq> name \<Longrightarrow> map_of info n = None" for info :: device_info
    using map_of_delete [of name info n] by simp
  show ?thesis
    using d by (auto simp: look_def map_of_dropStale [OF wf] Let_def split: option.splits)
qed

section \<open>The index refines the set of current objects\<close>

lemma shouldIndex_update [simp]: "shouldIndexLVDL (l\<lparr>lc_localDeviceInfos := x\<rparr>) = shouldIndexLVDL l"
  by (rule ext) (simp add: shouldIndexLVDL_def)

lemma represents_add:
  assumes "represents l A" "shouldIndexLVDL l d"
  shows "represents (addOrUpdateLVDL d l) (A(ld_Name d \<mapsto> d))"
proof -
  let ?i = "lc_localDeviceInfos l"
  have ok: "infos_ok ?i" and lk: "look ?i t n = indexed A t n" for t n
    using assms by (auto simp: represents_def lookup2_look)
  have "infos_ok (dropStale (ld_Name d) (ld_targets d) ?i)" by (rule dropStale_ok [OF ok])
  note res = addTargets [OF this, of d "ld_targets d"]
  have "look (fold (addTarget d) (ld_targets d) (dropStale (ld_Name d) (ld_targets d) ?i)) t n
        = indexed (A(ld_Name d \<mapsto> d)) t n" for t n
    using res [of t n] by (auto simp: look_dropStale [OF ok] lk indexed_def)
  with res show ?thesis
    using assms by (auto simp: represents_def addOrUpdateLVDL_def lookup2_look)
qed

lemma represents_remove:
  assumes "represents l A"
    and "\<And>d'. A (ld_Name d) = Some d' \<Longrightarrow> set (ld_targets d') \<subseteq> set (ld_targets d)"
  shows "represents (removeLVDL d l) (A(ld_Name d := None))"
proof -
  let ?i = "lc_localDeviceInfos l"
  have ok: "infos_ok ?i" and lk: "look ?i t n = indexed A t n" for t n
    using assms(1) by (auto simp: represents_def lookup2_look)
  note res = removeTargets [OF ok, of d "ld_targets d"]
  have "look (fold (removeTarget d) (ld_targets d) ?i) t n = indexed (A(ld_Name d := None)) t n" for t n
    using res [of t n] assms(2) by (auto simp: lk indexed_def split: option.splits)
  with res show ?thesis
    using assms(1) by (auto simp: represents_def removeLVDL_def lookup2_look)
qed

lemma represents_new: "represents (NewLocalVolumeDeviceLinkCache node) (\<lambda>_. None)"
  by (simp add: represents_def NewLocalVolumeDeviceLinkCache_def infos_ok_def lookup2_def indexed_def)


section \<open>Interface of the index and its event history\<close>

text \<open>The object of a delete event lists at least the targets of the last version the index saw.\<close>

definition covers :: "link_spec \<Rightarrow> lvdl \<Rightarrow> bool" where
  "covers A d = (case A (ld_Name d) of None \<Rightarrow> True | Some d' \<Rightarrow> set (ld_targets d') \<subseteq> set (ld_targets d))"

text \<open>The effect of an event on the current objects; \<open>own\<close> tells the objects of this node.\<close>

primrec spec_step :: "(lvdl \<Rightarrow> bool) \<Rightarrow> lvdl_event \<Rightarrow> link_spec \<Rightarrow> link_spec" where
  "spec_step own (AddFunc d) A = (if own d then A(ld_Name d \<mapsto> d) else A)"
| "spec_step own (UpdateFunc d0 d) A = (if own d then A(ld_Name d \<mapsto> d) else A)"
| "spec_step own (DeleteFunc d) A = A(ld_Name d := None)"

primrec valid_history :: "(lvdl \<Rightarrow> bool) \<Rightarrow> lvdl_event list \<Rightarrow> link_spec \<Rightarrow> bool" where
  "valid_history own [] A = True"
| "valid_history own (e # es) A =
     ((case e of DeleteFunc d \<Rightarrow> covers A d | _ \<Rightarrow> True) \<and> valid_history own es (spec_step own e A))"

locale link_index =
  fixes add :: "lvdl \<Rightarrow> 'c \<Rightarrow> 'c"
    and remove :: "lvdl \<Rightarrow> 'c \<Rightarrow> 'c"
    and mine :: "'c \<Rightarrow> lvdl \<Rightarrow> bool"
    and lookup :: "'c \<Rightarrow> string \<Rightarrow> string \<Rightarrow> lvdl option"
    and rep :: "'c \<Rightarrow> link_spec \<Rightarrow> bool"
  assumes rep_lookup: "rep c A \<Longrightarrow> lookup c t n = indexed A t n"
    and rep_add: "rep c A \<Longrightarrow> mine c d \<Longrightarrow> rep (add d c) (A(ld_Name d \<mapsto> d))"
    and add_foreign: "\<not> mine c d \<Longrightarrow> add d c = c"
    and rep_remove: "rep c A \<Longrightarrow> covers A d \<Longrightarrow> rep (remove d c) (A(ld_Name d := None))"
    and mine_add: "mine (add d c) = mine c"
    and mine_remove: "mine (remove d c) = mine c"
begin

primrec step :: "lvdl_event \<Rightarrow> 'c \<Rightarrow> 'c" where
  "step (AddFunc d) c = add d c"
| "step (UpdateFunc d0 d) c = add d c"
| "step (DeleteFunc d) c = remove d c"

lemma rep_step:
  "rep c A \<Longrightarrow> (case e of DeleteFunc d \<Rightarrow> covers A d | _ \<Rightarrow> True) \<Longrightarrow>
   rep (step e c) (spec_step (mine c) e A) \<and> mine (step e c) = mine c"
  by (cases e) (auto simp: rep_add add_foreign rep_remove mine_add mine_remove)

lemma rep_history:
  "rep c A \<Longrightarrow> valid_history (mine c) es A \<Longrightarrow> rep (fold step es c) (fold (spec_step (mine c)) es A)"
proof (induction es arbitrary: c A)
  case (Cons e es)
  then have "rep (step e c) (spec_step (mine c) e A)" "mine (step e c) = mine c"
    using rep_step [of c A e] by auto
  with Cons.IH [of "step e c" "spec_step (mine c) e A"] Cons.prems show ?case by simp
qed simp

end

interpretation lvdl_index: link_index addOrUpdateLVDL removeLVDL shouldIndexLVDL lookup2 represents
proof
  fix c A t n d
  show "represents c A \<Longrightarrow> lookup2 c t n = indexed A t n" by (simp add: represents_def)
  show "represents c A \<Longrightarrow> shouldIndexLVDL c d \<Longrightarrow> represents (addOrUpdateLVDL d c) (A(ld_Name d \<mapsto> d))"
    by (rule represents_add)
  show "\<not> shouldIndexLVDL c d \<Longrightarrow> addOrUpdateLVDL d c = c" by (simp add: addOrUpdateLVDL_def)
  show "represents c A \<Longrightarrow> covers A d \<Longrightarrow> represents (removeLVDL d c) (A(ld_Name d := None))"
    by (rule represents_remove) (auto simp: covers_def)
  show "shouldIndexLVDL (addOrUpdateLVDL d c) = shouldIndexLVDL c" by (simp add: addOrUpdateLVDL_def)
  show "shouldIndexLVDL (removeLVDL d c) = shouldIndexLVDL c" by (simp add: removeLVDL_def)
qed

lemma watch_step: "watchForEvents = lvdl_index.step"
proof (intro ext)
  fix e l show "watchForEvents e l = lvdl_index.step e l" by (cases e) auto
qed

text \<open>The current objects of the node after a history of watch events.\<close>

definition current_links :: "string \<Rightarrow> lvdl_event list \<Rightarrow> link_spec" where
  "current_links node es =
     fold (spec_step (\<lambda>d. ls_NodeName (ld_Spec d) = node)) es (\<lambda>_. None)"


definition demo_link :: "string \<Rightarrow> string list \<Rightarrow> lvdl" where
  "demo_link name targets =
     \<lparr>ld_meta = \<lparr>om_Name = name, om_Namespace = ''ns'', om_UID = ''u'', om_Labels = [], om_Annotations = [],
        om_Finalizers = [], om_OwnerReferences = [], om_CreationTimestamp = Some 0,
        om_DeletionTimestamp = None, om_Generation = 1\<rparr>,
      ld_Spec = \<lparr>ls_PersistentVolumeName = name, ls_NodeName = ''n1'', ls_Policy = PolicyNone\<rparr>,
      ld_Status = \<lparr>lst_CurrentLinkTarget = '''', lst_PreferredLinkTarget = '''',
        lst_ValidLinkTargets = targets, lst_PersistentVolumeSymlinkPath = '''',
        lst_FilesystemUUID = '''', lst_Conditions = []\<rparr>\<rparr>"


text \<open>
  A delete event whose object carries older targets leaves the object in the index under the
  target it gained since.
\<close>

theorem link_cache_stale_delete:
  "lookup2 (fold watchForEvents
       [AddFunc (demo_link ''a'' [''x'']), AddFunc (demo_link ''a'' [''x'', ''y'']), DeleteFunc (demo_link ''a'' [''x''])]
       (NewLocalVolumeDeviceLinkCache ''n1'')) ''y'' ''a'' = Some (demo_link ''a'' [''x'', ''y''])"
  by (simp add: lookup2_def addOrUpdateLVDL_def removeLVDL_def addTarget_def removeTarget_def dropStale_def
      dropEntry_def shouldIndexLVDL_def NewLocalVolumeDeviceLinkCache_def demo_link_def)

section \<open>Finding the device a path belongs to\<close>

lemma map_of_maps_Copy: "wf_map src \<Longrightarrow> map_of (maps_Copy dst src) n = (case map_of src n of None \<Rightarrow> map_of dst n | x \<Rightarrow> x)"
proof (induction src arbitrary: dst)
  case (Cons e src)
  obtain k v where e: "e = (k, v)" by fastforce
  with Cons.prems have wf: "wf_map src" and fr: "map_of src k = None"
    by (auto simp: wf_map_def map_of_eq_None_iff)
  show ?case
    using Cons.IH [OF wf, of "AList.update k v dst"] fr
    by (auto simp: maps_Copy_def e split: option.splits)
qed (simp add: maps_Copy_def)

lemma map_of_collect:
  assumes "represents l A"
  shows "map_of (collectInfos l ts) n = (case A n of None \<Rightarrow> None
     | Some d \<Rightarrow> if set ts \<inter> set (ld_targets d) \<noteq> {} then Some d else None)"
proof -
  let ?f = "\<lambda>t acc. case map_of (lc_localDeviceInfos l) t of None \<Rightarrow> acc | Some info \<Rightarrow> maps_Copy acc info"
  have ok: "infos_ok (lc_localDeviceInfos l)" and lk: "lookup2 l t n = indexed A t n" for t
    using assms by (auto simp: represents_def)
  have step: "map_of (?f t acc) n = (case indexed A t n of None \<Rightarrow> map_of acc n | x \<Rightarrow> x)" for t acc
    using lk [of t] infos_okD(1) [OF ok] map_of_maps_Copy
    by (auto simp: lookup2_def split: option.splits)
  have "map_of (fold ?f ts acc) n = (case A n of None \<Rightarrow> map_of acc n
     | Some d \<Rightarrow> if set ts \<inter> set (ld_targets d) \<noteq> {} then Some d else map_of acc n)" for acc
    by (induction ts arbitrary: acc) (auto simp: step indexed_def split: option.splits)
  then show ?thesis by (auto simp: collectInfos_def split: option.splits)
qed

lemma find_direct:
  assumes "represents l A" "map_of (lc_localDeviceInfos l) symlink = Some info"
  shows "map_of info n = indexed A symlink n" and "info \<noteq> []"
  using assms lvdl_index.rep_lookup [OF assms(1), of symlink n] infos_okD(2)
  by (auto simp: lookup2_def represents_def)

text \<open>
  While the index is in step with the cluster, \<^verbatim>\<open>FindLSOManagedDeviceInfo\<close> returns only objects
  of this node, each under its own name, whose targets contain the path asked for or another valid
  by-id path of the same device; it says \<^verbatim>\<open>found\<close> exactly when it returns some object, and it never
  misses one that lists the path itself.
\<close>

theorem find_managed_device_info:
  assumes "represents l A"
    and "FindLSOManagedDeviceInfo h l symlink dev = (info, found, None)"
  shows "(found \<longleftrightarrow> info \<noteq> [])
    \<and> (\<forall>n d. map_of info n = Some d \<longrightarrow>
         A n = Some d \<and> ld_Name d = n \<and> ls_NodeName (ld_Spec d) = lc_localNodeName l
         \<and> (symlink \<in> set (ld_targets d)
            \<or> (\<exists>ls. GetValidByIDSymlinks h dev = Inr ls \<and> set ls \<inter> set (ld_targets d) \<noteq> {})))
    \<and> (\<forall>n d. A n = Some d \<and> symlink \<in> set (ld_targets d) \<longrightarrow> map_of info n = Some d)"
proof (cases "map_of (lc_localDeviceInfos l) symlink")
  case None
  then have miss: "A n = Some d \<Longrightarrow> symlink \<notin> set (ld_targets d)" for n d
    using lvdl_index.rep_lookup [OF assms(1), of symlink n]
    by (auto simp: lookup2_def indexed_def split: if_splits)
  obtain ls where ls: "GetValidByIDSymlinks h dev = Inr ls"
    and i: "info = collectInfos l ls" "found \<longleftrightarrow> info \<noteq> []"
    using assms(2) None by (auto simp: FindLSOManagedDeviceInfo_def Let_def split: sum.splits if_splits)
  have own: "A n = Some d \<Longrightarrow> ld_Name d = n \<and> ls_NodeName (ld_Spec d) = lc_localNodeName l" for n d
    using assms(1) by (auto simp: represents_def shouldIndexLVDL_def)
  show ?thesis
    using i ls own miss map_of_collect [OF assms(1), of ls]
    by (auto split: option.splits if_splits)
next
  case (Some i)
  then have i: "info = i" "found" using assms(2) by (auto simp: FindLSOManagedDeviceInfo_def)
  have own: "A n = Some d \<Longrightarrow> ld_Name d = n \<and> ls_NodeName (ld_Spec d) = lc_localNodeName l" for n d
    using assms(1) by (auto simp: represents_def shouldIndexLVDL_def)
  show ?thesis
    using i own find_direct [OF assms(1) Some]
    by (auto simp: indexed_def split: option.splits if_splits)
qed

theorem find_managed_device_info_witness:
  "\<exists>info. FindLSOManagedDeviceInfo demo_host
       (addOrUpdateLVDL (demo_link ''a'' [''/dev/disk/by-id/wwn-1'']) (NewLocalVolumeDeviceLinkCache ''n1''))
       ''/dev/disk/by-id/wwn-1'' demo_device = (info, True, None)
     \<and> map_of info ''a'' = Some (demo_link ''a'' [''/dev/disk/by-id/wwn-1''])"
proof -
  let ?d = "demo_link ''a'' [''/dev/disk/by-id/wwn-1'']"
  let ?l = "addOrUpdateLVDL ?d (NewLocalVolumeDeviceLinkCache ''n1'')"
  have own: "shouldIndexLVDL (NewLocalVolumeDeviceLinkCache ''n1'') ?d"
    by (simp add: shouldIndexLVDL_def NewLocalVolumeDeviceLinkCache_def demo_link_def)
  have r: "represents ?l ((\<lambda>_. None)(''a'' \<mapsto> ?d))"
    using represents_add [OF represents_new own] by (simp add: demo_link_def)
  have f: "FindLSOManagedDeviceInfo demo_host ?l ''/dev/disk/by-id/wwn-1'' demo_device = ([(''a'', ?d)], True, None)"
    using own by (simp add: FindLSOManagedDeviceInfo_def addOrUpdateLVDL_def addTarget_def dropStale_def
        NewLocalVolumeDeviceLinkCache_def demo_link_def)
  show ?thesis using find_managed_device_info [OF r f] f by simp
qed

end
