(* ===== verification/Naming.thy ===== *)
theory Naming
  imports ApiTypes "HOL-Library.Word"
begin

unbundle bit_operations_syntax

text \<open>
  Names, labels and the cache of PersistentVolumes: \<^verbatim>\<open>pkg/common/names.go\<close>, \<^verbatim>\<open>types.go\<close>, the small
  helpers of \<^verbatim>\<open>controller_runtime_utils.go\<close> and \<^verbatim>\<open>symlink_utils.go\<close>, and the part of
  \<^verbatim>\<open>provisioner_utils.go\<close> that names PVs and keeps the cache of PVs of this node in step with watch
  events. The FNV-1a hash is computed on 32-bit words.
\<close>

section \<open>Labels and annotations\<close>

definition PVOwnerKindLabel :: string where "PVOwnerKindLabel = ''storage.openshift.com/owner-kind''"
definition PVOwnerNameLabel :: string where "PVOwnerNameLabel = ''storage.openshift.com/owner-name''"
definition PVOwnerNamespaceLabel :: string where
  "PVOwnerNamespaceLabel = ''storage.openshift.com/owner-namespace''"
definition PVDeviceNameLabel :: string where "PVDeviceNameLabel = ''storage.openshift.com/device-name''"
definition PVDeviceIDLabel :: string where "PVDeviceIDLabel = ''storage.openshift.com/device-id''"
definition LocalVolumeOwnerNameForPV :: string where
  "LocalVolumeOwnerNameForPV = ''storage.openshift.com/local-volume-owner-name''"
definition LocalVolumeOwnerNamespaceForPV :: string where
  "LocalVolumeOwnerNamespaceForPV = ''storage.openshift.com/local-volume-owner-namespace''"
definition DeprecatedLabels :: "string list" where
  "DeprecatedLabels = [PVDeviceNameLabel, PVDeviceIDLabel]"
definition LabelHostname :: string where "LabelHostname = ''kubernetes.io/hostname''"
definition AnnProvisionedBy :: string where "AnnProvisionedBy = ''pv.kubernetes.io/provisioned-by''"
definition LocalVolumeProtectionFinalizer :: string where
  "LocalVolumeProtectionFinalizer = ''storage.openshift.com/local-volume-protection''"
definition LSOSymlinkDeleterFinalizer :: string where
  "LSOSymlinkDeleterFinalizer = ''storage.openshift.com/lso-symlink-deleter''"
definition LocalVolumeKind :: string where "LocalVolumeKind = ''LocalVolume''"
definition LocalVolumeSetKind :: string where "LocalVolumeSetKind = ''LocalVolumeSet''"

lemmas label_defs =
  PVOwnerKindLabel_def PVOwnerNameLabel_def PVOwnerNamespaceLabel_def PVDeviceNameLabel_def
  PVDeviceIDLabel_def LabelHostname_def AnnProvisionedBy_def

section \<open>Environment defaults\<close>

text \<open>\<open>getenv\<close> is \<^verbatim>\<open>os.Getenv\<close>: the empty string for an unset variable.\<close>

definition GetDiskMakerImage :: "(string \<Rightarrow> string) \<Rightarrow> string" where
  "GetDiskMakerImage getenv =
     (if getenv ''DISKMAKER_IMAGE'' \<noteq> '''' then getenv ''DISKMAKER_IMAGE''
      else ''quay.io/openshift/origin-local-storage-diskmaker'')"

definition GetKubeRBACProxyImage :: "(string \<Rightarrow> string) \<Rightarrow> string" where
  "GetKubeRBACProxyImage getenv =
     (if getenv ''KUBE_RBAC_PROXY_IMAGE'' \<noteq> '''' then getenv ''KUBE_RBAC_PROXY_IMAGE''
      else ''quay.io/openshift/origin-kube-rbac-proxy:latest'')"

definition GetLocalDiskLocationPath :: "(string \<Rightarrow> string) \<Rightarrow> string" where
  "GetLocalDiskLocationPath getenv =
     (if getenv ''LOCAL_DISK_LOCATION'' \<noteq> '''' then getenv ''LOCAL_DISK_LOCATION''
      else ''/mnt/local-storage'')"

definition LocalVolumeKey :: "local_volume \<Rightarrow> string" where
  "LocalVolumeKey lv = lv_Namespace lv @ ''/'' @ lv_Name lv"

definition LocalVolumeSetKey :: "local_volume_set \<Rightarrow> string" where
  "LocalVolumeSetKey lvs = lvset_Namespace lvs @ ''/'' @ lvset_Name lvs"

definition GetProvisionedByValue :: "string \<Rightarrow> string" where
  "GetProvisionedByValue nodeName = ''local-volume-provisioner-'' @ nodeName"

section \<open>Which PVs belong to this provisioner\<close>

definition word_char :: "char \<Rightarrow> bool" where
  "word_char c \<longleftrightarrow> (CHR ''a'' \<le> c \<and> c \<le> CHR ''z'') \<or> (CHR ''A'' \<le> c \<and> c \<le> CHR ''Z'')
     \<or> is_digit c \<or> c = CHR ''_''"

text \<open>
  The shape \<^verbatim>\<open>\w{8}(-\w{4}){3}-\w{12}\<close>: thirty-six characters, a hyphen at positions 8, 13, 18
  and 23 and a word character everywhere else.
\<close>

definition uid_shape :: "string \<Rightarrow> bool" where
  "uid_shape u \<longleftrightarrow> length u = 36 \<and>
     list_all (\<lambda>i. if i \<in> {8, 13, 18, 23} then u ! i = CHR ''-'' else word_char (u ! i)) [0..<36]"

text \<open>\<^verbatim>\<open>endsWithUIDReg\<close>: the expression is anchored at the end of the text only.\<close>

definition endsWithUID :: "string \<Rightarrow> bool" where
  "endsWithUID s \<longleftrightarrow> 36 \<le> length s \<and> uid_shape (drop (length s - 36) s)"

text \<open>
  \<^verbatim>\<open>startsWithRuntimeNameReg\<close>: the provisioner name is compiled as a regular expression as it
  stands. A node name is a DNS subdomain, so the full stop is its only special character: it matches
  every character but a newline.
\<close>

fun startsWithRuntimeName :: "string \<Rightarrow> string \<Rightarrow> bool" where
  "startsWithRuntimeName [] s = True"
| "startsWithRuntimeName (p # ps) [] = False"
| "startsWithRuntimeName (p # ps) (c # s) =
     ((if p = CHR ''.'' then c \<noteq> newline else c = p) \<and> startsWithRuntimeName ps s)"

definition PVMatchesProvisioner :: "pv \<Rightarrow> string \<Rightarrow> bool" where
  "PVMatchesProvisioner p provisionerName =
     (case map_of (pv_Annotations p) AnnProvisionedBy of
        None \<Rightarrow> False
      | Some ann \<Rightarrow>
          if provisionerName = ann then True
          else endsWithUID ann \<and> startsWithRuntimeName provisionerName ann)"

section \<open>The name of a PV\<close>

definition fnv_offset :: "32 word" where "fnv_offset = 2166136261"
definition fnv_prime :: "32 word" where "fnv_prime = 16777619"

definition fnv_byte :: "char \<Rightarrow> 32 word \<Rightarrow> 32 word" where
  "fnv_byte c h = (h XOR of_nat (of_char c)) * fnv_prime"

definition fnv_write :: "string \<Rightarrow> 32 word \<Rightarrow> 32 word" where
  "fnv_write s h = fold fnv_byte s h"

definition hex_digit :: "nat \<Rightarrow> char" where
  "hex_digit d = char_of (if d < 10 then 48 + d else 87 + d)"

text \<open>\<^verbatim>\<open>%x\<close> of an unsigned number: lower case, no leading zeros.\<close>

fun hex :: "nat \<Rightarrow> string" where
  "hex n = (if n < 16 then [hex_digit n] else hex (n div 16) @ [hex_digit (n mod 16)])"

definition GeneratePVName :: "string \<Rightarrow> string \<Rightarrow> string \<Rightarrow> string" where
  "GeneratePVName file node class =
     ''local-pv-'' @ hex (unat (fnv_write class (fnv_write node (fnv_write file fnv_offset))))"

section \<open>Label helpers\<close>

definition appLabelIn :: "smap \<Rightarrow> string list \<Rightarrow> bool" where
  "appLabelIn labels components =
     (case map_of labels ''app'' of
        None \<Rightarrow> False
      | Some appName \<Rightarrow> list_ex (\<lambda>validName. appName = validName) components)"

definition InitMapIfNil :: "smap \<Rightarrow> smap" where
  "InitMapIfNil m = (if length m > 1 then m else [])"

definition pvHasLabels :: "pv \<Rightarrow> smap \<Rightarrow> bool" where
  "pvHasLabels p labels = list_all (\<lambda>(key, val). map_of (pv_Labels p) key = Some val) labels"

definition IsLocalVolumePV :: "pv \<Rightarrow> bool" where
  "IsLocalVolumePV p \<longleftrightarrow> map_of (pv_Labels p) PVOwnerKindLabel = Some LocalVolumeKind"

definition IsLocalVolumeSetPV :: "pv \<Rightarrow> bool" where
  "IsLocalVolumeSetPV p \<longleftrightarrow> map_of (pv_Labels p) PVOwnerKindLabel = Some LocalVolumeSetKind"

definition GetPVOwnerSelector :: "local_volume \<Rightarrow> smap" where
  "GetPVOwnerSelector lv =
     [(LocalVolumeOwnerNameForPV, lv_Name lv), (LocalVolumeOwnerNamespaceForPV, lv_Namespace lv)]"

section \<open>The cache of PVs\<close>

type_synonym pv_cache = "(string \<times> pv) list"

definition ListPVs :: "pv_cache \<Rightarrow> pv list" where
  "ListPVs c = map snd c"

definition RemovePV :: "pv \<Rightarrow> pv_cache \<Rightarrow> pv_cache" where
  "RemovePV p c = (if map_of c (pv_Name p) \<noteq> None then AList.delete (pv_Name p) c else c)"

definition AddOrUpdatePV :: "pv \<Rightarrow> pv_cache \<Rightarrow> pv_cache" where
  "AddOrUpdatePV p c = AList.update (pv_Name p) p c"

definition OwnerHasReleasedPVs :: "pv_cache \<Rightarrow> smap \<Rightarrow> bool" where
  "OwnerHasReleasedPVs c ownerLabels =
     list_ex (\<lambda>p. pvHasLabels p ownerLabels \<and> pv_Phase p = VolumeReleased) (ListPVs c)"

text \<open>
  \<^verbatim>\<open>HandlePVChange\<close>: the cache after a watch event and the requests it puts on the queue;
  \<open>rcName\<close> is the provisioner name of the runtime configuration, empty before the first reconcile.
\<close>

definition HandlePVChange ::
  "string \<Rightarrow> string \<Rightarrow> bool \<Rightarrow> pv \<Rightarrow> pv_cache \<Rightarrow> pv_cache \<times> namespaced_name list" where
  "HandlePVChange rcName watchNamespace isDelete p c =
     (if rcName = '''' then (c, [(watchNamespace, '''')])
      else if \<not> PVMatchesProvisioner p rcName then (c, [])
      else
        let c' = (if isDelete then RemovePV p c else AddOrUpdatePV p c) in
        case map_of (pv_Labels p) PVOwnerNameLabel of
          None \<Rightarrow> (c', [])
        | Some ownerName \<Rightarrow>
            (case map_of (pv_Labels p) PVOwnerNamespaceLabel of
               None \<Rightarrow> (c', [])
             | Some ownerNamespace \<Rightarrow> (c', [(ownerNamespace, ownerName)])))"


declare hex.simps [simp del]

text \<open>For evaluation the digits are taken from binary integers rather than from successors.\<close>

function hex_int :: "int \<Rightarrow> string" where
  "hex_int n = (if n < 16 then [hex_digit (nat n)] else hex_int (n div 16) @ [hex_digit (nat (n mod 16))])"
  by auto
termination by (relation "measure nat") auto

declare hex_int.simps [simp del]

lemma hex_int_eq: "hex n = hex_int (int n)"
proof (induction n rule: hex.induct)
  case (1 n)
  then show ?case
    by (subst hex.simps, subst hex_int.simps) (auto simp: zdiv_int nat_mod_distrib)
qed

lemma GeneratePVName_code [code]:
  "GeneratePVName file node class =
     ''local-pv-'' @ hex_int (uint (fnv_write class (fnv_write node (fnv_write file fnv_offset))))"
  by (simp add: GeneratePVName_def hex_int_eq)

section \<open>PV names\<close>

lemma fnv_prime_inverse: "fnv_prime * 899433627 = 1"
  by (simp add: fnv_prime_def)

lemma fnv_mult_cancel: "x * fnv_prime = y * fnv_prime \<longleftrightarrow> x = y" for x y :: "32 word"
proof
  assume "x * fnv_prime = y * fnv_prime"
  then have "x * (fnv_prime * 899433627) = y * (fnv_prime * 899433627)"
    by (simp flip: mult.assoc)
  then show "x = y" unfolding fnv_prime_inverse by simp
qed simp

lemma xor_cancel: "x XOR b = y XOR b \<longleftrightarrow> x = y" for x y b :: "32 word"
  by (metis xor.assoc xor_self_eq xor.right_neutral)

lemma byte_word_inj: "(of_nat (of_char c) :: 32 word) = of_nat (of_char d) \<longleftrightarrow> c = d"
proof
  assume eq: "(of_nat (of_char c) :: 32 word) = of_nat (of_char d)"
  have "unat (of_nat (of_char x) :: 32 word) = of_char x" for x :: char
    using nat_of_char_less_256 [of x] by (simp add: unat_of_nat del: nat_of_char_less_256)
  then have "(of_char c :: nat) = of_char d" using arg_cong [OF eq, of unat] by simp
  then show "c = d" by simp
qed simp

lemma fnv_byte_inj_state: "fnv_byte c x = fnv_byte c y \<longleftrightarrow> x = y"
  by (simp add: fnv_byte_def fnv_mult_cancel xor_cancel)

lemma fnv_byte_inj_char: "fnv_byte c x = fnv_byte d x \<longleftrightarrow> c = d"
proof -
  have "fnv_byte c x = fnv_byte d x \<longleftrightarrow> (of_nat (of_char c) :: 32 word) = of_nat (of_char d)"
    by (simp add: fnv_byte_def fnv_mult_cancel xor_cancel xor.commute [of x])
  then show ?thesis by (simp only: byte_word_inj)
qed

lemma fnv_write_inj_state: "fnv_write s x = fnv_write s y \<longleftrightarrow> x = y"
  unfolding fnv_write_def by (induction s arbitrary: x y) (auto simp: fnv_byte_inj_state)

lemma fnv_write_append: "fnv_write (s @ t) h = fnv_write t (fnv_write s h)"
  by (simp add: fnv_write_def)

lemma hex_digit_inj:
  assumes "d < 16" "e < 16" "hex_digit d = hex_digit e"
  shows "d = e"
proof -
  have "of_char (hex_digit x) = (if x < 10 then 48 + x else 87 + x)" if "x < 16" for x
    using that by (auto simp: hex_digit_def)
  with assms have "(if d < 10 then 48 + d else 87 + d) = (if e < 10 then 48 + e else 87 + e)" by metis
  with assms show ?thesis by (auto split: if_splits)
qed

lemma hex_ne [simp]: "hex n \<noteq> []" "[] \<noteq> hex n"
  by (simp_all add: hex.simps [of n])

lemma hex_inj: "hex m = hex n \<Longrightarrow> m = n"
proof (induction m arbitrary: n rule: hex.induct)
  case (1 m)
  show ?case
  proof (cases "m < 16")
    case True
    with 1(2) have "n < 16 \<and> hex_digit m = hex_digit n"
      by (auto simp: hex.simps [of m] hex.simps [of n] split: if_splits)
    with True show ?thesis using hex_digit_inj by blast
  next
    case False
    with 1(2) have n: "\<not> n < 16" "hex (m div 16) = hex (n div 16)" "hex_digit (m mod 16) = hex_digit (n mod 16)"
      by (simp_all add: hex.simps [of m] hex.simps [of n] split: if_splits)
    with 1(1) False have "m div 16 = n div 16" by blast
    moreover have "m mod 16 = n mod 16" using n(3) by (intro hex_digit_inj) auto
    ultimately show ?thesis by (metis div_mult_mod_eq)
  qed
qed

lemma hex_length: "n < 16 ^ Suc k \<Longrightarrow> length (hex n) \<le> Suc k"
proof (induction k arbitrary: n)
  case (Suc k)
  then show ?case
    by (subst hex.simps) (auto simp: less_mult_imp_div_less mult.commute)
qed (simp add: hex.simps)

definition hex_chars :: string where "hex_chars = ''0123456789abcdef''"

lemma hex_digit_chars: "d < 16 \<Longrightarrow> hex_digit d \<in> set hex_chars"
proof -
  have "\<forall>d \<in> {..<16}. hex_digit d \<in> set hex_chars" by code_simp
  then show "d < 16 \<Longrightarrow> hex_digit d \<in> set hex_chars" by simp
qed

lemma hex_set: "set (hex n) \<subseteq> set hex_chars"
proof (induction n rule: hex.induct)
  case (1 n)
  then show ?case by (subst hex.simps) (auto simp: hex_digit_chars)
qed

lemma GeneratePVName_eq_iff:
  "GeneratePVName f n c = GeneratePVName f' n' c' \<longleftrightarrow>
     fnv_write (f @ n @ c) fnv_offset = fnv_write (f' @ n' @ c') fnv_offset"
  by (auto simp: GeneratePVName_def fnv_write_append dest!: hex_inj intro: unsigned_word_eqI)

lemma GeneratePVName_shape:
  "\<exists>h. GeneratePVName file node class = ''local-pv-'' @ h \<and> h \<noteq> [] \<and> length h \<le> 8
     \<and> set h \<subseteq> set hex_chars"
proof -
  have "unat w < 16 ^ Suc 7" for w :: "32 word"
    using unsigned_less [of w] by simp
  then show ?thesis
    using hex_length [of _ 7] hex_set by (fastforce simp: GeneratePVName_def)
qed

lemma GeneratePVName_one_byte:
  "GeneratePVName (pre @ a # post) node class = GeneratePVName (pre @ b # post) node class \<longleftrightarrow> a = b"
proof -
  have "fnv_write (pre @ a # post @ node @ class) fnv_offset = fnv_write (pre @ b # post @ node @ class) fnv_offset
      \<longleftrightarrow> fnv_byte a (fnv_write pre fnv_offset) = fnv_byte b (fnv_write pre fnv_offset)"
    using fnv_write_inj_state [of "post @ node @ class"]
    by (simp add: fnv_write_append fnv_write_def)
  then show ?thesis
    by (simp add: GeneratePVName_eq_iff fnv_byte_inj_char)
qed

text \<open>
  C32: a generated PV name is \<^verbatim>\<open>local-pv-\<close> followed by one to eight lower-case hexadecimal digits, so
  it is a valid object name of at most 17 characters; on one node and storage class, two device file
  names that differ in a single byte never share a PV name.
\<close>

theorem pv_name_shape_and_separation:
  "(\<exists>h. GeneratePVName file node class = ''local-pv-'' @ h \<and> h \<noteq> [] \<and> length h \<le> 8
        \<and> set h \<subseteq> set hex_chars)
   \<and> (GeneratePVName (pre @ a # post) node class = GeneratePVName (pre @ b # post) node class \<longleftrightarrow> a = b)"
  using GeneratePVName_shape GeneratePVName_one_byte by simp

text \<open>The three parts are hashed without a separator: only their concatenation counts.\<close>

lemma GeneratePVName_concat:
  "GeneratePVName (f @ g) n c = GeneratePVName f (g @ n) c"
  by (simp add: GeneratePVName_eq_iff)


section \<open>Ownership of PVs\<close>

lemma startsWith_self: "newline \<notin> set p \<Longrightarrow> startsWithRuntimeName p (p @ s)"
  by (induction p) auto

lemma startsWith_no_dot: "CHR ''.'' \<notin> set p \<Longrightarrow> startsWithRuntimeName p s \<longleftrightarrow> has_prefix s p"
  by (induction p s rule: startsWithRuntimeName.induct) auto

lemma endsWithUID_append: "uid_shape u \<Longrightarrow> endsWithUID (s @ u)"
  by (simp add: endsWithUID_def uid_shape_def)

lemma PVMatches_Some:
  "map_of (pv_Annotations p) AnnProvisionedBy = Some ann \<Longrightarrow>
   PVMatchesProvisioner p name \<longleftrightarrow> name = ann \<or> (endsWithUID ann \<and> startsWithRuntimeName name ann)"
  by (simp add: PVMatchesProvisioner_def)

text \<open>
  A PV is recognised as this node's when its annotation is the provisioner name, with or without
  a node UID behind it, and a PV that another node provisioned is not, as long as the node name has
  no full stop and is not a proper prefix of the other node's annotation.
\<close>

theorem pv_matches_provisioner_sound:
  assumes "map_of (pv_Annotations p) AnnProvisionedBy = Some ann"
    and "newline \<notin> set node"
  shows "(ann = GetProvisionedByValue node \<longrightarrow> PVMatchesProvisioner p (GetProvisionedByValue node))
    \<and> (\<forall>uid. uid_shape uid \<and> ann = GetProvisionedByValue node @ ''-'' @ uid \<longrightarrow>
          PVMatchesProvisioner p (GetProvisionedByValue node))
    \<and> (CHR ''.'' \<notin> set node \<and> \<not> has_prefix ann (GetProvisionedByValue node) \<longrightarrow>
          \<not> PVMatchesProvisioner p (GetProvisionedByValue node))"
proof (intro conjI impI allI)
  have nl: "newline \<notin> set (GetProvisionedByValue node)"
    using assms(2) by (simp add: GetProvisionedByValue_def)
  assume "ann = GetProvisionedByValue node"
  then show "PVMatchesProvisioner p (GetProvisionedByValue node)"
    by (simp add: PVMatches_Some [OF assms(1)])
next
  fix uid
  have nl: "newline \<notin> set (GetProvisionedByValue node)"
    using assms(2) by (simp add: GetProvisionedByValue_def)
  assume "uid_shape uid \<and> ann = GetProvisionedByValue node @ ''-'' @ uid"
  then show "PVMatchesProvisioner p (GetProvisionedByValue node)"
    using startsWith_self [OF nl] endsWithUID_append [of uid "GetProvisionedByValue node @ ''-''"]
    by (simp add: PVMatches_Some [OF assms(1)])
next
  assume a: "CHR ''.'' \<notin> set node \<and> \<not> has_prefix ann (GetProvisionedByValue node)"
  then have "CHR ''.'' \<notin> set (GetProvisionedByValue node)"
    by (simp add: GetProvisionedByValue_def)
  with a show "\<not> PVMatchesProvisioner p (GetProvisionedByValue node)"
    using startsWith_no_dot by (auto simp: PVMatches_Some [OF assms(1)])
qed

definition demo_meta :: obj_meta where
  "demo_meta = \<lparr>om_Name = ''local-pv-1'', om_Namespace = ''ns'', om_UID = ''u1'', om_Labels = [],
     om_Annotations = [], om_Finalizers = [], om_OwnerReferences = [], om_CreationTimestamp = Some 1,
     om_DeletionTimestamp = None, om_Generation = 1\<rparr>"

definition demo_pv :: pv where
  "demo_pv = \<lparr>pv_meta = demo_meta, pv_LocalPath = Some ''/mnt/local-storage/sc/wwn-1'', pv_FsType = None,
     pv_StorageClassName = ''sc'', pv_Capacity = 1, pv_ReclaimPolicy = ReclaimDelete, pv_MountOptions = [],
     pv_VolumeMode = None, pv_NodeHostnames = [], pv_ClaimRef = None, pv_Phase = VolumeAvailable\<rparr>"

definition annotated_pv :: "string \<Rightarrow> pv" where
  "annotated_pv ann = demo_pv\<lparr>pv_meta := demo_meta\<lparr>om_Annotations := [(AnnProvisionedBy, ann)]\<rparr>\<rparr>"

lemma annotated_pv_ann [simp]:
  "map_of (pv_Annotations (annotated_pv ann)) AnnProvisionedBy = Some ann"
  by (simp add: annotated_pv_def)

theorem pv_matches_provisioner_sound_witness:
  "PVMatchesProvisioner
     (annotated_pv (GetProvisionedByValue ''node1'' @ ''-'' @ ''12345678-1234-1234-1234-123456789abc''))
     (GetProvisionedByValue ''node1'')
   \<and> \<not> PVMatchesProvisioner (annotated_pv (GetProvisionedByValue ''node2'')) (GetProvisionedByValue ''node1'')"
proof -
  have u: "uid_shape ''12345678-1234-1234-1234-123456789abc''" by code_simp
  have n: "\<not> has_prefix (GetProvisionedByValue ''node2'') (GetProvisionedByValue ''node1'')"
    by code_simp
  show ?thesis
    using u n
      pv_matches_provisioner_sound [OF annotated_pv_ann, of "''node1''"
        "GetProvisionedByValue ''node1'' @ ''-'' @ ''12345678-1234-1234-1234-123456789abc''"]
      pv_matches_provisioner_sound [OF annotated_pv_ann, of "''node1''" "GetProvisionedByValue ''node2''"]
    by simp
qed

text \<open>
  The prefix test is not anchored at the end of the node name and the full stop is not escaped:
  node \<^verbatim>\<open>node1\<close> takes the PV of \<^verbatim>\<open>node10\<close>, and \<^verbatim>\<open>a.b\<close> the PV of \<^verbatim>\<open>axb\<close>, when the annotation carries a
  node UID.
\<close>

theorem pv_matches_foreign_node:
  "PVMatchesProvisioner
     (annotated_pv (GetProvisionedByValue ''node10'' @ ''-'' @ ''12345678-1234-1234-1234-123456789abc''))
     (GetProvisionedByValue ''node1'')
   \<and> PVMatchesProvisioner
     (annotated_pv (GetProvisionedByValue ''axb'' @ ''-'' @ ''12345678-1234-1234-1234-123456789abc''))
     (GetProvisionedByValue ''a.b'')"
  by code_simp

section \<open>The cache follows the watch events\<close>

definition cache_ok :: "pv_cache \<Rightarrow> bool" where
  "cache_ok c \<longleftrightarrow> wf_map c \<and> (\<forall>(n, p) \<in> set c. pv_Name p = n)"

lemma cache_ok_AddOrUpdate: "cache_ok c \<Longrightarrow> cache_ok (AddOrUpdatePV p c)"
proof -
  assume ok: "cache_ok c"
  have "set (AList.update (pv_Name p) p c) \<subseteq> insert (pv_Name p, p) (set c)"
    using update_conv' by (induction c) auto
  with ok show "cache_ok (AddOrUpdatePV p c)"
    by (auto simp: cache_ok_def AddOrUpdatePV_def)
qed

lemma cache_ok_RemovePV: "cache_ok c \<Longrightarrow> cache_ok (RemovePV p c)"
  using wf_map_delete [of c "pv_Name p"] by (auto simp: cache_ok_def RemovePV_def AList.delete_eq)

lemma map_of_RemovePV [simp]:
  "map_of (RemovePV p c) k = (if k = pv_Name p then None else map_of c k)"
  by (auto simp: RemovePV_def)

lemma map_of_AddOrUpdatePV [simp]:
  "map_of (AddOrUpdatePV p c) k = (if k = pv_Name p then Some p else map_of c k)"
  by (simp add: AddOrUpdatePV_def)

text \<open>
  Once the provisioner name is known, a watch event for a PV of this node leaves the cache
  holding exactly the object of the event under its name (or nothing after a deletion), touches no
  other entry and keeps one entry per name; an event for any other PV changes nothing and wakes
  nobody, and a PV with both owner labels wakes exactly its owner.
\<close>

theorem handle_pv_change_cache:
  assumes "cache_ok c" and "rcName \<noteq> ''''"
    and "HandlePVChange rcName ns isDelete p c = (c', reqs)"
  shows "cache_ok c'
    \<and> (\<not> PVMatchesProvisioner p rcName \<longrightarrow> c' = c \<and> reqs = [])
    \<and> (PVMatchesProvisioner p rcName \<longrightarrow>
         (\<forall>k. map_of c' k = (if k = pv_Name p then (if isDelete then None else Some p) else map_of c k))
         \<and> (\<forall>o1 o2. map_of (pv_Labels p) PVOwnerNameLabel = Some o1
               \<and> map_of (pv_Labels p) PVOwnerNamespaceLabel = Some o2 \<longrightarrow> reqs = [(o2, o1)]))"
  using assms cache_ok_AddOrUpdate [of c p] cache_ok_RemovePV [of c p]
  by (auto simp: HandlePVChange_def Let_def split: if_splits option.splits)

theorem handle_pv_change_cache_witness:
  "\<exists>c' reqs. HandlePVChange (GetProvisionedByValue ''node1'') ''ns'' False
       (annotated_pv (GetProvisionedByValue ''node1'')) [] = (c', reqs)
     \<and> map_of c' ''local-pv-1'' = Some (annotated_pv (GetProvisionedByValue ''node1''))"
proof -
  let ?p = "annotated_pv (GetProvisionedByValue ''node1'')"
  obtain c' reqs where h: "HandlePVChange (GetProvisionedByValue ''node1'') ''ns'' False ?p [] = (c', reqs)"
    by fastforce
  have m: "PVMatchesProvisioner ?p (GetProvisionedByValue ''node1'')"
    by (simp add: PVMatches_Some [OF annotated_pv_ann])
  have n: "pv_Name ?p = ''local-pv-1''"
    by (simp add: annotated_pv_def demo_meta_def)
  show ?thesis
    using handle_pv_change_cache [OF _ _ h] h m n
    by (simp add: cache_ok_def GetProvisionedByValue_def)
qed

section \<open>A map with a single entry\<close>

text \<open>
  \<^verbatim>\<open>InitMapIfNil\<close> keeps a map of two or more entries, gives the empty map for the empty map, and
  throws away the entry of a map that has exactly one.
\<close>

theorem init_map_if_nil_exact:
  "(2 \<le> length m \<longrightarrow> InitMapIfNil m = m) \<and> InitMapIfNil [] = [] \<and> InitMapIfNil [(k, v)] = []"
  by (simp add: InitMapIfNil_def)

theorem init_map_if_nil_exact_witness:
  "InitMapIfNil [(''a'', ''1''), (''b'', ''2'')] = [(''a'', ''1''), (''b'', ''2'')]"
  using init_map_if_nil_exact [of "[(''a'', ''1''), (''b'', ''2'')]"] by simp

end
