(* ===== verification/GlobMatch.thy ===== *)
theory GlobMatch
  imports GoLib
begin

text \<open>
  Go's \<^verbatim>\<open>filepath.Match\<close> on a Unix system, which \<^verbatim>\<open>matcher.go\<close> applies to the device name filters and
  \<^verbatim>\<open>filepath.Glob\<close> to directory entries. \<open>None\<close> stands for \<^verbatim>\<open>ErrBadPattern\<close>. Characters are single
  bytes.
\<close>

abbreviation backslash :: char where "backslash \<equiv> CHR 0x5C"

section \<open>Chunks of a pattern\<close>

text \<open>The end of the first chunk: the first star outside a character class.\<close>

fun scan_body :: "bool \<Rightarrow> string \<Rightarrow> string \<times> string" where
  "scan_body inrange [] = ([], [])"
| "scan_body inrange (c # cs) =
     (if c = backslash then
        (case cs of
           [] \<Rightarrow> ([c], [])
         | d # ds \<Rightarrow> (case scan_body inrange ds of (a, b) \<Rightarrow> (c # d # a, b)))
      else if c = CHR ''['' then (case scan_body True cs of (a, b) \<Rightarrow> (c # a, b))
      else if c = CHR '']'' then (case scan_body False cs of (a, b) \<Rightarrow> (c # a, b))
      else if c = CHR ''*'' \<and> \<not> inrange then ([], c # cs)
      else (case scan_body inrange cs of (a, b) \<Rightarrow> (c # a, b)))"

definition scanChunk :: "string \<Rightarrow> bool \<times> string \<times> string" where
  "scanChunk p =
     (let q = dropWhile (\<lambda>c. c = CHR ''*'') p
      in (q \<noteq> p, scan_body False q))"

definition getEsc :: "string \<Rightarrow> (char \<times> string) option" where
  "getEsc chunk =
     (case chunk of
        [] \<Rightarrow> None
      | c # cs \<Rightarrow>
          if c = CHR ''-'' \<or> c = CHR '']'' then None
          else (case (if c = backslash then cs else chunk) of
                  [] \<Rightarrow> None
                | r # rest \<Rightarrow> if rest = [] then None else Some (r, rest)))"

lemma getEsc_length: "getEsc chunk = Some (r, rest) \<Longrightarrow> length rest < length chunk"
  by (auto simp: getEsc_def split: list.splits if_splits)

text \<open>The ranges of a character class: whether \<open>r\<close> is in one of them, and the rest of the chunk.\<close>

function classRanges :: "char \<Rightarrow> bool \<Rightarrow> bool \<Rightarrow> string \<Rightarrow> (bool \<times> string) option" where
  "classRanges r some_range matched chunk =
     (if chunk \<noteq> [] \<and> hd chunk = CHR '']'' \<and> some_range then Some (matched, tl chunk)
      else (case getEsc chunk of
              None \<Rightarrow> None
            | Some (lo, c1) \<Rightarrow>
                if hd c1 = CHR ''-'' then
                  (case getEsc (tl c1) of
                     None \<Rightarrow> None
                   | Some (hi, c2) \<Rightarrow> classRanges r True (matched \<or> (lo \<le> r \<and> r \<le> hi)) c2)
                else classRanges r True (matched \<or> lo = r) c1))"
  by pat_completeness auto
termination
proof (relation "measure (\<lambda>(r, s, m, chunk). length chunk)", goal_cases)
  case (2 r some_range matched chunk p lo c1 q hi c2)
  then show ?case
    using getEsc_length [of chunk lo c1] getEsc_length [of "tl c1" hi c2] by auto
qed (auto dest: getEsc_length)

declare classRanges.simps [simp del]

lemma classRanges_length: "classRanges r sr m chunk = Some (b, rest) \<Longrightarrow> length rest < length chunk"
proof (induction r sr m chunk rule: classRanges.induct)
  case (1 r sr m chunk)
  show ?case
  proof (cases "chunk \<noteq> [] \<and> hd chunk = CHR '']'' \<and> sr")
    case True
    with 1(3) show ?thesis by (subst (asm) classRanges.simps) (auto simp: neq_Nil_conv)
  next
    case False
    then obtain lo c1 where g: "getEsc chunk = Some (lo, c1)"
      using 1(3) by (subst (asm) classRanges.simps) (auto split: option.splits)
    note l1 = getEsc_length [OF g]
    show ?thesis
    proof (cases "hd c1 = CHR ''-''")
      case True
      then obtain hi c2 where h: "getEsc (tl c1) = Some (hi, c2)"
        and r: "classRanges r True (m \<or> (lo \<le> r \<and> r \<le> hi)) c2 = Some (b, rest)"
        using 1(3) False g by (subst (asm) classRanges.simps) (auto split: option.splits)
      show ?thesis
        using 1(1) [OF False g refl True h refl r] l1 getEsc_length [OF h] by simp
    next
      case no: False
      then have "classRanges r True (m \<or> lo = r) c1 = Some (b, rest)"
        using 1(3) False g by (subst (asm) classRanges.simps) auto
      then show ?thesis using 1(2) [OF False g refl no] l1 by simp
    qed
  qed
qed

text \<open>
  A chunk against the front of the name. Once the match has failed the rest of the chunk is still
  checked for syntax; \<open>Some None\<close> is a well-formed chunk that does not match.
\<close>

function matchChunk :: "bool \<Rightarrow> string \<Rightarrow> string \<Rightarrow> string option option" where
  "matchChunk failed [] s = Some (if failed then None else Some s)"
| "matchChunk failed (c # cs) s =
     (let f = (failed \<or> s = []) in
      if c = CHR ''['' then
        (let negated = (cs \<noteq> [] \<and> hd cs = CHR ''^'');
             body = (if negated then tl cs else cs)
         in case classRanges (if f then CHR 0x00 else hd s) False False body of
              None \<Rightarrow> None
            | Some (m, rest) \<Rightarrow> matchChunk (f \<or> m = negated) rest (if f then s else tl s))
      else if c = CHR ''?'' then
        matchChunk (f \<or> hd s = slash) cs (if f then s else tl s)
      else if c = backslash then
        (case cs of
           [] \<Rightarrow> None
         | d # ds \<Rightarrow> matchChunk (f \<or> d \<noteq> hd s) ds (if f then s else tl s))
      else matchChunk (f \<or> c \<noteq> hd s) cs (if f then s else tl s))"
  by pat_completeness auto
termination
  by (relation "measure (\<lambda>(f, chunk, s). length chunk)") (auto dest!: classRanges_length split: if_splits)

section \<open>Match\<close>

text \<open>The positions a star may skip to.\<close>

fun starSkips :: "string \<Rightarrow> string list" where
  "starSkips [] = []"
| "starSkips (c # cs) = (if c = slash then [] else cs # starSkips cs)"

text \<open>The first position at which the chunk matches (the whole rest, if it is the last chunk).\<close>

fun firstSkip :: "string \<Rightarrow> bool \<Rightarrow> string list \<Rightarrow> string option option" where
  "firstSkip chunk isLast [] = Some None"
| "firstSkip chunk isLast (n # ns) =
     (case matchChunk False chunk n of
        None \<Rightarrow> None
      | Some (Some t) \<Rightarrow> if isLast \<and> t \<noteq> [] then firstSkip chunk isLast ns else Some (Some t)
      | Some None \<Rightarrow> firstSkip chunk isLast ns)"

declare scan_body.simps(2) [simp del]

lemma scan_body_append: "scan_body inrange p = (a, b) \<Longrightarrow> p = a @ b"
proof (induction "length p" arbitrary: inrange p a b rule: less_induct)
  case less
  have IH: "scan_body r q = (x, y) \<Longrightarrow> length q < length p \<Longrightarrow> q = x @ y" for r q x y
    using less.hyps by blast
  show ?case
  proof (cases p)
    case (Cons c cs)
    obtain x1 y1 where s1: "scan_body inrange (tl cs) = (x1, y1)" by (rule prod.exhaust)
    obtain x2 y2 where s2: "scan_body True cs = (x2, y2)" by (rule prod.exhaust)
    obtain x3 y3 where s3: "scan_body False cs = (x3, y3)" by (rule prod.exhaust)
    obtain x4 y4 where s4: "scan_body inrange cs = (x4, y4)" by (rule prod.exhaust)
    note s = s1 s2 s3 s4
    have e: "cs \<noteq> [] \<Longrightarrow> x1 @ y1 = tl cs" "x2 @ y2 = cs" "x3 @ y3 = cs" "x4 @ y4 = cs"
      using IH [OF s(1)] IH [OF s(2)] IH [OF s(3)] IH [OF s(4)] Cons by simp_all
    have "(a, b) = (if c = backslash then (if cs = [] then ([c], []) else (c # hd cs # x1, y1))
        else if c = CHR ''['' then (c # x2, y2) else if c = CHR '']'' then (c # x3, y3)
        else if c = CHR ''*'' \<and> \<not> inrange then ([], c # cs) else (c # x4, y4))"
      using less.prems s unfolding Cons by (cases cs) (auto simp: scan_body.simps(2) [of inrange c] split: if_splits)
    then show ?thesis
      using e unfolding Cons by (cases "cs = []") (simp_all split: if_splits)
  qed (use less.prems in simp)
qed

lemma scan_body_first:
  assumes "p \<noteq> []" "hd p \<noteq> CHR ''*''" "scan_body False p = (a, b)"
  shows "a \<noteq> []"
proof (cases p)
  case (Cons c cs)
  show ?thesis
    using assms(2,3) unfolding Cons
    by (subst (asm) scan_body.simps(2)) (auto split: prod.splits list.splits if_splits)
qed (use assms in simp)

lemma scanChunk_shorter:
  assumes "p \<noteq> []" "scanChunk p = (star, chunk, rest)"
  shows "length rest < length p"
proof -
  let ?q = "dropWhile (\<lambda>c. c = CHR ''*'') p" and ?t = "takeWhile (\<lambda>c. c = CHR ''*'') p"
  have sb: "scan_body False ?q = (chunk, rest)" using assms(2) by (auto simp: scanChunk_def Let_def)
  have len: "length p = length ?t + length chunk + length rest"
    using scan_body_append [OF sb] by (metis length_append takeWhile_dropWhile_id add.assoc)
  have "chunk \<noteq> []" if "?t = []"
  proof -
    have q: "?q = p" using that by (metis append_Nil takeWhile_dropWhile_id)
    moreover have "hd p \<noteq> CHR ''*''" using that assms(1) by (cases p) (auto split: if_splits)
    ultimately show ?thesis using scan_body_first [OF assms(1) _ sb [unfolded q]] by simp
  qed
  then show ?thesis using len by (cases "?t = []") (auto simp del: takeWhile_eq_Nil_iff)
qed

text \<open>The syntax check of the chunks that are left once the answer is no.\<close>

function checkRest :: "string \<Rightarrow> bool" where
  "checkRest p =
     (if p = [] then True
      else (case scanChunk p of (star, chunk, rest) \<Rightarrow> matchChunk False chunk [] \<noteq> None \<and> checkRest rest))"
  by pat_completeness auto
termination
  by (relation "measure length") (auto dest: scanChunk_shorter [OF _ sym])

function filepath_Match :: "string \<Rightarrow> string \<Rightarrow> bool option" where
  "filepath_Match p name =
     (if p = [] then Some (name = [])
      else (case scanChunk p of
              (star, chunk, rest) \<Rightarrow>
                if star \<and> chunk = [] then Some (slash \<notin> set name)
                else (case matchChunk False chunk name of
                        None \<Rightarrow> None
                      | Some m \<Rightarrow>
                          (if m \<noteq> None \<and> (the m = [] \<or> rest \<noteq> []) then filepath_Match rest (the m)
                           else if \<not> star then (if checkRest rest then Some False else None)
                           else (case firstSkip chunk (rest = []) (starSkips name) of
                                   None \<Rightarrow> None
                                 | Some (Some t) \<Rightarrow> filepath_Match rest t
                                 | Some None \<Rightarrow> if checkRest rest then Some False else None)))))"
  by pat_completeness auto
termination
  by (relation "measure (\<lambda>(p, n). length p)") (auto dest: scanChunk_shorter [OF _ sym])

declare checkRest.simps [simp del] filepath_Match.simps [simp del]

lemma Match_star: "filepath_Match ''*'' name = Some (slash \<notin> set name)"
  by (subst filepath_Match.simps) (simp add: scanChunk_def)

end
