(* ===== verification/HostFs.thy ===== *)
theory HostFs
  imports ApiTypes GlobMatch
begin

text \<open>
  The file system of the node as the code sees it through packages \<^verbatim>\<open>os\<close> and \<^verbatim>\<open>path/filepath\<close>: a
  finite tree of directories, regular files, block devices and symbolic links, with the calls the
  reconcilers make: EvalSymlinks, Lstat, Stat, Readlink, Symlink, Rename, Remove, MkdirAll and Glob.
  A path is resolved component by component from the root; the root itself always exists. Relative
  paths are resolved from the root, the working directory of the container. Renaming a directory is left
  out: the code renames symbolic links only.
\<close>

datatype inode = Dir | Reg | Blk | Sym string

type_synonym fs = "(string list \<times> inode) list"

definition comps :: "string \<Rightarrow> string list" where
  "comps p = filter (\<lambda>c. c \<noteq> '''' \<and> c \<noteq> ''.'') (split_char slash p)"

definition path_of :: "string list \<Rightarrow> string" where
  "path_of cs = slash # join_str ''/'' cs"

definition node_at :: "fs \<Rightarrow> string list \<Rightarrow> inode option" where
  "node_at f cs = (if cs = [] then Some Dir else map_of f cs)"

section \<open>Path resolution\<close>

text \<open>
  \<^verbatim>\<open>walkSymlinks\<close>: the links that may still be followed, the components already resolved (last
  first) and the components to do. A link is replaced by its components; the 256th link is an error.
\<close>

function walk :: "fs \<Rightarrow> nat \<Rightarrow> string list \<Rightarrow> string list \<Rightarrow> string list result" where
  "walk f links acc [] = Inr (rev acc)"
| "walk f links acc (c # cs) =
     (if c = ''..'' then walk f links (tl acc) cs
      else case node_at f (rev (c # acc)) of
             None \<Rightarrow> Inl (NotExist (''lstat '' @ path_of (rev (c # acc)) @ '': no such file or directory''))
           | Some (Sym t) \<Rightarrow>
               (if links = 0 then Inl (Errorf ''EvalSymlinks: too many links'')
                else walk f (links - 1) (if has_prefix t ''/'' then [] else acc) (comps t @ cs))
           | Some Dir \<Rightarrow> walk f links (c # acc) cs
           | Some _ \<Rightarrow> if cs = [] then Inr (rev (c # acc)) else Inl (Errorf ''not a directory''))"
  by pat_completeness auto
termination
  by (relation "measures [\<lambda>(f, links, acc, cs). links, \<lambda>(f, links, acc, cs). length cs]") auto

definition max_links :: nat where "max_links = 255"

definition EvalSymlinks :: "fs \<Rightarrow> string \<Rightarrow> string result" where
  "EvalSymlinks f p =
     (if p = [] then Inr ''.''
      else case walk f max_links [] (comps p) of Inl e \<Rightarrow> Inl e | Inr cs \<Rightarrow> Inr (path_of cs))"

text \<open>The directory a call works in, and the entry it names there.\<close>

definition parent_entry :: "fs \<Rightarrow> string \<Rightarrow> string list result" where
  "parent_entry f p =
     (if comps p = [] then Inl (Errorf ''invalid argument'')
      else case walk f max_links [] (butlast (comps p)) of
             Inl e \<Rightarrow> Inl e
           | Inr d \<Rightarrow> if node_at f d = Some Dir then Inr (d @ [last (comps p)])
                      else Inl (Errorf ''not a directory''))"

definition Lstat :: "fs \<Rightarrow> string \<Rightarrow> inode result" where
  "Lstat f p =
     (case parent_entry f p of
        Inl e \<Rightarrow> Inl e
      | Inr q \<Rightarrow> (case node_at f q of
                    None \<Rightarrow> Inl (NotExist (''lstat '' @ p @ '': no such file or directory''))
                  | Some i \<Rightarrow> Inr i))"

definition Stat :: "fs \<Rightarrow> string \<Rightarrow> inode result" where
  "Stat f p =
     (case walk f max_links [] (comps p) of
        Inl e \<Rightarrow> Inl e
      | Inr q \<Rightarrow> (case node_at f q of
                    None \<Rightarrow> Inl (NotExist (''stat '' @ p @ '': no such file or directory''))
                  | Some i \<Rightarrow> Inr i))"

definition os_Readlink :: "fs \<Rightarrow> string \<Rightarrow> string result" where
  "os_Readlink f p =
     (case Lstat f p of
        Inl e \<Rightarrow> Inl e
      | Inr (Sym t) \<Rightarrow> Inr t
      | Inr _ \<Rightarrow> Inl (Errorf (''readlink '' @ p @ '': invalid argument'')))"

section \<open>Changes\<close>

definition os_Symlink :: "fs \<Rightarrow> string \<Rightarrow> string \<Rightarrow> fs result" where
  "os_Symlink f oldname newname =
     (case parent_entry f newname of
        Inl e \<Rightarrow> Inl e
      | Inr q \<Rightarrow> if node_at f q \<noteq> None then Inl (FileExists (''symlink '' @ newname @ '': file exists''))
                 else Inr (AList.update q (Sym oldname) f))"

definition os_Rename :: "fs \<Rightarrow> string \<Rightarrow> string \<Rightarrow> fs result" where
  "os_Rename f oldpath newpath =
     (case parent_entry f oldpath of
        Inl e \<Rightarrow> Inl e
      | Inr a \<Rightarrow>
          (case parent_entry f newpath of
             Inl e \<Rightarrow> Inl e
           | Inr b \<Rightarrow>
               (case node_at f a of
                  None \<Rightarrow> Inl (NotExist (''rename '' @ oldpath @ '': no such file or directory''))
                | Some Dir \<Rightarrow> Inl (Errorf ''rename of a directory'')
                | Some i \<Rightarrow>
                    if node_at f b = Some Dir then Inl (FileExists (''rename '' @ newpath @ '': file exists''))
                    else if a = b then Inr f
                    else Inr (AList.update b i (AList.delete a f)))))"

definition has_children :: "fs \<Rightarrow> string list \<Rightarrow> bool" where
  "has_children f d = list_ex (\<lambda>(q, i). q \<noteq> [] \<and> butlast q = d) f"

definition os_Remove :: "fs \<Rightarrow> string \<Rightarrow> fs result" where
  "os_Remove f p =
     (case parent_entry f p of
        Inl e \<Rightarrow> Inl e
      | Inr q \<Rightarrow>
          (case node_at f q of
             None \<Rightarrow> Inl (NotExist (''remove '' @ p @ '': no such file or directory''))
           | Some Dir \<Rightarrow> if has_children f q then Inl ENOTEMPTY else Inr (AList.delete q f)
           | Some _ \<Rightarrow> Inr (AList.delete q f)))"

text \<open>\<^verbatim>\<open>MkdirAll\<close> creates the missing directories from the root down.\<close>

fun mkdirs :: "fs \<Rightarrow> string list \<Rightarrow> string list \<Rightarrow> fs result" where
  "mkdirs f acc [] = Inr f"
| "mkdirs f acc (c # cs) =
     (case walk f max_links [] (acc @ [c]) of
        Inr d \<Rightarrow> if node_at f d = Some Dir then mkdirs f (acc @ [c]) cs
                 else Inl (Errorf ''not a directory'')
      | Inl e \<Rightarrow>
          if os_IsNotExist e then
            (case parent_entry f (path_of (acc @ [c])) of
               Inl e' \<Rightarrow> Inl e'
             | Inr q \<Rightarrow> if node_at f q \<noteq> None then Inl (FileExists ''file exists'')
                        else mkdirs (AList.update q Dir f) (acc @ [c]) cs)
          else Inl e)"

definition os_MkdirAll :: "fs \<Rightarrow> string \<Rightarrow> fs result" where
  "os_MkdirAll f p = mkdirs f [] (comps p)"

section \<open>Glob\<close>

definition has_meta :: "string \<Rightarrow> bool" where
  "has_meta p = list_ex (\<lambda>c. c \<in> {CHR ''*'', CHR ''?'', CHR ''['', backslash}) p"

text \<open>The entries of one directory that match, sorted; a directory that cannot be read has none.\<close>

definition dir_names :: "fs \<Rightarrow> string list \<Rightarrow> string list" where
  "dir_names f d = sort (remdups (map (\<lambda>(q, i). last q) (filter (\<lambda>(q, i). q \<noteq> [] \<and> butlast q = d) f)))"

definition glob_dir :: "fs \<Rightarrow> string \<Rightarrow> string \<Rightarrow> string list" where
  "glob_dir f pattern d =
     (case walk f max_links [] (comps d) of
        Inl e \<Rightarrow> []
      | Inr q \<Rightarrow> if node_at f q \<noteq> Some Dir then []
                 else map (\<lambda>n. path_join [d, n])
                        (filter (\<lambda>n. filepath_Match pattern n = Some True) (dir_names f q)))"

text \<open>
  \<^verbatim>\<open>filepath.Glob\<close>: the directory part up to the first component with a special character is taken
  as it is, every further component is matched in the directories found so far.
\<close>

definition Glob :: "fs \<Rightarrow> string \<Rightarrow> string list result" where
  "Glob f pattern =
     (if filepath_Match pattern [] = None then Inl (Errorf ''syntax error in pattern'')
      else if \<not> has_meta pattern then
        Inr (case Lstat f pattern of Inl e \<Rightarrow> [] | Inr i \<Rightarrow> [pattern])
      else let cs = comps pattern;
               pre = takeWhile (\<lambda>c. \<not> has_meta c) cs;
               rest = dropWhile (\<lambda>c. \<not> has_meta c) cs
           in Inr (fold (\<lambda>c ds. concat (map (glob_dir f c) ds)) rest [path_of pre]))"

section \<open>Lemmas on a plain directory\<close>

text \<open>All components of the path are directories or absent links: resolving it changes nothing.\<close>

definition plain_dir :: "fs \<Rightarrow> string list \<Rightarrow> bool" where
  "plain_dir f cs \<longleftrightarrow> list_all (\<lambda>n. node_at f (take n cs) = Some Dir) [0..<Suc (length cs)] \<and> ''..'' \<notin> set cs"

lemma plain_dir_iff:
  "plain_dir f cs \<longleftrightarrow> (\<forall>n \<le> length cs. node_at f (take n cs) = Some Dir) \<and> ''..'' \<notin> set cs"
  unfolding plain_dir_def list_all_iff by (auto simp: less_Suc_eq_le simp del: upt_Suc)

lemma plain_dirD: "plain_dir f cs \<Longrightarrow> n \<le> length cs \<Longrightarrow> node_at f (take n cs) = Some Dir"
  by (simp add: plain_dir_iff)

lemma walk_plain_aux:
  assumes "plain_dir f cs" "n \<le> length cs"
  shows "walk f links (rev (take n cs)) (drop n cs @ rest) = walk f links (rev cs) rest"
  using assms(2)
proof (induction n rule: inc_induct)
  case (step n)
  have d: "node_at f (take (Suc n) cs) = Some Dir" "cs ! n \<noteq> ''..''"
    using plain_dirD [OF assms(1), of "Suc n"] step assms(1)
    by (auto simp: plain_dir_def dest: nth_mem)
  have "walk f links (rev (take n cs)) (cs ! n # (drop (Suc n) cs @ rest))
      = walk f links (rev (take (Suc n) cs)) (drop (Suc n) cs @ rest)"
    using d step by (simp add: take_Suc_conv_app_nth)
  then show ?case using step by (simp add: Cons_nth_drop_Suc [symmetric])
qed simp

lemma walk_plain: "plain_dir f cs \<Longrightarrow> walk f links [] (cs @ rest) = walk f links (rev cs) rest"
  using walk_plain_aux [of f cs 0 links rest] by simp

lemma walk_plain_dir: "plain_dir f cs \<Longrightarrow> walk f links [] cs = Inr cs"
  using walk_plain [of f cs links "[]"] by simp

lemma plain_dir_node: "plain_dir f cs \<Longrightarrow> node_at f cs = Some Dir"
  using plain_dirD [of f cs "length cs"] by simp

lemma parent_entry_plain:
  assumes "plain_dir f (butlast (comps p))" "comps p \<noteq> []"
  shows "parent_entry f p = Inr (comps p)"
  using assms walk_plain_dir [OF assms(1)] plain_dir_node [OF assms(1)]
  by (simp add: parent_entry_def)

lemma plain_dir_cong:
  "(\<And>n. n \<le> length cs \<Longrightarrow> node_at g (take n cs) = node_at f (take n cs)) \<Longrightarrow> plain_dir f cs \<Longrightarrow> plain_dir g cs"
  by (simp add: plain_dir_iff)

lemma node_at_update: "q \<noteq> [] \<Longrightarrow> node_at (AList.update q i f) r = (if r = q then Some i else node_at f r)"
  by (simp add: node_at_def)

lemma node_at_delete: "q \<noteq> [] \<Longrightarrow> node_at (AList.delete q f) r = (if r = q then None else node_at f r)"
  by (simp add: node_at_def)

lemma plain_dir_update:
  "plain_dir f cs \<Longrightarrow> q \<noteq> [] \<Longrightarrow> length cs < length q \<Longrightarrow> plain_dir (AList.update q i f) cs"
  by (rule plain_dir_cong [of cs _ f]) (auto simp: node_at_update)

lemma plain_dir_delete:
  "plain_dir f cs \<Longrightarrow> q \<noteq> [] \<Longrightarrow> length cs < length q \<Longrightarrow> plain_dir (AList.delete q f) cs"
  by (rule plain_dir_cong [of cs _ f]) (auto simp: node_at_delete)


section \<open>Paths written out\<close>

definition good_comps :: "string list \<Rightarrow> bool" where
  "good_comps cs \<longleftrightarrow> list_all (\<lambda>c. c \<noteq> '''' \<and> c \<noteq> ''.'' \<and> c \<noteq> ''..'' \<and> slash \<notin> set c) cs"

lemma good_comps_append [simp]: "good_comps (xs @ ys) \<longleftrightarrow> good_comps xs \<and> good_comps ys"
  by (simp add: good_comps_def)

lemma good_comps_Cons: "good_comps (x # xs) \<longleftrightarrow>
    x \<noteq> '''' \<and> x \<noteq> ''.'' \<and> x \<noteq> ''..'' \<and> slash \<notin> set x \<and> good_comps xs"
  by (auto simp: good_comps_def)

lemma split_join:
  "good_comps cs \<Longrightarrow> cs \<noteq> [] \<Longrightarrow> split_char slash (join_str ''/'' cs) = cs"
proof (induction "''/''" cs rule: join_str.induct)
  case (2 w)
  then show ?case by (simp add: good_comps_Cons split_char_no_sep)
next
  case (3 w v ws)
  then show ?case
    using split_char_append [of slash w "join_str ''/'' (v # ws)"]
    by (simp add: good_comps_Cons split_char_no_sep)
qed simp

lemma split_path_of:
  "good_comps cs \<Longrightarrow> split_char slash (path_of cs) = '''' # (if cs = [] then [''''] else cs)"
  by (cases "cs = []") (simp_all add: path_of_def split_join)

lemma filter_good: "good_comps cs \<Longrightarrow> filter (\<lambda>c. c \<noteq> '''' \<and> c \<noteq> ''.'') cs = cs"
  by (auto simp: good_comps_def list_all_iff intro!: filter_True)

lemma comps_path_of [simp]: "good_comps cs \<Longrightarrow> comps (path_of cs) = cs"
  by (simp add: comps_def split_path_of filter_good)

lemma clean_comps_good:
  "good_comps cs \<Longrightarrow> clean_comps rooted acc (cs @ rest) = clean_comps rooted (rev cs @ acc) rest"
  by (induction cs arbitrary: acc) (auto simp: good_comps_Cons)

lemma join_append:
  "cs \<noteq> [] \<Longrightarrow> join_str ''/'' (cs @ [n]) = join_str ''/'' cs @ slash # n"
  by (induction "''/''" cs rule: join_str.induct) (auto simp: neq_Nil_conv)

lemma dir_path_of:
  assumes "good_comps (d @ [n])"
  shows "dir (path_of (d @ [n])) = path_of d"
proof -
  have n: "slash \<notin> set n" using assms by (simp add: good_comps_Cons)
  let ?pre = "if d = [] then [] else path_of d"
  have p: "path_of (d @ [n]) = ?pre @ slash # n"
    by (simp add: path_of_def join_append)
  have "rev (dropWhile (\<lambda>c. c \<noteq> slash) (rev (path_of (d @ [n])))) = ?pre @ [slash]"
    using dropWhile_no_slash [OF n, of "slash # rev ?pre"] unfolding p by simp
  moreover have "clean (?pre @ [slash]) = path_of d"
  proof (cases "d = []")
    case True
    then show ?thesis by (simp add: clean_def path_of_def)
  next
    case False
    have "split_char slash (path_of d @ [slash]) = '''' # d @ ['''']"
      using assms False split_char_append [of slash "path_of d" "[]"] by (simp add: split_path_of)
    then have "clean_comps True [] (split_char slash (path_of d @ [slash])) = d"
      using assms clean_comps_good [of d True "[]" "['''']"] by simp
    then show ?thesis using False by (simp add: clean_def path_of_def)
  qed
  ultimately show ?thesis by (simp add: dir_def)
qed

section \<open>Calls on an entry of a plain directory\<close>

lemma plain_dir_prefix: "plain_dir f (d @ e) \<Longrightarrow> plain_dir f d"
  unfolding plain_dir_iff
  by (auto simp: take_append) (metis append_Nil2 diff_is_0_eq le_add1 le_trans length_append take0 take_append)

lemma parent_entry_path_of:
  "plain_dir f d \<Longrightarrow> good_comps (d @ [n]) \<Longrightarrow> parent_entry f (path_of (d @ [n])) = Inr (d @ [n])"
  by (subst parent_entry_plain) auto

lemma Lstat_plain:
  "plain_dir f d \<Longrightarrow> good_comps (d @ [n]) \<Longrightarrow>
   Lstat f (path_of (d @ [n])) =
     (case node_at f (d @ [n]) of
        None \<Rightarrow> Inl (NotExist (''lstat '' @ path_of (d @ [n]) @ '': no such file or directory''))
      | Some i \<Rightarrow> Inr i)"
  by (simp add: Lstat_def parent_entry_path_of)

lemma os_Remove_plain:
  "plain_dir f d \<Longrightarrow> good_comps (d @ [n]) \<Longrightarrow>
   os_Remove f (path_of (d @ [n])) =
     (case node_at f (d @ [n]) of
        None \<Rightarrow> Inl (NotExist (''remove '' @ path_of (d @ [n]) @ '': no such file or directory''))
      | Some Dir \<Rightarrow> if has_children f (d @ [n]) then Inl ENOTEMPTY else Inr (AList.delete (d @ [n]) f)
      | Some _ \<Rightarrow> Inr (AList.delete (d @ [n]) f))"
  by (simp add: os_Remove_def parent_entry_path_of)

lemma os_Symlink_plain:
  "plain_dir f d \<Longrightarrow> good_comps (d @ [n]) \<Longrightarrow>
   os_Symlink f t (path_of (d @ [n])) =
     (if node_at f (d @ [n]) \<noteq> None then Inl (FileExists (''symlink '' @ path_of (d @ [n]) @ '': file exists''))
      else Inr (AList.update (d @ [n]) (Sym t) f))"
  by (simp add: os_Symlink_def parent_entry_path_of)

lemma no_children: "\<not> has_children f d \<Longrightarrow> r \<noteq> [] \<Longrightarrow> butlast r = d \<Longrightarrow> node_at f r = None"
  by (auto simp: has_children_def node_at_def list_ex_iff map_of_eq_None_iff)


lemma os_Rename_plain:
  assumes "plain_dir f d" "good_comps (d @ [m])" "good_comps (d @ [n])"
    and "node_at f (d @ [m]) = Some (Sym t)" "node_at f (d @ [n]) \<noteq> Some Dir" "m \<noteq> n"
  shows "os_Rename f (path_of (d @ [m])) (path_of (d @ [n]))
    = Inr (AList.update (d @ [n]) (Sym t) (AList.delete (d @ [m]) f))"
  using assms by (simp add: os_Rename_def parent_entry_path_of)

lemma path_of_suffix: "path_of (d @ [n]) @ s = path_of (d @ [n @ s])"
  by (cases "d = []") (simp_all add: path_of_def join_append)

end
