(* ===== verification/OwnerMap.thy ===== *)
theory OwnerMap
  imports ApiTypes
begin

text \<open>
  Model of \<^verbatim>\<open>pkg/common/storage_class_owner.go\<close>: the one-to-many association from a storage class to
  the objects that own it, through which one PV or StorageClass event wakes every owner. The inner
  Go map with empty values is a duplicate-free list; its iteration order is not fixed, so the laws
  speak of the set of owners. The mutex makes each operation atomic; the steps below are those
  atomic operations.
\<close>

type_synonym owner_map = "(string \<times> namespaced_name list) list"

definition GetStorageClassOwners :: "owner_map \<Rightarrow> string \<Rightarrow> namespaced_name list" where
  "GetStorageClassOwners m storageClass =
     (if length m < 1 then []
      else case map_of m storageClass of
             None \<Rightarrow> []
           | Some names \<Rightarrow> if length names < 1 then [] else names)"

definition RegisterStorageClassOwner :: "string \<Rightarrow> namespaced_name \<Rightarrow> owner_map \<Rightarrow> owner_map" where
  "RegisterStorageClassOwner storageClass name m0 =
     (let m = (if length m0 < 1 then [] else m0) in
      case map_of m storageClass of
        None \<Rightarrow> AList.update storageClass [name] m
      | Some names \<Rightarrow>
          if length names < 1 then AList.update storageClass [name] m
          else AList.update storageClass (List.insert name names) m)"

definition DeregisterStorageClassOwner :: "string \<Rightarrow> namespaced_name \<Rightarrow> owner_map \<Rightarrow> owner_map" where
  "DeregisterStorageClassOwner storageClass name m0 =
     (let m = (if length m0 < 1 then [] else m0) in
      case map_of m storageClass of
        None \<Rightarrow> m
      | Some names \<Rightarrow>
          if length names < 1 then m
          else AList.update storageClass (removeAll name names) m)"

text \<open>One entry per storage class, one entry per owner.\<close>

definition owner_map_ok :: "owner_map \<Rightarrow> bool" where
  "owner_map_ok m \<longleftrightarrow> wf_map m \<and> (\<forall>(sc, names) \<in> set m. distinct names)"

section \<open>The registry interface\<close>

datatype registry_op = Register string namespaced_name | Deregister string namespaced_name

text \<open>The registered pairs follow the history of operations.\<close>

primrec spec_op :: "registry_op \<Rightarrow> (string \<times> namespaced_name) set \<Rightarrow> (string \<times> namespaced_name) set" where
  "spec_op (Register sc n) S = insert (sc, n) S"
| "spec_op (Deregister sc n) S = S - {(sc, n)}"

text \<open>An operation that does not name the pair does not affect it; the last one that does decides.\<close>

definition names_pair :: "string \<Rightarrow> namespaced_name \<Rightarrow> registry_op \<Rightarrow> bool" where
  "names_pair sc n op \<longleftrightarrow> op = Register sc n \<or> op = Deregister sc n"

text \<open>What a registry promises: after an operation the pair is registered or not, the rest is as before.\<close>

locale owner_registry =
  fixes owners :: "'s \<Rightarrow> string \<Rightarrow> namespaced_name list"
    and register :: "string \<Rightarrow> namespaced_name \<Rightarrow> 's \<Rightarrow> 's"
    and deregister :: "string \<Rightarrow> namespaced_name \<Rightarrow> 's \<Rightarrow> 's"
    and empty :: 's
    and ok :: "'s \<Rightarrow> bool"
  assumes ok_empty: "ok empty"
    and ok_register: "ok s \<Longrightarrow> ok (register sc n s)"
    and ok_deregister: "ok s \<Longrightarrow> ok (deregister sc n s)"
    and owners_empty: "owners empty sc = []"
    and distinct_owners: "ok s \<Longrightarrow> distinct (owners s sc)"
    and owners_register: "ok s \<Longrightarrow>
      set (owners (register sc n s) sc') = (if sc' = sc then insert n (set (owners s sc)) else set (owners s sc'))"
    and owners_deregister: "ok s \<Longrightarrow>
      set (owners (deregister sc n s) sc') = (if sc' = sc then set (owners s sc) - {n} else set (owners s sc'))"
begin

primrec apply_op :: "registry_op \<Rightarrow> 's \<Rightarrow> 's" where
  "apply_op (Register sc n) s = register sc n s"
| "apply_op (Deregister sc n) s = deregister sc n s"

lemma ok_apply: "ok s \<Longrightarrow> ok (apply_op op s)"
  by (cases op) (auto simp: ok_register ok_deregister)

lemma ok_run: "ok s \<Longrightarrow> ok (fold apply_op ops s)"
  by (induction ops arbitrary: s) (auto simp: ok_apply)

definition pairs :: "'s \<Rightarrow> (string \<times> namespaced_name) set" where
  "pairs s = {(sc, n). n \<in> set (owners s sc)}"

lemma pairs_apply: "ok s \<Longrightarrow> pairs (apply_op op s) = spec_op op (pairs s)"
  by (cases op) (auto simp: pairs_def owners_register owners_deregister split: if_splits)

lemma pairs_run: "ok s \<Longrightarrow> pairs (fold apply_op ops s) = fold spec_op ops (pairs s)"
  by (induction ops arbitrary: s) (auto simp: pairs_apply ok_apply)

lemma last_op_decides:
  "(sc, n) \<in> fold spec_op ops S \<longleftrightarrow>
     (case filter (names_pair sc n) (rev ops) of
        [] \<Rightarrow> (sc, n) \<in> S
      | op # _ \<Rightarrow> op = Register sc n)"
proof (induction ops rule: rev_induct)
  case (snoc op ops)
  then show ?case by (cases op) (auto simp: names_pair_def)
qed simp

lemma owner_iff_last_register:
  "n \<in> set (owners (fold apply_op ops empty) sc) \<longleftrightarrow>
     (\<exists>rest. filter (names_pair sc n) (rev ops) = Register sc n # rest)"
  using pairs_run [OF ok_empty, of ops] last_op_decides [of sc n ops "pairs empty"]
  by (auto simp: pairs_def owners_empty split: list.splits)

end

lemma owner_map_ok_update:
  "owner_map_ok m \<Longrightarrow> distinct names \<Longrightarrow> owner_map_ok (AList.update sc names m)"
proof -
  assume "owner_map_ok m" "distinct names"
  moreover have "set (AList.update sc names m) \<subseteq> insert (sc, names) (set m)"
    by (induction m) auto
  ultimately show ?thesis by (auto simp: owner_map_ok_def)
qed

lemma owner_map_ok_lookup: "owner_map_ok m \<Longrightarrow> map_of m sc = Some names \<Longrightarrow> distinct names"
  by (auto simp: owner_map_ok_def dest: map_of_SomeD)

lemma GetStorageClassOwners_lookup:
  "GetStorageClassOwners m sc = (case map_of m sc of None \<Rightarrow> [] | Some names \<Rightarrow> names)"
  by (auto simp: GetStorageClassOwners_def split: option.splits)

interpretation scmap: owner_registry GetStorageClassOwners RegisterStorageClassOwner
  DeregisterStorageClassOwner "[]" owner_map_ok
proof
  fix s :: owner_map and sc n
  assume ok: "owner_map_ok s"
  show "owner_map_ok (RegisterStorageClassOwner sc n s)"
    using ok by (auto simp: RegisterStorageClassOwner_def Let_def intro!: owner_map_ok_update
        dest: owner_map_ok_lookup split: option.splits)
  show "owner_map_ok (DeregisterStorageClassOwner sc n s)"
    using ok by (auto simp: DeregisterStorageClassOwner_def Let_def intro!: owner_map_ok_update
        distinct_removeAll dest: owner_map_ok_lookup split: option.splits)
  show "distinct (GetStorageClassOwners s sc)"
    using ok by (auto simp: GetStorageClassOwners_lookup dest: owner_map_ok_lookup split: option.splits)
  fix sc'
  show "set (GetStorageClassOwners (RegisterStorageClassOwner sc n s) sc') =
      (if sc' = sc then insert n (set (GetStorageClassOwners s sc)) else set (GetStorageClassOwners s sc'))"
    by (auto simp: GetStorageClassOwners_lookup RegisterStorageClassOwner_def Let_def split: option.splits)
  show "set (GetStorageClassOwners (DeregisterStorageClassOwner sc n s) sc') =
      (if sc' = sc then set (GetStorageClassOwners s sc) - {n} else set (GetStorageClassOwners s sc'))"
    by (auto simp: GetStorageClassOwners_lookup DeregisterStorageClassOwner_def Let_def split: option.splits)
qed (auto simp: owner_map_ok_def GetStorageClassOwners_def)

text \<open>
  Whatever sequence of registrations and deregistrations the reconcilers issue, an object is
  returned as an owner of a storage class exactly when the last operation on that pair was a
  registration, and it is returned once.
\<close>

theorem storage_class_owners_history:
  "(n \<in> set (GetStorageClassOwners (fold scmap.apply_op ops []) sc) \<longleftrightarrow>
      (\<exists>rest. filter (names_pair sc n) (rev ops) = Register sc n # rest))
   \<and> distinct (GetStorageClassOwners (fold scmap.apply_op ops []) sc)"
  using scmap.owner_iff_last_register scmap.distinct_owners [OF scmap.ok_run [OF scmap.ok_empty]] by blast

end
