(* ===== verification/LocalMetrics.thy ===== *)
theory LocalMetrics
  imports ApiTypes
begin

text \<open>
  The gauges of \<^verbatim>\<open>pkg/localmetrics/localmetrics.go\<close> and what \<^verbatim>\<open>GaugeVec\<close> of the Prometheus client does with them: a
  vector has one series for each tuple of label values. The functions that set a gauge are calls
  (\<open>metric_op\<close>), which the controllers log; \<open>apply_metric\<close> is their effect on the gauges of the process.
\<close>

section \<open>Vectors of gauges\<close>

record gauge_vec =
  gv_Name :: string
  gv_Labels :: "string list"

datatype metric_op =
    GaugeSet gauge_vec smap int    \<comment> \<open>\<^verbatim>\<open>vec.With(labels).Set(value)\<close>\<close>
  | GaugeDelete gauge_vec smap     \<comment> \<open>\<^verbatim>\<open>vec.Delete(labels)\<close>\<close>

text \<open>The value of each series: by the name of the vector and the label values in the order of its labels.\<close>

type_synonym gauges = "string \<Rightarrow> string list \<Rightarrow> int option"

text \<open>\<^verbatim>\<open>utf8.ValidString\<close>, on the bytes of a string.\<close>

definition utf8_cont :: "nat \<Rightarrow> bool" where
  "utf8_cont b \<longleftrightarrow> 0x80 \<le> b \<and> b \<le> 0xBF"

definition utf8_second :: "nat \<Rightarrow> (nat \<times> nat \<times> nat) option" where  \<comment> \<open>bounds of the second byte, and how many follow it\<close>
  "utf8_second b =
     (if 0xC2 \<le> b \<and> b \<le> 0xDF then Some (0x80, 0xBF, 0)
      else if b = 0xE0 then Some (0xA0, 0xBF, 1)
      else if b = 0xED then Some (0x80, 0x9F, 1)
      else if 0xE1 \<le> b \<and> b \<le> 0xEF then Some (0x80, 0xBF, 1)
      else if b = 0xF0 then Some (0x90, 0xBF, 2)
      else if 0xF1 \<le> b \<and> b \<le> 0xF3 then Some (0x80, 0xBF, 2)
      else if b = 0xF4 then Some (0x80, 0x8F, 2)
      else None)"

function valid_utf8 :: "nat list \<Rightarrow> bool" where
  "valid_utf8 [] \<longleftrightarrow> True"
| "valid_utf8 (b # bs) \<longleftrightarrow>
     (if b < 0x80 then valid_utf8 bs
      else (case utf8_second b of
              None \<Rightarrow> False
            | Some (lo, hi, n) \<Rightarrow>
                (case bs of
                   [] \<Rightarrow> False
                 | c # cs \<Rightarrow> lo \<le> c \<and> c \<le> hi \<and> n \<le> length cs \<and> list_all utf8_cont (take n cs) \<and> valid_utf8 (drop n cs))))"
  by pat_completeness auto
termination by (relation "measure length") auto

definition ValidString :: "string \<Rightarrow> bool" where
  "ValidString s = valid_utf8 (map of_char s)"

text \<open>The label values of a series; no value when the labels do not fit the vector (\<^verbatim>\<open>hashLabels\<close>).\<close>

definition labelValues :: "gauge_vec \<Rightarrow> smap \<Rightarrow> string list option" where
  "labelValues gv labels =
     (if length labels = length (gv_Labels gv) \<and> list_all (\<lambda>(n, v). ValidString v) labels
         \<and> list_all (\<lambda>l. map_of labels l \<noteq> None) (gv_Labels gv)
      then Some (map (\<lambda>l. the (map_of labels l)) (gv_Labels gv)) else None)"

text \<open>A series that does not exist yet starts at 0; labels that do not fit are a panic.\<close>

definition GaugeVec_With :: "gauge_vec \<Rightarrow> smap \<Rightarrow> gauges \<Rightarrow> (string list \<times> gauges) result" where
  "GaugeVec_With gv labels g =
     (case labelValues gv labels of
        None \<Rightarrow> Inl (Panic ''inconsistent labels'')
      | Some vs \<Rightarrow> Inr (vs, g(gv_Name gv := (g (gv_Name gv))(vs := Some (case g (gv_Name gv) vs of None \<Rightarrow> 0 | Some v \<Rightarrow> v)))))"

fun apply_metric :: "metric_op \<Rightarrow> gauges \<Rightarrow> gauges result" where
  "apply_metric (GaugeSet gv labels v) g =
     (case GaugeVec_With gv labels g of
        Inl e \<Rightarrow> Inl e
      | Inr (vs, g') \<Rightarrow> Inr (g'(gv_Name gv := (g' (gv_Name gv))(vs := Some v))))"
| "apply_metric (GaugeDelete gv labels) g =
     Inr (case labelValues gv labels of
            None \<Rightarrow> g
          | Some vs \<Rightarrow> g(gv_Name gv := (g (gv_Name gv))(vs := None)))"

section \<open>The gauges\<close>

definition metricDiscoveredDevicesByLocalVolumeDiscovery :: gauge_vec where
  "metricDiscoveredDevicesByLocalVolumeDiscovery = \<lparr>gv_Name = ''lso_discovery_disk_count'', gv_Labels = [''nodeName'']\<rparr>"
definition metricLocalVolumeSetProvisionedPVs :: gauge_vec where
  "metricLocalVolumeSetProvisionedPVs = \<lparr>gv_Name = ''lso_lvset_provisioned_PV_count'', gv_Labels = [''nodeName'', ''storageClass'']\<rparr>"
definition metricLocalVolumeSetUnmatchedDisks :: gauge_vec where
  "metricLocalVolumeSetUnmatchedDisks = \<lparr>gv_Name = ''lso_lvset_unmatched_disk_count'', gv_Labels = [''nodeName'', ''storageClass'']\<rparr>"
definition metricLocalVolumeSetOrphanedSymlinks :: gauge_vec where
  "metricLocalVolumeSetOrphanedSymlinks = \<lparr>gv_Name = ''lso_lvset_orphaned_symlink_count'', gv_Labels = [''nodeName'', ''storageClass'']\<rparr>"
definition metricLocalVolumeSetDeletionTimestamp :: gauge_vec where
  "metricLocalVolumeSetDeletionTimestamp = \<lparr>gv_Name = ''lso_lvset_deletion_timestamp'', gv_Labels = [''lvSetName'']\<rparr>"
definition metricLocalVolumeProvisionedPVs :: gauge_vec where
  "metricLocalVolumeProvisionedPVs = \<lparr>gv_Name = ''lso_lv_provisioned_PV_count'', gv_Labels = [''nodeName'', ''storageClass'']\<rparr>"
definition metricLocalVolumeOrphanedSymlinks :: gauge_vec where
  "metricLocalVolumeOrphanedSymlinks = \<lparr>gv_Name = ''lso_lv_orphaned_symlink_count'', gv_Labels = [''nodeName'', ''storageClass'']\<rparr>"
definition metricLocalVolumeMissingDevicePaths :: gauge_vec where
  "metricLocalVolumeMissingDevicePaths = \<lparr>gv_Name = ''lso_lv_missing_device_path_count'', gv_Labels = [''nodeName'', ''storageClass'']\<rparr>"

lemmas gauge_defs = metricDiscoveredDevicesByLocalVolumeDiscovery_def metricLocalVolumeSetProvisionedPVs_def
  metricLocalVolumeSetUnmatchedDisks_def metricLocalVolumeSetOrphanedSymlinks_def metricLocalVolumeSetDeletionTimestamp_def
  metricLocalVolumeProvisionedPVs_def metricLocalVolumeOrphanedSymlinks_def metricLocalVolumeMissingDevicePaths_def

definition LVDMetricsList :: "gauge_vec list" where
  "LVDMetricsList = [metricDiscoveredDevicesByLocalVolumeDiscovery]"

definition LVMetricsList :: "gauge_vec list" where
  "LVMetricsList =
     [metricLocalVolumeSetProvisionedPVs, metricLocalVolumeSetUnmatchedDisks, metricLocalVolumeSetOrphanedSymlinks,
      metricLocalVolumeSetDeletionTimestamp, metricLocalVolumeProvisionedPVs, metricLocalVolumeOrphanedSymlinks,
      metricLocalVolumeMissingDevicePaths]"

section \<open>The calls\<close>

definition SetDiscoveredDevicesMetrics :: "string \<Rightarrow> int \<Rightarrow> metric_op" where
  "SetDiscoveredDevicesMetrics nodeName deviceCount =
     GaugeSet metricDiscoveredDevicesByLocalVolumeDiscovery [(''nodeName'', nodeName)] deviceCount"

definition SetLVSProvisionedPVMetric :: "string \<Rightarrow> string \<Rightarrow> int \<Rightarrow> metric_op" where
  "SetLVSProvisionedPVMetric nodeName storageClassName n =
     GaugeSet metricLocalVolumeSetProvisionedPVs [(''nodeName'', nodeName), (''storageClass'', storageClassName)] n"

definition SetLVSUnmatchedDiskMetric :: "string \<Rightarrow> string \<Rightarrow> int \<Rightarrow> metric_op" where
  "SetLVSUnmatchedDiskMetric nodeName storageClassName n =
     GaugeSet metricLocalVolumeSetUnmatchedDisks [(''nodeName'', nodeName), (''storageClass'', storageClassName)] n"

definition SetLVSOrphanedSymlinksMetric :: "string \<Rightarrow> string \<Rightarrow> int \<Rightarrow> metric_op" where
  "SetLVSOrphanedSymlinksMetric nodeName storageClassName n =
     GaugeSet metricLocalVolumeSetOrphanedSymlinks [(''nodeName'', nodeName), (''storageClass'', storageClassName)] n"

definition SetLVSDeletionTimestampMetric :: "string \<Rightarrow> int \<Rightarrow> metric_op" where
  "SetLVSDeletionTimestampMetric lvSetName ts = GaugeSet metricLocalVolumeSetDeletionTimestamp [(''lvSetName'', lvSetName)] ts"

definition RemoveLVSDeletionTimestampMetric :: "string \<Rightarrow> metric_op" where
  "RemoveLVSDeletionTimestampMetric lvSetName = GaugeDelete metricLocalVolumeSetDeletionTimestamp [(''lvSetName'', lvSetName)]"

definition SetLVProvisionedPVMetric :: "string \<Rightarrow> string \<Rightarrow> int \<Rightarrow> metric_op" where
  "SetLVProvisionedPVMetric nodeName storageClassName n =
     GaugeSet metricLocalVolumeProvisionedPVs [(''nodeName'', nodeName), (''storageClass'', storageClassName)] n"

definition SetLVOrphanedSymlinksMetric :: "string \<Rightarrow> string \<Rightarrow> int \<Rightarrow> metric_op" where
  "SetLVOrphanedSymlinksMetric nodeName storageClassName n =
     GaugeSet metricLocalVolumeOrphanedSymlinks [(''nodeName'', nodeName), (''storageClass'', storageClassName)] n"

definition SetLVMissingDevicePathMetric :: "string \<Rightarrow> string \<Rightarrow> int \<Rightarrow> metric_op" where
  "SetLVMissingDevicePathMetric nodeName storageClassName n =
     GaugeSet metricLocalVolumeMissingDevicePaths [(''nodeName'', nodeName), (''storageClass'', storageClassName)] n"

lemmas metric_calls = SetDiscoveredDevicesMetrics_def SetLVSProvisionedPVMetric_def SetLVSUnmatchedDiskMetric_def
  SetLVSOrphanedSymlinksMetric_def SetLVSDeletionTimestampMetric_def RemoveLVSDeletionTimestampMetric_def
  SetLVProvisionedPVMetric_def SetLVOrphanedSymlinksMetric_def SetLVMissingDevicePathMetric_def

text \<open>The handles of single series; asking for one creates it.\<close>

definition LVMissingDevicePathGauge :: "string \<Rightarrow> string \<Rightarrow> gauges \<Rightarrow> (string list \<times> gauges) result" where
  "LVMissingDevicePathGauge nodeName storageClassName =
     GaugeVec_With metricLocalVolumeMissingDevicePaths [(''nodeName'', nodeName), (''storageClass'', storageClassName)]"

definition LVOrphanedSymlinksGauge :: "string \<Rightarrow> string \<Rightarrow> gauges \<Rightarrow> (string list \<times> gauges) result" where
  "LVOrphanedSymlinksGauge nodeName storageClassName =
     GaugeVec_With metricLocalVolumeOrphanedSymlinks [(''nodeName'', nodeName), (''storageClass'', storageClassName)]"

definition LVSOrphanedSymlinksGauge :: "string \<Rightarrow> string \<Rightarrow> gauges \<Rightarrow> (string list \<times> gauges) result" where
  "LVSOrphanedSymlinksGauge nodeName storageClassName =
     GaugeVec_With metricLocalVolumeSetOrphanedSymlinks [(''nodeName'', nodeName), (''storageClass'', storageClassName)]"

section \<open>Lemmas\<close>

text \<open>Strings of ASCII characters are valid.\<close>

lemma ascii_valid: "\<forall>c \<in> set s. of_char c < (128 :: nat) \<Longrightarrow> ValidString s"
  by (induction s) (auto simp: ValidString_def)

text \<open>A call whose labels are those of its vector.\<close>

fun op_gauge :: "metric_op \<Rightarrow> gauge_vec" where
  "op_gauge (GaugeSet gv labels v) = gv"
| "op_gauge (GaugeDelete gv labels) = gv"

fun op_labels :: "metric_op \<Rightarrow> smap" where
  "op_labels (GaugeSet gv labels v) = labels"
| "op_labels (GaugeDelete gv labels) = labels"

definition well_labelled :: "metric_op \<Rightarrow> bool" where
  "well_labelled op \<longleftrightarrow> map fst (op_labels op) = gv_Labels (op_gauge op) \<and> distinct (gv_Labels (op_gauge op))"

lemma map_of_fst: "distinct (map fst l) \<Longrightarrow> map (\<lambda>k. the (map_of l k)) (map fst l) = map snd l"
  by (auto simp: map_of_is_SomeI)

lemma labelValues_well:
  assumes "well_labelled op" "list_all (\<lambda>(n, v). ValidString v) (op_labels op)"
  shows "labelValues (op_gauge op) (op_labels op) = Some (map snd (op_labels op))"
proof -
  let ?l = "op_labels op"
  have keys: "gv_Labels (op_gauge op) = map fst ?l" "distinct (map fst ?l)" using assms(1) by (simp_all add: well_labelled_def)
  have "list_all (\<lambda>k. map_of ?l k \<noteq> None) (map fst ?l)" by (auto simp: list_all_iff map_of_eq_None_iff)
  with keys(2) assms(2) show ?thesis unfolding labelValues_def keys(1) map_of_fst [OF keys(2)] by simp
qed

text \<open>The effect of a well-labelled call: it changes one series of its vector and no other.\<close>

fun op_value :: "metric_op \<Rightarrow> int option" where
  "op_value (GaugeSet gv labels v) = Some v"
| "op_value (GaugeDelete gv labels) = None"

definition metric_effect :: "metric_op \<Rightarrow> gauges \<Rightarrow> gauges" where
  "metric_effect op g =
     g(gv_Name (op_gauge op) := (g (gv_Name (op_gauge op)))(map snd (op_labels op) := op_value op))"

lemma apply_well:
  assumes "well_labelled op" "list_all (\<lambda>(n, v). ValidString v) (op_labels op)"
  shows "apply_metric op g = Inr (metric_effect op g)"
  using labelValues_well [OF assms] by (cases op) (simp_all add: GaugeVec_With_def metric_effect_def)

end
