(* ===== verification/World.thy ===== *)
theory World
  imports LinkCache Naming HostFs OwnerMap LocalMetrics
begin

text \<open>
  The world a process of the system runs in: the diskmaker on a node and the operator in the cluster
  each have one, and use the parts they need. \<open>env\<close> is everything outside the program: the API server, the
  kernel's device tree, the commands it runs, the clock, the volume utilities of the provisioner
  library. Each of its fields is a function of a logical time, so any behaviour of these services,
  failures included, is an instance; the theorems hold for all of them. \<open>world\<close> is the state the
  program owns (the node's file system below the symlink directories, the caches, the reported
  events) with a log of the calls it made and a trace of the file system after each of its own
  changes. Every call takes one tick; at a tick the device tree may change under the program
  (\<open>e_udev\<close>).
\<close>

section \<open>Calls that change something outside\<close>

datatype api_write =
    CreatePV pv
  | UpdatePV pv
  | CreateLVDL lvdl
  | UpdateLVDLStatus lvdl
  | CreateStorageClass storage_class
  | UpdateStorageClass storage_class
  | DeleteStorageClass string
  | UpdateLocalVolume local_volume
  | UpdateLocalVolumeStatus local_volume
  | UpdateLocalVolumeSet local_volume_set
  | UpdateLocalVolumeSetStatus local_volume_set
  | CreateConfigMap config_map
  | UpdateConfigMap config_map
  | CreateDaemonSet daemonset
  | UpdateDaemonSet daemonset
  | DeleteDaemonSet namespaced_name
  | CreateMonitor monitor_kind monitor_object
  | UpdateMonitor monitor_kind monitor_object
  | DeleteMonitor monitor_kind namespaced_name
  | UpdateLocalVolumeDiscoveryStatus local_volume_discovery
  | CreateDiscoveryResult discovery_result
  | UpdateDiscoveryResultStatus discovery_result
  | DeleteDiscoveryResult namespaced_name

text \<open>\<open>OpWipe\<close> is the run of wipefs on a device.\<close>

datatype fs_op =
    OpSymlink string string
  | OpRename string string
  | OpRemove string
  | OpMkdirAll string
  | OpWipe string

datatype action =
    Api api_write "error option"
  | FsOp fs_op "error option"
  | DeletePVs
  | Event string string string string  \<comment> \<open>name of the object, type, reason, message\<close>
  | Metric metric_op

section \<open>Configuration read from the cluster\<close>

record mount_config =
  mc_HostDir :: string
  mc_MountDir :: string
  mc_VolumeMode :: volume_mode
  mc_FsType :: string

record node =
  n_Name :: string
  n_Labels :: smap

record runtime_config =
  rc_Name :: string
  rc_Node :: node
  rc_Namespace :: string
  rc_DiscoveryMap :: "(string \<times> mount_config) list"

section \<open>The environment\<close>

record env =
  e_udev :: "nat \<Rightarrow> fs \<Rightarrow> fs"
  e_osfault :: "nat \<Rightarrow> error option"
  e_evalfault :: "nat \<Rightarrow> string \<Rightarrow> error option"
  e_mountinfo :: "nat \<Rightarrow> string result"
  e_cmd :: "nat \<Rightarrow> string \<Rightarrow> string list \<Rightarrow> string \<times> error option"
  e_open :: "nat \<Rightarrow> string \<Rightarrow> int result"
  e_close :: "nat \<Rightarrow> error option"
  e_now :: "nat \<Rightarrow> time"
  e_uuid :: "nat \<Rightarrow> string"
  e_mounts :: "nat \<Rightarrow> string list result"
  e_volmode :: "nat \<Rightarrow> string \<Rightarrow> volume_mode result"
  e_blockcap :: "nat \<Rightarrow> string \<Rightarrow> int result"
  e_fscap :: "nat \<Rightarrow> string \<Rightarrow> int result"
  e_get_pv :: "nat \<Rightarrow> string \<Rightarrow> pv result"
  e_list_pv :: "nat \<Rightarrow> smap \<Rightarrow> pv list result"
  e_get_lvdl :: "nat \<Rightarrow> namespaced_name \<Rightarrow> lvdl result"
  e_get_lv :: "nat \<Rightarrow> namespaced_name \<Rightarrow> local_volume result"
  e_get_lvset :: "nat \<Rightarrow> namespaced_name \<Rightarrow> local_volume_set result"
  e_get_sc :: "nat \<Rightarrow> string \<Rightarrow> storage_class result"
  e_list_sc :: "nat \<Rightarrow> smap \<Rightarrow> storage_class list result"
  e_get_node :: "nat \<Rightarrow> string \<Rightarrow> node result"
  e_get_cm :: "nat \<Rightarrow> namespaced_name \<Rightarrow> config_map result"
  e_list_pv_class :: "nat \<Rightarrow> string \<Rightarrow> pv list result"  \<comment> \<open>by the field of the storage class\<close>
  e_list_lv :: "nat \<Rightarrow> string \<Rightarrow> local_volume list result"
  e_list_lvset :: "nat \<Rightarrow> string \<Rightarrow> local_volume_set list result"
  e_get_ds :: "nat \<Rightarrow> namespaced_name \<Rightarrow> daemonset result"
  e_list_ds :: "nat \<Rightarrow> string \<Rightarrow> daemonset list result"
  e_list_pods :: "nat \<Rightarrow> string list \<Rightarrow> string list result"  \<comment> \<open>pods whose app label is listed\<close>
  e_get_monitor :: "nat \<Rightarrow> monitor_kind \<Rightarrow> namespaced_name \<Rightarrow> monitor_object result"
  e_get_lvd :: "nat \<Rightarrow> namespaced_name \<Rightarrow> local_volume_discovery result"
  e_get_result :: "nat \<Rightarrow> namespaced_name \<Rightarrow> discovery_result result"
  e_list_results :: "nat \<Rightarrow> string \<Rightarrow> discovery_result list result"
  e_volconfig :: "smap \<Rightarrow> (string \<times> mount_config) list result"
  e_configdata :: "(string \<times> mount_config) list \<Rightarrow> smap result"
  e_ensure_meta :: "obj_meta \<Rightarrow> obj_meta \<Rightarrow> bool \<times> obj_meta"  \<comment> \<open>existing, required: changed, merged\<close>
  e_asset :: "string \<Rightarrow> string result"  \<comment> \<open>the embedded files\<close>
  e_read_sc :: "string \<Rightarrow> storage_class option"  \<comment> \<open>the decoders of manifests\<close>
  e_read_cm :: "string \<Rightarrow> config_map option"
  e_read_ds :: "string \<Rightarrow> daemonset option"
  e_read_monitor :: "monitor_kind \<Rightarrow> string \<Rightarrow> monitor_object result"
  e_get_apiserver :: "nat \<Rightarrow> string \<Rightarrow> api_server_config result"
  e_tls_profiles :: "string \<Rightarrow> tls_spec option"  \<comment> \<open>the named profiles, a table of the OpenShift API\<close>
  e_iana :: "string \<Rightarrow> string option"  \<comment> \<open>the IANA name of a cipher, a table of the operator library\<close>
  e_timestamp :: "time \<Rightarrow> string"  \<comment> \<open>RFC 3339\<close>
  e_getenv :: "string \<Rightarrow> string"
  e_quantity :: "string \<Rightarrow> int result"
  e_write :: "nat \<Rightarrow> api_write \<Rightarrow> error option"
  e_nodesel :: "smap \<Rightarrow> node_selector \<Rightarrow> bool result"
  e_nodename :: string  \<comment> \<open>the environment variable MY_NODE_NAME\<close>

section \<open>The state of the program\<close>

record world =
  w_clock :: nat
  w_fs :: fs
  w_trace :: "fs list"
  w_log :: "action list"
  w_links :: link_cache
  w_pvs :: pv_cache
  w_cacheSynced :: bool
  w_rc :: runtime_config
  w_reported :: "string list"
  w_ages :: "(string \<times> time) list"
  w_fastRequeue :: bool
  w_lvOwners :: owner_map
  w_lvsetOwners :: owner_map
  w_deletedStaticProvisioner :: bool
  w_deletedOrphanedServiceMonitor :: bool
  w_tlsConfig :: "(string \<times> json) list"
  w_disks :: "discovered_device list"

type_synonym 'a prog = "(world, 'a) state"

definition tick :: "env \<Rightarrow> world \<Rightarrow> world" where
  "tick E w = w\<lparr>w_clock := Suc (w_clock w), w_fs := e_udev E (w_clock w) (w_fs w)\<rparr>"

text \<open>A call that only reads: one tick, then an answer that may depend on the time and the state.\<close>

definition query :: "env \<Rightarrow> (nat \<Rightarrow> world \<Rightarrow> 'a) \<Rightarrow> 'a prog" where
  "query E f = State (\<lambda>w. let w1 = tick E w in (f (w_clock w) w1, w1))"

definition act :: "action \<Rightarrow> world \<Rightarrow> world" where
  "act a w = w\<lparr>w_log := a # w_log w\<rparr>"

definition api :: "env \<Rightarrow> api_write \<Rightarrow> error option prog" where
  "api E c = State (\<lambda>w. let w1 = tick E w; r = e_write E (w_clock w) c in (r, act (Api c r) w1))"

text \<open>
  A change of the file system fails with an injected fault or with the error of the call itself;
  only a successful one has an effect.
\<close>

definition fsop :: "env \<Rightarrow> fs_op \<Rightarrow> (fs \<Rightarrow> fs result) \<Rightarrow> error option prog" where
  "fsop E op f = State (\<lambda>w.
     let w1 = tick E w;
         r = (case e_osfault E (w_clock w) of Some e \<Rightarrow> Inl e | None \<Rightarrow> f (w_fs w1))
     in case r of
          Inl e \<Rightarrow> (Some e, act (FsOp op (Some e)) w1)
        | Inr g \<Rightarrow> (None, act (FsOp op None) (w1\<lparr>w_fs := g, w_trace := g # w_trace w1\<rparr>)))"

definition do_symlink :: "env \<Rightarrow> string \<Rightarrow> string \<Rightarrow> error option prog" where
  "do_symlink E src dst = fsop E (OpSymlink src dst) (\<lambda>f. os_Symlink f src dst)"

definition do_rename :: "env \<Rightarrow> string \<Rightarrow> string \<Rightarrow> error option prog" where
  "do_rename E a b = fsop E (OpRename a b) (\<lambda>f. os_Rename f a b)"

definition do_remove :: "env \<Rightarrow> string \<Rightarrow> error option prog" where
  "do_remove E p = fsop E (OpRemove p) (\<lambda>f. os_Remove f p)"

definition do_mkdirall :: "env \<Rightarrow> string \<Rightarrow> error option prog" where
  "do_mkdirall E p = fsop E (OpMkdirAll p) (\<lambda>f. os_MkdirAll f p)"

text \<open>Running wipefs changes no file of the model; its outcome is the command's.\<close>

definition do_wipe :: "env \<Rightarrow> string \<Rightarrow> error option prog" where
  "do_wipe E p = State (\<lambda>w.
     let w1 = tick E w; r = snd (e_cmd E (w_clock w) ''wipefs'' [''-a'', ''-f'', p])
     in (r, act (FsOp (OpWipe p) r) w1))"

text \<open>Reads that can fail for reasons of their own.\<close>

definition faulty :: "error option \<Rightarrow> 'a result \<Rightarrow> 'a result" where
  "faulty e r = (case e of Some x \<Rightarrow> Inl x | None \<Rightarrow> r)"

definition host_at :: "env \<Rightarrow> nat \<Rightarrow> world \<Rightarrow> host" where
  "host_at E t w =
     \<lparr>FilePathGlob = Glob (w_fs w),
      FilePathEvalSymLinks = (\<lambda>p. faulty (e_evalfault E t p) (EvalSymlinks (w_fs w) p)),
      Readlink = (\<lambda>p. faulty (e_evalfault E t p) (os_Readlink (w_fs w) p)),
      mountFile = e_mountinfo E t,
      CmdExecutor = e_cmd E t,
      OpenExclusive = e_open E t\<rparr>"

definition host_query :: "env \<Rightarrow> (host \<Rightarrow> 'a) \<Rightarrow> 'a prog" where
  "host_query E f = query E (\<lambda>t w. f (host_at E t w))"

definition do_lstat :: "env \<Rightarrow> string \<Rightarrow> inode result prog" where
  "do_lstat E p = query E (\<lambda>t w. faulty (e_osfault E t) (Lstat (w_fs w) p))"

definition do_stat :: "env \<Rightarrow> string \<Rightarrow> inode result prog" where
  "do_stat E p = query E (\<lambda>t w. faulty (e_osfault E t) (Stat (w_fs w) p))"

definition get_pv :: "env \<Rightarrow> string \<Rightarrow> pv result prog" where
  "get_pv E n = query E (\<lambda>t w. e_get_pv E t n)"

definition list_pv :: "env \<Rightarrow> smap \<Rightarrow> pv list result prog" where
  "list_pv E s = query E (\<lambda>t w. e_list_pv E t s)"

definition get_lvdl :: "env \<Rightarrow> namespaced_name \<Rightarrow> lvdl result prog" where
  "get_lvdl E n = query E (\<lambda>t w. e_get_lvdl E t n)"

definition get_lv :: "env \<Rightarrow> namespaced_name \<Rightarrow> local_volume result prog" where
  "get_lv E n = query E (\<lambda>t w. e_get_lv E t n)"

definition get_lvset :: "env \<Rightarrow> namespaced_name \<Rightarrow> local_volume_set result prog" where
  "get_lvset E n = query E (\<lambda>t w. e_get_lvset E t n)"

definition get_sc :: "env \<Rightarrow> string \<Rightarrow> storage_class result prog" where
  "get_sc E n = query E (\<lambda>t w. e_get_sc E t n)"

definition list_sc :: "env \<Rightarrow> smap \<Rightarrow> storage_class list result prog" where
  "list_sc E s = query E (\<lambda>t w. e_list_sc E t s)"

definition now :: "env \<Rightarrow> time prog" where
  "now E = query E (\<lambda>t w. e_now E t)"

definition record_event :: "string \<Rightarrow> string \<Rightarrow> string \<Rightarrow> string \<Rightarrow> unit prog" where
  "record_event obj ty reason msg = modify (act (Event obj ty reason msg))"

definition set_metric :: "metric_op \<Rightarrow> unit prog" where
  "set_metric m = modify (act (Metric m))"

definition write_through :: "lvdl \<Rightarrow> unit prog" where
  "write_through d = modify (\<lambda>w. w\<lparr>w_links := addOrUpdateLVDL d (w_links w)\<rparr>)"

section \<open>Sequencing with errors\<close>

text \<open>The Go idiom: stop at the first error.\<close>

definition bindE :: "'a result prog \<Rightarrow> ('a \<Rightarrow> 'b result prog) \<Rightarrow> 'b result prog" where
  "bindE m f = State_Monad.bind m (\<lambda>r. case r of Inl e \<Rightarrow> State_Monad.return (Inl e) | Inr v \<Rightarrow> f v)"

definition liftE :: "error option prog \<Rightarrow> unit result prog" where
  "liftE m = State_Monad.bind m (\<lambda>r. State_Monad.return (case r of None \<Rightarrow> Inr () | Some e \<Rightarrow> Inl e))"

definition wrapE :: "(error \<Rightarrow> error) \<Rightarrow> 'a result prog \<Rightarrow> 'a result prog" where
  "wrapE g m = State_Monad.bind m (\<lambda>r. State_Monad.return (case r of Inl e \<Rightarrow> Inl (g e) | Inr v \<Rightarrow> Inr v))"

text \<open>A loop over a list whose body may continue (\<open>None\<close>) or return from the function (\<open>Some r\<close>).\<close>

fun forM :: "'a list \<Rightarrow> ('a \<Rightarrow> 'r option prog) \<Rightarrow> 'r option prog" where
  "forM [] body = State_Monad.return None"
| "forM (x # xs) body =
     State_Monad.bind (body x) (\<lambda>r. case r of None \<Rightarrow> forM xs body | Some v \<Rightarrow> State_Monad.return (Some v))"

fun for_each :: "('a \<Rightarrow> unit prog) \<Rightarrow> 'a list \<Rightarrow> unit prog" where
  "for_each body [] = State_Monad.return ()"
| "for_each body (x # xs) = State_Monad.bind (body x) (\<lambda>_. for_each body xs)"


section \<open>Weakest preconditions of the calls\<close>

lemma wp_query [wp_simps]: "wp (query E f) Q = (\<lambda>w. Q (f (w_clock w) (tick E w)) (tick E w))"
  by (rule ext) (simp add: wp_def query_def Let_def)

lemma wp_api [wp_simps]:
  "wp (api E c) Q = (\<lambda>w. Q (e_write E (w_clock w) c) (act (Api c (e_write E (w_clock w) c)) (tick E w)))"
  by (rule ext) (simp add: wp_def api_def Let_def)

lemma wp_bindE [wp_simps]:
  "wp (bindE m f) Q = wp m (\<lambda>r. case r of Inl e \<Rightarrow> Q (Inl e) | Inr v \<Rightarrow> wp (f v) Q)"
  by (simp add: bindE_def wp_simps cong: sum.case_cong)

lemma wp_liftE [wp_simps]:
  "wp (liftE m) Q = wp m (\<lambda>r. Q (case r of None \<Rightarrow> Inr () | Some e \<Rightarrow> Inl e))"
  by (simp add: liftE_def wp_simps)

lemma wp_wrapE [wp_simps]:
  "wp (wrapE g m) Q = wp m (\<lambda>r. Q (case r of Inl e \<Rightarrow> Inl (g e) | Inr v \<Rightarrow> Inr v))"
  by (simp add: wrapE_def wp_simps)

lemma tick_simps [simp]:
  "w_clock (tick E w) = Suc (w_clock w)" "w_fs (tick E w) = e_udev E (w_clock w) (w_fs w)"
  "w_trace (tick E w) = w_trace w" "w_log (tick E w) = w_log w" "w_links (tick E w) = w_links w"
  "w_pvs (tick E w) = w_pvs w" "w_cacheSynced (tick E w) = w_cacheSynced w" "w_rc (tick E w) = w_rc w"
  "w_reported (tick E w) = w_reported w" "w_ages (tick E w) = w_ages w"
  "w_fastRequeue (tick E w) = w_fastRequeue w"
  "w_lvOwners (tick E w) = w_lvOwners w" "w_lvsetOwners (tick E w) = w_lvsetOwners w"
  "w_deletedStaticProvisioner (tick E w) = w_deletedStaticProvisioner w"
  "w_deletedOrphanedServiceMonitor (tick E w) = w_deletedOrphanedServiceMonitor w"
  "w_tlsConfig (tick E w) = w_tlsConfig w" "w_disks (tick E w) = w_disks w"
  by (simp_all add: tick_def)

lemma act_simps [simp]:
  "w_clock (act a w) = w_clock w" "w_fs (act a w) = w_fs w"
  "w_trace (act a w) = w_trace w" "w_log (act a w) = a # w_log w" "w_links (act a w) = w_links w"
  "w_pvs (act a w) = w_pvs w" "w_cacheSynced (act a w) = w_cacheSynced w" "w_rc (act a w) = w_rc w"
  "w_reported (act a w) = w_reported w" "w_ages (act a w) = w_ages w"
  "w_fastRequeue (act a w) = w_fastRequeue w"
  "w_lvOwners (act a w) = w_lvOwners w" "w_lvsetOwners (act a w) = w_lvsetOwners w"
  "w_deletedStaticProvisioner (act a w) = w_deletedStaticProvisioner w"
  "w_deletedOrphanedServiceMonitor (act a w) = w_deletedOrphanedServiceMonitor w"
  "w_tlsConfig (act a w) = w_tlsConfig w" "w_disks (act a w) = w_disks w"
  by (simp_all add: act_def)

lemmas query_defs =
  host_query_def do_lstat_def do_stat_def get_pv_def list_pv_def get_lvdl_def get_lv_def get_lvset_def
  get_sc_def list_sc_def now_def

lemmas fsop_defs = do_symlink_def do_rename_def do_remove_def do_mkdirall_def

section \<open>What every run of a program keeps\<close>

definition always :: "(world \<Rightarrow> world \<Rightarrow> bool) \<Rightarrow> 'a prog \<Rightarrow> bool" where
  "always R m \<longleftrightarrow> (\<forall>w. R w (snd (run_state m w)))"

lemma always_wp: "always R m \<Longrightarrow> wp m (\<lambda>r w'. R w w') w"
  by (metis always_def case_prod_unfold wp_def)

lemma always_run: "always R m \<Longrightarrow> run_state m w = (r, w') \<Longrightarrow> R w w'"
  by (metis always_def snd_conv)

text \<open>A reflexive and transitive relation between states is kept by a program when its calls keep it.\<close>

locale step_order =
  fixes R :: "world \<Rightarrow> world \<Rightarrow> bool"
  assumes R_refl: "R w w"
    and R_trans: "R w w' \<Longrightarrow> R w' w'' \<Longrightarrow> R w w''"
begin

lemma ret: "always R (State_Monad.return x)"
  by (simp add: always_def R_refl)

lemma bind: "always R m \<Longrightarrow> (\<And>x. always R (f x)) \<Longrightarrow> always R (State_Monad.bind m f)"
  unfolding always_def by (fastforce split: prod.splits intro: R_trans)

lemma pure_get: "always R (gets f)"
  by (simp add: always_def R_refl)

lemma cond: "(b \<Longrightarrow> always R m) \<Longrightarrow> (\<not> b \<Longrightarrow> always R n) \<Longrightarrow> always R (if b then m else n)"
  by simp

lemma sum_case:
  "(\<And>e. s = Inl e \<Longrightarrow> always R (f e)) \<Longrightarrow> (\<And>v. s = Inr v \<Longrightarrow> always R (g v)) \<Longrightarrow>
   always R (case s of Inl e \<Rightarrow> f e | Inr v \<Rightarrow> g v)"
  by (cases s) auto

lemma option_case:
  "(s = None \<Longrightarrow> always R f) \<Longrightarrow> (\<And>v. s = Some v \<Longrightarrow> always R (g v)) \<Longrightarrow>
   always R (case s of None \<Rightarrow> f | Some v \<Rightarrow> g v)"
  by (cases s) auto

lemma prod_case: "(\<And>a b. p = (a, b) \<Longrightarrow> always R (f a b)) \<Longrightarrow> always R (case p of (a, b) \<Rightarrow> f a b)"
  by (cases p) auto

lemma let_in: "(\<And>x. x = t \<Longrightarrow> always R (f x)) \<Longrightarrow> always R (let x = t in f x)"
  by simp

lemma bindE: "always R m \<Longrightarrow> (\<And>x. always R (f x)) \<Longrightarrow> always R (bindE m f)"
  unfolding bindE_def by (intro bind sum_case ret)

lemma liftE: "always R m \<Longrightarrow> always R (liftE m)"
  unfolding liftE_def by (intro bind ret)

lemma wrapE: "always R m \<Longrightarrow> always R (wrapE g m)"
  unfolding wrapE_def by (intro bind ret)

lemma forM: "(\<And>x. x \<in> set xs \<Longrightarrow> always R (body x)) \<Longrightarrow> always R (forM xs body)"
  by (induction xs) (auto intro!: bind option_case ret)

lemma for_each: "(\<And>x. x \<in> set xs \<Longrightarrow> always R (body x)) \<Longrightarrow> always R (for_each body xs)"
  by (induction xs) (auto intro!: bind ret)

lemmas rules = ret bind pure_get cond sum_case option_case prod_case let_in bindE liftE wrapE forM for_each

end

section \<open>The log grows by permitted actions only\<close>

definition log_ext :: "(action \<Rightarrow> bool) \<Rightarrow> world \<Rightarrow> world \<Rightarrow> bool" where
  "log_ext P w w' \<longleftrightarrow> (\<exists>new. w_log w' = new @ w_log w \<and> list_all P new)"

interpretation log: step_order "log_ext P" for P
proof
  fix w w' w''
  show "log_ext P w w" by (simp add: log_ext_def)
  assume "log_ext P w w'" "log_ext P w' w''"
  then obtain a b where "w_log w'' = (b @ a) @ w_log w" "list_all P (b @ a)"
    by (auto simp: log_ext_def)
  then show "log_ext P w w''" unfolding log_ext_def by blast
qed

lemma log_query [simp, intro]: "always (log_ext P) (query E f)"
  by (simp add: always_def query_def log_ext_def Let_def)

lemma log_queries [simp, intro]:
  "always (log_ext P) (host_query E g)" "always (log_ext P) (do_lstat E p)" "always (log_ext P) (do_stat E p)"
  "always (log_ext P) (get_pv E n)" "always (log_ext P) (list_pv E s)" "always (log_ext P) (get_lvdl E nn)"
  "always (log_ext P) (get_lv E nn)" "always (log_ext P) (get_lvset E nn)" "always (log_ext P) (get_sc E n)"
  "always (log_ext P) (list_sc E s)" "always (log_ext P) (now E)"
  by (simp_all add: query_defs)

lemma log_api [intro]: "(\<And>r. P (Api c r)) \<Longrightarrow> always (log_ext P) (api E c)"
  by (simp add: always_def api_def log_ext_def Let_def)

lemma log_fsop [intro]: "(\<And>r. P (FsOp op r)) \<Longrightarrow> always (log_ext P) (fsop E op f)"
  by (auto simp: always_def fsop_def log_ext_def Let_def split: option.splits sum.splits)

lemma log_fsops [intro]:
  "(\<And>r. P (FsOp (OpSymlink a b) r)) \<Longrightarrow> always (log_ext P) (do_symlink E a b)"
  "(\<And>r. P (FsOp (OpRename a b) r)) \<Longrightarrow> always (log_ext P) (do_rename E a b)"
  "(\<And>r. P (FsOp (OpRemove p) r)) \<Longrightarrow> always (log_ext P) (do_remove E p)"
  "(\<And>r. P (FsOp (OpMkdirAll p) r)) \<Longrightarrow> always (log_ext P) (do_mkdirall E p)"
  "(\<And>r. P (FsOp (OpWipe p) r)) \<Longrightarrow> always (log_ext P) (do_wipe E p)"
  unfolding fsop_defs by (auto intro: log_fsop) (auto simp: do_wipe_def always_def log_ext_def Let_def)

lemma log_event [intro]: "P (Event obj ty reason msg) \<Longrightarrow> always (log_ext P) (record_event obj ty reason msg)"
  by (simp add: always_def record_event_def log_ext_def)

lemma log_metric [intro]: "P (Metric m) \<Longrightarrow> always (log_ext P) (set_metric m)"
  by (simp add: always_def set_metric_def log_ext_def)

lemma log_write_through [simp, intro]: "always (log_ext P) (write_through d)"
  by (simp add: always_def write_through_def log_ext_def)

lemma log_modify: "(\<And>w. w_log (f w) = w_log w) \<Longrightarrow> always (log_ext P) (modify f)"
  by (simp add: always_def log_ext_def)

lemma log_ext_mono: "log_ext P w w' \<Longrightarrow> (\<And>a. P a \<Longrightarrow> Q a) \<Longrightarrow> log_ext Q w w'"
  by (auto simp: log_ext_def list_all_iff)

lemma always_log_mono: "always (log_ext P) m \<Longrightarrow> (\<And>a. P a \<Longrightarrow> Q a) \<Longrightarrow> always (log_ext Q) m"
  by (auto simp: always_def intro: log_ext_mono)

lemma log_extD: "log_ext P w w' \<Longrightarrow> a \<in> set (w_log w') \<Longrightarrow> a \<in> set (w_log w) \<or> P a"
  by (auto simp: log_ext_def list_all_iff)


section \<open>File system calls\<close>

lemma wp_fsop [wp_simps]:
  "wp (fsop E op f) Q = (\<lambda>w.
     case faulty (e_osfault E (w_clock w)) (f (e_udev E (w_clock w) (w_fs w))) of
       Inl e \<Rightarrow> Q (Some e) (act (FsOp op (Some e)) (tick E w))
     | Inr g \<Rightarrow> Q None (act (FsOp op None) ((tick E w)\<lparr>w_fs := g, w_trace := g # w_trace w\<rparr>)))"
  by (rule ext) (auto simp: wp_def fsop_def Let_def faulty_def split: option.splits sum.splits)

lemma faulty_Inr [simp]: "faulty e r = Inr v \<longleftrightarrow> e = None \<and> r = Inr v"
  by (cases e) (auto simp: faulty_def)

lemma faulty_Inl: "faulty e r = Inl x \<longleftrightarrow> e = Some x \<or> (e = None \<and> r = Inl x)"
  by (cases e) (auto simp: faulty_def)

text \<open>
  What the theorems may assume of the surroundings: the device manager changes only the trees
  \<^verbatim>\<open>/dev\<close> and \<^verbatim>\<open>/sys\<close>, and an injected failure is a real one, not a false report that a file is
  absent.
\<close>

definition own_path :: "string list \<Rightarrow> bool" where
  "own_path q \<longleftrightarrow> q \<noteq> [] \<and> hd q \<noteq> ''dev'' \<and> hd q \<noteq> ''sys''"

definition udev_confined :: "env \<Rightarrow> bool" where
  "udev_confined E \<longleftrightarrow> (\<forall>t f q. own_path q \<longrightarrow> node_at (e_udev E t f) q = node_at f q)"

definition honest_faults :: "env \<Rightarrow> bool" where
  "honest_faults E \<longleftrightarrow> (\<forall>t e. e_osfault E t = Some e \<longrightarrow> \<not> is_ErrNotExist e)"

lemma udev_confinedD: "udev_confined E \<Longrightarrow> own_path q \<Longrightarrow> node_at (e_udev E t f) q = node_at f q"
  by (simp add: udev_confined_def)

lemma own_path_take: "own_path q \<Longrightarrow> 0 < n \<Longrightarrow> own_path (take n q)"
  by (auto simp: own_path_def hd_take take_eq_Nil)

lemma udev_plain_dir:
  assumes "udev_confined E" "own_path cs \<or> cs = []" "plain_dir f cs"
  shows "plain_dir (e_udev E t f) cs"
proof (rule plain_dir_cong [OF _ assms(3)])
  fix n assume "n \<le> length cs"
  show "node_at (e_udev E t f) (take n cs) = node_at f (take n cs)"
  proof (cases "take n cs = []")
    case False
    then have "own_path (take n cs)" using assms(2) own_path_take [of cs n] by (cases n) auto
    then show ?thesis by (rule udev_confinedD [OF assms(1)])
  qed (simp add: node_at_def)
qed


section \<open>A quiet world\<close>

text \<open>
  A concrete instance for evaluating programs: nothing fails, the device tree does not change, the
  cluster holds no object. The witnesses start from it and override single fields.
\<close>

definition demo_node :: node where
  "demo_node = \<lparr>n_Name = ''node1'', n_Labels = [(LabelHostname, ''host1'')]\<rparr>"

definition demo_config :: "(string \<times> mount_config) list" where
  "demo_config = [(''sc'', \<lparr>mc_HostDir = ''/mnt/local-storage/sc'', mc_MountDir = ''/mnt/local-storage/sc'',
     mc_VolumeMode = VolumeBlock, mc_FsType = ''''\<rparr>)]"

definition demo_cm :: config_map where
  "demo_cm = \<lparr>cm_meta = \<lparr>om_Name = ''local-provisioner'', om_Namespace = ''ns'', om_UID = '''', om_Labels = [],
     om_Annotations = [], om_Finalizers = [], om_OwnerReferences = [], om_CreationTimestamp = None,
     om_DeletionTimestamp = None, om_Generation = 0\<rparr>, cm_Data = []\<rparr>"

definition demo_ds :: daemonset where
  "demo_ds = \<lparr>ds_meta = (cm_meta demo_cm)\<lparr>om_Name := ''diskmaker-manager''\<rparr>, ds_Selector = [(''app'', ''diskmaker-manager'')],
     ds_Template = \<lparr>pt_Labels = [(''app'', ''diskmaker-manager'')], pt_Annotations = [], pt_ServiceAccountName = ''local-storage-admin'',
       pt_PriorityClassName = '''', pt_Tolerations = [], pt_Affinity = None, pt_Volumes = '''', pt_Containers = [], pt_HostPID = True\<rparr>,
     ds_UpdateStrategy = ''RollingUpdate'', ds_NumberUnavailable = 0, ds_CurrentNumberScheduled = 1, ds_DesiredNumberScheduled = 1,
     ds_NumberReady = 1\<rparr>"

definition demo_env :: env where
  "demo_env = \<lparr>
     e_udev = (\<lambda>t f. f), e_osfault = (\<lambda>t. None), e_evalfault = (\<lambda>t p. None),
     e_mountinfo = (\<lambda>t. Inr ''''), e_cmd = (\<lambda>t c a. ('''', None)), e_open = (\<lambda>t p. Inr 3),
     e_close = (\<lambda>t. None), e_now = (\<lambda>t. int t), e_uuid = (\<lambda>t. ''uuid''), e_mounts = (\<lambda>t. Inr []),
     e_volmode = (\<lambda>t p. Inr VolumeBlock), e_blockcap = (\<lambda>t p. Inr 10737418240),
     e_fscap = (\<lambda>t p. Inr 10737418240),
     e_get_pv = (\<lambda>t n. Inl (NotFound n)), e_list_pv = (\<lambda>t s. Inr []),
     e_get_lvdl = (\<lambda>t n. Inl (NotFound (snd n))), e_get_lv = (\<lambda>t n. Inl (NotFound (snd n))),
     e_get_lvset = (\<lambda>t n. Inl (NotFound (snd n))), e_get_sc = (\<lambda>t n. Inl (NotFound n)),
     e_list_sc = (\<lambda>t s. Inr []), e_get_node = (\<lambda>t n. Inr demo_node),
     e_get_cm = (\<lambda>t n. Inr demo_cm), e_list_pv_class = (\<lambda>t c. Inr []), e_list_lv = (\<lambda>t n. Inr []),
     e_list_lvset = (\<lambda>t n. Inr []), e_get_ds = (\<lambda>t n. Inl (NotFound (snd n))), e_list_ds = (\<lambda>t n. Inr []),
     e_list_pods = (\<lambda>t l. Inr []), e_get_monitor = (\<lambda>t k n. Inl (NotFound (snd n))),
     e_get_lvd = (\<lambda>t n. Inl (NotFound (snd n))), e_get_result = (\<lambda>t n. Inl (NotFound (snd n))),
     e_list_results = (\<lambda>t n. Inr []), e_volconfig = (\<lambda>d. Inr demo_config), e_configdata = (\<lambda>c. Inr []),
     e_ensure_meta = (\<lambda>ex req. (om_Labels ex \<noteq> om_Labels req, ex\<lparr>om_Labels := om_Labels req\<rparr>)),
     e_asset = (\<lambda>f. Inr ''${OBJECT_NAME}''),
     e_read_sc = (\<lambda>n. Some \<lparr>sc_meta = (cm_meta demo_cm)\<lparr>om_Name := n\<rparr>, sc_Provisioner = ''kubernetes.io/no-provisioner'',
        sc_ReclaimPolicy = Some ReclaimDelete, sc_BindingMode = ''WaitForFirstConsumer'', sc_MountOptions = [], sc_AllowedTopologies = []\<rparr>),
     e_read_cm = (\<lambda>b. Some demo_cm), e_read_ds = (\<lambda>b. Some demo_ds),
     e_read_monitor = (\<lambda>k b. Inr \<lparr>mo_meta = cm_meta demo_cm, mo_ResourceVersion = '''', mo_ClusterIP = '''', mo_Spec = ''''\<rparr>),
     e_get_apiserver = (\<lambda>t n. Inl (NotFound n)),
     e_tls_profiles = (\<lambda>n. if n = ''Intermediate'' then Some \<lparr>ts_Ciphers = [''a'', ''b''], ts_MinTLSVersion = ''VersionTLS12''\<rparr> else None), e_iana = (\<lambda>c. Some c), e_timestamp = (\<lambda>t. ''''), e_getenv = (\<lambda>v. ''''),
     e_quantity = (\<lambda>s. case parse_int64 s of None \<Rightarrow> Inl (Errorf ''quantity'') | Some n \<Rightarrow> Inr n), e_write = (\<lambda>t c. None), e_nodesel = (\<lambda>l s. Inr True), e_nodename = ''node1''\<rparr>"

definition demo_rc :: runtime_config where
  "demo_rc = \<lparr>rc_Name = GetProvisionedByValue ''node1'', rc_Node = demo_node, rc_Namespace = ''ns'',
     rc_DiscoveryMap = demo_config\<rparr>"

definition demo_fs :: fs where
  "demo_fs =
     [([''dev''], Dir), ([''dev'', ''sda''], Blk), ([''dev'', ''disk''], Dir), ([''dev'', ''disk'', ''by-id''], Dir),
      ([''dev'', ''disk'', ''by-id'', ''wwn-1''], Sym ''../../sda''),
      ([''mnt''], Dir), ([''mnt'', ''local-storage''], Dir), ([''mnt'', ''local-storage'', ''sc''], Dir),
      ([''mnt'', ''local-storage'', ''sc'', ''wwn-1''], Sym ''/dev/disk/by-id/wwn-1'')]"

definition demo_world :: world where
  "demo_world = \<lparr>w_clock = 0, w_fs = demo_fs, w_trace = [], w_log = [],
     w_links = NewLocalVolumeDeviceLinkCache ''node1'', w_pvs = [], w_cacheSynced = True, w_rc = demo_rc,
     w_reported = [], w_ages = [], w_fastRequeue = False, w_lvOwners = [], w_lvsetOwners = [],
     w_deletedStaticProvisioner = False, w_deletedOrphanedServiceMonitor = False, w_tlsConfig = [], w_disks = []\<rparr>"

lemma demo_env_ok [simp]: "udev_confined demo_env" "honest_faults demo_env"
  by (simp_all add: udev_confined_def honest_faults_def demo_env_def)


section \<open>A property of the file system at every moment\<close>

text \<open>
  \<open>keeps I\<close>: if \<open>I\<close> holds before, it holds after and in every intermediate state the program itself
  produced, so also in the state a crash would leave behind.
\<close>

definition keeps :: "(fs \<Rightarrow> bool) \<Rightarrow> world \<Rightarrow> world \<Rightarrow> bool" where
  "keeps I w w' \<longleftrightarrow> (I (w_fs w) \<longrightarrow>
     I (w_fs w') \<and> (\<exists>new. w_trace w' = new @ w_trace w \<and> list_all I new))"

interpretation keep: step_order "keeps I" for I
proof
  fix w w' w''
  show "keeps I w w" by (simp add: keeps_def)
  assume "keeps I w w'" "keeps I w' w''"
  then show "keeps I w w''"
    unfolding keeps_def by (metis append.assoc list_all_append)
qed

lemma wp_then_always:
  assumes "R w0 w" "always R m" "\<And>a b c. R a b \<Longrightarrow> R b c \<Longrightarrow> R a c"
  shows "wp m (\<lambda>r w'. R w0 w') w"
  using assms by (metis (mono_tags, lifting) always_run wp_runI)

lemma keeps_grow:
  "keeps I w0 w \<Longrightarrow> I (w_fs w0) \<Longrightarrow> I (w_fs w') \<Longrightarrow> w_trace w' = w_fs w' # w_trace w \<Longrightarrow> keeps I w0 w'"
  by (auto simp: keeps_def intro: exI [of _ "w_fs w' # _"])

lemma keeps_same:
  "keeps I w0 w \<Longrightarrow> I (w_fs w0) \<Longrightarrow> I (w_fs w') \<Longrightarrow> w_trace w' = w_trace w \<Longrightarrow> keeps I w0 w'"
  by (auto simp: keeps_def)

definition stable :: "env \<Rightarrow> (fs \<Rightarrow> bool) \<Rightarrow> bool" where
  "stable E I \<longleftrightarrow> (\<forall>t f. I f \<longrightarrow> I (e_udev E t f))"

lemma stableD: "stable E I \<Longrightarrow> I f \<Longrightarrow> I (e_udev E t f)"
  by (simp add: stable_def)

lemma keep_query [intro]: "stable E I \<Longrightarrow> always (keeps I) (query E f)"
  by (auto simp: always_def query_def keeps_def Let_def dest: stableD)

lemma keep_queries [intro]:
  assumes "stable E I"
  shows "always (keeps I) (host_query E g)" "always (keeps I) (do_lstat E p)" "always (keeps I) (do_stat E p)"
    "always (keeps I) (get_pv E n)" "always (keeps I) (list_pv E s)" "always (keeps I) (get_lvdl E nn)"
    "always (keeps I) (get_lv E nn)" "always (keeps I) (get_lvset E nn)" "always (keeps I) (get_sc E n)"
    "always (keeps I) (list_sc E s)" "always (keeps I) (now E)"
  using assms by (auto simp: query_defs)

lemma keep_api [intro]: "stable E I \<Longrightarrow> always (keeps I) (api E c)"
  by (auto simp: always_def api_def keeps_def Let_def dest: stableD)

lemma keep_fsop [intro]:
  "stable E I \<Longrightarrow> (\<And>f g. I f \<Longrightarrow> h f = Inr g \<Longrightarrow> I g) \<Longrightarrow> always (keeps I) (fsop E op h)"
  unfolding always_def
  by (auto simp: fsop_def keeps_def Let_def dest: stableD split: option.splits sum.splits)

lemma keep_event [simp, intro]: "always (keeps I) (record_event obj ty reason msg)"
  by (simp add: always_def record_event_def keeps_def)

lemma keep_metric [simp, intro]: "always (keeps I) (set_metric m)"
  by (simp add: always_def set_metric_def keeps_def)

lemma keep_write_through [simp, intro]: "always (keeps I) (write_through d)"
  by (simp add: always_def write_through_def keeps_def)


text \<open>Stepping through a program while a relation to the start state is carried along.\<close>

context step_order
begin

lemma wp_seq:
  assumes "R w0 w" "always R m" "\<And>r w1. R w0 w1 \<Longrightarrow> wp (f r) Q w1"
  shows "wp (State_Monad.bind m f) Q w"
  unfolding wp_bind using assms by (metis (mono_tags, lifting) R_trans always_run wp_runI)

lemma wp_seqE:
  assumes "R w0 w" "always R m" "\<And>e w1. R w0 w1 \<Longrightarrow> Q (Inl e) w1" "\<And>x w1. R w0 w1 \<Longrightarrow> wp (f x) Q w1"
  shows "wp (bindE m f) Q w"
  unfolding bindE_def
  by (rule wp_seq [OF assms(1,2)]) (auto intro: assms(3,4) simp: wp_return split: sum.split)

lemma wp_last: "R w0 w \<Longrightarrow> always R m \<Longrightarrow> wp m (\<lambda>r w'. R w0 w') w"
  by (rule wp_then_always) (auto intro: R_trans)

end


section \<open>A call was made during a run\<close>

definition newly :: "world \<Rightarrow> world \<Rightarrow> action \<Rightarrow> bool" where
  "newly w w' b \<longleftrightarrow> (\<exists>xs ys. w_log w' = xs @ b # ys @ w_log w)"

lemma log_ext_none [simp]: "log_ext (\<lambda>_. False) w w' \<longleftrightarrow> w_log w' = w_log w"
  by (auto simp: log_ext_def list_all_iff)

lemma newly_later: "newly w w' b \<Longrightarrow> log_ext P w' w'' \<Longrightarrow> newly w w'' b"
  unfolding newly_def log_ext_def by (metis append.assoc)

lemma newly_earlier: "log_ext P w w' \<Longrightarrow> newly w' w'' b \<Longrightarrow> newly w w'' b"
  unfolding newly_def log_ext_def by (metis append.assoc)

lemma newly_mem: "newly w w' b \<Longrightarrow> b \<in> set (w_log w')"
  by (auto simp: newly_def)

lemma newly_permitted: "newly w w' b \<Longrightarrow> log_ext P w w' \<Longrightarrow> P b"
  by (auto simp: newly_def log_ext_def list_all_iff)

lemma newlyI1: "w_log w' = b # w_log w \<Longrightarrow> newly w w' b"
  unfolding newly_def by (metis append_Nil)

lemma newlyI2: "w_log w' = b # c # w_log w \<Longrightarrow> newly w w' b"
  unfolding newly_def by (metis append_Cons append_Nil)

end
