(* ===== verification/SymlinkUtils.thy ===== *)
theory SymlinkUtils
  imports World
begin

text \<open>
  Model of \<^verbatim>\<open>pkg/common/symlink_utils.go\<close> and of the recovery of a PV's symlink path in
  \<^verbatim>\<open>current_block_device_info.go\<close>: where a device is linked, which link it already has, how a PV that
  is being deleted loses its link and then its finalizer.
\<close>

section \<open>Source and target of a symlink\<close>

text \<open>Source, target, whether a by-id path exists, and the error.\<close>

definition GetSymLinkSourceAndTarget ::
  "host \<Rightarrow> block_device \<Rightarrow> string \<Rightarrow> string \<times> string \<times> bool \<times> error option" where
  "GetSymLinkSourceAndTarget h dev symlinkDir =
     (case GetDevPath dev of
        (_, Some e) \<Rightarrow> ('''', '''', False, Some e)
      | (devLabelPath, None) \<Rightarrow>
          (case GetPathByID h dev of
             (source, None, _) \<Rightarrow> (source, path_join [symlinkDir, base source], True, None)
           | (source, Some e, _) \<Rightarrow>
               if as_IDPathNotFound e
               then (devLabelPath, path_join [symlinkDir, base devLabelPath], False, None)
               else (source, '''', False, Some e)))"

definition GetSymlinkedForCurrentSC :: "host \<Rightarrow> string \<Rightarrow> string \<Rightarrow> string result" where
  "GetSymlinkedForCurrentSC h symlinkDir kname =
     (case FilePathGlob h (path_join [symlinkDir, ''*'']) of
        Inl e \<Rightarrow> Inl e
      | Inr paths \<Rightarrow>
          (case firstMatch h kname paths of
             Inl e \<Rightarrow> Inl e
           | Inr path \<Rightarrow> Inr (if path = '''' then '''' else base path)))"

section \<open>Finalizers\<close>

definition ContainsFinalizer :: "obj_meta \<Rightarrow> string \<Rightarrow> bool" where
  "ContainsFinalizer m f \<longleftrightarrow> f \<in> set (om_Finalizers m)"

definition RemoveFinalizer :: "string \<Rightarrow> obj_meta \<Rightarrow> obj_meta" where
  "RemoveFinalizer f m = m\<lparr>om_Finalizers := filter (\<lambda>x. x \<noteq> f) (om_Finalizers m)\<rparr>"

definition AddFinalizer :: "string \<Rightarrow> obj_meta \<Rightarrow> obj_meta" where
  "AddFinalizer f m = (if f \<in> set (om_Finalizers m) then m else m\<lparr>om_Finalizers := om_Finalizers m @ [f]\<rparr>)"

definition hasSymlinkFinalizer :: "pv \<Rightarrow> bool" where
  "hasSymlinkFinalizer p = ContainsFinalizer (pv_meta p) LSOSymlinkDeleterFinalizer"

definition withoutSymlinkFinalizer :: "pv \<Rightarrow> pv" where
  "withoutSymlinkFinalizer p = p\<lparr>pv_meta := RemoveFinalizer LSOSymlinkDeleterFinalizer (pv_meta p)\<rparr>"

definition removeSymlinkFinalizer :: "env \<Rightarrow> pv \<Rightarrow> error option prog" where
  "removeSymlinkFinalizer E p =
     (if hasSymlinkFinalizer p then
        do {
          r \<leftarrow> api E (UpdatePV (withoutSymlinkFinalizer p));
          State_Monad.return (case r of
              None \<Rightarrow> None
            | Some e \<Rightarrow> Some (Errorf (''error removing '' @ LSOSymlinkDeleterFinalizer
                @ '' finalizer from PV '' @ pv_Name p @ '': '' @ err_text e)))
        }
      else State_Monad.return None)"

section \<open>Deleting a symlink\<close>

definition deleteSymlinkParentDir :: "env \<Rightarrow> string \<Rightarrow> error option prog" where
  "deleteSymlinkParentDir E symlink =
     do {
       r \<leftarrow> do_remove E (dir symlink);
       State_Monad.return (case r of
           None \<Rightarrow> None
         | Some e \<Rightarrow>
             if is_ErrNotExist e \<or> is_ENOTEMPTY e then None
             else Some (Errorf (''error removing symlink dir '' @ dir symlink @ '': '' @ err_text e)))
     }"

definition removeLink :: "env \<Rightarrow> string \<Rightarrow> error option prog" where
  "removeLink E symlink =
     do {
       st \<leftarrow> do_lstat E symlink;
       case st of
         Inl e \<Rightarrow>
           if is_ErrNotExist e then deleteSymlinkParentDir E symlink
           else State_Monad.return (Some (Errorf (''failed to lstat '' @ symlink @ '': '' @ err_text e)))
       | Inr i \<Rightarrow>
           if \<not> (case i of Sym _ \<Rightarrow> True | _ \<Rightarrow> False)
           then State_Monad.return (Some (Errorf (''not removing '' @ symlink @ '': file is not a symlink'')))
           else do {
             r \<leftarrow> do_remove E symlink;
             if (case r of None \<Rightarrow> True | Some e \<Rightarrow> is_ErrNotExist e) then deleteSymlinkParentDir E symlink
             else State_Monad.return (Some (Errorf (''error removing symlink '' @ symlink)))
           }
     }"

definition deleteSymlink :: "env \<Rightarrow> pv \<Rightarrow> error option prog" where
  "deleteSymlink E p =
     (if om_DeletionTimestamp (pv_meta p) = None then
        State_Monad.return (Some (Errorf (''failed to remove symlink, PV '' @ pv_Name p @ '' does not have DeletionTimestamp'')))
      else case pv_LocalPath p of
        None \<Rightarrow> State_Monad.return (Some (Errorf (''failed to remove symlink, PV '' @ pv_Name p @ '' does not have a local volume path'')))
      | Some symlink \<Rightarrow> removeLink E symlink)"

text \<open>The guards of the loop over the cached PVs.\<close>

definition cleanable :: "smap \<Rightarrow> pv \<Rightarrow> bool" where
  "cleanable ownerLabels p \<longleftrightarrow>
     pvHasLabels p ownerLabels \<and> om_DeletionTimestamp (pv_meta p) \<noteq> None
     \<and> (pv_Phase p = VolumeReleased \<or> pv_Phase p = VolumeAvailable) \<and> hasSymlinkFinalizer p"

text \<open>
  \<^verbatim>\<open>CleanupSymlinks\<close>; the callback is \<open>None\<close> when nil. Both callers pass a test of the owner's
  deletion timestamp, which does not change during the call.
\<close>

definition cleanupOne :: "env \<Rightarrow> bool \<Rightarrow> pv \<Rightarrow> error option prog" where
  "cleanupOne E shouldDelete p =
     do {
       r \<leftarrow> (if shouldDelete then deleteSymlink E p else State_Monad.return None);
       (case r of Some e \<Rightarrow> State_Monad.return (Some e) | None \<Rightarrow> removeSymlinkFinalizer E p)
     }"

definition CleanupSymlinks :: "env \<Rightarrow> smap \<Rightarrow> bool option \<Rightarrow> error option prog" where
  "CleanupSymlinks E ownerLabels shouldDeleteSymlinkFn =
     do {
       pvs \<leftarrow> gets (\<lambda>w. ListPVs (w_pvs w));
       forM pvs (\<lambda>p. if \<not> cleanable ownerLabels p then State_Monad.return None
                     else cleanupOne E (case shouldDeleteSymlinkFn of None \<Rightarrow> True | Some b \<Rightarrow> b) p)
     }"

section \<open>Recovery of a lost symlink\<close>

definition PolicyNotPreferredLVDL :: "error \<Rightarrow> (lvdl \<times> string) option" where
  "PolicyNotPreferredLVDL e =
     (case err_root e of PolicyNotPreferredError _ _ path (Some d) \<Rightarrow> Some (d, path) | _ \<Rightarrow> None)"

definition getLVDLAndSymlinkPath :: "env \<Rightarrow> device_info \<Rightarrow> (lvdl \<times> string) result prog" where
  "getLVDLAndSymlinkPath E info =
     (case info of
        [] \<Rightarrow> State_Monad.return (Inl (Errorf ''unexpected empty lvdl set for symlink''))
      | (_, d) # _ \<Rightarrow>
          if lst_PersistentVolumeSymlinkPath (ld_Status d) \<noteq> ''''
          then State_Monad.return (Inr (d, lst_PersistentVolumeSymlinkPath (ld_Status d)))
          else do {
            r \<leftarrow> get_pv E (ls_PersistentVolumeName (ld_Spec d));
            State_Monad.return (case r of
                Inl e \<Rightarrow> Inl (Errorf (''error getting associated pv object '' @ ld_Name d @ '': '' @ err_text e))
              | Inr p \<Rightarrow>
                  (case pv_LocalPath p of
                     None \<Rightarrow> Inl (Errorf (''pv '' @ pv_Name p @ '' has empty local path''))
                   | Some path \<Rightarrow> if path = '''' then Inl (Errorf (''pv '' @ pv_Name p @ '' has empty local path''))
                                  else Inr (d, path)))
          })"

definition RecoverPVSymlinkPath :: "env \<Rightarrow> device_info \<Rightarrow> string \<Rightarrow> string \<Rightarrow> string result prog" where
  "RecoverPVSymlinkPath E info symlinkDir newSymlinkSourcePath =
     (if length info > 1 then
        State_Monad.return (Inl (Errorf (''more than one LocalVolumeDevicelink found for '' @ newSymlinkSourcePath @ '' path'')))
      else if length info = 0 then
        State_Monad.return (Inl (Errorf (''unexpected empty lvdl set for symlink '' @ newSymlinkSourcePath)))
      else do {
        r \<leftarrow> getLVDLAndSymlinkPath E info;
        case r of
          Inl e \<Rightarrow> State_Monad.return (Inl e)
        | Inr (d, symlinkPath) \<Rightarrow>
            if dir symlinkPath \<noteq> symlinkDir then
              State_Monad.return (Inl (Errorf (''discovered symlink directory '' @ dir symlinkPath
                 @ '' does not match expected symlink directory '' @ symlinkDir)))
            else if ls_Policy (ld_Spec d) \<noteq> PolicyPreferredLinkTarget then
              State_Monad.return (Inl (PolicyNotPreferredError newSymlinkSourcePath symlinkDir symlinkPath (Some d)))
            else do {
              resolved \<leftarrow> host_query E (\<lambda>h. FilePathEvalSymLinks h (lst_CurrentLinkTarget (ld_Status d)));
              State_Monad.return (case resolved of
                  Inr target \<Rightarrow> Inl (Errorf (''currentSymlink '' @ lst_CurrentLinkTarget (ld_Status d)
                     @ '' still resolves to '' @ target))
                | Inl e \<Rightarrow> Inr symlinkPath)
            }
      })"

definition HasExistingLocalVolumes :: "env \<Rightarrow> string \<Rightarrow> block_device \<Rightarrow> string result prog" where
  "HasExistingLocalVolumes E symlinkDir blockDevice =
     do {
       existing \<leftarrow> host_query E (\<lambda>h. GetSymlinkedForCurrentSC h symlinkDir (bd_KName blockDevice));
       case existing of
         Inl e \<Rightarrow> State_Monad.return (Inl e)
       | Inr existingSymlink \<Rightarrow>
           if existingSymlink \<noteq> '''' then State_Monad.return (Inr (path_join [symlinkDir, existingSymlink]))
           else do {
             src \<leftarrow> host_query E (\<lambda>h. GetPathByID h blockDevice);
             case src of
               (_, Some e, _) \<Rightarrow> State_Monad.return (Inl e)
             | (symlinkSource, None, dev) \<Rightarrow>
                 do {
                   l \<leftarrow> gets w_links;
                   r \<leftarrow> host_query E (\<lambda>h. FindLSOManagedDeviceInfo h l symlinkSource dev);
                   case r of
                     (_, _, Some e) \<Rightarrow> State_Monad.return (Inl e)
                   | (info, found, None) \<Rightarrow>
                       if found then RecoverPVSymlinkPath E info symlinkDir symlinkSource
                       else State_Monad.return (Inr '''')
                 }
           }
     }"


section \<open>Deleting a link touches nothing else\<close>

lemmas removal_defs = removeLink_def deleteSymlinkParentDir_def do_lstat_def do_remove_def

text \<open>The relation between the states before and after: only the link and its directory may go.\<close>

definition only_link :: "string list \<Rightarrow> string \<Rightarrow> fs \<Rightarrow> fs \<Rightarrow> bool" where
  "only_link d n f g \<longleftrightarrow>
     (\<forall>r. own_path r \<and> r \<noteq> d @ [n] \<and> r \<noteq> d \<longrightarrow> node_at g r = node_at f r)
     \<and> (node_at g (d @ [n]) = node_at f (d @ [n])
        \<or> node_at g (d @ [n]) = None \<and> (\<exists>t. node_at f (d @ [n]) = Some (Sym t)))
     \<and> (node_at g d = node_at f d
        \<or> node_at g d = None \<and> node_at g (d @ [n]) = None
          \<and> (\<forall>m. m \<noteq> n \<longrightarrow> node_at f (d @ [m]) = None))"

lemma only_link_refl: "only_link d n f f"
  by (simp add: only_link_def)

lemma own_path_snoc: "own_path d \<Longrightarrow> own_path (d @ [x])"
  by (auto simp: own_path_def)

lemma only_link_cong:
  assumes "only_link d n f0 f1" "own_path d" "\<And>r. own_path r \<Longrightarrow> node_at g r = node_at f1 r"
  shows "only_link d n f0 g"
proof -
  have "node_at g d = node_at f1 d" "node_at g (d @ [n]) = node_at f1 (d @ [n])"
    using assms(2,3) own_path_snoc by blast+
  with assms(1,3) show ?thesis unfolding only_link_def by simp
qed

lemma only_link_rmdir:
  assumes ol: "only_link d n f0 f1" and d: "own_path d"
    and empty: "\<And>x. node_at f1 (d @ [x]) = None"
    and same: "\<And>r. own_path r \<Longrightarrow> r \<noteq> d \<Longrightarrow> node_at g r = node_at f1 r" and gone: "node_at g d = None"
  shows "only_link d n f0 g"
proof -
  have snoc: "node_at g (d @ [x]) = None" for x
    using same [OF own_path_snoc [OF d]] empty by simp
  have others: "node_at g r = node_at f0 r" if "own_path r" "r \<noteq> d @ [n]" "r \<noteq> d" for r
    using ol same [OF that(1,3)] that unfolding only_link_def by simp
  have "node_at f0 (d @ [m]) = None" if "m \<noteq> n" for m
    using others [OF own_path_snoc [OF d], of m] snoc that by simp
  moreover have "node_at g (d @ [n]) = node_at f0 (d @ [n]) \<or> (\<exists>t. node_at f0 (d @ [n]) = Some (Sym t))"
    using ol empty [of n] snoc [of n] unfolding only_link_def by auto
  ultimately show ?thesis
    using others snoc gone unfolding only_link_def by simp
qed

text \<open>The directory step, from a state in which the entry is already gone.\<close>

lemma remove_parent_ok:
  assumes E: "udev_confined E" and d: "own_path d" and g: "good_comps (d @ [n])"
    and pl: "plain_dir f1 d" and ol: "only_link d n f0 f1" and gone: "node_at f1 (d @ [n]) = None"
    and f1: "f1 = w_fs w"
  shows "wp (deleteSymlinkParentDir E (path_of (d @ [n])))
           (\<lambda>r w'. only_link d n f0 (w_fs w') \<and> node_at (w_fs w') (d @ [n]) = None) w"
proof -
  obtain d0 m where dm: "d = d0 @ [m]" using d by (cases d rule: rev_cases) (auto simp: own_path_def)
  let ?f = "e_udev E (w_clock w) (w_fs w)"
  have own: "own_path (d @ [x])" for x using d by (auto simp: own_path_def)
  have same: "node_at ?f r = node_at f1 r" if "own_path r" for r
    using udev_confinedD [OF E that] f1 by simp
  have pl': "plain_dir ?f d" using udev_plain_dir [OF E _ pl] d f1 by simp
  have rem: "os_Remove ?f (path_of d) =
      (if has_children ?f d then Inl ENOTEMPTY else Inr (AList.delete d ?f))"
    using os_Remove_plain [of ?f d0 m] plain_dir_prefix [of ?f d0 "[m]"] pl' g plain_dir_node [OF pl']
    by (simp add: dm good_comps_Cons)
  have keep: "only_link d n f0 ?f" "node_at ?f (d @ [n]) = None"
    using only_link_cong [OF ol d same] same [OF own] gone by simp_all
  have del: "only_link d n f0 (AList.delete d ?f)" "node_at (AList.delete d ?f) (d @ [n]) = None"
    if "\<not> has_children ?f d"
  proof -
    have "d \<noteq> []" using d by (simp add: own_path_def)
    moreover have "node_at f1 (d @ [x]) = None" for x
      using no_children [OF that, of "d @ [x]"] same [OF own] by simp
    ultimately show "only_link d n f0 (AList.delete d ?f)" "node_at (AList.delete d ?f) (d @ [n]) = None"
      using only_link_rmdir [OF ol d, of "AList.delete d ?f"] same keep(2) by (simp_all add: node_at_delete)
  qed
  show ?thesis
    using keep del
    by (auto simp: deleteSymlinkParentDir_def do_remove_def dir_path_of [OF g] wp_simps rem faulty_Inl
        split: sum.splits)
qed

lemma removeLink_ok:
  assumes E: "udev_confined E" "honest_faults E" and d: "own_path d" and g: "good_comps (d @ [n])"
    and pl: "plain_dir (w_fs w) d"
  shows "wp (removeLink E (path_of (d @ [n])))
           (\<lambda>r w'. only_link d n (w_fs w) (w_fs w') \<and> (r = None \<longrightarrow> node_at (w_fs w') (d @ [n]) = None)) w"
proof -
  let ?q = "d @ [n]" and ?f = "w_fs w"
  let ?f1 = "e_udev E (w_clock w) ?f" and ?w1 = "tick E w"
  let ?f2 = "e_udev E (Suc (w_clock w)) ?f1"
  have own: "own_path (d @ [x])" for x using d by (auto simp: own_path_def)
  have same1: "node_at ?f1 r = node_at ?f r" and same2: "node_at ?f2 r = node_at ?f r" if "own_path r" for r
    using udev_confinedD [OF E(1) that] by simp_all
  have pl1: "plain_dir ?f1 d" using d by (intro udev_plain_dir [OF E(1) _ pl]) simp
  have pl2: "plain_dir ?f2 d" using d by (intro udev_plain_dir [OF E(1) _ pl1]) simp
  have ol1: "only_link d n ?f ?f1"
    by (rule only_link_cong [OF only_link_refl d same1])
  have ol2: "only_link d n ?f ?f2"
    by (rule only_link_cong [OF only_link_refl d same2])
  have ls: "Lstat ?f1 (path_of ?q) = (case node_at ?f ?q of
      None \<Rightarrow> Inl (NotExist (''lstat '' @ path_of ?q @ '': no such file or directory'')) | Some i \<Rightarrow> Inr i)"
    using Lstat_plain [OF pl1 g] same1 [OF own] by simp
  have rm: "os_Remove ?f2 (path_of ?q) = Inr (AList.delete ?q ?f2)" if "node_at ?f ?q = Some (Sym t)" for t
    using os_Remove_plain [OF pl2 g] same2 [OF own] that by simp
  have ol3: "only_link d n ?f (AList.delete ?q ?f2)" if "node_at ?f ?q = Some (Sym t)" for t
  proof -
    have "node_at ?f2 ?q = Some (Sym t)" using same2 [OF own, of n] that by simp
    then show ?thesis using ol2 that unfolding only_link_def by (simp add: node_at_delete)
  qed
  have pl3: "plain_dir (AList.delete ?q ?f2) d"
    using plain_dir_delete [OF pl2, of ?q] by simp
  have fault: "e_osfault E t = Some e \<Longrightarrow> \<not> is_ErrNotExist e" for t e
    using E(2) by (simp add: honest_faults_def)
  have gone1: "wp (deleteSymlinkParentDir E (path_of ?q))
      (\<lambda>r w'. only_link d n ?f (w_fs w') \<and> node_at (w_fs w') ?q = None) ?w1"
    if "node_at ?f ?q = None"
  proof (rule remove_parent_ok [OF E(1) d g pl1 ol1])
    show "node_at ?f1 ?q = None" using same1 [OF own, of n] that by simp
  qed simp
  have gone3: "wp (deleteSymlinkParentDir E (path_of ?q))
      (\<lambda>r w'. only_link d n ?f (w_fs w') \<and> node_at (w_fs w') ?q = None) w3"
    if "node_at ?f ?q = Some (Sym t)" "w_fs w3 = AList.delete ?q ?f2" for w3 t
    by (rule remove_parent_ok [OF E(1) d g pl3 ol3 [OF that(1)]]) (simp_all add: node_at_delete that(2))
  note mono = wp_mono [where Q = "\<lambda>r w'. only_link d n ?f (w_fs w') \<and> (r = None \<longrightarrow> node_at (w_fs w') ?q = None)"]
  show ?thesis
  proof (cases "e_osfault E (w_clock w)")
    case (Some e)
    then show ?thesis
      using fault [OF Some] ol1 by (simp add: removeLink_def do_lstat_def wp_simps faulty_def)
  next
    case None
    show ?thesis
    proof (cases "node_at ?f ?q")
      case no: None
      then show ?thesis
        using None mono [OF gone1]
        by (simp add: removeLink_def do_lstat_def wp_simps ls faulty_def is_ErrNotExist_def)
    next
      case (Some i)
      show ?thesis
      proof (cases "\<exists>t. i = Sym t")
        case True
        then obtain t where t: "i = Sym t" by blast
        have nq: "node_at ?f ?q = Some (Sym t)" using Some t by simp
        show ?thesis
        proof (cases "e_osfault E (Suc (w_clock w))")
          case no_fault: None
          then show ?thesis
            using None nq
            by (simp add: removeLink_def do_lstat_def do_remove_def wp_simps ls rm [OF nq] faulty_def
                mono [OF gone3 [OF nq]])
        next
          case (Some e)
          then show ?thesis
            using None nq fault [OF Some] ol2
            by (simp add: removeLink_def do_lstat_def do_remove_def wp_simps ls faulty_def)
        qed
      next
        case False
        then show ?thesis
          using None Some ol1
          by (cases i) (simp_all add: removeLink_def do_lstat_def wp_simps ls faulty_def)
      qed
    qed
  qed
qed


text \<open>
  C12: when a PV that is being deleted has its link removed, the only file system entries that can
  disappear are the link itself, and it only if it is a symbolic link, and its directory, and it
  only once it holds nothing else; success means that the link is gone.
\<close>

theorem delete_symlink_exact:
  assumes "udev_confined E" and "honest_faults E" and "own_path d" and "good_comps (d @ [n])"
    and "plain_dir (w_fs w) d" and "pv_LocalPath p = Some (path_of (d @ [n]))"
    and "run_state (deleteSymlink E p) w = (r, w')"
  shows "only_link d n (w_fs w) (w_fs w')
    \<and> (r = None \<longrightarrow> node_at (w_fs w') (d @ [n]) = None \<and> om_DeletionTimestamp (pv_meta p) \<noteq> None)"
proof (cases "om_DeletionTimestamp (pv_meta p) = None")
  case True
  with assms(7) show ?thesis by (auto simp: deleteSymlink_def only_link_refl)
next
  case False
  with assms(6,7) have "run_state (removeLink E (path_of (d @ [n]))) w = (r, w')"
    by (simp add: deleteSymlink_def)
  from wp_runD [OF removeLink_ok [OF assms(1-5)] this] False show ?thesis by simp
qed

definition deleted_pv :: pv where
  "deleted_pv = demo_pv\<lparr>pv_meta := demo_meta\<lparr>om_DeletionTimestamp := Some 5,
     om_Finalizers := [LSOSymlinkDeleterFinalizer],
     om_Labels := [(PVOwnerNameLabel, ''lv'')]\<rparr>, pv_Phase := VolumeReleased\<rparr>"

abbreviation demo_dir :: "string list" where
  "demo_dir \<equiv> [''mnt'', ''local-storage'', ''sc'']"

lemma demo_dir_ok:
  "own_path demo_dir" "good_comps (demo_dir @ [''wwn-1''])" "plain_dir (w_fs demo_world) demo_dir"
  "path_of (demo_dir @ [''wwn-1'']) = ''/mnt/local-storage/sc/wwn-1''"
  by (simp_all add: own_path_def good_comps_def plain_dir_def demo_world_def demo_fs_def node_at_def
      path_of_def upt_rec)

lemma deleted_pv_path: "pv_LocalPath deleted_pv = Some (path_of (demo_dir @ [''wwn-1'']))"
  by (simp add: deleted_pv_def demo_pv_def path_of_def)

theorem delete_symlink_exact_witness:
  "\<exists>w'. run_state (deleteSymlink demo_env deleted_pv) demo_world = (None, w')
     \<and> node_at (w_fs w') [''mnt'', ''local-storage'', ''sc'', ''wwn-1''] = None
     \<and> node_at (w_fs w') [''mnt'', ''local-storage''] = Some Dir"
proof -
  obtain w' where run: "run_state (deleteSymlink demo_env deleted_pv) demo_world = (None, w')"
  proof -
    have "fst (run_state (deleteSymlink demo_env deleted_pv) demo_world) = None" by code_simp
    then show ?thesis by (cases "run_state (deleteSymlink demo_env deleted_pv) demo_world") (auto intro: that)
  qed
  have "node_at (w_fs w') (demo_dir @ [''wwn-1'']) = None \<and> only_link demo_dir ''wwn-1'' (w_fs demo_world) (w_fs w')"
    using delete_symlink_exact [OF demo_env_ok demo_dir_ok(1-3) deleted_pv_path run] by simp
  moreover have "own_path [''mnt'', ''local-storage'']" "node_at (w_fs demo_world) [''mnt'', ''local-storage''] = Some Dir"
    by (simp_all add: own_path_def demo_world_def demo_fs_def node_at_def)
  ultimately show ?thesis using run by (auto simp: only_link_def)
qed

section \<open>Cleanup of deleted PVs\<close>

text \<open>What the cleanup may do: remove the link of a PV that qualifies, and its directory, and drop its finalizer.\<close>

fun cleanup_allowed :: "smap \<Rightarrow> bool \<Rightarrow> pv list \<Rightarrow> action \<Rightarrow> bool" where
  "cleanup_allowed labels del pvs (FsOp (OpRemove q) r) =
     (del \<and> (\<exists>p \<in> set pvs. cleanable labels p \<and> (\<exists>path. pv_LocalPath p = Some path \<and> (q = path \<or> q = dir path))))"
| "cleanup_allowed labels del pvs (Api (UpdatePV p') r) =
     (\<exists>p \<in> set pvs. cleanable labels p \<and> p' = withoutSymlinkFinalizer p)"
| "cleanup_allowed labels del pvs a = False"

lemma log_removeLink:
  "(\<And>r. P (FsOp (OpRemove path) r)) \<Longrightarrow> (\<And>r. P (FsOp (OpRemove (dir path)) r)) \<Longrightarrow>
   always (log_ext P) (removeLink E path)"
  unfolding removeLink_def deleteSymlinkParentDir_def by (intro log.rules log_queries log_fsops) auto

lemma log_deleteSymlink:
  "(\<And>r path. pv_LocalPath p = Some path \<Longrightarrow> P (FsOp (OpRemove path) r) \<and> P (FsOp (OpRemove (dir path)) r)) \<Longrightarrow>
   always (log_ext P) (deleteSymlink E p)"
  unfolding deleteSymlink_def by (intro log.rules log_removeLink) auto

lemma log_removeSymlinkFinalizer:
  "(\<And>r. P (Api (UpdatePV (withoutSymlinkFinalizer p)) r)) \<Longrightarrow> always (log_ext P) (removeSymlinkFinalizer E p)"
  unfolding removeSymlinkFinalizer_def by (intro log.rules log_api) auto

text \<open>
  A run of \<^verbatim>\<open>CleanupSymlinks\<close> changes nothing but the links and the finalizers of cached PVs
  that carry the owner's labels, are marked for deletion, are Released or Available and still have
  the symlink finalizer; without the owner being deleted it removes no link at all; and a finalizer
  update takes away that finalizer and nothing else.
\<close>

theorem cleanup_symlinks_allowed:
  "log_ext (cleanup_allowed labels (shouldDelete \<noteq> Some False) (ListPVs (w_pvs w))) w
     (snd (run_state (CleanupSymlinks E labels shouldDelete) w))"
proof -
  let ?pvs = "ListPVs (w_pvs w)"
  let ?P = "cleanup_allowed labels (shouldDelete \<noteq> Some False) ?pvs"
  have one: "always (log_ext ?P) (if \<not> cleanable labels p then State_Monad.return None
      else cleanupOne E (case shouldDelete of None \<Rightarrow> True | Some b \<Rightarrow> b) p)" if "p \<in> set ?pvs" for p
    unfolding cleanupOne_def
    by (intro log.rules log_deleteSymlink log_removeSymlinkFinalizer) (use that in \<open>auto split: option.splits\<close>)
  have "always (log_ext ?P) (forM ?pvs (\<lambda>p. if \<not> cleanable labels p then State_Monad.return None
      else cleanupOne E (case shouldDelete of None \<Rightarrow> True | Some b \<Rightarrow> b) p))"
    by (rule log.forM) (rule one)
  then show ?thesis
    by (simp add: always_def CleanupSymlinks_def)
qed

text \<open>
  C11: the finalizer that protects a PV is taken away only after its link is gone: whenever the
  cleanup of one PV of a deleted owner sends the update without the finalizer, the link no longer
  exists in the node's file system.
\<close>

theorem finalizer_removed_after_link:
  assumes "udev_confined E" and "honest_faults E" and "own_path d" and "good_comps (d @ [n])"
    and "plain_dir (w_fs w) d" and "pv_LocalPath p = Some (path_of (d @ [n]))"
    and "run_state (cleanupOne E True p) w = (r, w')"
    and "Api (UpdatePV (withoutSymlinkFinalizer p)) err \<in> set (w_log w')"
    and "Api (UpdatePV (withoutSymlinkFinalizer p)) err \<notin> set (w_log w)"
  shows "node_at (w_fs w') (d @ [n]) = None"
proof -
  obtain r1 w1 where del: "run_state (deleteSymlink E p) w = (r1, w1)" by fastforce
  have "always (log_ext (\<lambda>a. \<forall>q e. a \<noteq> Api q e)) (deleteSymlink E p)"
    by (rule log_deleteSymlink) auto
  from log_extD [OF always_run [OF this del]] assms(9)
  have quiet: "Api (UpdatePV (withoutSymlinkFinalizer p)) err \<notin> set (w_log w1)" by blast
  have r1: "r1 = None" "run_state (removeSymlinkFinalizer E p) w1 = (r, w')"
    using assms(7,8) quiet del by (auto simp: cleanupOne_def split: option.splits)
  have gone: "node_at (w_fs w1) (d @ [n]) = None"
    using wp_runD [OF removeLink_ok [OF assms(1-5)]] del r1(1) assms(6)
    by (auto simp: deleteSymlink_def split: if_splits)
  have own: "own_path (d @ [n])" by (rule own_path_snoc [OF assms(3)])
  have "wp (removeSymlinkFinalizer E p) (\<lambda>r w'. node_at (w_fs w') (d @ [n]) = node_at (w_fs w1) (d @ [n])) w1"
    by (simp add: removeSymlinkFinalizer_def wp_simps udev_confinedD [OF assms(1) own])
  from wp_runD [OF this r1(2)] gone show ?thesis by simp
qed


theorem finalizer_removed_after_link_witness:
  "\<exists>r w'. run_state (cleanupOne demo_env True deleted_pv) demo_world = (r, w')
     \<and> Api (UpdatePV (withoutSymlinkFinalizer deleted_pv)) None \<in> set (w_log w')
     \<and> node_at (w_fs w') [''mnt'', ''local-storage'', ''sc'', ''wwn-1''] = None"
proof -
  obtain r w' where run: "run_state (cleanupOne demo_env True deleted_pv) demo_world = (r, w')" by fastforce
  have "hd (w_log (snd (run_state (cleanupOne demo_env True deleted_pv) demo_world))) =
      Api (UpdatePV (withoutSymlinkFinalizer deleted_pv)) None
      \<and> w_log (snd (run_state (cleanupOne demo_env True deleted_pv) demo_world)) \<noteq> []"
    by code_simp
  then have sent: "Api (UpdatePV (withoutSymlinkFinalizer deleted_pv)) None \<in> set (w_log w')"
    using run by (metis list.set_sel(1) snd_conv)
  have fresh: "Api (UpdatePV (withoutSymlinkFinalizer deleted_pv)) None \<notin> set (w_log demo_world)"
    by (simp add: demo_world_def)
  show ?thesis
    using finalizer_removed_after_link
        [OF demo_env_ok demo_dir_ok(1-3) deleted_pv_path run sent fresh] run sent by auto
qed

section \<open>Recovery\<close>

lemma log_getLVDL [simp, intro]: "always (log_ext P) (getLVDLAndSymlinkPath E info)"
  unfolding getLVDLAndSymlinkPath_def
  by (cases info) (auto intro!: log.rules log_queries split: prod.splits)

lemma log_Recover [simp, intro]: "always (log_ext P) (RecoverPVSymlinkPath E info dr src)"
  unfolding RecoverPVSymlinkPath_def by (intro log.rules log_queries log_getLVDL)

lemma log_HasExisting [simp, intro]: "always (log_ext P) (HasExistingLocalVolumes E dr dev)"
  unfolding HasExistingLocalVolumes_def by (intro log.rules log_queries log_Recover)

text \<open>
  A symlink path is recovered for a device only from a single LocalVolumeDeviceLink whose policy
  is \<^verbatim>\<open>PreferredLinkTarget\<close> and whose recorded current target no longer resolves; the path is the one
  recorded in its status, or else the local path of its PV, and lies in the storage class directory
  asked for. The recovery itself writes nothing.
\<close>

theorem recover_symlink_path_sound:
  assumes "run_state (RecoverPVSymlinkPath E info symlinkDir source) w = (Inr path, w')"
  shows "\<exists>n d. info = [(n, d)] \<and> ls_Policy (ld_Spec d) = PolicyPreferredLinkTarget
      \<and> dir path = symlinkDir
      \<and> (path = lst_PersistentVolumeSymlinkPath (ld_Status d)
         \<or> (lst_PersistentVolumeSymlinkPath (ld_Status d) = ''''
            \<and> (\<exists>p. e_get_pv E (w_clock w) (ls_PersistentVolumeName (ld_Spec d)) = Inr p \<and> pv_LocalPath p = Some path)))
      \<and> (\<exists>e. FilePathEvalSymLinks (host_at E (w_clock w' - 1) w') (lst_CurrentLinkTarget (ld_Status d)) = Inl e)
      \<and> w_log w' = w_log w"
proof -
  have log: "w_log w' = w_log w"
    using always_run [OF log_Recover [of "\<lambda>_. False"] assms] by (auto simp: log_ext_def list_all_iff)
  obtain n d where i: "info = [(n, d)]"
    using assms by (cases info) (auto simp: RecoverPVSymlinkPath_def split: if_splits list.splits)
  obtain r1 w1 where g: "run_state (getLVDLAndSymlinkPath E [(n, d)]) w = (r1, w1)" by fastforce
  have r1: "r1 = Inr (d, path)" and "dir path = symlinkDir" "ls_Policy (ld_Spec d) = PolicyPreferredLinkTarget"
    and res: "\<exists>e. FilePathEvalSymLinks (host_at E (w_clock w' - 1) w') (lst_CurrentLinkTarget (ld_Status d)) = Inl e"
    using assms g unfolding i
    by (auto simp: RecoverPVSymlinkPath_def getLVDLAndSymlinkPath_def host_query_def query_def get_pv_def Let_def
        split: sum.splits if_splits prod.splits option.splits)
  moreover have "path = lst_PersistentVolumeSymlinkPath (ld_Status d)
         \<or> (lst_PersistentVolumeSymlinkPath (ld_Status d) = ''''
            \<and> (\<exists>p. e_get_pv E (w_clock w) (ls_PersistentVolumeName (ld_Spec d)) = Inr p \<and> pv_LocalPath p = Some path))"
    using g r1
    by (auto simp: getLVDLAndSymlinkPath_def query_def get_pv_def Let_def
        split: sum.splits if_splits option.splits)
  ultimately show ?thesis using i log by blast
qed

definition lost_link :: lvdl where
  "lost_link = (demo_link ''local-pv-1'' [''/dev/disk/by-id/wwn-1''])
     \<lparr>ld_Spec := \<lparr>ls_PersistentVolumeName = ''local-pv-1'', ls_NodeName = ''node1'', ls_Policy = PolicyPreferredLinkTarget\<rparr>,
      ld_Status := \<lparr>lst_CurrentLinkTarget = ''/dev/disk/by-id/scsi-0'', lst_PreferredLinkTarget = '''',
        lst_ValidLinkTargets = [''/dev/disk/by-id/wwn-1''],
        lst_PersistentVolumeSymlinkPath = ''/mnt/local-storage/sc/scsi-0'', lst_FilesystemUUID = '''', lst_Conditions = []\<rparr>\<rparr>"

theorem recover_symlink_path_sound_witness:
  "\<exists>w'. run_state (RecoverPVSymlinkPath demo_env [(''a'', lost_link)] ''/mnt/local-storage/sc'' ''/dev/disk/by-id/wwn-1'')
          demo_world = (Inr ''/mnt/local-storage/sc/scsi-0'', w') \<and> w_log w' = []"
proof -
  let ?m = "RecoverPVSymlinkPath demo_env [(''a'', lost_link)] ''/mnt/local-storage/sc'' ''/dev/disk/by-id/wwn-1''"
  obtain w' where run: "run_state ?m demo_world = (Inr ''/mnt/local-storage/sc/scsi-0'', w')"
  proof -
    have "fst (run_state ?m demo_world) = Inr ''/mnt/local-storage/sc/scsi-0''" by code_simp
    then show ?thesis by (cases "run_state ?m demo_world") (auto intro: that)
  qed
  have "w_log demo_world = []" by (simp add: demo_world_def)
  then show ?thesis using recover_symlink_path_sound [OF run] run by auto
qed

end
