(* ===== verification/DeviceLinkHandler.thy ===== *)
theory DeviceLinkHandler
  imports SymlinkUtils
begin

text \<open>
  Model of \<^verbatim>\<open>pkg/common/device_link_handler.go\<close>: the life of a LocalVolumeDeviceLink object (LVDL)
  beside its PV. \<open>ApplyStatus\<close> creates the object and keeps its status in step with the device;
  \<open>RecreateSymlinkIfNeeded\<close> moves the PV's symlink to the preferred by-id name by an atomic swap.
  The handler's fields are the environment and the node name.
\<close>

datatype owner = OwnerLV local_volume | OwnerLVSet local_volume_set

definition owner_meta :: "owner \<Rightarrow> obj_meta" where
  "owner_meta obj = (case obj of OwnerLV v \<Rightarrow> lv_meta v | OwnerLVSet v \<Rightarrow> lvset_meta v)"

definition owner_gvk :: "owner \<Rightarrow> string \<times> string" where
  "owner_gvk obj = (case obj of OwnerLV v \<Rightarrow> (lv_Kind v, lv_APIVersion v) | OwnerLVSet v \<Rightarrow> (lvset_Kind v, lvset_APIVersion v))"

definition NewDeviceLinkHandler :: "string \<Rightarrow> string result" where
  "NewDeviceLinkHandler nodeName =
     (if nodeName = '''' then Inl (Errorf ''node name is required for DeviceLinkHandler'') else Inr nodeName)"

section \<open>Creation\<close>

definition buildOwnerRefs :: "owner option \<Rightarrow> owner_ref list result" where
  "buildOwnerRefs ownerObj =
     (case ownerObj of
        None \<Rightarrow> Inl (Errorf ''owner object is nil'')
      | Some obj \<Rightarrow>
          let (kind, apiVersion) = owner_gvk obj;
              (kind', apiVersion') =
                (if kind = '''' \<or> apiVersion = '''' then
                   (case obj of
                      OwnerLV _ \<Rightarrow> (LocalVolumeKind, ''local.storage.openshift.io/v1'')
                    | OwnerLVSet _ \<Rightarrow> (LocalVolumeSetKind, ''local.storage.openshift.io/v1alpha1''))
                 else (kind, apiVersion))
          in Inr [\<lparr>or_APIVersion = apiVersion', or_Kind = kind', or_Name = om_Name (owner_meta obj),
                   or_UID = om_UID (owner_meta obj), or_Controller = Some True, or_BlockOwnerDeletion = None\<rparr>])"

definition generateLVDLObj :: "string \<Rightarrow> string \<Rightarrow> string \<Rightarrow> owner option \<Rightarrow> lvdl result" where
  "generateLVDLObj nodeName pvName namespace ownerObj =
     (case buildOwnerRefs ownerObj of
        Inl e \<Rightarrow> Inl e
      | Inr ownerRefs \<Rightarrow>
          if nodeName = '''' then Inl (Errorf (''node name is required for LocalVolumeDeviceLink '' @ pvName))
          else Inr
            \<lparr>ld_meta = \<lparr>om_Name = pvName, om_Namespace = namespace, om_UID = '''', om_Labels = [],
               om_Annotations = [], om_Finalizers = [], om_OwnerReferences = ownerRefs,
               om_CreationTimestamp = None, om_DeletionTimestamp = None, om_Generation = 0\<rparr>,
             ld_Spec = \<lparr>ls_PersistentVolumeName = pvName, ls_NodeName = nodeName, ls_Policy = PolicyNone\<rparr>,
             ld_Status = \<lparr>lst_CurrentLinkTarget = '''', lst_PreferredLinkTarget = '''',
               lst_ValidLinkTargets = [], lst_PersistentVolumeSymlinkPath = '''', lst_FilesystemUUID = '''',
               lst_Conditions = []\<rparr>\<rparr>)"

definition createLVDL :: "env \<Rightarrow> string \<Rightarrow> string \<Rightarrow> string \<Rightarrow> owner option \<Rightarrow> lvdl result prog" where
  "createLVDL E nodeName pvName namespace ownerObj =
     (case generateLVDLObj nodeName pvName namespace ownerObj of
        Inl e \<Rightarrow> State_Monad.return (Inl e)
      | Inr required \<Rightarrow>
          do {
            r \<leftarrow> api E (CreateLVDL required);
            State_Monad.return (case r of None \<Rightarrow> Inr required | Some e \<Rightarrow> Inl e)
          })"

definition FindLVDL :: "env \<Rightarrow> string \<Rightarrow> string \<Rightarrow> lvdl result prog" where
  "FindLVDL E lvdlName namespace = get_lvdl E (namespace, lvdlName)"

definition findOrCreateLVDL ::
  "env \<Rightarrow> string \<Rightarrow> string \<Rightarrow> string \<Rightarrow> string \<Rightarrow> owner option \<Rightarrow> lvdl result prog" where
  "findOrCreateLVDL E nodeName pvName namespace devicePath ownerObj =
     do {
       r \<leftarrow> get_lvdl E (namespace, pvName);
       case r of
         Inr existing \<Rightarrow> State_Monad.return (Inr existing)
       | Inl e \<Rightarrow>
           if \<not> IsNotFound e then State_Monad.return (Inl e)
           else if ownerObj = None then
             State_Monad.return (Inl (Errorf (''unable to determine owner for LocalVolumeDeviceLink '' @ pvName)))
           else do {
             c \<leftarrow> createLVDL E nodeName pvName namespace ownerObj;
             case c of
               Inr d \<Rightarrow> State_Monad.return (Inr d)
             | Inl e2 \<Rightarrow>
                 if IsAlreadyExists e2 then FindLVDL E pvName namespace
                 else State_Monad.return (Inl (Wrapf (''error creating lvdl object '' @ pvName @ '', for device ''
                        @ devicePath @ '': '') e2))
           }
     }"

section \<open>Status\<close>

text \<open>The status fields of a device: preferred target, valid targets, file system UUID.\<close>

definition preferredTarget :: "host \<Rightarrow> block_device \<Rightarrow> string \<Rightarrow> string result" where
  "preferredTarget h dev given =
     (if given \<noteq> '''' then Inr given
      else case fst (GetUncachedPathID h dev) of
             Inr p \<Rightarrow> Inr p
           | Inl e \<Rightarrow> if as_IDPathNotFound e then Inr ''''
                      else Inl (Wrapf (''failed to get preferred device link for '' @ bd_Name dev @ '': '') e))"

definition setStatusSymlinks ::
  "env \<Rightarrow> lvdl \<Rightarrow> block_device \<Rightarrow> string \<Rightarrow> string \<Rightarrow> string \<Rightarrow> lvdl result prog" where
  "setStatusSymlinks E d dev preferredLinkTarget currentSymlink symlinkPath =
     (case GetDevPath dev of
        (_, Some e) \<Rightarrow> State_Monad.return (Inl (Wrapf (''failed to get /dev path for '' @ bd_Name dev @ '': '') e))
      | (_, None) \<Rightarrow>
          bindE (host_query E (\<lambda>h. preferredTarget h dev preferredLinkTarget)) (\<lambda>preferred.
          bindE (host_query E (\<lambda>h. GetValidByIDSymlinks h dev)) (\<lambda>validLinks.
          bindE (host_query E (\<lambda>h. GetFilesystemUUID h dev)) (\<lambda>uuid.
          State_Monad.return (Inr (d\<lparr>ld_Status := (ld_Status d)
             \<lparr>lst_CurrentLinkTarget := currentSymlink,
              lst_PreferredLinkTarget := preferred,
              lst_ValidLinkTargets := validLinks,
              lst_FilesystemUUID := uuid,
              lst_PersistentVolumeSymlinkPath := symlinkPath\<rparr>\<rparr>))))))"

definition GetControllerOf :: "obj_meta \<Rightarrow> owner_ref option" where
  "GetControllerOf m = List.find (\<lambda>r. or_Controller r = Some True) (om_OwnerReferences m)"

definition resolveOwnerObjectFromLVDL :: "env \<Rightarrow> lvdl \<Rightarrow> owner result prog" where
  "resolveOwnerObjectFromLVDL E d =
     (case (case GetControllerOf (ld_meta d) of
              Some r \<Rightarrow> Some r
            | None \<Rightarrow> (case om_OwnerReferences (ld_meta d) of [] \<Rightarrow> None | r # _ \<Rightarrow> Some r)) of
        None \<Rightarrow> State_Monad.return (Inl (Errorf (''no owner references for lvdl '' @ ld_Name d)))
      | Some ref \<Rightarrow>
          let nn = (om_Namespace (ld_meta d), or_Name ref) in
          if or_Kind ref = LocalVolumeKind then
            do { r \<leftarrow> get_lv E nn; State_Monad.return (case r of Inl e \<Rightarrow> Inl e | Inr v \<Rightarrow> Inr (OwnerLV v)) }
          else if or_Kind ref = LocalVolumeSetKind then
            do { r \<leftarrow> get_lvset E nn; State_Monad.return (case r of Inl e \<Rightarrow> Inl e | Inr v \<Rightarrow> Inr (OwnerLVSet v)) }
          else State_Monad.return (Inl (Errorf (''unsupported owner kind for lvdl '' @ ld_Name d))))"

definition owner_event :: "owner \<Rightarrow> string \<Rightarrow> string \<Rightarrow> unit prog" where
  "owner_event obj reason msg = record_event (om_Name (owner_meta obj)) ''Normal'' reason msg"

text \<open>The object the function returns and the error.\<close>

definition UpdateDeviceLinks ::
  "env \<Rightarrow> lvdl \<Rightarrow> block_device \<Rightarrow> string \<Rightarrow> string \<Rightarrow> (lvdl \<times> error option) prog" where
  "UpdateDeviceLinks E existing dev currentSymlink symlinkPath =
     do {
       s \<leftarrow> setStatusSymlinks E existing dev '''' currentSymlink symlinkPath;
       case s of
         Inl e \<Rightarrow> State_Monad.return (existing, Some e)
       | Inr copy \<Rightarrow>
           if ld_Status existing = ld_Status copy then State_Monad.return (existing, None)
           else do {
             _ \<leftarrow> (if lst_PreferredLinkTarget (ld_Status existing) \<noteq> lst_PreferredLinkTarget (ld_Status copy) then
                     do {
                       o1 \<leftarrow> resolveOwnerObjectFromLVDL E copy;
                       (case o1 of
                          Inl _ \<Rightarrow> State_Monad.return ()
                        | Inr obj \<Rightarrow> owner_event obj ''PreferredSymlinkChanged''
                            (''PreferredLinkTarget has changed from '' @ lst_PreferredLinkTarget (ld_Status existing)
                             @ '' to '' @ lst_PreferredLinkTarget (ld_Status copy) @ '' for device '' @ bd_Name dev))
                     }
                   else State_Monad.return ());
             r \<leftarrow> api E (UpdateLVDLStatus copy);
             _ \<leftarrow> (if r = None then write_through copy else State_Monad.return ());
             State_Monad.return (copy, r)
           }
     }"

definition ApplyStatus ::
  "env \<Rightarrow> string \<Rightarrow> string \<Rightarrow> string \<Rightarrow> block_device \<Rightarrow> owner option \<Rightarrow> string \<Rightarrow> string \<Rightarrow> (lvdl option \<times> error option) prog" where
  "ApplyStatus E nodeName pvName namespace dev ownerObj currentSymlink symlinkPath =
     (case GetDevPath dev of
        (_, Some e) \<Rightarrow> State_Monad.return (None, Some (Wrapf (''failed to get /dev path for '' @ bd_Name dev @ '': '') e))
      | (devicePath, None) \<Rightarrow>
          do {
            p \<leftarrow> get_pv E pvName;
            case p of
              Inl e \<Rightarrow> State_Monad.return (None, if IsNotFound e then None else Some e)
            | Inr _ \<Rightarrow>
                do {
                  x \<leftarrow> findOrCreateLVDL E nodeName pvName namespace devicePath ownerObj;
                  case x of
                    Inl e \<Rightarrow> State_Monad.return (None, Some e)
                  | Inr existing \<Rightarrow>
                      do {
                        (d, err) \<leftarrow> UpdateDeviceLinks E existing dev currentSymlink symlinkPath;
                        State_Monad.return (Some d, err)
                      }
                }
          })"

section \<open>Conditions\<close>

definition DeviceSymlinkErrorType :: string where "DeviceSymlinkErrorType = ''SymlinkRecreateError''"

definition getCondition :: "time \<Rightarrow> string \<Rightarrow> string \<Rightarrow> cond_status \<Rightarrow> operator_condition" where
  "getCondition t reason msg status =
     \<lparr>oc_Type = DeviceSymlinkErrorType, oc_Status = status, oc_Reason = reason, oc_Message = msg,
      oc_LastTransitionTime = Some t\<rparr>"

text \<open>The index of the last condition of the type, as the loop without break leaves it.\<close>

definition lastIndex :: "string \<Rightarrow> operator_condition list \<Rightarrow> nat option" where
  "lastIndex ty cs =
     fold (\<lambda>i acc. if oc_Type (cs ! i) = ty then Some i else acc) [0..<length cs] None"

definition setConditions :: "operator_condition \<Rightarrow> operator_condition list \<Rightarrow> operator_condition list" where
  "setConditions condition cs =
     (case lastIndex (oc_Type condition) cs of
        None \<Rightarrow> cs @ [condition]
      | Some i \<Rightarrow>
          if oc_Message (cs ! i) = oc_Message condition \<and> oc_Reason (cs ! i) = oc_Reason condition
             \<and> oc_Status (cs ! i) = oc_Status condition
          then cs else cs[i := condition])"

definition setLVDLCondition :: "lvdl \<Rightarrow> operator_condition \<Rightarrow> lvdl" where
  "setLVDLCondition d condition =
     d\<lparr>ld_Status := (ld_Status d)\<lparr>lst_Conditions := setConditions condition (lst_Conditions (ld_Status d))\<rparr>\<rparr>"

definition updateStatus ::
  "env \<Rightarrow> lvdl \<Rightarrow> operator_condition \<Rightarrow> block_device \<Rightarrow> string \<Rightarrow> string \<Rightarrow> string \<Rightarrow> (lvdl \<times> error option) prog" where
  "updateStatus E d condition dev preferredLinkTarget currentSymlink symlinkPath =
     do {
       s \<leftarrow> setStatusSymlinks E d dev preferredLinkTarget currentSymlink symlinkPath;
       case s of
         Inl e \<Rightarrow> State_Monad.return (d, Some (Wrapf (''symlink recreation failed '' @ oc_Message condition
                     @ '', setting conditions also failed with: '') e))
       | Inr copy0 \<Rightarrow>
           let copy = setLVDLCondition copy0 condition in
           if ld_Status d = ld_Status copy then State_Monad.return (d, None)
           else do {
             r \<leftarrow> api E (UpdateLVDLStatus copy);
             case r of
               Some e \<Rightarrow> State_Monad.return (d, Some (Wrapf (''symlink recreation failed '' @ oc_Message condition
                     @ '', setting conditions also failed with: '') e))
             | None \<Rightarrow> do { _ \<leftarrow> write_through copy; State_Monad.return (copy, None) }
           }
     }"

section \<open>The atomic swap\<close>

definition HasMismatchingSymlink :: "host \<Rightarrow> lvdl option \<Rightarrow> block_device \<Rightarrow> bool" where
  "HasMismatchingSymlink h lvdl dev =
     (case lvdl of
        None \<Rightarrow> False
      | Some d \<Rightarrow>
          if ls_Policy (ld_Spec d) \<noteq> PolicyPreferredLinkTarget then False
          else case GetPathByID h dev of
                 (_, Some _, _) \<Rightarrow> False
               | (preferred, None, _) \<Rightarrow>
                   if preferred = '''' then False
                   else if lst_CurrentLinkTarget (ld_Status d) = preferred then False
                   else True)"

text \<open>The first other entry of the directory that already resolves to the preferred device.\<close>

definition claimedBy :: "host \<Rightarrow> string \<Rightarrow> string \<Rightarrow> string list \<Rightarrow> string option" where
  "claimedBy h symLinkPath resolvedPreferred entries =
     List.find (\<lambda>entry. entry \<noteq> symLinkPath \<and> FilePathEvalSymLinks h entry = Inr resolvedPreferred) entries"

text \<open>A failed step: the reason becomes a condition on the object.\<close>

definition failStatus ::
  "env \<Rightarrow> lvdl \<Rightarrow> string \<Rightarrow> string \<Rightarrow> block_device \<Rightarrow> string \<Rightarrow> string \<Rightarrow> (lvdl \<times> error option) prog" where
  "failStatus E d reason msg dev preferred symLinkPath =
     do {
       t \<leftarrow> now E;
       updateStatus E d (getCondition t reason msg ConditionTrue) dev preferred
         (lst_CurrentLinkTarget (ld_Status d)) symLinkPath
     }"

text \<open>After the rename: the status follows the new link, the conditions are cleared, the owner gets an event.\<close>

definition swapDone :: "env \<Rightarrow> lvdl \<Rightarrow> string \<Rightarrow> block_device \<Rightarrow> string \<Rightarrow> (lvdl \<times> error option) prog" where
  "swapDone E d symLinkPath dev preferred =
     do {
       s \<leftarrow> setStatusSymlinks E d dev preferred preferred symLinkPath;
       case s of
         Inl e \<Rightarrow> State_Monad.return (d, Some (Wrapf ''refreshing lvdl status after symlink recreation failed: '' e))
       | Inr copy0 \<Rightarrow>
           let copy = copy0\<lparr>ld_Status := (ld_Status copy0)\<lparr>lst_Conditions := []\<rparr>\<rparr> in
           do {
             r \<leftarrow> api E (UpdateLVDLStatus copy);
             case r of
               Some e \<Rightarrow> State_Monad.return (d, Some (Wrapf ''updating lvdl failed with: '' e))
             | None \<Rightarrow>
                 do {
                   _ \<leftarrow> write_through copy;
                   o1 \<leftarrow> resolveOwnerObjectFromLVDL E d;
                   _ \<leftarrow> (case o1 of
                           Inl _ \<Rightarrow> State_Monad.return ()
                         | Inr obj \<Rightarrow> owner_event obj ''SymlinkRecreated''
                             (''Successfully updated symlink '' @ symLinkPath @ '' from ''
                               @ lst_CurrentLinkTarget (ld_Status d) @ '' to '' @ preferred));
                   State_Monad.return (copy, None)
                 }
           }
     }"

text \<open>The swap proper: a temporary link beside the old one, renamed over it.\<close>

definition swapBody :: "env \<Rightarrow> lvdl \<Rightarrow> string \<Rightarrow> string \<Rightarrow> block_device \<Rightarrow> string \<Rightarrow> (lvdl \<times> error option) prog" where
  "swapBody E d symLinkPath tmpPath dev preferred =
     do {
       r1 \<leftarrow> do_symlink E preferred tmpPath;
       case r1 of
         Some e \<Rightarrow> failStatus E d ''TempSymlinkCreateFailed''
             (''failed to create temp symlink '' @ tmpPath @ '' -> '' @ preferred @ '': '' @ err_text e) dev preferred symLinkPath
       | None \<Rightarrow>
           do {
             r2 \<leftarrow> do_rename E tmpPath symLinkPath;
             case r2 of
               Some e \<Rightarrow> failStatus E d ''RenameSymlinkFailed''
                   (''failed to atomically replace symlink '' @ symLinkPath @ '': '' @ err_text e) dev preferred symLinkPath
             | None \<Rightarrow> swapDone E d symLinkPath dev preferred
           }
     }"

text \<open>A stale temporary link is removed before, the deferred removal runs at the end.\<close>

definition swapLink :: "env \<Rightarrow> lvdl \<Rightarrow> string \<Rightarrow> block_device \<Rightarrow> string \<Rightarrow> (lvdl \<times> error option) prog" where
  "swapLink E d symLinkPath dev preferred =
     (let tmpPath = symLinkPath @ ''.tmp'' in
      do {
        _ \<leftarrow> do_remove E tmpPath;
        res \<leftarrow> swapBody E d symLinkPath tmpPath dev preferred;
        _ \<leftarrow> do_remove E tmpPath;
        State_Monad.return res
      })"

definition RecreateSymlinkIfNeeded ::
  "env \<Rightarrow> lvdl \<Rightarrow> string \<Rightarrow> block_device \<Rightarrow> (lvdl \<times> error option) prog" where
  "RecreateSymlinkIfNeeded E d symLinkPath dev0 =
     do {
       g \<leftarrow> host_query E (\<lambda>h. GetPathByID h dev0);
       case g of
         (_, Some e, dev) \<Rightarrow> failStatus E d ''PreferredTargetNotFound''
             (''could not find preferredLinkTarget for device '' @ bd_Name dev @ '' with currentLink ''
               @ lst_CurrentLinkTarget (ld_Status d) @ '': '' @ err_text e) dev '''' symLinkPath
       | (preferred, None, dev) \<Rightarrow>
           do {
             rp \<leftarrow> host_query E (\<lambda>h. FilePathEvalSymLinks h preferred);
             case rp of
               Inl e \<Rightarrow> failStatus E d ''EvalSymlinkFailed''
                   (''failed to eval preferred target '' @ preferred @ '': '' @ err_text e) dev preferred symLinkPath
             | Inr resolvedPreferred \<Rightarrow>
                 do {
                   en \<leftarrow> host_query E (\<lambda>h. FilePathGlob h (dir symLinkPath @ ''/*''));
                   case en of
                     Inl e \<Rightarrow> failStatus E d ''ListDirFailed''
                         (''failed to list symlink dir '' @ dir symLinkPath @ '': '' @ err_text e) dev preferred symLinkPath
                   | Inr entries \<Rightarrow>
                       do {
                         cl \<leftarrow> host_query E (\<lambda>h. claimedBy h symLinkPath resolvedPreferred entries);
                         case cl of
                           Some entry \<Rightarrow> failStatus E d ''TargetAlreadyClaimed''
                               (''preferred target '' @ preferred @ '' is already claimed by symlink '' @ entry) dev preferred symLinkPath
                         | None \<Rightarrow> swapLink E d symLinkPath dev preferred
                       }
                 }
           }
     }"


section \<open>What the handler writes\<close>

lemmas handler_parts =
  failStatus_def updateStatus_def swapDone_def setStatusSymlinks_def resolveOwnerObjectFromLVDL_def owner_event_def

text \<open>Updates of the status subresource that leave identity, spec and metadata of the object alone.\<close>

definition same_object :: "lvdl \<Rightarrow> lvdl \<Rightarrow> bool" where
  "same_object d d' \<longleftrightarrow> ld_meta d' = ld_meta d \<and> ld_Spec d' = ld_Spec d"

lemma same_object_refl [simp]: "same_object d d"
  by (simp add: same_object_def)

lemma setLVDLCondition_same [simp]: "same_object d (setLVDLCondition d' c) = same_object d d'"
  by (simp add: same_object_def setLVDLCondition_def)

lemma log_resolveOwner [simp, intro]: "always (log_ext P) (resolveOwnerObjectFromLVDL E d)"
  unfolding resolveOwnerObjectFromLVDL_def by (intro log.rules log_queries)

lemma log_setStatus [simp, intro]: "always (log_ext P) (setStatusSymlinks E d dev pr cur path)"
  unfolding setStatusSymlinks_def by (intro log.rules log_queries)

lemma setStatus_result:
  "wp (setStatusSymlinks E d dev pr cur path)
     (\<lambda>r w'. \<forall>d'. r = Inr d' \<longrightarrow> same_object d d'
        \<and> lst_CurrentLinkTarget (ld_Status d') = cur \<and> lst_PersistentVolumeSymlinkPath (ld_Status d') = path
        \<and> (pr \<noteq> '''' \<longrightarrow> lst_PreferredLinkTarget (ld_Status d') = pr)
        \<and> sorted (lst_ValidLinkTargets (ld_Status d')) \<and> distinct (lst_ValidLinkTargets (ld_Status d'))
        \<and> lst_Conditions (ld_Status d') = lst_Conditions (ld_Status d)) w"
  by (auto simp: setStatusSymlinks_def wp_simps host_query_def same_object_def preferredTarget_def
      dest!: valid_links_sorted split: sum.splits option.splits prod.splits)

lemma log_after:
  assumes m: "always (log_ext P) m" and res: "\<And>w. wp m (\<lambda>r w'. Q r) w"
    and f: "\<And>r. Q r \<Longrightarrow> always (log_ext P) (f r)"
  shows "always (log_ext P) (State_Monad.bind m f)"
proof (unfold always_def, intro allI)
  fix w
  obtain r w1 where run: "run_state m w = (r, w1)" by fastforce
  have "Q r" using wp_runD [OF res run] .
  then have "log_ext P w1 (snd (run_state (f r) w1))" using f by (simp add: always_def)
  then show "log_ext P w (snd (run_state (State_Monad.bind m f) w))"
    using always_run [OF m run] run log.R_trans by auto
qed

lemma log_setStatus_then:
  assumes "\<And>e. always (log_ext P) (f (Inl e))" "\<And>d'. same_object d d' \<Longrightarrow> always (log_ext P) (f (Inr d'))"
  shows "always (log_ext P) (State_Monad.bind (setStatusSymlinks E d dev pr cur path) f)"
proof (rule log_after [OF log_setStatus, where Q = "\<lambda>r. \<forall>d'. r = Inr d' \<longrightarrow> same_object d d'"])
  show "wp (setStatusSymlinks E d dev pr cur path) (\<lambda>r w'. \<forall>d'. r = Inr d' \<longrightarrow> same_object d d') w" for w
    by (rule wp_mono [OF setStatus_result]) simp
  show "always (log_ext P) (f r)" if "\<forall>d'. r = Inr d' \<longrightarrow> same_object d d'" for r
    using assms that by (cases r) auto
qed

text \<open>The actions a status update may log.\<close>

definition status_action :: "lvdl \<Rightarrow> action \<Rightarrow> bool" where
  "status_action d a \<longleftrightarrow> (\<exists>d' r. a = Api (UpdateLVDLStatus d') r \<and> same_object d d') \<or> (\<exists>o1 t r m. a = Event o1 t r m)"

lemma status_action_simps [simp]:
  "status_action d (Api (UpdateLVDLStatus d') r) = same_object d d'"
  "status_action d (Event o1 t rs m)"
  by (auto simp: status_action_def)

lemma log_updateStatus: "always (log_ext (status_action d)) (updateStatus E d c dev pr cur path)"
  unfolding updateStatus_def by (rule log_setStatus_then) (auto intro!: log.rules log_api)

lemma log_failStatus: "always (log_ext (status_action d)) (failStatus E d reason msg dev pr path)"
  unfolding failStatus_def by (intro log.rules log_queries log_updateStatus)

lemma log_swapDone: "always (log_ext (status_action d)) (swapDone E d path dev pr)"
  unfolding swapDone_def
  by (rule log_setStatus_then) (auto simp: same_object_def owner_event_def intro!: log.rules log_api log_event)

lemma log_UpdateDeviceLinks: "always (log_ext (status_action d)) (UpdateDeviceLinks E d dev cur path)"
  unfolding UpdateDeviceLinks_def
  by (rule log_setStatus_then) (auto simp: owner_event_def intro!: log.rules log_api log_event)

text \<open>Beside them, the swap works on the link and on its temporary neighbour only.\<close>

definition swap_action :: "lvdl \<Rightarrow> string \<Rightarrow> action \<Rightarrow> bool" where
  "swap_action d path a \<longleftrightarrow> status_action d a
     \<or> (\<exists>r. a = FsOp (OpRemove (path @ ''.tmp'')) r) \<or> (\<exists>t r. a = FsOp (OpSymlink t (path @ ''.tmp'')) r)
     \<or> (\<exists>r. a = FsOp (OpRename (path @ ''.tmp'') path) r)"

lemma swap_of_status: "status_action d a \<Longrightarrow> swap_action d path a"
  by (simp add: swap_action_def)

lemmas log_swap_parts =
  always_log_mono [OF log_failStatus swap_of_status] always_log_mono [OF log_swapDone swap_of_status]

lemma log_swapLink: "always (log_ext (swap_action d path)) (swapLink E d path dev pr)"
  unfolding swapLink_def swapBody_def
  by (intro log.rules log_fsops log_swap_parts) (auto simp: swap_action_def)

text \<open>
  Recreating a symlink writes nothing to the cluster but the status of the LocalVolumeDeviceLink
  it was given, whose name, namespace, owners and spec it leaves as they are, and events; in the file
  system it touches only the PV's link and the temporary link beside it.
\<close>

theorem recreate_symlink_effects:
  "always (log_ext (swap_action d path)) (RecreateSymlinkIfNeeded E d path dev)"
  unfolding RecreateSymlinkIfNeeded_def
  by (intro log.rules log_queries log_swapLink log_swap_parts)

section \<open>The swap is atomic\<close>

lemma keep_resolveOwner: "stable E I \<Longrightarrow> always (keeps I) (resolveOwnerObjectFromLVDL E d)"
  unfolding resolveOwnerObjectFromLVDL_def by (intro keep.rules keep_queries)

lemma keep_setStatus: "stable E I \<Longrightarrow> always (keeps I) (setStatusSymlinks E d dev pr cur path)"
  unfolding setStatusSymlinks_def by (intro keep.rules keep_queries)

lemma keep_failStatus: "stable E I \<Longrightarrow> always (keeps I) (failStatus E d reason msg dev pr path)"
  unfolding failStatus_def updateStatus_def
  by (intro keep.rules keep_queries keep_setStatus keep_api keep_write_through)

lemma keep_swapDone: "stable E I \<Longrightarrow> always (keeps I) (swapDone E d path dev pr)"
  unfolding swapDone_def owner_event_def
  by (intro keep.rules keep_queries keep_setStatus keep_api keep_write_through keep_resolveOwner keep_event)

text \<open>The link exists and points to the old or to the new target.\<close>

definition link_one_of :: "string list \<Rightarrow> string \<Rightarrow> string \<Rightarrow> string \<Rightarrow> fs \<Rightarrow> bool" where
  "link_one_of d n old new f \<longleftrightarrow> plain_dir f d \<and> node_at f (d @ [n]) \<in> {Some (Sym old), Some (Sym new)}"

lemma link_one_of_stable:
  assumes "udev_confined E" "own_path d"
  shows "stable E (link_one_of d n old new)"
  unfolding stable_def link_one_of_def
  using udev_plain_dir [OF assms(1) disjI1 [OF assms(2)]] udev_confinedD [OF assms(1) own_path_snoc [OF assms(2)]]
  by simp

lemma keep_remove_tmp:
  assumes "udev_confined E" "own_path d" "good_comps (d @ [n @ ''.tmp''])"
  shows "always (keeps (link_one_of d n old new)) (do_remove E (path_of (d @ [n @ ''.tmp''])))"
  unfolding do_remove_def
proof (rule keep_fsop [OF link_one_of_stable [OF assms(1,2)]])
  fix f g assume I: "link_one_of d n old new f" and r: "os_Remove f (path_of (d @ [n @ ''.tmp''])) = Inr g"
  have pl: "plain_dir f d" using I by (simp add: link_one_of_def)
  have "g = AList.delete (d @ [n @ ''.tmp'']) f"
    using r os_Remove_plain [OF pl assms(3)] by (auto split: option.splits inode.splits if_splits)
  then show "link_one_of d n old new g"
    using I plain_dir_delete [OF pl, of "d @ [n @ ''.tmp'']"] by (simp add: link_one_of_def node_at_delete)
qed


text \<open>The whole swap, step by step from a state in which the link is in place.\<close>

lemma swap_symlink_step:
  assumes E: "udev_confined E" "own_path d" "good_comps (d @ [n @ ''.tmp''])"
    and k: "keeps (link_one_of d n old pr) w0 w" and I: "link_one_of d n old pr (w_fs w0)"
  shows "wp (do_symlink E pr (path_of (d @ [n @ ''.tmp''])))
     (\<lambda>r w'. keeps (link_one_of d n old pr) w0 w'
        \<and> (r = None \<longrightarrow> node_at (w_fs w') (d @ [n @ ''.tmp'']) = Some (Sym pr))) w"
proof -
  let ?I = "link_one_of d n old pr" and ?q = "d @ [n @ ''.tmp'']" and ?f = "e_udev E (w_clock w) (w_fs w)"
  have Iw: "?I (w_fs w)" using k I by (simp add: keeps_def)
  have If: "?I ?f" using stableD [OF link_one_of_stable [OF E(1,2)] Iw] .
  then have pl: "plain_dir ?f d" by (simp add: link_one_of_def)
  have up: "?I (AList.update ?q (Sym pr) ?f)"
    using If plain_dir_update [OF pl, of ?q] by (simp add: link_one_of_def node_at_update)
  show ?thesis
    by (auto simp: do_symlink_def wp_simps os_Symlink_plain [OF pl E(3)] node_at_update If up
        split: sum.splits if_splits intro: keeps_grow [OF k I] keeps_same [OF k I])
qed

lemma swap_rename_step:
  assumes E: "udev_confined E" "own_path d" "good_comps (d @ [n])" "good_comps (d @ [n @ ''.tmp''])"
    and k: "keeps (link_one_of d n old pr) w0 w" and I: "link_one_of d n old pr (w_fs w0)"
    and t: "node_at (w_fs w) (d @ [n @ ''.tmp'']) = Some (Sym pr)"
  shows "wp (do_rename E (path_of (d @ [n @ ''.tmp''])) (path_of (d @ [n])))
     (\<lambda>r w'. keeps (link_one_of d n old pr) w0 w' \<and> (r = None \<longrightarrow> link_one_of d n pr pr (w_fs w'))) w"
proof -
  let ?I = "link_one_of d n old pr" and ?q = "d @ [n @ ''.tmp'']" and ?f = "e_udev E (w_clock w) (w_fs w)"
  have Iw: "?I (w_fs w)" using k I by (simp add: keeps_def)
  have If: "?I ?f" using stableD [OF link_one_of_stable [OF E(1,2)] Iw] .
  then have pl: "plain_dir ?f d" and nd: "node_at ?f (d @ [n]) \<noteq> Some Dir" by (auto simp: link_one_of_def)
  have tf: "node_at ?f ?q = Some (Sym pr)" using udev_confinedD [OF E(1) own_path_snoc [OF E(2)]] t by simp
  let ?g = "AList.update (d @ [n]) (Sym pr) (AList.delete ?q ?f)"
  have rn: "os_Rename ?f (path_of ?q) (path_of (d @ [n])) = Inr ?g"
    by (rule os_Rename_plain [OF pl E(4,3) tf nd]) simp
  have "plain_dir ?g d"
    by (intro plain_dir_update plain_dir_delete pl) auto
  then have g: "link_one_of d n pr pr ?g" "?I ?g" by (auto simp: link_one_of_def node_at_update)
  show ?thesis
    by (auto simp: do_rename_def wp_simps rn g If split: sum.splits
        intro: keeps_grow [OF k I] keeps_same [OF k I])
qed

lemma failStatus_current:
  "wp (failStatus E d reason msg dev pr path)
     (\<lambda>r w'. lst_CurrentLinkTarget (ld_Status (fst r)) = lst_CurrentLinkTarget (ld_Status d)) w"
  unfolding failStatus_def updateStatus_def
  by (auto simp: wp_simps now_def Let_def intro!: wp_mono [OF setStatus_result]
      simp: setLVDLCondition_def write_through_def split: sum.splits option.splits)


text \<open>The outcome of the swap: at every moment a link, and no false report of success.\<close>

definition swap_post :: "lvdl \<Rightarrow> string list \<Rightarrow> string \<Rightarrow> string \<Rightarrow> string \<Rightarrow> world \<Rightarrow> lvdl \<times> error option \<Rightarrow> world \<Rightarrow> bool" where
  "swap_post l d n old pr w0 r w' \<longleftrightarrow>
     keeps (link_one_of d n old pr) w0 w'
     \<and> (lst_CurrentLinkTarget (ld_Status (fst r)) = pr \<and> lst_CurrentLinkTarget (ld_Status l) \<noteq> pr
          \<longrightarrow> link_one_of d n pr pr (w_fs w'))"

lemma swap_post_fail:
  assumes "udev_confined E" "own_path d" "keeps (link_one_of d n old pr) w0 w"
  shows "wp (failStatus E l reason msg dev p path) (swap_post l d n old pr w0) w"
  by (rule wp_mono [OF wp_conj [OF keep.wp_last [OF assms(3) keep_failStatus [OF link_one_of_stable [OF assms(1,2)]]]
        failStatus_current]]) (simp add: swap_post_def)

lemma swap_post_done:
  assumes "udev_confined E" "own_path d" "keeps (link_one_of d n old pr) w0 w" "link_one_of d n pr pr (w_fs w)"
  shows "wp (swapDone E l path dev p) (swap_post l d n old pr w0) w"
proof -
  note st = link_one_of_stable [OF assms(1,2)]
  have "wp (swapDone E l path dev p) (\<lambda>r w'. keeps (link_one_of d n pr pr) w w') w"
    by (rule always_wp [OF keep_swapDone [OF st]])
  from wp_conj [OF keep.wp_last [OF assms(3) keep_swapDone [OF st]] this] show ?thesis
    by (rule wp_mono) (use assms(4) in \<open>simp add: swap_post_def keeps_def\<close>)
qed

lemma swap_post_remove:
  assumes "udev_confined E" "own_path d" "good_comps (d @ [n @ ''.tmp''])" "swap_post l d n old pr w0 r w"
  shows "wp (do_remove E (path_of (d @ [n @ ''.tmp'']))) (\<lambda>_ w'. swap_post l d n old pr w0 r w') w"
proof -
  have "keeps (link_one_of d n old pr) w0 w" using assms(4) by (simp add: swap_post_def)
  from wp_conj [OF keep.wp_last [OF this keep_remove_tmp [OF assms(1-3)]]
      always_wp [OF keep_remove_tmp [OF assms(1-3), where old = pr and new = pr]]]
  show ?thesis
    by (rule wp_mono) (use assms(4) in \<open>auto simp: swap_post_def keeps_def\<close>)
qed

lemma swapBody_post:
  assumes E: "udev_confined E" "own_path d" "good_comps (d @ [n])" "good_comps (d @ [n @ ''.tmp''])"
    and k: "keeps (link_one_of d n old pr) w0 w" and I: "link_one_of d n old pr (w_fs w0)"
  shows "wp (swapBody E l (path_of (d @ [n])) (path_of (d @ [n @ ''.tmp''])) dev pr) (swap_post l d n old pr w0) w"
  unfolding swapBody_def wp_bind
  apply (rule wp_mono [OF swap_symlink_step [OF E(1,2,4) k I]])
  subgoal for r1 w2
    apply (cases r1)
     apply (simp only: option.case wp_bind)
     apply (rule wp_mono [OF swap_rename_step [OF E _ I]], blast, blast)
    subgoal for r2 w3
      by (cases r2) (simp_all add: swap_post_done [OF E(1,2)] swap_post_fail [OF E(1,2)])
    by (simp add: swap_post_fail [OF E(1,2)])
  done

lemma swapLink_post:
  assumes E: "udev_confined E" "own_path d" "good_comps (d @ [n])"
    and k: "keeps (link_one_of d n old pr) w0 w" and I: "link_one_of d n old pr (w_fs w0)"
  shows "wp (swapLink E l (path_of (d @ [n])) dev pr) (swap_post l d n old pr w0) w"
proof -
  have gt: "good_comps (d @ [n @ ''.tmp''])"
    using E(3) by (auto simp: good_comps_Cons)
  have "wp (swapBody E l (path_of (d @ [n])) (path_of (d @ [n @ ''.tmp''])) dev pr)
      (\<lambda>r. wp (do_remove E (path_of (d @ [n @ ''.tmp'']))) (\<lambda>_ w'. swap_post l d n old pr w0 r w')) w1"
    if "keeps (link_one_of d n old pr) w0 w1" for w1
    by (rule wp_mono [OF swapBody_post [OF E gt that I]]) (rule swap_post_remove [OF E(1,2) gt])
  then show ?thesis
    unfolding swapLink_def Let_def path_of_suffix
    by (intro keep.wp_seq [OF k keep_remove_tmp [OF E(1,2) gt]]) (simp add: wp_simps)
qed

text \<open>
  C7: while the symlink of a PV is moved to the preferred by-id name, the link is never missing: in
  every state the file system goes through, so also after a crash at any point and whatever calls
  fail, the PV's path is a link to the old or to the preferred target. And the handler does not claim
  a success it did not have: the object it returns names the preferred target as the current one only
  if the link points there.
\<close>

theorem recreate_symlink_atomic:
  assumes "udev_confined E" and "own_path d" and "good_comps (d @ [n])"
    and "plain_dir (w_fs w) d" and "node_at (w_fs w) (d @ [n]) = Some (Sym old)"
    and "fst (GetPathByID (host_at E (w_clock w) (tick E w)) dev) = preferred"
    and "run_state (RecreateSymlinkIfNeeded E l (path_of (d @ [n])) dev) w = (r, w')"
  shows "(\<exists>states. w_trace w' = states @ w_trace w \<and> (\<forall>f \<in> set (w_fs w' # states).
            node_at f (d @ [n]) \<in> {Some (Sym old), Some (Sym preferred)}))
    \<and> (lst_CurrentLinkTarget (ld_Status (fst r)) = preferred \<and> lst_CurrentLinkTarget (ld_Status l) \<noteq> preferred
         \<longrightarrow> node_at (w_fs w') (d @ [n]) = Some (Sym preferred))"
proof -
  let ?I = "link_one_of d n old preferred"
  have I: "?I (w_fs w)" using assms(4,5) by (simp add: link_one_of_def)
  note st = link_one_of_stable [OF assms(1,2)]
  have k1: "keeps ?I w (tick E w)" using stableD [OF st I] I by (simp add: keeps_def)
  note fail = swap_post_fail [OF assms(1,2)] and swap = swapLink_post [OF assms(1-3) _ I]
  have "wp (RecreateSymlinkIfNeeded E l (path_of (d @ [n])) dev) (swap_post l d n old preferred w) w"
    unfolding RecreateSymlinkIfNeeded_def host_query_def wp_bind wp_query
    using assms(6) stableD [OF st] I
    by (auto simp: wp_simps keeps_def intro!: fail swap split: prod.splits option.splits sum.splits)
  from wp_runD [OF this assms(7)] I show ?thesis
    by (auto simp: swap_post_def keeps_def link_one_of_def list_all_iff)
qed


text \<open>A PV linked through \<^verbatim>\<open>scsi-0\<close>, a name that is gone; the device is now known as \<^verbatim>\<open>wwn-1\<close>.\<close>

definition stale_world :: world where
  "stale_world = demo_world\<lparr>w_fs :=
     [([''dev''], Dir), ([''dev'', ''sda''], Blk), ([''dev'', ''disk''], Dir), ([''dev'', ''disk'', ''by-id''], Dir),
      ([''dev'', ''disk'', ''by-id'', ''wwn-1''], Sym ''../../sda''),
      ([''mnt''], Dir), ([''mnt'', ''local-storage''], Dir), ([''mnt'', ''local-storage'', ''sc''], Dir),
      ([''mnt'', ''local-storage'', ''sc'', ''scsi-0''], Sym ''/dev/disk/by-id/scsi-0'')]\<rparr>"

abbreviation stale_run :: "env \<Rightarrow> (lvdl \<times> error option) \<times> world" where
  "stale_run E \<equiv> run_state (RecreateSymlinkIfNeeded E lost_link (path_of (demo_dir @ [''scsi-0''])) demo_device) stale_world"

lemma stale_world_ok:
  "own_path demo_dir" "good_comps (demo_dir @ [''scsi-0''])" "plain_dir (w_fs stale_world) demo_dir"
  "node_at (w_fs stale_world) (demo_dir @ [''scsi-0'']) = Some (Sym ''/dev/disk/by-id/scsi-0'')"
  by (simp_all add: own_path_def good_comps_def plain_dir_def stale_world_def node_at_def upt_rec)

lemma stale_preferred:
  "fst (GetPathByID (host_at demo_env (w_clock stale_world) (tick demo_env stale_world)) demo_device)
     = ''/dev/disk/by-id/wwn-1''"
  by code_simp

theorem recreate_symlink_atomic_witness:
  "\<exists>r w'. stale_run demo_env = (r, w')
     \<and> node_at (w_fs w') [''mnt'', ''local-storage'', ''sc'', ''scsi-0''] = Some (Sym ''/dev/disk/by-id/wwn-1'')"
proof -
  obtain r w' where run: "stale_run demo_env = (r, w')" by fastforce
  have "lst_CurrentLinkTarget (ld_Status (fst (fst (stale_run demo_env)))) = ''/dev/disk/by-id/wwn-1''
      \<and> lst_CurrentLinkTarget (ld_Status lost_link) \<noteq> ''/dev/disk/by-id/wwn-1''"
    by code_simp
  with recreate_symlink_atomic [OF demo_env_ok(1) stale_world_ok stale_preferred run] run
  show ?thesis by auto
qed

text \<open>
  A failed swap is reported as a condition on the object, not as an error: when the rename
  fails and the status can be written, the function returns no error although the link still points
  to the old target, and the object carries the condition \<^verbatim>\<open>RenameSymlinkFailed\<close>.
\<close>

theorem recreate_failure_returns_no_error:
  "let E = demo_env\<lparr>e_osfault := (\<lambda>t. if t = 6 then Some EBUSY else None)\<rparr>;
       (r, w') = stale_run E
   in snd r = None
      \<and> FsOp (OpRename ''/mnt/local-storage/sc/scsi-0.tmp'' ''/mnt/local-storage/sc/scsi-0'') (Some EBUSY) \<in> set (w_log w')
      \<and> node_at (w_fs w') [''mnt'', ''local-storage'', ''sc'', ''scsi-0''] = Some (Sym ''/dev/disk/by-id/scsi-0'')
      \<and> map oc_Reason (lst_Conditions (ld_Status (fst r))) = [''RenameSymlinkFailed'']"
  by code_simp

section \<open>Conditions\<close>

lemma lastIndex_snoc:
  "lastIndex ty (cs @ [c]) = (if oc_Type c = ty then Some (length cs) else lastIndex ty cs)"
proof -
  have "fold (\<lambda>i acc. if oc_Type ((cs @ [c]) ! i) = ty then Some i else acc) [0..<length cs] None
      = fold (\<lambda>i acc. if oc_Type (cs ! i) = ty then Some i else acc) [0..<length cs] None"
    by (rule fold_cong) (auto simp: nth_append)
  then show ?thesis by (simp add: lastIndex_def)
qed

lemma lastIndex_None: "lastIndex ty cs = None \<longleftrightarrow> (\<forall>c \<in> set cs. oc_Type c \<noteq> ty)"
  by (induction cs rule: rev_induct) (auto simp: lastIndex_snoc lastIndex_def [of _ "[]"])

lemma lastIndex_Some:
  "lastIndex ty cs = Some i \<Longrightarrow> i < length cs \<and> oc_Type (cs ! i) = ty \<and> (\<forall>j. i < j \<and> j < length cs \<longrightarrow> oc_Type (cs ! j) \<noteq> ty)"
proof (induction cs rule: rev_induct)
  case (snoc c cs)
  then show ?case by (auto simp: lastIndex_snoc nth_append less_Suc_eq split: if_splits)
qed (simp add: lastIndex_def)

lemma filter_list_update_type:
  assumes "i < length cs" "oc_Type c = oc_Type (cs ! i)"
  shows "filter (\<lambda>x. oc_Type x \<noteq> oc_Type c) (cs[i := c]) = filter (\<lambda>x. oc_Type x \<noteq> oc_Type c) cs"
    and "map oc_Type (cs[i := c]) = map oc_Type cs"
proof -
  have split: "cs = take i cs @ cs ! i # drop (Suc i) cs" "cs[i := c] = take i cs @ c # drop (Suc i) cs"
    using assms(1) by (simp_all add: id_take_nth_drop upd_conv_take_nth_drop)
  show "filter (\<lambda>x. oc_Type x \<noteq> oc_Type c) (cs[i := c]) = filter (\<lambda>x. oc_Type x \<noteq> oc_Type c) cs"
  proof -
    have "filter (\<lambda>x. oc_Type x \<noteq> oc_Type c) cs
        = filter (\<lambda>x. oc_Type x \<noteq> oc_Type c) (take i cs @ cs ! i # drop (Suc i) cs)"
      by (rule arg_cong [OF split(1)])
    then show ?thesis unfolding split(2) using assms(2) by simp
  qed
  show "map oc_Type (cs[i := c]) = map oc_Type cs"
    using assms by (simp add: map_update list_update_same_conv)
qed

text \<open>
  Setting a condition keeps the conditions of all other types as they are, keeps at most one
  condition per type, leaves a condition of the type with the status, reason and message that were
  asked for, and changes nothing, the transition time included, when such a condition is already the
  last of its type.
\<close>

theorem set_conditions_spec:
  assumes "distinct (map oc_Type cs)"
  shows "filter (\<lambda>x. oc_Type x \<noteq> oc_Type c) (setConditions c cs) = filter (\<lambda>x. oc_Type x \<noteq> oc_Type c) cs
    \<and> distinct (map oc_Type (setConditions c cs))
    \<and> (\<exists>x \<in> set (setConditions c cs). oc_Type x = oc_Type c \<and> oc_Status x = oc_Status c
         \<and> oc_Reason x = oc_Reason c \<and> oc_Message x = oc_Message c)
    \<and> setConditions c (setConditions c cs) = setConditions c cs"
proof (cases "lastIndex (oc_Type c) cs")
  case None
  then have "\<forall>x \<in> set cs. oc_Type x \<noteq> oc_Type c" by (simp add: lastIndex_None)
  then show ?thesis using None assms by (auto simp: setConditions_def lastIndex_snoc)
next
  case (Some i)
  note i = lastIndex_Some [OF Some]
  note same = filter_list_update_type [of i cs c]
  have li: "lastIndex (oc_Type c) (cs[i := c]) = Some i"
  proof -
    have "fold (\<lambda>j acc. if oc_Type (cs[i := c] ! j) = oc_Type c then Some j else acc) [0..<length cs] None
        = fold (\<lambda>j acc. if oc_Type (cs ! j) = oc_Type c then Some j else acc) [0..<length cs] None"
      by (rule fold_cong) (use i in \<open>auto simp: nth_list_update\<close>)
    then show ?thesis using Some by (simp add: lastIndex_def)
  qed
  have mem: "c \<in> set (cs[i := c])" "cs ! i \<in> set cs" using i by (auto simp: set_update_memI)
  show ?thesis
    using Some i same li mem assms by (auto simp: setConditions_def)
qed

theorem set_conditions_spec_witness:
  "length (setConditions (getCondition 2 ''B'' ''m'' ConditionTrue) [getCondition 1 ''A'' ''m'' ConditionTrue]) = 1
   \<and> (\<exists>x \<in> set (setConditions (getCondition 2 ''B'' ''m'' ConditionTrue) [getCondition 1 ''A'' ''m'' ConditionTrue]). oc_Reason x = ''B'')"
proof -
  have d: "distinct (map oc_Type [getCondition 1 ''A'' ''m'' ConditionTrue])" by simp
  have l: "length (setConditions (getCondition 2 ''B'' ''m'' ConditionTrue) [getCondition 1 ''A'' ''m'' ConditionTrue]) = 1"
    by code_simp
  have r: "oc_Reason (getCondition 2 ''B'' ''m'' ConditionTrue) = ''B''" by (simp add: getCondition_def)
  show ?thesis
    using set_conditions_spec [OF d, of "getCondition 2 ''B'' ''m'' ConditionTrue"] l r by auto
qed


section \<open>Creating and refreshing the object\<close>

definition link_updated :: "string \<Rightarrow> string \<Rightarrow> lvdl \<Rightarrow> bool" where
  "link_updated cur path d' \<longleftrightarrow> lst_CurrentLinkTarget (ld_Status d') = cur
     \<and> lst_PersistentVolumeSymlinkPath (ld_Status d') = path
     \<and> sorted (ld_targets d') \<and> distinct (ld_targets d')"

text \<open>What refreshing an object does to the cluster and to the index.\<close>

lemma UpdateDeviceLinks_cache:
  "wp (UpdateDeviceLinks E d dev cur path)
     (\<lambda>r w'. snd r = None \<longrightarrow>
        (fst r = d \<and> w_links w' = w_links w \<and> w_log w' = w_log w)
        \<or> (w_links w' = addOrUpdateLVDL (fst r) (w_links w) \<and> same_object d (fst r) \<and> link_updated cur path (fst r))) w"
proof -
  have nolink: "always (\<lambda>w w'. w_links w' = w_links w) (setStatusSymlinks E d dev '''' cur path)"
    by (auto simp: always_def setStatusSymlinks_def bindE_def host_query_def query_def Let_def
        split: prod.splits option.splits sum.splits)
  have quiet: "always (log_ext (\<lambda>_. False)) (setStatusSymlinks E d dev '''' cur path)" by simp
  show ?thesis
    unfolding UpdateDeviceLinks_def wp_bind
    by (rule wp_mono [OF wp_conj [OF wp_conj [OF setStatus_result always_wp [OF nolink]] always_wp [OF quiet]]])
      (auto simp: wp_simps resolveOwnerObjectFromLVDL_def get_lv_def get_lvset_def owner_event_def record_event_def
        write_through_def Let_def link_updated_def log_ext_def list_all_iff
        split: sum.splits option.splits if_splits list.splits)
qed

text \<open>
  When \<^verbatim>\<open>UpdateDeviceLinks\<close> reports success, the index of device links is again in step with the
  cluster: either the status was already up to date and nothing was written, or the new status was
  accepted and the index answers with it at once, under exactly the by-id paths found valid.
\<close>

theorem update_device_links_write_through:
  assumes "represents (w_links w) A" and "A (ld_Name d) = Some d"
    and "run_state (UpdateDeviceLinks E d dev cur path) w = ((d', None), w')"
  shows "represents (w_links w') (A(ld_Name d \<mapsto> d'))
    \<and> (d' \<noteq> d \<longrightarrow> link_updated cur path d')"
proof -
  have "d' = d \<and> w_links w' = w_links w
      \<or> w_links w' = addOrUpdateLVDL d' (w_links w) \<and> same_object d d' \<and> link_updated cur path d'"
    using wp_runD [OF UpdateDeviceLinks_cache assms(3)] by simp blast
  then consider "d' = d" "w_links w' = w_links w"
    | "w_links w' = addOrUpdateLVDL d' (w_links w)" "same_object d d'" "link_updated cur path d'"
    by blast
  then show ?thesis
  proof cases
    case 1
    then have "A(ld_Name d \<mapsto> d') = A" using assms(2) by (simp add: fun_upd_idem)
    with 1 assms(1) show ?thesis by simp
  next
    case 2
    have own: "shouldIndexLVDL (w_links w) d'" and name: "ld_Name d' = ld_Name d"
      using 2(2) represents_own [OF assms(1,2)] by (auto simp: shouldIndexLVDL_def same_object_def)
    show ?thesis
      using lvdl_index.rep_add [OF assms(1) own] 2(1,3) unfolding name by simp
  qed
qed

definition linked_world :: world where
  "linked_world = stale_world\<lparr>w_links := addOrUpdateLVDL lost_link (NewLocalVolumeDeviceLinkCache ''node1'')\<rparr>"

theorem update_device_links_write_through_witness:
  "\<exists>d' w'. run_state (UpdateDeviceLinks demo_env lost_link demo_device ''x'' ''/mnt/local-storage/sc/scsi-0'') linked_world
        = ((d', None), w')
     \<and> lookup2 (w_links w') ''/dev/disk/by-id/wwn-1'' (ld_Name lost_link) = Some d'
     \<and> lst_CurrentLinkTarget (ld_Status d') = ''x''"
proof -
  let ?m = "UpdateDeviceLinks demo_env lost_link demo_device ''x'' ''/mnt/local-storage/sc/scsi-0''"
  have own: "shouldIndexLVDL (NewLocalVolumeDeviceLinkCache ''node1'') lost_link"
    by (simp add: shouldIndexLVDL_def NewLocalVolumeDeviceLinkCache_def lost_link_def)
  have r: "represents (w_links linked_world) ((\<lambda>_. None)(ld_Name lost_link \<mapsto> lost_link))"
    using lvdl_index.rep_add [OF represents_new own] by (simp add: linked_world_def)
  have ev: "snd (fst (run_state ?m linked_world)) = None
      \<and> ld_targets (fst (fst (run_state ?m linked_world))) = [''/dev/disk/by-id/wwn-1'']
      \<and> lst_CurrentLinkTarget (ld_Status (fst (fst (run_state ?m linked_world)))) = ''x''"
    by code_simp
  obtain d' w' where run: "run_state ?m linked_world = ((d', None), w')"
    using ev by (cases "run_state ?m linked_world") auto
  have "represents (w_links w') ((\<lambda>_. None)(ld_Name lost_link \<mapsto> d'))"
    using update_device_links_write_through [OF r _ run] by simp
  from lvdl_index.rep_lookup [OF this] ev run show ?thesis
    by (auto simp: indexed_def)
qed

definition apply_action :: "string \<Rightarrow> string \<Rightarrow> string \<Rightarrow> owner option \<Rightarrow> action \<Rightarrow> bool" where
  "apply_action node pvName ns obj a \<longleftrightarrow>
     (\<exists>d r. a = Api (CreateLVDL d) r \<and> generateLVDLObj node pvName ns obj = Inr d)
     \<or> (\<exists>d r. a = Api (UpdateLVDLStatus d) r) \<or> (\<exists>o1 t rs m. a = Event o1 t rs m)"

lemma log_UpdateDeviceLinks_any: "always (log_ext (apply_action node n ns obj)) (UpdateDeviceLinks E d dev cur path)"
  by (rule always_log_mono [OF log_UpdateDeviceLinks]) (auto simp: apply_action_def status_action_def)

lemma log_findOrCreate: "always (log_ext (apply_action node n ns obj)) (findOrCreateLVDL E node n ns dp obj)"
  unfolding findOrCreateLVDL_def createLVDL_def FindLVDL_def
  by (intro log.rules log_queries log_api) (auto simp: apply_action_def)

lemma log_ApplyStatus: "always (log_ext (apply_action node n ns obj)) (ApplyStatus E node n ns dev obj cur path)"
  unfolding ApplyStatus_def by (intro log.rules log_queries log_findOrCreate log_UpdateDeviceLinks_any)

text \<open>
  \<^verbatim>\<open>ApplyStatus\<close> does nothing while the PV does not exist; otherwise all it may create is one
  LocalVolumeDeviceLink, named after the PV, for this node, with policy \<^verbatim>\<open>None\<close> and the reconciled
  object as its controller, and all it may update is the status of device links.
\<close>

theorem apply_status_effects:
  assumes "run_state (ApplyStatus E node pvName ns dev (Some obj) cur path) w = (r, w')"
  shows "(\<forall>e. e_get_pv E (w_clock w) pvName = Inl e \<longrightarrow> w_log w' = w_log w \<and> w_links w' = w_links w \<and> fst r = None)
    \<and> log_ext (apply_action node pvName ns (Some obj)) w w'
    \<and> (\<forall>d. generateLVDLObj node pvName ns (Some obj) = Inr d \<longrightarrow>
         ld_Name d = pvName \<and> ls_PersistentVolumeName (ld_Spec d) = pvName \<and> ls_NodeName (ld_Spec d) = node
         \<and> node \<noteq> '''' \<and> ls_Policy (ld_Spec d) = PolicyNone
         \<and> (\<exists>ref. GetControllerOf (ld_meta d) = Some ref \<and> or_UID ref = om_UID (owner_meta obj)
              \<and> or_Name ref = om_Name (owner_meta obj) \<and> or_Kind ref \<noteq> '''' \<and> or_APIVersion ref \<noteq> ''''))"
proof (intro conjI allI impI)
  show "log_ext (apply_action node pvName ns (Some obj)) w w'"
    by (rule always_run [OF log_ApplyStatus assms])
  fix e assume "e_get_pv E (w_clock w) pvName = Inl e"
  with assms show "w_log w' = w_log w" "w_links w' = w_links w" "fst r = None"
    by (auto simp: ApplyStatus_def get_pv_def query_def Let_def split: prod.splits option.splits)
qed (auto simp: generateLVDLObj_def buildOwnerRefs_def GetControllerOf_def Let_def LocalVolumeKind_def
    LocalVolumeSetKind_def split: prod.splits owner.splits if_splits)

definition demo_lv :: local_volume where
  "demo_lv = \<lparr>lv_meta = demo_meta\<lparr>om_Name := ''lv''\<rparr>, lv_Kind = ''LocalVolume'', lv_APIVersion = ''local.storage.openshift.io/v1'',
     lv_ManagementState = Managed, lv_LogLevel = ''Normal'', lv_NodeSelector = None,
     lv_StorageClassDevices = [\<lparr>scd_StorageClassName = ''sc'', scd_VolumeMode = ''Block'', scd_FSType = '''',
       scd_DevicePaths = [''/dev/sda''], scd_ForceWipe = False\<rparr>],
     lv_Tolerations = [],
     lv_Status = \<lparr>lvs_ObservedGeneration = None, lvs_State = Managed, lvs_Conditions = [], lvs_Generations = []\<rparr>\<rparr>"

theorem apply_status_effects_witness:
  "\<exists>r w'. run_state (ApplyStatus demo_env ''node1'' ''local-pv-1'' ''ns'' demo_device (Some (OwnerLV demo_lv)) ''a'' ''b'')
       demo_world = (r, w') \<and> w_log w' = [] \<and> fst r = None"
proof -
  obtain r w' where run: "run_state (ApplyStatus demo_env ''node1'' ''local-pv-1'' ''ns'' demo_device
      (Some (OwnerLV demo_lv)) ''a'' ''b'') demo_world = (r, w')" by fastforce
  have "e_get_pv demo_env (w_clock demo_world) ''local-pv-1'' = Inl (NotFound ''local-pv-1'')" "w_log demo_world = []"
    by (simp_all add: demo_env_def demo_world_def)
  with apply_status_effects [OF run] run show ?thesis by auto
qed

end
