(* ===== verification/Provisioner.thy ===== *)
theory Provisioner
  imports DeviceLinkHandler Capacity
begin

text \<open>
  Model of the provisioning step of \<^verbatim>\<open>pkg/common/provisioner_utils.go\<close>: \<open>SyncPVAndLVDL\<close> makes the
  PersistentVolume of a linked device exist and keeps its LocalVolumeDeviceLink in step. The library
  helpers it calls are modelled from their vendored sources: \<^verbatim>\<open>CreateLocalPVSpec\<close> and
  \<^verbatim>\<open>controllerutil.CreateOrUpdate\<close>.
\<close>

record sync_args =
  sa_obj :: owner
  sa_sc :: storage_class
  sa_mounts :: "string list"
  sa_path :: string
  sa_extra :: smap
  sa_dev :: block_device

definition GenerateMountMap :: "env \<Rightarrow> string list result prog" where
  "GenerateMountMap E =
     wrapE (Wrapf ''error retrieving mountpoints: '') (query E (\<lambda>t w. e_mounts E t))"

section \<open>The PV that is wanted\<close>

definition CreateLocalPVSpec ::
  "string \<Rightarrow> string \<Rightarrow> int \<Rightarrow> string \<Rightarrow> reclaim_policy \<Rightarrow> string \<Rightarrow> volume_mode \<Rightarrow> string list \<Rightarrow> string option \<Rightarrow> string list \<Rightarrow> pv" where
  "CreateLocalPVSpec name hostPath capacity storageClass reclaimPolicy provisionerName volumeMode mountOptions fsType hostnames =
     \<lparr>pv_meta = \<lparr>om_Name = name, om_Namespace = '''', om_UID = '''', om_Labels = [],
        om_Annotations = [(AnnProvisionedBy, provisionerName)], om_Finalizers = [], om_OwnerReferences = [],
        om_CreationTimestamp = None, om_DeletionTimestamp = None, om_Generation = 0\<rparr>,
      pv_LocalPath = Some hostPath, pv_FsType = fsType, pv_StorageClassName = storageClass,
      pv_Capacity = capacity, pv_ReclaimPolicy = reclaimPolicy, pv_MountOptions = mountOptions,
      pv_VolumeMode = Some volumeMode, pv_NodeHostnames = hostnames, pv_ClaimRef = None,
      pv_Phase = VolumePending\<rparr>"

definition pvNameFor :: "runtime_config \<Rightarrow> sync_args \<Rightarrow> string" where
  "pvNameFor rc a = GeneratePVName (base (sa_path a)) (n_Name (rc_Node rc)) (sc_Name (sa_sc a))"

definition desiredPV :: "runtime_config \<Rightarrow> sync_args \<Rightarrow> string \<Rightarrow> mount_config \<Rightarrow> int \<Rightarrow> pv" where
  "desiredPV rc a hostname mc capacityBytes =
     (let reclaim = (case sc_ReclaimPolicy (sa_sc a) of None \<Rightarrow> ReclaimDelete | Some p \<Rightarrow> p);
          fsType = (if mc_VolumeMode mc = VolumeFilesystem \<and> mc_FsType mc \<noteq> '''' then Some (mc_FsType mc) else None);
          p = CreateLocalPVSpec (pvNameFor rc a) (sa_path a) (RoundDownCapacityPretty capacityBytes)
                (sc_Name (sa_sc a)) reclaim (rc_Name rc) (mc_VolumeMode mc) (sc_MountOptions (sa_sc a)) fsType [hostname]
      in p\<lparr>pv_meta := AddFinalizer LSOSymlinkDeleterFinalizer (pv_meta p)\<rparr>)"

definition pvLabels :: "sync_args \<Rightarrow> string \<Rightarrow> smap" where
  "pvLabels a hostname =
     fold (\<lambda>(k, v). AList.update k v) (sa_extra a)
       [(LabelHostname, hostname), (PVOwnerKindLabel, fst (owner_gvk (sa_obj a))),
        (PVOwnerNamespaceLabel, om_Namespace (owner_meta (sa_obj a))),
        (PVOwnerNameLabel, om_Name (owner_meta (sa_obj a)))]"

definition pvAnnotations :: "runtime_config \<Rightarrow> sync_args \<Rightarrow> bool \<Rightarrow> smap" where
  "pvAnnotations rc a idExists =
     [(PVDeviceNameLabel, bd_KName (sa_dev a)), (AnnProvisionedBy, rc_Name rc)]
     @ (if idExists then [(PVDeviceIDLabel, base (sa_path a))] else [])"

text \<open>Entries are added where the key is not there yet.\<close>

definition addMissing :: "smap \<Rightarrow> smap \<Rightarrow> smap" where
  "addMissing new m = fold (\<lambda>(k, v) m. if map_of m k = None then AList.update k v m else m) new m"

definition mutatePV :: "pv \<Rightarrow> smap \<Rightarrow> smap \<Rightarrow> pv \<Rightarrow> pv" where
  "mutatePV newPV labels annotations existing0 =
     (let existing = (if om_CreationTimestamp (pv_meta existing0) = None then newPV else existing0);
          m = pv_meta existing;
          ls = addMissing labels (fold AList.delete DeprecatedLabels (InitMapIfNil (om_Labels m)));
          as = addMissing annotations (InitMapIfNil (om_Annotations m))
      in existing\<lparr>pv_meta := m\<lparr>om_Labels := ls, om_Annotations := as\<rparr>\<rparr>)"

text \<open>The event of the mutate function: a PV in block mode on a path in file system mode.\<close>

definition modeMismatch :: "pv \<Rightarrow> pv \<Rightarrow> volume_mode \<Rightarrow> bool" where
  "modeMismatch newPV existing0 actualVolumeMode =
     (let existing = (if om_CreationTimestamp (pv_meta existing0) = None then newPV else existing0)
      in pv_VolumeMode existing = Some VolumeBlock \<and> actualVolumeMode = VolumeFilesystem)"

definition emptyPV :: "string \<Rightarrow> pv" where
  "emptyPV name =
     \<lparr>pv_meta = \<lparr>om_Name = name, om_Namespace = '''', om_UID = '''', om_Labels = [], om_Annotations = [],
        om_Finalizers = [], om_OwnerReferences = [], om_CreationTimestamp = None, om_DeletionTimestamp = None,
        om_Generation = 0\<rparr>,
      pv_LocalPath = None, pv_FsType = None, pv_StorageClassName = '''', pv_Capacity = 0,
      pv_ReclaimPolicy = ReclaimRetain, pv_MountOptions = [], pv_VolumeMode = None, pv_NodeHostnames = [],
      pv_ClaimRef = None, pv_Phase = VolumePending\<rparr>"

definition mutateEvent :: "pv \<Rightarrow> pv \<Rightarrow> volume_mode \<Rightarrow> unit prog" where
  "mutateEvent newPV existing actualVolumeMode =
     (if modeMismatch newPV existing actualVolumeMode
      then record_event (pv_Name existing) ''Warning'' ''VolumeFailedDelete'' ''PV requires block mode but path was in fs mode''
      else State_Monad.return ())"

definition CreateOrUpdatePV :: "env \<Rightarrow> pv \<Rightarrow> pv \<Rightarrow> smap \<Rightarrow> smap \<Rightarrow> volume_mode \<Rightarrow> error option prog" where
  "CreateOrUpdatePV E newPV existing labels annotations actualVolumeMode =
     do {
       g \<leftarrow> get_pv E (pv_Name existing);
       case g of
         Inl e \<Rightarrow>
           if \<not> IsNotFound e then State_Monad.return (Some e)
           else do {
             _ \<leftarrow> mutateEvent newPV existing actualVolumeMode;
             api E (CreatePV (mutatePV newPV labels annotations existing))
           }
       | Inr found \<Rightarrow>
           do {
             _ \<leftarrow> mutateEvent newPV found actualVolumeMode;
             (if mutatePV newPV labels annotations found = found then State_Monad.return None
              else api E (UpdatePV (mutatePV newPV labels annotations found)))
           }
     }"

section \<open>Capacity\<close>

definition readCapacity :: "env \<Rightarrow> sync_args \<Rightarrow> volume_mode \<Rightarrow> volume_mode \<Rightarrow> int result prog" where
  "readCapacity E a desired actual =
     (case actual of
        VolumeBlock \<Rightarrow> wrapE (Wrapf ''could not read device capacity: '') (query E (\<lambda>t w. e_blockcap E t (sa_path a)))
      | VolumeFilesystem \<Rightarrow>
          (if desired = VolumeBlock then
             State_Monad.return (Inl (Errorf (''path '' @ sa_path a @ '' of filesystem mode cannot be used to create block volume'')))
           else if sa_path a \<notin> set (sa_mounts a) then
             State_Monad.return (Inl (Errorf (''path '' @ sa_path a @ '' is not an actual mountpoint'')))
           else wrapE (Wrapf (''path '' @ sa_path a @ '' fs stats error: '')) (query E (\<lambda>t w. e_fscap E t (sa_path a))))
      | VolumeModeOther m \<Rightarrow>
          State_Monad.return (Inl (Errorf (''path '' @ sa_path a @ '' has unexpected volume type '' @ m))))"

section \<open>The synchronisation\<close>

text \<open>From the readable symlink to the PV in the cluster; the result is the target of the symlink.\<close>

definition syncPV :: "env \<Rightarrow> runtime_config \<Rightarrow> sync_args \<Rightarrow> string \<Rightarrow> string result prog" where
  "syncPV E rc a hostname =
     bindE (wrapE (\<lambda>e. Errorf (''unable to resolve symlink '' @ sa_path a @ '': '' @ err_text e))
             (host_query E (\<lambda>h. Readlink h (sa_path a)))) (\<lambda>effectiveCurrentSource.
     case map_of (rc_DiscoveryMap rc) (sc_Name (sa_sc a)) of
       None \<Rightarrow> State_Monad.return (Inl (Errorf (''could not find config for storageClass: '' @ sc_Name (sa_sc a))))
     | Some mc \<Rightarrow>
         bindE (wrapE (Wrapf ''could not read the device's volume mode from the node: '')
                 (query E (\<lambda>t w. e_volmode E t (sa_path a)))) (\<lambda>actualVolumeMode.
         do {
           g \<leftarrow> get_pv E (pvNameFor rc a);
           (if (case g of Inr p \<Rightarrow> pv_Phase p = VolumeReleased | Inl _ \<Rightarrow> False)
            then State_Monad.return (Inl ErrTryAgain)
            else bindE (readCapacity E a (mc_VolumeMode mc) actualVolumeMode) (\<lambda>capacityBytes.
              do {
                r \<leftarrow> CreateOrUpdatePV E (desiredPV rc a hostname mc capacityBytes)
                       (case g of Inr p \<Rightarrow> p | Inl _ \<Rightarrow> emptyPV (pvNameFor rc a))
                       (pvLabels a hostname) (pvAnnotations rc a (has_prefix effectiveCurrentSource DiskByIDDir))
                       actualVolumeMode;
                State_Monad.return (case r of None \<Rightarrow> Inr effectiveCurrentSource | Some e \<Rightarrow> Inl e)
              }))
         }))"

definition SyncPVAndLVDL :: "env \<Rightarrow> runtime_config \<Rightarrow> sync_args \<Rightarrow> error option prog" where
  "SyncPVAndLVDL E rc a =
     (case map_of (n_Labels (rc_Node rc)) LabelHostname of
        None \<Rightarrow> State_Monad.return (Some (Errorf (''could node find label for node '' @ n_Name (rc_Node rc))))
      | Some hostname \<Rightarrow>
          let pvName = pvNameFor rc a;
              name = om_Name (owner_meta (sa_obj a));
              namespace = om_Namespace (owner_meta (sa_obj a))
          in if name = '''' \<or> namespace = '''' \<or> fst (owner_gvk (sa_obj a)) = '''' then
               State_Monad.return (Some (Errorf ''name, namespace or kind is empty''))
             else case NewDeviceLinkHandler (n_Name (rc_Node rc)) of
               Inl e \<Rightarrow> State_Monad.return (Some e)
             | Inr nodeName \<Rightarrow>
                 do {
                   l \<leftarrow> FindLVDL E pvName namespace;
                   (if (case l of Inl e \<Rightarrow> \<not> IsNotFound e | Inr _ \<Rightarrow> False) then
                      State_Monad.return (case l of
                          Inl e \<Rightarrow> Some (Wrapf (''error finding localvolumedevicelink object '' @ pvName @ '': '') e)
                        | Inr _ \<Rightarrow> None)
                    else
                      do {
                        let lvdl = (case l of Inl _ \<Rightarrow> None | Inr d \<Rightarrow> Some d);
                        mismatch \<leftarrow> host_query E (\<lambda>h. HasMismatchingSymlink h lvdl (sa_dev a));
                        rec \<leftarrow> (if mismatch then
                                  do {
                                    (_, err) \<leftarrow> RecreateSymlinkIfNeeded E (the lvdl) (sa_path a) (sa_dev a);
                                    State_Monad.return err
                                  }
                                else State_Monad.return None);
                        (case rec of
                           Some e \<Rightarrow> State_Monad.return (Some (Wrapf ''error recreating symlink: '' e))
                         | None \<Rightarrow>
                             do {
                               s \<leftarrow> syncPV E rc a hostname;
                               (case s of
                                  Inl e \<Rightarrow> State_Monad.return (Some e)
                                | Inr effectiveCurrentSource \<Rightarrow>
                                    if mismatch then State_Monad.return None
                                    else do {
                                      (_, err) \<leftarrow> ApplyStatus E nodeName pvName namespace (sa_dev a) (Some (sa_obj a))
                                                    effectiveCurrentSource (sa_path a);
                                      State_Monad.return (case err of
                                          None \<Rightarrow> None
                                        | Some e \<Rightarrow> Some (Wrapf ''error applying device link status: '' e))
                                    })
                             })
                      })
                 })"


section \<open>Labels and annotations of an existing PV\<close>

lemma map_of_addMissing:
  "map_of (addMissing new m) k = (case map_of m k of Some v \<Rightarrow> Some v | None \<Rightarrow> map_of new k)"
  unfolding addMissing_def
proof (induction new arbitrary: m)
  case (Cons e new)
  obtain a b where e: "e = (a, b)" by fastforce
  show ?case
  proof (cases "map_of m a")
    case None
    then show ?thesis using Cons [of "AList.update a b m"] by (cases "k = a"; cases "map_of m k") (simp_all add: e)
  next
    case (Some v)
    then show ?thesis using Cons [of m] by (cases "k = a"; cases "map_of m k") (simp_all add: e)
  qed
qed (simp split: option.split)

lemma map_of_fold_delete: "map_of (fold AList.delete ks m) k = (if k \<in> set ks then None else map_of m k)"
  by (induction ks arbitrary: m) auto

lemma mutatePV_existing:
  assumes "om_CreationTimestamp (pv_meta q) \<noteq> None"
  shows "\<exists>ls as. mutatePV new labels ann q = q\<lparr>pv_meta := (pv_meta q)\<lparr>om_Labels := ls, om_Annotations := as\<rparr>\<rparr>
    \<and> (2 \<le> length (pv_Labels q) \<longrightarrow> (\<forall>k v. map_of (pv_Labels q) k = Some v \<and> k \<notin> set DeprecatedLabels \<longrightarrow> map_of ls k = Some v))
    \<and> (2 \<le> length (pv_Annotations q) \<longrightarrow> (\<forall>k v. map_of (pv_Annotations q) k = Some v \<longrightarrow> map_of as k = Some v))
    \<and> (\<forall>k v. map_of labels k = Some v \<longrightarrow> map_of ls k \<noteq> None)
    \<and> (\<forall>k v. map_of ann k = Some v \<longrightarrow> map_of as k \<noteq> None)"
proof (intro exI conjI)
  let ?ls = "addMissing labels (fold AList.delete DeprecatedLabels (InitMapIfNil (pv_Labels q)))"
  let ?as = "addMissing ann (InitMapIfNil (pv_Annotations q))"
  show "mutatePV new labels ann q = q\<lparr>pv_meta := (pv_meta q)\<lparr>om_Labels := ?ls, om_Annotations := ?as\<rparr>\<rparr>"
    using assms by (auto simp: mutatePV_def Let_def)
  show "2 \<le> length (pv_Labels q) \<longrightarrow> (\<forall>k v. map_of (pv_Labels q) k = Some v \<and> k \<notin> set DeprecatedLabels \<longrightarrow> map_of ?ls k = Some v)"
    by (simp add: map_of_addMissing map_of_fold_delete InitMapIfNil_def)
  show "2 \<le> length (pv_Annotations q) \<longrightarrow> (\<forall>k v. map_of (pv_Annotations q) k = Some v \<longrightarrow> map_of ?as k = Some v)"
    by (simp add: map_of_addMissing InitMapIfNil_def)
  show "\<forall>k v. map_of labels k = Some v \<longrightarrow> map_of ?ls k \<noteq> None" "\<forall>k v. map_of ann k = Some v \<longrightarrow> map_of ?as k \<noteq> None"
    by (simp_all add: map_of_addMissing split: option.splits)
qed

text \<open>The PV a run creates when none exists.\<close>

definition pv_for :: "runtime_config \<Rightarrow> sync_args \<Rightarrow> string \<Rightarrow> pv \<Rightarrow> bool" where
  "pv_for rc a hostname p \<longleftrightarrow>
     pv_Name p = pvNameFor rc a \<and> pv_LocalPath p = Some (sa_path a)
     \<and> pv_StorageClassName p = sc_Name (sa_sc a)
     \<and> pv_NodeHostnames p = [hostname]
     \<and> pv_ReclaimPolicy p = (case sc_ReclaimPolicy (sa_sc a) of None \<Rightarrow> ReclaimDelete | Some r \<Rightarrow> r)
     \<and> hasSymlinkFinalizer p
     \<and> PVMatchesProvisioner p (rc_Name rc)
     \<and> (\<forall>k v. map_of (pvLabels a hostname) k = Some v \<longrightarrow> map_of (pv_Labels p) k = Some v)
     \<and> om_DeletionTimestamp (pv_meta p) = None \<and> pv_ClaimRef p = None"

lemma mutatePV_new:
  "pv_for rc a hostname (mutatePV (desiredPV rc a hostname mc cap) (pvLabels a hostname) (pvAnnotations rc a i) (emptyPV n))
   \<and> pv_Capacity (mutatePV (desiredPV rc a hostname mc cap) (pvLabels a hostname) (pvAnnotations rc a i) (emptyPV n)) \<le> cap"
  by (simp add: pv_for_def mutatePV_def emptyPV_def desiredPV_def CreateLocalPVSpec_def Let_def map_of_addMissing
      map_of_fold_delete InitMapIfNil_def hasSymlinkFinalizer_def ContainsFinalizer_def AddFinalizer_def
      PVMatchesProvisioner_def pvAnnotations_def label_defs RoundDown_le)

section \<open>What a synchronisation writes\<close>

text \<open>Everything but a write of a PV.\<close>

definition no_pv_write :: "action \<Rightarrow> bool" where
  "no_pv_write b \<longleftrightarrow> (\<forall>p r. b \<noteq> Api (CreatePV p) r \<and> b \<noteq> Api (UpdatePV p) r)"

lemma swap_no_pv: "swap_action d path b \<Longrightarrow> no_pv_write b"
  by (auto simp: swap_action_def status_action_def no_pv_write_def)

lemma apply_no_pv: "apply_action node n ns obj b \<Longrightarrow> no_pv_write b"
  by (auto simp: apply_action_def no_pv_write_def)

lemma log_Recreate: "always (log_ext (swap_action d path)) (RecreateSymlinkIfNeeded E d path dev)"
  unfolding RecreateSymlinkIfNeeded_def
  by (intro log.rules log_queries log_swapLink log_swap_parts)

lemma log_readCapacity [simp, intro]: "always (log_ext P) (readCapacity E a m n)"
  unfolding readCapacity_def by (cases n) (auto intro!: log.rules)

lemma log_mutateEvent [intro]: "(\<And>o1 t r m. P (Event o1 t r m)) \<Longrightarrow> always (log_ext P) (mutateEvent n e m)"
  unfolding mutateEvent_def by (intro log.rules log_event)

text \<open>
  The rest of the run is harmless, so the writes of PVs are those of the central step.
\<close>

lemma log_Sync:
  assumes pv: "\<And>hostname. map_of (n_Labels (rc_Node rc)) LabelHostname = Some hostname \<Longrightarrow>
      always (log_ext P) (syncPV E rc a hostname)"
    and rest: "\<And>b. no_pv_write b \<Longrightarrow> P b"
  shows "always (log_ext P) (SyncPVAndLVDL E rc a)"
  unfolding SyncPVAndLVDL_def FindLVDL_def
  by (intro log.rules log_queries pv always_log_mono [OF log_Recreate rest [OF swap_no_pv]]
      always_log_mono [OF log_ApplyStatus rest [OF apply_no_pv]])

lemma log_get_then:
  assumes "\<And>t. Q (e_get_pv E t n)" "\<And>g. Q g \<Longrightarrow> always (log_ext P) (f g)"
  shows "always (log_ext P) (State_Monad.bind (get_pv E n) f)"
  by (rule log_after [where Q = Q]) (auto simp: get_pv_def wp_simps assms)

text \<open>A capacity that is read is one the device reports.\<close>

definition reported_capacity :: "env \<Rightarrow> string \<Rightarrow> int \<Rightarrow> bool" where
  "reported_capacity E path cap \<longleftrightarrow> (\<exists>t. e_blockcap E t path = Inr cap \<or> e_fscap E t path = Inr cap)"

lemma readCapacity_reported:
  "wp (readCapacity E a m n) (\<lambda>c w'. \<forall>cap. c = Inr cap \<longrightarrow> reported_capacity E (sa_path a) cap) v"
  by (cases n) (auto simp: readCapacity_def reported_capacity_def wp_simps split: sum.splits)

text \<open>
  The writes of the central step are those of its last call, which runs on the PV that was found, or
  on an empty one, when that PV is not released.
\<close>

lemma log_syncPV:
  assumes get: "\<And>t. Q (e_get_pv E t (pvNameFor rc a))"
    and step: "\<And>g mc c i vm. \<lbrakk>Q g; \<not> (case g of Inr p \<Rightarrow> pv_Phase p = VolumeReleased | Inl _ \<Rightarrow> False);
        reported_capacity E (sa_path a) c\<rbrakk> \<Longrightarrow>
      always (log_ext P) (CreateOrUpdatePV E (desiredPV rc a hostname mc c)
        (case g of Inr p \<Rightarrow> p | Inl _ \<Rightarrow> emptyPV (pvNameFor rc a)) (pvLabels a hostname) (pvAnnotations rc a i) vm)"
  shows "always (log_ext P) (syncPV E rc a hostname)"
  unfolding syncPV_def
  apply (rule log.bindE, rule log.wrapE, rule log_queries)
  apply (rule log.option_case, rule log.ret)
  apply (rule log.bindE, rule log.wrapE, rule log_query)
  apply (rule log_get_then [where Q = Q, OF get])
  apply (rule log.cond, rule log.ret)
  apply (unfold bindE_def, rule log_after [OF log_readCapacity readCapacity_reported])
  apply (rule log.sum_case, rule log.ret)
  apply (rule log.bind, rule step)
     apply simp_all
  apply (rule log.ret)
  done

definition creates_own_pv :: "env \<Rightarrow> runtime_config \<Rightarrow> sync_args \<Rightarrow> string \<Rightarrow> action \<Rightarrow> bool" where
  "creates_own_pv E rc a hostname b \<longleftrightarrow> no_pv_write b
     \<or> (\<exists>p r. b = Api (CreatePV p) r \<and> pv_for rc a hostname p
          \<and> (\<exists>cap. reported_capacity E (sa_path a) cap \<and> pv_Capacity p \<le> cap))"

text \<open>A run that ends without an error has gone through the central step.\<close>

lemma Sync_central:
  assumes host: "map_of (n_Labels (rc_Node rc)) LabelHostname = Some hostname"
    and central: "\<And>v. wp (syncPV E rc a hostname) (\<lambda>r v'. (\<exists>s. r = Inr s) \<longrightarrow> (\<exists>b. G b \<and> newly v v' b)) v"
  shows "wp (SyncPVAndLVDL E rc a) (\<lambda>r w'. r = None \<longrightarrow> (\<exists>b. G b \<and> newly w w' b)) w"
proof -
  let ?T = "\<lambda>_. True"
  have rec: "wp (if mm then State_Monad.bind (RecreateSymlinkIfNeeded E d p dv) (\<lambda>(_, err). State_Monad.return err)
      else State_Monad.return None) (\<lambda>_ w'. log_ext ?T w w') v" if "log_ext ?T w v" for mm d p dv v
    by (rule log.wp_last [OF that]) (intro log.rules always_log_mono [OF log_Recreate], simp)
  have rest: "wp (if mm then State_Monad.return None
        else State_Monad.bind (ApplyStatus E n pn ns dv ob s p) (\<lambda>(_, err). State_Monad.return (k err)))
      (\<lambda>r w'. r = None \<longrightarrow> (\<exists>b. G b \<and> newly w w' b)) v" if b: "G b" "newly w v b" for mm n pn ns dv ob s p k v b
  proof (rule wp_mono [OF always_wp])
    show "always (log_ext ?T) (if mm then State_Monad.return None
        else State_Monad.bind (ApplyStatus E n pn ns dv ob s p) (\<lambda>(_, err). State_Monad.return (k err)))"
      by (intro log.rules always_log_mono [OF log_ApplyStatus], simp)
  qed (use b newly_later in blast)
  have mid: "wp (syncPV E rc a hostname) (\<lambda>r v'. (\<exists>s. r = Inr s) \<longrightarrow> (\<exists>b. G b \<and> newly w v' b)) v" if "log_ext ?T w v" for v
    by (rule wp_mono [OF central]) (use that newly_earlier in blast)
  show ?thesis
    unfolding SyncPVAndLVDL_def host option.case Let_def FindLVDL_def
    apply (rule wp_condI, rule wp_retI, simp)
    apply (rule wp_sumI, rule wp_retI, simp)
    apply (rule log.wp_seq [OF log.R_refl [of ?T w]], rule log_queries)
    apply (rule wp_condI, rule wp_retI, simp split: sum.splits)
    apply (rule log.wp_seq, assumption, rule log_queries)
    apply (rule wp_bindI, rule wp_mono [OF rec], assumption)
    apply (rule wp_optionI)
     apply (rule wp_bindI, rule wp_mono [OF mid], assumption)
     apply (rule wp_sumI, rule wp_retI, simp)
     apply (elim impE exE conjE, blast)
     apply (rule rest, assumption+)
    apply (rule wp_retI, simp)
    done
qed

lemma get_none_case:
  assumes "\<forall>t. \<exists>m. e_get_pv E t n = Inl (NotFound m)"
  shows "(case e_get_pv E t n of Inr p \<Rightarrow> p | Inl _ \<Rightarrow> d) = d"
  using assms by (metis sum.case(1))

lemma syncPV_created:
  assumes none: "\<forall>t. \<exists>m. e_get_pv E t (pvNameFor rc a) = Inl (NotFound m)"
  shows "wp (syncPV E rc a hostname) (\<lambda>r v'. (\<exists>s. r = Inr s) \<longrightarrow>
      (\<exists>b. (\<exists>p. b = Api (CreatePV p) None \<and> pv_for rc a hostname p) \<and> newly v v' b)) v"
proof -
  let ?Q = "\<lambda>w0 r v'. r = None \<longrightarrow> (\<exists>b. (\<exists>p. b = Api (CreatePV p) None \<and> pv_for rc a hostname p) \<and> newly w0 v' b)"
  have create: "wp (CreateOrUpdatePV E (desiredPV rc a hostname mc c) (emptyPV (pvNameFor rc a))
      (pvLabels a hostname) (pvAnnotations rc a i) vm) (?Q v0) v1"
    if l: "w_log v1 = w_log v0" for mc c i vm v0 v1
  proof -
    obtain m where g: "e_get_pv E (w_clock v1) (pvNameFor rc a) = Inl (NotFound m)" using none by blast
    have name: "pv_Name (emptyPV n) = n" for n by (simp add: emptyPV_def)
    let ?b = "Api (CreatePV (mutatePV (desiredPV rc a hostname mc c) (pvLabels a hostname) (pvAnnotations rc a i) (emptyPV (pvNameFor rc a)))) None"
    have new: "\<exists>b. (\<exists>p. b = Api (CreatePV p) None \<and> pv_for rc a hostname p) \<and> newly v0 v' b" if "newly v0 v' ?b" for v'
      using mutatePV_new [of rc a hostname mc c i "pvNameFor rc a"] that by blast
    show ?thesis
      unfolding CreateOrUpdatePV_def mutateEvent_def get_pv_def name
      using g l by (auto simp: wp_simps IsNotFound_def record_event_def intro!: new intro: newlyI1 newlyI2)
  qed
  show ?thesis
    unfolding syncPV_def
    apply (rule log.wp_seqE [OF log.R_refl [of "\<lambda>_. False" v]], intro log.wrapE log_queries, simp)
    apply (rule wp_optionI, rule wp_retI, simp)
    apply (rule log.wp_seqE, assumption, intro log.wrapE log_query, simp)
    apply (rule wp_bindI, unfold get_pv_def wp_query)
    apply (rule wp_condI, rule wp_retI, simp)
    apply (rule log.wp_seqE [of "\<lambda>_. False" v], simp, rule log_readCapacity, simp)
    apply (rule wp_bindI, subst get_none_case [OF none], rule wp_mono [OF create], simp)
    apply (rule wp_retI, auto split: option.splits)
    done
qed


definition demo_sc :: storage_class where
  "demo_sc = \<lparr>sc_meta = demo_meta\<lparr>om_Name := ''sc''\<rparr>, sc_Provisioner = ''kubernetes.io/no-provisioner'',
     sc_ReclaimPolicy = None, sc_BindingMode = ''WaitForFirstConsumer'', sc_MountOptions = [], sc_AllowedTopologies = []\<rparr>"

definition demo_args :: sync_args where
  "demo_args = \<lparr>sa_obj = OwnerLV demo_lv, sa_sc = demo_sc, sa_mounts = [], sa_path = ''/mnt/local-storage/sc/wwn-1'',
     sa_extra = [], sa_dev = demo_device\<rparr>"



text \<open>What a synchronisation may do to a PV that exists: refresh labels and annotations, and keep what is there.\<close>

definition relabels :: "pv \<Rightarrow> pv \<Rightarrow> bool" where
  "relabels q p \<longleftrightarrow> (\<exists>ls as. p = q\<lparr>pv_meta := (pv_meta q)\<lparr>om_Labels := ls, om_Annotations := as\<rparr>\<rparr>
     \<and> (2 \<le> length (pv_Labels q) \<longrightarrow>
          (\<forall>k v. map_of (pv_Labels q) k = Some v \<and> k \<notin> set DeprecatedLabels \<longrightarrow> map_of ls k = Some v))
     \<and> (2 \<le> length (pv_Annotations q) \<longrightarrow> (\<forall>k v. map_of (pv_Annotations q) k = Some v \<longrightarrow> map_of as k = Some v)))"

definition keeps_pv :: "pv \<Rightarrow> action \<Rightarrow> bool" where
  "keeps_pv q b \<longleftrightarrow> no_pv_write b \<or> (\<exists>p r. b = Api (UpdatePV p) r \<and> relabels q p)"

lemma relabels_mutatePV: "om_CreationTimestamp (pv_meta q) \<noteq> None \<Longrightarrow> relabels q (mutatePV new labels ann q)"
  using mutatePV_existing [of q new labels ann] unfolding relabels_def by blast


definition released_pv :: pv where
  "released_pv = (emptyPV (pvNameFor demo_rc demo_args))
     \<lparr>pv_meta := (pv_meta (emptyPV (pvNameFor demo_rc demo_args)))\<lparr>om_CreationTimestamp := Some 1\<rparr>, pv_Phase := VolumeReleased\<rparr>"



section \<open>Everything a synchronisation may do\<close>

text \<open>On the file system: at most the swap of the link at \<open>path\<close> through its temporary name.\<close>

definition link_swap :: "string \<Rightarrow> fs_op \<Rightarrow> bool" where
  "link_swap path op \<longleftrightarrow> op = OpRemove (path @ ''.tmp'') \<or> (\<exists>t. op = OpSymlink t (path @ ''.tmp''))
     \<or> op = OpRename (path @ ''.tmp'') path"

definition sync_action :: "string \<Rightarrow> action \<Rightarrow> bool" where
  "sync_action path b \<longleftrightarrow>
     (case b of
        FsOp op r \<Rightarrow> link_swap path op
      | Api c r \<Rightarrow> (\<exists>p. c = CreatePV p \<or> c = UpdatePV p) \<or> (\<exists>d. c = CreateLVDL d \<or> c = UpdateLVDLStatus d)
      | Event _ _ _ _ \<Rightarrow> True
      | _ \<Rightarrow> False)"

lemma sync_action_simps [simp]:
  "sync_action path (Event o1 t r m)"
  "sync_action path (Api (CreatePV p) e)" "sync_action path (Api (UpdatePV p) e)"
  "sync_action path (Api (UpdateLVDLStatus d) e)" "sync_action path (Api (CreateLVDL d) e)"
  "sync_action path (FsOp op e) = link_swap path op"
  "\<not> sync_action path DeletePVs" "\<not> sync_action path (Metric m')"
  by (simp_all add: sync_action_def)

lemma swap_sync: "swap_action d path b \<Longrightarrow> sync_action path b"
  by (auto simp: swap_action_def status_action_def link_swap_def)

lemma apply_sync: "apply_action node n ns obj b \<Longrightarrow> sync_action path b"
  by (auto simp: apply_action_def)

lemma status_sync: "status_action d b \<Longrightarrow> sync_action path b"
  by (auto simp: status_action_def)

lemma log_CreateOrUpdate: "always (log_ext (sync_action path)) (CreateOrUpdatePV E new p ls as vm)"
  unfolding CreateOrUpdatePV_def by (intro log.rules log_queries log_api log_mutateEvent) simp_all

lemma log_Sync_actions: "always (log_ext (sync_action (sa_path a))) (SyncPVAndLVDL E rc a)"
proof -
  have "always (log_ext (sync_action (sa_path a))) (syncPV E rc a hostname)" for hostname
    by (rule log_syncPV [where Q = "\<lambda>_. True"]) (simp_all add: log_CreateOrUpdate)
  then show ?thesis
    unfolding SyncPVAndLVDL_def FindLVDL_def
    by (intro log.rules log_queries always_log_mono [OF log_Recreate swap_sync]
        always_log_mono [OF log_ApplyStatus apply_sync])
qed

lemmas log_Sync_within = always_log_mono [OF log_Sync_actions]

end
