(* ===== verification/Events.thy ===== *)
theory Events
  imports World
begin

text \<open>
  Models of the three event reporters: \<^verbatim>\<open>pkg/diskmaker/event_reporter.go\<close> and the ones of the lv and the
  lvset controller, and of the table of device ages in \<^verbatim>\<open>lvset/device_age.go\<close>. A reporter remembers what
  it has reported; the common contract is a locale, interpreted on each of them.
\<close>

record disk_event =
  EventType :: string
  EventReason :: string
  Disk :: string
  Message :: string

definition newDiskEvent :: "string \<Rightarrow> string \<Rightarrow> string \<Rightarrow> string \<Rightarrow> disk_event" where
  "newDiskEvent eventReason message disk eventType =
     \<lparr>EventType = eventType, EventReason = eventReason, Disk = disk, Message = message\<rparr>"

definition NewEvent :: "string \<Rightarrow> string \<Rightarrow> string \<Rightarrow> disk_event" where
  "NewEvent eventReason message disk = newDiskEvent eventReason message disk ''Warning''"

definition NewSuccessEvent :: "string \<Rightarrow> string \<Rightarrow> string \<Rightarrow> disk_event" where
  "NewSuccessEvent eventReason message disk = newDiskEvent eventReason message disk ''Normal''"

definition eventKey :: "disk_event \<Rightarrow> string" where
  "eventKey e = EventReason e @ '':'' @ EventType e @ '':'' @ Disk e"

text \<open>The message carries the name of the node, when it is known.\<close>

definition recordEvent :: "string \<Rightarrow> string \<Rightarrow> disk_event \<Rightarrow> action" where
  "recordEvent nodeName obj e =
     (let message = (if length nodeName \<noteq> 0 then nodeName @ '' - '' @ Message e else Message e)
      in Event obj (EventType e) (EventReason e) message)"

section \<open>The reporters\<close>

text \<open>The result is the event that was recorded, if any, and the new set of reported keys.\<close>

definition EventReporter_Report :: "(string \<Rightarrow> disk_event \<Rightarrow> action) \<Rightarrow> string \<Rightarrow> disk_event \<Rightarrow> string list \<Rightarrow> action option \<times> string list" where
  "EventReporter_Report apiRecord obj e reportedEvents =
     (if eventKey e \<in> set reportedEvents then (None, reportedEvents)
      else (Some (apiRecord obj e), List.insert (eventKey e) reportedEvents))"

definition lv_Report :: "string \<Rightarrow> string \<Rightarrow> disk_event \<Rightarrow> string list \<Rightarrow> action option \<times> string list" where
  "lv_Report nodeName obj e reportedEvents =
     (if eventKey e \<in> set reportedEvents then (None, reportedEvents)
      else (Some (recordEvent nodeName obj e), List.insert (eventKey e) reportedEvents))"

definition lvset_Report :: "string \<Rightarrow> string \<Rightarrow> disk_event \<Rightarrow> string list \<Rightarrow> action option \<times> string list" where
  "lvset_Report nodeName obj e reportedEvents =
     (if eventKey e \<in> set reportedEvents then (None, reportedEvents)
      else (Some (recordEvent nodeName obj e), List.insert (eventKey e) reportedEvents))"

text \<open>In a reconcile: the set is part of the controller's state.\<close>

definition report :: "(disk_event \<Rightarrow> string list \<Rightarrow> action option \<times> string list) \<Rightarrow> disk_event \<Rightarrow> unit prog" where
  "report rep e = modify (\<lambda>w. case rep e (w_reported w) of
       (None, s) \<Rightarrow> w\<lparr>w_reported := s\<rparr>
     | (Some a, s) \<Rightarrow> act a (w\<lparr>w_reported := s\<rparr>))"

abbreviation lv_report :: "env \<Rightarrow> string \<Rightarrow> disk_event \<Rightarrow> unit prog" where
  "lv_report E obj e \<equiv> report (lv_Report (e_nodename E) obj) e"

abbreviation lvset_report :: "env \<Rightarrow> string \<Rightarrow> disk_event \<Rightarrow> unit prog" where
  "lvset_report E obj e \<equiv> report (lvset_Report (e_nodename E) obj) e"

text \<open>A sequence of reports: the recorded events, last first.\<close>

fun reports :: "('o \<Rightarrow> disk_event \<Rightarrow> string list \<Rightarrow> action option \<times> string list) \<Rightarrow> ('o \<times> disk_event) list \<Rightarrow> string list \<Rightarrow> action list" where
  "reports rep [] seen = []"
| "reports rep ((obj, e) # es) seen =
     (case rep obj e seen of
        (None, seen') \<Rightarrow> reports rep es seen'
      | (Some a, seen') \<Rightarrow> a # reports rep es seen')"

section \<open>The age of devices\<close>

text \<open>Times and durations are in nanoseconds.\<close>

definition deviceMinAge :: int where "deviceMinAge = 60 * 1000000000"

definition isOlderThan :: "env \<Rightarrow> string \<Rightarrow> bool prog" where
  "isOlderThan E key = do {
     ages \<leftarrow> gets w_ages;
     (case map_of ages key of
        None \<Rightarrow> State_Monad.return False
      | Some firstObserved \<Rightarrow> do {
          t \<leftarrow> now E;
          State_Monad.return (t - firstObserved > deviceMinAge)
        })
   }"

definition storeDeviceAge :: "env \<Rightarrow> string \<Rightarrow> unit prog" where
  "storeDeviceAge E key = do {
     ages \<leftarrow> gets w_ages;
     (case map_of ages key of
        Some _ \<Rightarrow> State_Monad.return ()
      | None \<Rightarrow> do {
          t \<leftarrow> now E;
          modify (\<lambda>w. w\<lparr>w_ages := AList.update key t (w_ages w)\<rparr>)
        })
   }"

section \<open>The contract of a reporter\<close>

text \<open>
  A reporter acts on an event exactly when its key is new, and then remembers the key. Whatever is
  built on this reports every key once.
\<close>

locale deduplicating =
  fixes rep :: "'o \<Rightarrow> disk_event \<Rightarrow> string list \<Rightarrow> action option \<times> string list"
    and emit :: "'o \<Rightarrow> disk_event \<Rightarrow> action"
  assumes seen: "eventKey e \<in> set s \<Longrightarrow> rep obj e s = (None, s)"
    and fresh: "eventKey e \<notin> set s \<Longrightarrow> \<exists>s'. rep obj e s = (Some (emit obj e), s') \<and> set s' = insert (eventKey e) (set s)"
begin

text \<open>The reported events are those of the first occurrences of the keys.\<close>

lemma reports_first:
  "reports rep es s = map (\<lambda>(obj, e). emit obj e)
     (map (\<lambda>i. es ! i) (filter (\<lambda>i. eventKey (snd (es ! i)) \<notin> set s \<and> (\<forall>j < i. eventKey (snd (es ! j)) \<noteq> eventKey (snd (es ! i)))) [0..<length es]))"
proof (induction es arbitrary: s)
  case (Cons oe es)
  obtain obj e where oe: "oe = (obj, e)" by fastforce
  have shift: "[0..<length (oe # es)] = 0 # map Suc [0..<length es]"
    by (simp add: upt_conv_Cons map_Suc_upt del: upt_Suc)
  have less: "(\<forall>j < Suc i. P j) \<longleftrightarrow> P 0 \<and> (\<forall>j < i. P (Suc j))" for i and P :: "nat \<Rightarrow> bool"
    using less_Suc_eq_0_disj by auto
  show ?case
  proof (cases "eventKey e \<in> set s")
    case True
    then show ?thesis
      using Cons [of s] seen [OF True, of obj]
      unfolding shift by (auto simp: oe filter_map comp_def less intro!: arg_cong [where f = "map _"] filter_cong)
  next
    case False
    from fresh [OF this] obtain s' where r: "rep obj e s = (Some (emit obj e), s')" "set s' = insert (eventKey e) (set s)"
      by blast
    then show ?thesis
      using Cons [of s'] False
      unfolding shift by (auto simp: oe filter_map comp_def less intro!: arg_cong [where f = "map _"] filter_cong)
  qed
qed simp

end

interpretation diskmaker_reporter: deduplicating "EventReporter_Report apiRecord" apiRecord for apiRecord
  by unfold_locales (auto simp: EventReporter_Report_def)

interpretation lv_reporter: deduplicating "lv_Report nodeName" "recordEvent nodeName" for nodeName
  by unfold_locales (auto simp: lv_Report_def)

interpretation lvset_reporter: deduplicating "lvset_Report nodeName" "recordEvent nodeName" for nodeName
  by unfold_locales (auto simp: lvset_Report_def)

text \<open>The positions whose key occurs for the first time.\<close>

definition first_positions :: "(string \<times> disk_event) list \<Rightarrow> nat list" where
  "first_positions es = filter (\<lambda>i. \<forall>j < i. eventKey (snd (es ! j)) \<noteq> eventKey (snd (es ! i))) [0..<length es]"

text \<open>
  Over any sequence of reports a reporter records exactly the events whose reason, type and disk
  occur for the first time, in their order and with the object and message of that first occurrence;
  this holds of the reporter of the diskmaker and of those of the two controllers.
\<close>

theorem reporters_record_first_occurrences:
  "reports (lv_Report nodeName) es [] = map (\<lambda>i. recordEvent nodeName (fst (es ! i)) (snd (es ! i))) (first_positions es)
   \<and> reports (lvset_Report nodeName) es [] = map (\<lambda>i. recordEvent nodeName (fst (es ! i)) (snd (es ! i))) (first_positions es)
   \<and> reports (EventReporter_Report apiRecord) es [] = map (\<lambda>i. apiRecord (fst (es ! i)) (snd (es ! i))) (first_positions es)"
  by (simp add: lv_reporter.reports_first lvset_reporter.reports_first diskmaker_reporter.reports_first first_positions_def
      case_prod_unfold comp_def)

section \<open>Lemmas on the programs\<close>

lemma log_report:
  assumes "\<And>a s. fst (rep e s) = Some a \<Longrightarrow> P a"
  shows "always (log_ext P) (report rep e)"
proof -
  have "log_ext P w (act a w1)" if "rep e s = (Some a, s')" "w_log w1 = w_log w" for w w1 a s s'
    using assms [of s a] that by (auto simp: log_ext_def intro: exI [of _ "[a]"])
  then show ?thesis
    unfolding always_def report_def by (auto simp: log_ext_def split: prod.splits option.splits)
qed

lemma log_reports [intro]:
  assumes "\<And>o1 t r m. P (Event o1 t r m)"
  shows "always (log_ext P) (lv_report E obj e)" "always (log_ext P) (lvset_report E obj e)"
  by (rule log_report; auto simp: lv_Report_def lvset_Report_def recordEvent_def assms split: if_splits)+

lemma keep_report [simp, intro]: "always (keeps I) (report rep e)"
  by (auto simp: always_def report_def keeps_def split: prod.splits option.splits)

lemma log_ages [simp, intro]:
  "always (log_ext P) (isOlderThan E k)" "always (log_ext P) (storeDeviceAge E k)"
  unfolding isOlderThan_def storeDeviceAge_def by (intro log.rules log_queries log_modify; simp)+

lemma keep_ages [intro]:
  assumes "stable E I"
  shows "always (keeps I) (isOlderThan E k)" "always (keeps I) (storeDeviceAge E k)"
  unfolding isOlderThan_def storeDeviceAge_def
  by (intro keep.rules keep_queries assms; simp add: always_def keeps_def)+

end
