(* ===== verification/Controllers.thy ===== *)
theory Controllers
  imports Provisioner Events
begin

text \<open>
  What the two diskmaker controllers share: \<^verbatim>\<open>ReloadRuntimeConfig\<close> of
  \<^verbatim>\<open>pkg/common/controller_runtime_utils.go\<close>, the node selector test of \<^verbatim>\<open>daemonsets_utils.go\<close>, the
  result of a reconcile and the requeue times.
\<close>

section \<open>Results of a reconcile\<close>

text \<open>\<^verbatim>\<open>ctrl.Result\<close>: requeue, and after which time (0 for none).\<close>

record requeue =
  rq_Requeue :: bool
  rq_After :: int

definition no_requeue :: requeue where "no_requeue = \<lparr>rq_Requeue = False, rq_After = 0\<rparr>"

definition defaultRequeueTime :: int where "defaultRequeueTime = 60 * 1000000000"
definition fastRequeueTime :: int where "fastRequeueTime = 5 * 1000000000"

type_synonym outcome = "requeue \<times> error option"

definition stop_with :: "error \<Rightarrow> outcome prog" where
  "stop_with e = State_Monad.return (no_requeue, Some e)"

definition done_after :: "int \<Rightarrow> outcome prog" where
  "done_after t = State_Monad.return (\<lparr>rq_Requeue = True, rq_After = t\<rparr>, None)"

text \<open>The conversion \<^verbatim>\<open>int32(len(...))\<close>.\<close>

definition int32 :: "nat \<Rightarrow> int" where
  "int32 n = (int n + 2 ^ 31) mod 2 ^ 32 - 2 ^ 31"

section \<open>Runtime configuration\<close>

definition ProvisionerConfigMapName :: string where "ProvisionerConfigMapName = ''local-provisioner''"

definition ReloadRuntimeConfig :: "env \<Rightarrow> string \<Rightarrow> error option prog" where
  "ReloadRuntimeConfig E namespace = do {
     cm \<leftarrow> query E (\<lambda>t w. e_get_cm E t (namespace, ProvisionerConfigMapName));
     (case cm of
        Inl e \<Rightarrow> State_Monad.return (Some e)
      | Inr cm \<Rightarrow> do {
          nd \<leftarrow> query E (\<lambda>t w. e_get_node E t (e_nodename E));
          (case nd of
             Inl e \<Rightarrow> State_Monad.return (Some e)
           | Inr node \<Rightarrow>
               (case e_volconfig E (cm_Data cm) of
                  Inl e \<Rightarrow> State_Monad.return (Some e)
                | Inr discoveryMap \<Rightarrow> do {
                    _ \<leftarrow> modify (\<lambda>w. w\<lparr>w_rc := \<lparr>rc_Name = GetProvisionedByValue (n_Name node), rc_Node = node,
                           rc_Namespace = namespace, rc_DiscoveryMap = discoveryMap\<rparr>\<rparr>);
                    State_Monad.return None
                  }))
        })
   }"

definition NodeSelectorMatchesNodeLabels :: "env \<Rightarrow> node \<Rightarrow> node_selector option \<Rightarrow> bool result" where
  "NodeSelectorMatchesNodeLabels E node nodeSelector =
     (case nodeSelector of None \<Rightarrow> Inr True | Some sel \<Rightarrow> e_nodesel E (n_Labels node) sel)"

text \<open>The deleter of the provisioner library works on the API server; it is one entry of the log.\<close>

definition delete_pvs :: "env \<Rightarrow> unit prog" where
  "delete_pvs E = do {
     _ \<leftarrow> query E (\<lambda>t w. ());
     modify (act DeletePVs)
   }"

text \<open>Filling the cache of owned PVs on the first reconcile.\<close>

definition syncCaches :: "env \<Rightarrow> (pv \<Rightarrow> bool) \<Rightarrow> error option prog" where
  "syncCaches E isOwnKind = do {
     l \<leftarrow> list_pv E [];
     (case l of
        Inl e \<Rightarrow> State_Monad.return (Some (Wrapf ''failed to initialize PV cache: '' e))
      | Inr items \<Rightarrow> do {
          _ \<leftarrow> modify (\<lambda>w. w\<lparr>w_pvs := fold (\<lambda>p c. if \<not> PVMatchesProvisioner p (rc_Name (w_rc w)) \<or> \<not> isOwnKind p then c
                                                    else AddOrUpdatePV p c) items (w_pvs w),
                              w_cacheSynced := True\<rparr>);
          State_Monad.return None
        })
   }"

section \<open>Lemmas\<close>

lemma set_update_cases: "p \<in> set (AList.update k v m) \<Longrightarrow> p = (k, v) \<or> p \<in> set m"
  by (induction m) (auto split: if_splits)

lemma log_ret_outcomes [simp, intro]: "always (log_ext P) (stop_with e)" "always (log_ext P) (done_after t)"
  unfolding stop_with_def done_after_def by (intro log.rules)+

lemma log_Reload [simp, intro]: "always (log_ext P) (ReloadRuntimeConfig E ns)"
  unfolding ReloadRuntimeConfig_def by (intro log.rules log_query log_modify) simp

lemma log_syncCaches [simp, intro]: "always (log_ext P) (syncCaches E k)"
  unfolding syncCaches_def by (intro log.rules log_queries log_modify) simp

lemma log_delete_pvs [intro]: "P DeletePVs \<Longrightarrow> always (log_ext P) (delete_pvs E)"
  unfolding delete_pvs_def by (intro log.rules log_query) (simp add: always_def log_ext_def)

lemma log_GenerateMountMap [simp, intro]: "always (log_ext P) (GenerateMountMap E)"
  unfolding GenerateMountMap_def by (intro log.rules log_query)


section \<open>What the controllers may do\<close>

text \<open>The cleanup: links and finalizers of PVs that qualify, links only when the owner is being deleted.\<close>

definition cleanup_action :: "smap \<Rightarrow> bool \<Rightarrow> action \<Rightarrow> bool" where
  "cleanup_action labels deleted b \<longleftrightarrow>
     (\<exists>p r. cleanable labels p \<and> b = Api (UpdatePV (withoutSymlinkFinalizer p)) r)
     \<or> deleted \<and> (\<exists>p path r. cleanable labels p \<and> pv_LocalPath p = Some path
          \<and> (b = FsOp (OpRemove path) r \<or> b = FsOp (OpRemove (dir path)) r))"

lemma log_Cleanup: "always (log_ext (cleanup_action labels del)) (CleanupSymlinks E labels (Some del))"
  unfolding CleanupSymlinks_def cleanupOne_def
  by (intro log.rules log_deleteSymlink log_removeSymlinkFinalizer) (auto simp: cleanup_action_def)

lemmas log_Cleanup_within = always_log_mono [OF log_Cleanup]

text \<open>Bookkeeping: events, metrics and the call of the deleter.\<close>

definition bookkeeping :: "action \<Rightarrow> bool" where
  "bookkeeping b \<longleftrightarrow> (case b of Event _ _ _ _ \<Rightarrow> True | Metric _ \<Rightarrow> True | DeletePVs \<Rightarrow> True | _ \<Rightarrow> False)"

lemma bookkeeping_simps [simp]:
  "bookkeeping (Event o1 t r m)" "bookkeeping (Metric m')" "bookkeeping DeletePVs"
  "\<not> bookkeeping (Api c e)" "\<not> bookkeeping (FsOp op e)"
  by (simp_all add: bookkeeping_def)

text \<open>
  While its object is not being deleted, a controller never takes a link away: it removes temporary
  links only, and the only objects it writes are PVs and device links.
\<close>

definition no_loss :: "action \<Rightarrow> bool" where
  "no_loss b \<longleftrightarrow>
     (case b of
        FsOp (OpRemove p) r \<Rightarrow> \<exists>q. p = q @ ''.tmp''
      | FsOp (OpRename p q) r \<Rightarrow> p = q @ ''.tmp''
      | FsOp _ r \<Rightarrow> True
      | Api c r \<Rightarrow> (\<exists>p. c = CreatePV p \<or> c = UpdatePV p) \<or> (\<exists>d. c = CreateLVDL d \<or> c = UpdateLVDLStatus d)
      | _ \<Rightarrow> True)"

lemma no_loss_sync: "sync_action path b \<Longrightarrow> no_loss b"
  by (auto simp: sync_action_def no_loss_def link_swap_def split: action.splits)

lemma no_loss_bookkeeping: "bookkeeping b \<Longrightarrow> no_loss b"
  by (auto simp: bookkeeping_def no_loss_def split: action.splits)

lemma no_loss_cleanup: "cleanup_action labels False b \<Longrightarrow> no_loss b"
  by (auto simp: cleanup_action_def no_loss_def)

text \<open>Nothing is lost and no device is wiped.\<close>

definition keeps_data :: "action \<Rightarrow> bool" where
  "keeps_data b \<longleftrightarrow> no_loss b \<and> (\<forall>p e. b \<noteq> FsOp (OpWipe p) e)"

lemma keeps_data_sync: "sync_action path b \<Longrightarrow> keeps_data b"
  by (auto simp: keeps_data_def link_swap_def dest: no_loss_sync)

lemma keeps_data_book [simp]: "bookkeeping b \<Longrightarrow> keeps_data b"
  by (auto simp: keeps_data_def no_loss_bookkeeping)

lemma keeps_data_fs [simp]: "keeps_data (FsOp (OpMkdirAll p) e)" "keeps_data (FsOp (OpSymlink s t) e)"
  by (simp_all add: keeps_data_def no_loss_def)

lemma keeps_data_cleanup: "cleanup_action labels False b \<Longrightarrow> keeps_data b"
  by (auto simp: keeps_data_def dest: no_loss_cleanup) (auto simp: cleanup_action_def)

lemmas controller_log =
  log.rules log_queries log_query log_reports log_metric log_ret_outcomes log_GenerateMountMap log_getLVDL log_Recover log_HasExisting

lemma log_refresh_status: "always (log_ext (sync_action path)) (UpdateDeviceLinks E d dev cur p)"
  by (rule always_log_mono [OF log_UpdateDeviceLinks status_sync])


lemmas log_refresh = always_log_mono [OF log_refresh_status keeps_data_sync]
lemmas log_Recreate_keeps = always_log_mono [OF log_Recreate keeps_data_sync [OF swap_sync]]
lemmas log_ApplyStatus_keeps = always_log_mono [OF log_ApplyStatus keeps_data_sync [OF apply_sync]]

end
