(* ===== verification/LvReconcile.thy ===== *)
theory LvReconcile
  imports Controllers
begin

text \<open>
  Model of \<^verbatim>\<open>pkg/diskmaker/controllers/lv/reconcile.go\<close>, the controller that links the devices a
  LocalVolume names, with \<^verbatim>\<open>diskconfig.go\<close>. The reconciler's \<^verbatim>\<open>effectiveRequeueTime\<close> is
  the flag \<open>w_fastRequeue\<close> (default or fast); \<^verbatim>\<open>localVolume\<close> and \<^verbatim>\<open>symlinkLocation\<close> are arguments. The
  loops over the map of disks visit it in the order of the list.
\<close>

section \<open>The disk configuration\<close>

record disks =
  dk_DevicePaths :: "string list"
  dk_ForceWipe :: bool

record disk_config =
  dc_Disks :: "(string \<times> disks) list"
  dc_OwnerName :: string
  dc_OwnerNamespace :: string
  dc_OwnerKind :: string
  dc_OwnerUID :: string
  dc_OwnerAPIVersion :: string

definition DeviceNames :: "disks \<Rightarrow> string list" where
  "DeviceNames d =
     remdups (filter (\<lambda>disk. let deviceParts = split_char slash disk
                             in length deviceParts = 3 \<and> deviceParts ! 1 = ''dev'') (dk_DevicePaths d))"

definition DeviceIDs :: "disks \<Rightarrow> string list" where
  "DeviceIDs d = filter (\<lambda>p. p \<notin> set (DeviceNames d)) (remdups (dk_DevicePaths d))"

definition generateConfig :: "local_volume \<Rightarrow> disk_config" where
  "generateConfig lv =
     \<lparr>dc_Disks = fold (\<lambda>scd m. AList.update (scd_StorageClassName scd)
                   \<lparr>dk_DevicePaths = scd_DevicePaths scd, dk_ForceWipe = scd_ForceWipe scd\<rparr> m) (lv_StorageClassDevices lv) [],
      dc_OwnerName = lv_Name lv, dc_OwnerNamespace = lv_Namespace lv, dc_OwnerKind = LocalVolumeKind,
      dc_OwnerUID = om_UID (lv_meta lv), dc_OwnerAPIVersion = ''local.storage.openshift.io/v1''\<rparr>"

section \<open>Small helpers\<close>

definition getSymlinkSourceAndTarget :: "disk_location \<Rightarrow> string \<Rightarrow> string \<times> string \<times> bool" where
  "getSymlinkSourceAndTarget devLocation symlinkDir =
     (if dl_DiskID devLocation \<noteq> ''''
      then (dl_DiskID devLocation, path_join [symlinkDir, base (dl_DiskID devLocation)], True)
      else (dl_UserProvidedPath devLocation, path_join [symlinkDir, base (dl_UserProvidedPath devLocation)], False))"

definition ignoreDevices :: "host \<Rightarrow> block_device \<Rightarrow> bool" where
  "ignoreDevices h dev \<longleftrightarrow>
     (case HasBindMounts h dev of Inl e \<Rightarrow> True | Inr (b, _) \<Rightarrow> b)
     \<or> (case HasChildren h dev of Inl e \<Rightarrow> True | Inr b \<Rightarrow> b)"

definition hasExactDisk :: "block_device list \<Rightarrow> string \<Rightarrow> block_device option" where
  "hasExactDisk blockDevices device = List.find (\<lambda>b. bd_KName b = device) blockDevices"

definition evalSymlink :: "env \<Rightarrow> string \<Rightarrow> string result prog" where
  "evalSymlink E path = host_query E (\<lambda>h. FilePathEvalSymLinks h path)"

definition fileExists :: "env \<Rightarrow> string \<Rightarrow> bool prog" where
  "fileExists E filename = do {
     st \<leftarrow> do_stat E filename;
     State_Monad.return (case st of Inl e \<Rightarrow> \<not> os_IsNotExist e | Inr _ \<Rightarrow> True)
   }"

definition findDeviceByID :: "env \<Rightarrow> string \<Rightarrow> (string \<times> string) result prog" where
  "findDeviceByID E deviceID = do {
     r \<leftarrow> evalSymlink E deviceID;
     State_Monad.return (case r of
         Inl e \<Rightarrow> Inl (Errorf (''unable to find device at path '' @ deviceID @ '': '' @ err_text e))
       | Inr diskDevPath \<Rightarrow> Inr (deviceID, diskDevPath))
   }"

definition diskByIDPrefix :: string where "diskByIDPrefix = ''/dev/disk/by-id''"

definition resolveValidDeviceLocation ::
  "env \<Rightarrow> string \<Rightarrow> bool \<Rightarrow> block_device list \<Rightarrow> disk_location option result prog" where
  "resolveValidDeviceLocation E devicePath forceWipe validDevices = do {
     r \<leftarrow> (if has_prefix devicePath diskByIDPrefix then findDeviceByID E devicePath
           else do {
             d \<leftarrow> evalSymlink E devicePath;
             State_Monad.return (case d of Inl e \<Rightarrow> Inl e | Inr diskDevPath \<Rightarrow> Inr ('''', diskDevPath))
           });
     State_Monad.return (case r of
         Inl e \<Rightarrow> Inl e
       | Inr (diskID, diskNamePath) \<Rightarrow>
           (case hasExactDisk validDevices (base diskNamePath) of
              None \<Rightarrow> Inr None
            | Some blockDevice \<Rightarrow>
                Inr (Some \<lparr>dl_DiskNamePath = diskNamePath, dl_UserProvidedPath = devicePath, dl_DiskID = diskID,
                  dl_BlockDevice = blockDevice, dl_ForceWipe = forceWipe, dl_SymlinkPath = '''', dl_SymlinkSource = ''''\<rparr>)))
   }"

definition checkForExistingPV :: "pv_cache \<Rightarrow> node \<Rightarrow> disk_location \<Rightarrow> bool" where
  "checkForExistingPV c node loc =
     (case map_of (n_Labels node) LabelHostname of
        None \<Rightarrow> False
      | Some hostname \<Rightarrow>
          list_ex (\<lambda>p. (case map_of (pv_Labels p) LabelHostname of None \<Rightarrow> '''' | Some v \<Rightarrow> v) = hostname
                     \<and> (case map_of (pv_Annotations p) PVDeviceNameLabel of None \<Rightarrow> '''' | Some v \<Rightarrow> v) = base (dl_DiskNamePath loc))
            (ListPVs c))"

section \<open>Creating a symlink\<close>

abbreviation lv_event :: "env \<Rightarrow> local_volume \<Rightarrow> string \<Rightarrow> string \<Rightarrow> string \<Rightarrow> string \<Rightarrow> unit prog" where
  "lv_event E lv reason msg disk ty \<equiv> lv_report E (lv_Name lv) (newDiskEvent reason msg disk ty)"

definition fail_event :: "env \<Rightarrow> local_volume \<Rightarrow> string \<Rightarrow> string \<Rightarrow> string \<Rightarrow> bool prog" where
  "fail_event E lv reason msg disk = do {
     _ \<leftarrow> lv_event E lv reason msg disk ''Warning'';
     State_Monad.return False
   }"

text \<open>The last step: wipe if asked for, then link and report.\<close>

definition lv_link :: "env \<Rightarrow> local_volume \<Rightarrow> disk_location \<Rightarrow> string \<Rightarrow> string \<Rightarrow> bool \<Rightarrow> bool prog" where
  "lv_link E lv loc symLinkSource symLinkTarget idExists = do {
     err \<leftarrow> do_symlink E symLinkSource symLinkTarget;
     (case err of
        Some e \<Rightarrow> fail_event E lv ''ErrorFindingMatchingDisk'' (''error creating symlink '' @ symLinkTarget @ '': '' @ err_text e) symLinkSource
      | None \<Rightarrow> do {
          _ \<leftarrow> (if \<not> idExists then lv_event E lv ''SymlinkedOnDeivceName''
                  (''created symlink on device name '' @ symLinkSource @ '' with no disk/by-id. device name might not persist on reboot'') symLinkSource ''Warning''
                else State_Monad.return ());
          _ \<leftarrow> lv_event E lv ''FoundMatchingDisk'' (''found matching disk '' @ dl_DiskNamePath loc @ '' with id '' @ dl_DiskID loc) (dl_DiskNamePath loc) ''Normal'';
          State_Monad.return True
        })
   }"

definition lv_wipeAndLink :: "env \<Rightarrow> local_volume \<Rightarrow> disk_location \<Rightarrow> string \<Rightarrow> string \<Rightarrow> bool \<Rightarrow> bool prog" where
  "lv_wipeAndLink E lv loc symLinkSource symLinkTarget idExists = do {
     wiped \<leftarrow> (if dl_ForceWipe loc then do_wipe E symLinkSource else State_Monad.return None);
     (case wiped of
        Some e \<Rightarrow> fail_event E lv ''ErrorCreatingSymLink'' (''error wipefs device '' @ symLinkSource @ '': '' @ err_text e) symLinkSource
      | None \<Rightarrow> lv_link E lv loc symLinkSource symLinkTarget idExists)
   }"

text \<open>The part under the lock.\<close>

definition lv_linkLocked ::
  "env \<Rightarrow> local_volume \<Rightarrow> disk_location \<Rightarrow> string \<Rightarrow> string \<Rightarrow> bool \<Rightarrow> bool \<Rightarrow> string list \<Rightarrow> error option \<Rightarrow> bool prog" where
  "lv_linkLocked E lv loc symLinkSource symLinkTarget idExists pvLocked existingSymlinks lockErr =
     (if existingSymlinks \<noteq> [] then
        (if symLinkTarget \<in> set existingSymlinks then State_Monad.return True
         else fail_event E lv ''DeviceSymlinkExists'' ''not symlinking, already claimed'' symLinkTarget)
      else if lockErr \<noteq> None \<or> \<not> pvLocked then
        fail_event E lv ''ErrorCreatingSymLink'' ''not symlinking, locking failed'' symLinkTarget
      else do {
        err \<leftarrow> do_mkdirall E (dir symLinkTarget);
        (case err of
           Some e \<Rightarrow> fail_event E lv ''ErrorFindingMatchingDisk'' (''error creating symlink dir '' @ dir symLinkTarget @ '': '' @ err_text e) symLinkTarget
         | None \<Rightarrow> do {
             exists \<leftarrow> fileExists E symLinkTarget;
             (if exists then State_Monad.return True
              else do {
                rc \<leftarrow> gets w_rc;
                pvs \<leftarrow> gets w_pvs;
                (if \<not> idExists \<and> checkForExistingPV pvs (rc_Node rc) loc then
                   fail_event E lv ''ErrorFindingMatchingDisk''
                     (''error creating symlink, no disk/by-id found and found an existing PV for same device '' @ symLinkTarget) symLinkSource
                 else lv_wipeAndLink E lv loc symLinkSource symLinkTarget idExists)
              })
           })
      })"

definition createSymlink :: "env \<Rightarrow> local_volume \<Rightarrow> string \<Rightarrow> disk_location \<Rightarrow> string \<Rightarrow> string \<Rightarrow> bool \<Rightarrow> bool prog" where
  "createSymlink E lv symlinkLocation loc symLinkSource symLinkTarget idExists = do {
     d \<leftarrow> evalSymlink E symLinkSource;
     (case d of
        Inl e \<Rightarrow> State_Monad.return False
      | Inr diskDevPath \<Rightarrow> do {
          (pvLock, pvLocked, existingSymlinks, lockErr) \<leftarrow> host_query E (\<lambda>h. GetPVCreationLock h diskDevPath [symlinkLocation]);
          r \<leftarrow> lv_linkLocked E lv loc symLinkSource symLinkTarget idExists pvLocked existingSymlinks lockErr;
          _ \<leftarrow> query E (\<lambda>t w. Unlock (e_close E t) pvLock);
          State_Monad.return r
        })
   }"

section \<open>Provisioning a device\<close>

definition lv_syncPVAndLVDL :: "env \<Rightarrow> local_volume \<Rightarrow> string \<Rightarrow> disk_location \<Rightarrow> string list \<Rightarrow> error option prog" where
  "lv_syncPVAndLVDL E lv scName loc mountPointMap = do {
     sc \<leftarrow> get_sc E scName;
     (case sc of
        Inl e \<Rightarrow> State_Monad.return (Some (Wrapf (''error fetching storageclass '' @ scName @ '': '') e))
      | Inr storageClass \<Rightarrow> do {
          rc \<leftarrow> gets w_rc;
          SyncPVAndLVDL E rc \<lparr>sa_obj = OwnerLV lv, sa_sc = storageClass, sa_mounts = mountPointMap, sa_path = dl_SymlinkPath loc,
            sa_extra = [(LocalVolumeOwnerNameForPV, lv_Name lv), (LocalVolumeOwnerNamespaceForPV, lv_Namespace lv)],
            sa_dev = dl_BlockDevice loc\<rparr>
        })
   }"

definition processExistingSymlink :: "env \<Rightarrow> local_volume \<Rightarrow> string \<Rightarrow> string \<Rightarrow> disk_location \<Rightarrow> string list \<Rightarrow> error option prog" where
  "processExistingSymlink E lv scName symlinkPath loc mountPointMap = do {
     r \<leftarrow> host_query E (\<lambda>h. Readlink h symlinkPath);
     let effectiveCurrentSource = (case r of Inl _ \<Rightarrow> '''' | Inr s \<Rightarrow> s);
     lv_syncPVAndLVDL E lv scName (loc\<lparr>dl_SymlinkSource := effectiveCurrentSource, dl_SymlinkPath := symlinkPath\<rparr>) mountPointMap
   }"

definition lv_refreshNotPreferred :: "env \<Rightarrow> block_device \<Rightarrow> error \<Rightarrow> unit prog" where
  "lv_refreshNotPreferred E blockDevice err =
     (case PolicyNotPreferredLVDL err of
        None \<Rightarrow> State_Monad.return ()
      | Some (d, pvSymlinkPath) \<Rightarrow> do {
          _ \<leftarrow> UpdateDeviceLinks E d blockDevice (lst_CurrentLinkTarget (ld_Status d)) pvSymlinkPath;
          State_Monad.return ()
        })"

text \<open>Whether a PV was provisioned, and the error.\<close>

definition lv_processNewSymlink :: "env \<Rightarrow> local_volume \<Rightarrow> string \<Rightarrow> string \<Rightarrow> disk_location \<Rightarrow> string list \<Rightarrow> (bool \<times> error option) prog" where
  "lv_processNewSymlink E lv symlinkLocation scName loc0 mountPointMap = do {
     let symLinkDirPath = path_join [symlinkLocation, scName];
     let (source, target, idExists) = getSymlinkSourceAndTarget loc0 symLinkDirPath;
     let loc = loc0\<lparr>dl_SymlinkSource := source, dl_SymlinkPath := target\<rparr>;
     l \<leftarrow> gets w_links;
     found \<leftarrow> host_query E (\<lambda>h. FindLSOManagedDeviceInfo h l source (dl_BlockDevice loc));
     (case found of
        (_, _, Some e) \<Rightarrow> State_Monad.return (False, Some e)
      | (info, True, None) \<Rightarrow> do {
          r \<leftarrow> RecoverPVSymlinkPath E info symLinkDirPath source;
          (case r of
             Inl e \<Rightarrow> do {
               _ \<leftarrow> lv_refreshNotPreferred E (dl_BlockDevice loc) e;
               State_Monad.return (False, Some e)
             }
           | Inr pvSymlinkPath \<Rightarrow> do {
               err \<leftarrow> processExistingSymlink E lv scName pvSymlinkPath (loc\<lparr>dl_SymlinkPath := pvSymlinkPath\<rparr>) mountPointMap;
               State_Monad.return (err = None, err)
             })
        }
      | (info, False, None) \<Rightarrow> do {
          shouldCreatePV \<leftarrow> createSymlink E lv symlinkLocation loc source target idExists;
          (if shouldCreatePV then do {
             err \<leftarrow> lv_syncPVAndLVDL E lv scName loc mountPointMap;
             State_Monad.return (True, err)
           }
           else State_Monad.return (False, None))
        })
   }"

definition reportDeviceResolutionError :: "env \<Rightarrow> local_volume \<Rightarrow> string \<Rightarrow> error \<Rightarrow> unit prog" where
  "reportDeviceResolutionError E lv devicePath err =
     (let deviceKind = (if has_prefix devicePath diskByIDPrefix then ''disk-id'' else ''disk'')
      in lv_event E lv ''ErrorFindingMatchingDisk''
           (''unable to add '' @ deviceKind @ '' '' @ devicePath @ '' to local disk pool: '' @ err_text err) devicePath ''Warning'')"

definition reportSymlinkLookupError :: "env \<Rightarrow> local_volume \<Rightarrow> string \<Rightarrow> string \<Rightarrow> error \<Rightarrow> unit prog" where
  "reportSymlinkLookupError E lv symLinkDirPath devicePath err =
     lv_event E lv ''ErrorListingDeviceID'' (''error listing symlinks in '' @ symLinkDirPath @ '': '' @ err_text err) devicePath ''Warning''"

definition reportProvisioningError :: "env \<Rightarrow> local_volume \<Rightarrow> string \<Rightarrow> error \<Rightarrow> unit prog" where
  "reportProvisioningError E lv devicePath err = do {
     _ \<leftarrow> modify (\<lambda>w. w\<lparr>w_fastRequeue := True\<rparr>);
     lv_event E lv ''ErrorProvisioningVolume'' (''unable to provision volumes '' @ devicePath @ '': '' @ err_text err) devicePath ''Warning''
   }"

definition provisionValidDevice ::
  "env \<Rightarrow> local_volume \<Rightarrow> string \<Rightarrow> string \<Rightarrow> string \<Rightarrow> disk_location \<Rightarrow> string list \<Rightarrow> bool prog" where
  "provisionValidDevice E lv symlinkLocation storageClass devicePath loc mountPointMap = do {
     let symLinkDirPath = path_join [symlinkLocation, storageClass];
     ex \<leftarrow> host_query E (\<lambda>h. GetSymlinkedForCurrentSC h symLinkDirPath (bd_KName (dl_BlockDevice loc)));
     (case ex of
        Inl e \<Rightarrow> do {
          _ \<leftarrow> reportSymlinkLookupError E lv symLinkDirPath devicePath e;
          State_Monad.return False
        }
      | Inr existingSymlink \<Rightarrow>
          if existingSymlink \<noteq> '''' then do {
            err \<leftarrow> processExistingSymlink E lv storageClass (path_join [symLinkDirPath, existingSymlink]) loc mountPointMap;
            (case err of
               Some e \<Rightarrow> do {
                 _ \<leftarrow> reportProvisioningError E lv devicePath e;
                 State_Monad.return False
               }
             | None \<Rightarrow> State_Monad.return True)
          }
          else do {
            loc' \<leftarrow> (if dl_DiskID loc = '''' then do {
                       (r, dev) \<leftarrow> host_query E (\<lambda>h. GetUncachedPathID h (dl_BlockDevice loc));
                       State_Monad.return (case r of
                           Inr matchedDeviceID \<Rightarrow> loc\<lparr>dl_BlockDevice := dev, dl_DiskID := matchedDeviceID\<rparr>
                         | Inl e \<Rightarrow> loc\<lparr>dl_BlockDevice := dev\<rparr>)
                     }
                     else State_Monad.return loc);
            (provisioned, err) \<leftarrow> lv_processNewSymlink E lv symlinkLocation storageClass loc' mountPointMap;
            (case err of
               Some e \<Rightarrow> do {
                 _ \<leftarrow> reportProvisioningError E lv devicePath e;
                 State_Monad.return False
               }
             | None \<Rightarrow> State_Monad.return provisioned)
          })
   }"

definition logDeviceError :: "env \<Rightarrow> local_volume \<Rightarrow> string \<Rightarrow> unit prog" where
  "logDeviceError E lv diskDevPath = do {
     exists \<leftarrow> fileExists E diskDevPath;
     (if \<not> exists then State_Monad.return ()
      else do {
        st \<leftarrow> do_stat E diskDevPath;
        (case st of
           Inl e \<Rightarrow> State_Monad.return ()
         | Inr i \<Rightarrow>
             let msg = (case i of
                   Dir \<Rightarrow> ''unable to use directory '' @ diskDevPath @ '' for local storage. Use an existing block device.''
                 | Reg \<Rightarrow> ''unable to use regular file '' @ diskDevPath @ '' for local storage. Use an existing block device.''
                 | _ \<Rightarrow> ''unable to find matching disk '' @ diskDevPath)
             in lv_event E lv ''ErrorFindingMatchingDisk'' msg diskDevPath ''Warning'')
      })
   }"

section \<open>Valid and rejected devices\<close>

text \<open>The loop over the device paths of one storage class: the number of PVs.\<close>

fun validPathLoop ::
  "env \<Rightarrow> local_volume \<Rightarrow> string \<Rightarrow> string \<Rightarrow> bool \<Rightarrow> block_device list \<Rightarrow> string list \<Rightarrow> string list \<Rightarrow> int \<Rightarrow> int prog" where
  "validPathLoop E lv symlinkLocation storageClass forceWipe validDevices mountPointMap [] totalPVs = State_Monad.return totalPVs"
| "validPathLoop E lv symlinkLocation storageClass forceWipe validDevices mountPointMap (devicePath # devicePaths) totalPVs = do {
     r \<leftarrow> resolveValidDeviceLocation E devicePath forceWipe validDevices;
     ok \<leftarrow> (case r of
         Inl e \<Rightarrow> do {
           _ \<leftarrow> reportDeviceResolutionError E lv devicePath e;
           State_Monad.return False
         }
       | Inr None \<Rightarrow> do {
           _ \<leftarrow> logDeviceError E lv devicePath;
           State_Monad.return False
         }
       | Inr (Some loc) \<Rightarrow> provisionValidDevice E lv symlinkLocation storageClass devicePath loc mountPointMap);
     validPathLoop E lv symlinkLocation storageClass forceWipe validDevices mountPointMap devicePaths (if ok then totalPVs + 1 else totalPVs)
   }"

definition processValidDevices ::
  "env \<Rightarrow> local_volume \<Rightarrow> string \<Rightarrow> block_device list \<Rightarrow> disk_config \<Rightarrow> string list \<Rightarrow> (string \<times> int) list \<Rightarrow> unit prog" where
  "processValidDevices E lv symlinkLocation validDevices diskConfig mountPointMap inUsePVCount =
     for_each (\<lambda>(storageClass, disks). do {
       let start = (case map_of inUsePVCount storageClass of None \<Rightarrow> 0 | Some n \<Rightarrow> n);
       totalPVs \<leftarrow> (if validDevices \<noteq> []
                then validPathLoop E lv symlinkLocation storageClass (dk_ForceWipe disks) validDevices mountPointMap (dk_DevicePaths disks) start
                else State_Monad.return start);
       set_metric (SetLVProvisionedPVMetric (e_nodename E) storageClass totalPVs)
     }) (dc_Disks diskConfig)"

fun specDevicesOf :: "env \<Rightarrow> block_device list \<Rightarrow> string list \<Rightarrow> block_device list prog" where
  "specDevicesOf E allBlockDevices [] = State_Monad.return []"
| "specDevicesOf E allBlockDevices (devicePath # devicePaths) = do {
     r \<leftarrow> resolveValidDeviceLocation E devicePath False allBlockDevices;
     ds \<leftarrow> specDevicesOf E allBlockDevices devicePaths;
     State_Monad.return (case r of Inr (Some loc) \<Rightarrow> dl_BlockDevice loc # ds | _ \<Rightarrow> ds)
   }"

definition updateOrphanedSymlinkMetrics :: "env \<Rightarrow> string \<Rightarrow> block_device list \<Rightarrow> disk_config \<Rightarrow> unit prog" where
  "updateOrphanedSymlinkMetrics E symlinkLocation allBlockDevices diskConfig =
     for_each (\<lambda>(storageClass, disks). do {
       specDevices \<leftarrow> specDevicesOf E allBlockDevices (dk_DevicePaths disks);
       (orphans, _) \<leftarrow> host_query E (\<lambda>h. GetOrphanedSymlinks h (path_join [symlinkLocation, storageClass]) specDevices);
       set_metric (SetLVOrphanedSymlinksMetric (e_nodename E) storageClass (int (length orphans)))
     }) (dc_Disks diskConfig)"

fun countMissing :: "env \<Rightarrow> string list \<Rightarrow> int prog" where
  "countMissing E [] = State_Monad.return 0"
| "countMissing E (devicePath # devicePaths) = do {
     r \<leftarrow> evalSymlink E devicePath;
     n \<leftarrow> countMissing E devicePaths;
     State_Monad.return (case r of Inl _ \<Rightarrow> n + 1 | Inr _ \<Rightarrow> n)
   }"

definition updateMissingDevicePathMetrics :: "env \<Rightarrow> disk_config \<Rightarrow> unit prog" where
  "updateMissingDevicePathMetrics E diskConfig =
     for_each (\<lambda>(storageClass, disks). do {
       missing \<leftarrow> countMissing E (dk_DevicePaths disks);
       set_metric (SetLVMissingDevicePathMetric (e_nodename E) storageClass missing)
     }) (dc_Disks diskConfig)"

text \<open>One rejected device path: whether it counts as a PV in use.\<close>

definition lv_processRejectedPath :: "env \<Rightarrow> local_volume \<Rightarrow> string \<Rightarrow> string \<Rightarrow> block_device list \<Rightarrow> string \<Rightarrow> bool prog" where
  "lv_processRejectedPath E lv symlinkLocation storageClassName rejectedDevices devicePath = do {
     d \<leftarrow> evalSymlink E devicePath;
     (case d of
        Inl e \<Rightarrow> State_Monad.return False
      | Inr diskDevPath \<Rightarrow>
          (case hasExactDisk rejectedDevices (base diskDevPath) of
             None \<Rightarrow> State_Monad.return False
           | Some blockDevice \<Rightarrow> do {
               ex \<leftarrow> HasExistingLocalVolumes E (path_join [symlinkLocation, storageClassName]) blockDevice;
               (case ex of
                  Inl e \<Rightarrow> do {
                    _ \<leftarrow> lv_refreshNotPreferred E blockDevice e;
                    State_Monad.return False
                  }
                | Inr symlinkPath \<Rightarrow>
                    if symlinkPath = '''' then State_Monad.return False
                    else do {
                      rc \<leftarrow> gets w_rc;
                      let lvdlName = GeneratePVName (base symlinkPath) (n_Name (rc_Node rc)) storageClassName;
                      l \<leftarrow> FindLVDL E lvdlName (rc_Namespace rc);
                      let lvdl = (case l of Inl _ \<Rightarrow> None | Inr x \<Rightarrow> Some x);
                      mismatch \<leftarrow> host_query E (\<lambda>h. HasMismatchingSymlink h lvdl blockDevice);
                      lvdlError \<leftarrow>
                        (if mismatch then do {
                           (_, err) \<leftarrow> RecreateSymlinkIfNeeded E (the lvdl) symlinkPath blockDevice;
                           State_Monad.return err
                         }
                         else do {
                           cur \<leftarrow> host_query E (\<lambda>h. Readlink h symlinkPath);
                           (case cur of
                              Inl e \<Rightarrow> State_Monad.return None
                            | Inr currentLinkTarget \<Rightarrow> do {
                                (_, err) \<leftarrow> ApplyStatus E (e_nodename E) lvdlName (rc_Namespace rc) blockDevice (Some (OwnerLV lv)) currentLinkTarget symlinkPath;
                                State_Monad.return err
                              })
                         });
                      _ \<leftarrow> (case lvdlError of
                              None \<Rightarrow> State_Monad.return ()
                            | Some e \<Rightarrow> lv_event E lv ''FailedLVDLProcessing'' (''failed to process lvdl '' @ err_text e) (bd_KName blockDevice) ''Warning'');
                      State_Monad.return True
                    })
             }))
   }"

fun rejectedPathLoop :: "env \<Rightarrow> local_volume \<Rightarrow> string \<Rightarrow> string \<Rightarrow> block_device list \<Rightarrow> string list \<Rightarrow> int prog" where
  "rejectedPathLoop E lv symlinkLocation storageClassName rejectedDevices [] = State_Monad.return 0"
| "rejectedPathLoop E lv symlinkLocation storageClassName rejectedDevices (devicePath # devicePaths) = do {
     b \<leftarrow> lv_processRejectedPath E lv symlinkLocation storageClassName rejectedDevices devicePath;
     n \<leftarrow> rejectedPathLoop E lv symlinkLocation storageClassName rejectedDevices devicePaths;
     State_Monad.return (if b then n + 1 else n)
   }"

fun lv_processRejectedDevicesForDeviceLinks ::
  "env \<Rightarrow> local_volume \<Rightarrow> string \<Rightarrow> block_device list \<Rightarrow> (string \<times> disks) list \<Rightarrow> (string \<times> int) list prog" where
  "lv_processRejectedDevicesForDeviceLinks E lv symlinkLocation rejectedDevices [] = State_Monad.return []"
| "lv_processRejectedDevicesForDeviceLinks E lv symlinkLocation rejectedDevices ((storageClassName, disks) # rest) = do {
     n \<leftarrow> rejectedPathLoop E lv symlinkLocation storageClassName rejectedDevices (dk_DevicePaths disks);
     m \<leftarrow> lv_processRejectedDevicesForDeviceLinks E lv symlinkLocation rejectedDevices rest;
     State_Monad.return (if n = 0 then m else (storageClassName, n) # m)
   }"

section \<open>Reconcile\<close>

definition lv_ownerLabels :: "local_volume \<Rightarrow> smap" where
  "lv_ownerLabels lv =
     [(PVOwnerKindLabel, LocalVolumeKind), (PVOwnerNamespaceLabel, lv_Namespace lv), (PVOwnerNameLabel, lv_Name lv)]"

text \<open>The loop that sorts out the devices in use: ignored and valid ones.\<close>

fun splitDevices :: "env \<Rightarrow> block_device list \<Rightarrow> (block_device list \<times> block_device list) prog" where
  "splitDevices E [] = State_Monad.return ([], [])"
| "splitDevices E (b # bs) = do {
     ign \<leftarrow> host_query E (\<lambda>h. ignoreDevices h b);
     (ignored, valid) \<leftarrow> splitDevices E bs;
     State_Monad.return (if ign then (b # ignored, valid) else (ignored, b # valid))
   }"

definition requeue_time :: "int prog" where
  "requeue_time = gets (\<lambda>w. if w_fastRequeue w then fastRequeueTime else defaultRequeueTime)"

definition lv_devices :: "env \<Rightarrow> local_volume \<Rightarrow> string \<Rightarrow> disk_config \<Rightarrow> block_device list \<Rightarrow> outcome prog" where
  "lv_devices E lv symlinkLocation diskConfig blockDevices = do {
     (ignoredDevices, validBlockDevices) \<leftarrow> splitDevices E blockDevices;
     inUsePVCount \<leftarrow> (if ignoredDevices \<noteq> []
                       then lv_processRejectedDevicesForDeviceLinks E lv symlinkLocation ignoredDevices (dc_Disks diskConfig)
                       else State_Monad.return []);
     _ \<leftarrow> updateMissingDevicePathMetrics E diskConfig;
     mm \<leftarrow> GenerateMountMap E;
     (case mm of
        Inl e \<Rightarrow> stop_with e
      | Inr mountPointMap \<Rightarrow> do {
          _ \<leftarrow> processValidDevices E lv symlinkLocation validBlockDevices diskConfig mountPointMap inUsePVCount;
          _ \<leftarrow> updateOrphanedSymlinkMetrics E symlinkLocation blockDevices diskConfig;
          t \<leftarrow> requeue_time;
          done_after t
        })
   }"

definition lv_provision :: "env \<Rightarrow> string \<Rightarrow> local_volume \<Rightarrow> outcome prog" where
  "lv_provision E symlinkLocation lv = do {
     err \<leftarrow> do_mkdirall E symlinkLocation;
     (case err of
        Some e \<Rightarrow> stop_with e
      | None \<Rightarrow> do {
          let diskConfig = generateConfig lv;
          out \<leftarrow> query E (\<lambda>t w. e_cmd E t ''lsblk'' [''--all'', ''--noheadings'', ''--pairs'', ''--output'', ''KNAME,PKNAME,TYPE,MOUNTPOINT'']);
          (case snd out of
             Some e \<Rightarrow> do {
               _ \<leftarrow> lv_event E lv ''ErrorRunningBlockList'' (''error running lsblk: '' @ err_text e) '''' ''Warning'';
               stop_with e
             }
           | None \<Rightarrow> do {
               let devices = concat (map (\<lambda>(_, d). dk_DevicePaths d) (dc_Disks diskConfig));
               listed \<leftarrow> host_query E (\<lambda>h. ListBlockDevices h devices);
               (case listed of
                  (_, Some e) \<Rightarrow> do {
                    _ \<leftarrow> lv_event E lv ''ErrorRunningBlockList'' (''failed to list block devices: '' @ err_text e) '''' ''Warning'';
                    stop_with e
                  }
                | ((blockDevices, badRows), None) \<Rightarrow> do {
                    _ \<leftarrow> (if badRows \<noteq> [] then lv_event E lv ''ErrorRunningBlockList'' ''error parsing rows'' '''' ''Warning''
                          else State_Monad.return ());
                    lv_devices E lv symlinkLocation diskConfig blockDevices
                  })
             })
        })
   }"

definition lv_cleanup_and_provision :: "env \<Rightarrow> string \<Rightarrow> local_volume \<Rightarrow> outcome prog" where
  "lv_cleanup_and_provision E symlinkLocation lv = do {
     _ \<leftarrow> delete_pvs E;
     cl \<leftarrow> CleanupSymlinks E (lv_ownerLabels lv) (Some (om_DeletionTimestamp (lv_meta lv) \<noteq> None));
     (case cl of
        Some e \<Rightarrow> do {
          _ \<leftarrow> lv_event E lv ''ErrorRemovingSymLink'' (''failed to cleanup symlinks: '' @ err_text e) '''' ''Warning'';
          stop_with e
        }
      | None \<Rightarrow>
          (case om_DeletionTimestamp (lv_meta lv) of
             Some ts \<Rightarrow> do {
               pvs \<leftarrow> gets w_pvs;
               _ \<leftarrow> (if OwnerHasReleasedPVs pvs (lv_ownerLabels lv) then modify (\<lambda>w. w\<lparr>w_fastRequeue := True\<rparr>) else State_Monad.return ());
               t \<leftarrow> requeue_time;
               done_after t
             }
           | None \<Rightarrow> lv_provision E symlinkLocation lv))
   }"

definition lv_Reconcile :: "env \<Rightarrow> string \<Rightarrow> namespaced_name \<Rightarrow> outcome prog" where
  "lv_Reconcile E symlinkLocation request = do {
     _ \<leftarrow> modify (\<lambda>w. w\<lparr>w_fastRequeue := False\<rparr>);
     g \<leftarrow> get_lv E request;
     (case g of
        Inl e \<Rightarrow> if IsNotFound e then State_Monad.return (no_requeue, None) else stop_with e
      | Inr lv \<Rightarrow> do {
          l \<leftarrow> gets w_links;
          (if \<not> IsSynced l then State_Monad.return (\<lparr>rq_Requeue = False, rq_After = fastRequeueTime\<rparr>, None)
           else do {
             err \<leftarrow> ReloadRuntimeConfig E (fst request);
             (case err of
                Some e \<Rightarrow> stop_with e
              | None \<Rightarrow> do {
                  synced \<leftarrow> gets w_cacheSynced;
                  serr \<leftarrow> (if synced then State_Monad.return None else syncCaches E IsLocalVolumePV);
                  (case serr of
                     Some e \<Rightarrow> stop_with e
                   | None \<Rightarrow> do {
                       rc \<leftarrow> gets w_rc;
                       (case NodeSelectorMatchesNodeLabels E (rc_Node rc) (lv_NodeSelector lv) of
                          Inl e \<Rightarrow> stop_with e
                        | Inr matches \<Rightarrow>
                            if \<not> matches then State_Monad.return (no_requeue, None)
                            else lv_cleanup_and_provision E symlinkLocation lv)
                     })
                })
           })
        })
   }"


section \<open>Wiping and linking\<close>

lemma log_fail_event: "(\<And>o1 t r m. P (Event o1 t r m)) \<Longrightarrow> always (log_ext P) (fail_event E lv reason msg disk)"
  unfolding fail_event_def by (intro controller_log)

lemma log_evalSymlink [simp, intro]: "always (log_ext P) (evalSymlink E p)" "always (log_ext P) (fileExists E p)"
  "always (log_ext P) (findDeviceByID E p)" "always (log_ext P) (resolveValidDeviceLocation E p fw ds)"
  unfolding resolveValidDeviceLocation_def findDeviceByID_def evalSymlink_def fileExists_def by (intro log.rules log_queries)+

lemma log_wipeAndLink:
  assumes "\<And>o1 t r m. P (Event o1 t r m)" "\<And>e. dl_ForceWipe loc \<Longrightarrow> P (FsOp (OpWipe src) e)" "\<And>e. P (FsOp (OpSymlink src tgt) e)"
  shows "always (log_ext P) (lv_wipeAndLink E lv loc src tgt idE)"
  unfolding lv_wipeAndLink_def lv_link_def by (intro controller_log log_fsops log_fail_event assms)

lemma log_lv_linkLocked:
  assumes "\<And>o1 t r m. P (Event o1 t r m)"
    and "\<And>e. P (FsOp (OpMkdirAll (dir tgt)) e)"
    and "\<And>e. dl_ForceWipe loc \<Longrightarrow> locked \<Longrightarrow> links = [] \<Longrightarrow> lerr = None \<Longrightarrow> P (FsOp (OpWipe src) e)"
    and "\<And>e. locked \<Longrightarrow> links = [] \<Longrightarrow> lerr = None \<Longrightarrow> P (FsOp (OpSymlink src tgt) e)"
  shows "always (log_ext P) (lv_linkLocked E lv loc src tgt idE locked links lerr)"
  unfolding lv_linkLocked_def
  by (intro controller_log log_fsops log_fail_event log_evalSymlink log_wipeAndLink assms) auto

lemma log_createSymlink_lv:
  assumes "\<And>b. keeps_data b \<Longrightarrow> P b" and "\<And>e. dl_ForceWipe loc \<Longrightarrow> P (FsOp (OpWipe src) e)"
  shows "always (log_ext P) (createSymlink E lv sl loc src tgt idE)"
  unfolding createSymlink_def
  by (intro controller_log log_evalSymlink log_lv_linkLocked assms) simp_all

text \<open>When a wipe was asked for, the link is only attempted after a wipe that succeeded.\<close>

lemma wipe_first:
  "wp (lv_wipeAndLink E lv loc src tgt idE)
     (\<lambda>r w'. dl_ForceWipe loc \<and> newly w w' (FsOp (OpSymlink a b) e) \<longrightarrow> newly w w' (FsOp (OpWipe src) None)) w"
proof (cases "dl_ForceWipe loc")
  case True
  obtain e1 w1 where wipe: "run_state (do_wipe E src) w = (e1, w1)" by fastforce
  have new: "newly w w1 (FsOp (OpWipe src) e1)"
    using wipe by (auto simp: do_wipe_def Let_def intro: newlyI1)
  have one: "wp (do_wipe E src) Q w \<longleftrightarrow> Q e1 w1" for Q by (simp add: wp_def wipe)
  let ?T = "\<lambda>_ :: action. True"
  have link: "always (log_ext ?T) (lv_link E lv loc src tgt idE)"
    unfolding lv_link_def by (intro controller_log log_fsops log_fail_event; simp)
  have ok: "wp (lv_link E lv loc src tgt idE) (\<lambda>r w'. newly w w' (FsOp (OpWipe src) None)) w1" if "e1 = None"
    by (rule wp_mono [OF always_wp [OF link]]) (use new that newly_later in blast)
  have fail: "wp (fail_event E lv r1 m1 src) (\<lambda>r w'. \<not> newly w w' (FsOp (OpSymlink a b) e)) w1" for r1 m1
  proof -
    let ?E = "\<lambda>b. \<forall>s t e. b \<noteq> FsOp (OpSymlink s t) e"
    have "log_ext ?E w w1" by (rule always_run [OF log_fsops(5) wipe]) simp
    from log.wp_last [OF this log_fail_event] show ?thesis
      by (rule wp_mono) (auto dest: newly_permitted)
  qed
  show ?thesis
    unfolding lv_wipeAndLink_def using True ok fail
    by (cases e1) (auto simp: wp_bind [of "do_wipe E src"] one intro: wp_mono [OF ok] wp_mono [OF fail])
qed (simp add: wp_def split: prod.split)



definition demo_location :: disk_location where
  "demo_location = \<lparr>dl_DiskNamePath = ''/dev/sda'', dl_UserProvidedPath = ''/dev/sda'', dl_DiskID = ''/dev/disk/by-id/wwn-1'',
     dl_BlockDevice = demo_device, dl_ForceWipe = True, dl_SymlinkPath = '''', dl_SymlinkSource = ''''\<rparr>"

definition bare_world :: world where
  "bare_world = demo_world\<lparr>w_fs := AList.delete [''mnt'', ''local-storage'', ''sc'', ''wwn-1''] demo_fs\<rparr>"

abbreviation demo_link_run :: "bool \<times> world" where
  "demo_link_run \<equiv> run_state (createSymlink demo_env demo_lv ''/mnt/local-storage'' demo_location
     ''/dev/disk/by-id/wwn-1'' ''/mnt/local-storage/sc/wwn-1'' True) bare_world"


text \<open>
  Order of wiping and linking: when a wipe was asked for, no link is even attempted unless
  \<^verbatim>\<open>wipefs\<close> has succeeded on the source in the same run.
\<close>

theorem lv_wipe_before_link:
  assumes "run_state (lv_wipeAndLink E lv loc src tgt idExists) w = (r, w')" and "dl_ForceWipe loc"
    and "newly w w' (FsOp (OpSymlink a b) e)"
  shows "newly w w' (FsOp (OpWipe src) None)"
  using wp_runD [OF wipe_first assms(1)] assms(2,3) by blast

theorem lv_wipe_before_link_witness:
  "\<exists>r w'. run_state (lv_wipeAndLink demo_env demo_lv demo_location ''/dev/disk/by-id/wwn-1'' ''/mnt/local-storage/sc/wwn-1'' True) bare_world = (r, w')
     \<and> FsOp (OpWipe ''/dev/disk/by-id/wwn-1'') None \<in> set (w_log w')"
proof -
  let ?m = "lv_wipeAndLink demo_env demo_lv demo_location ''/dev/disk/by-id/wwn-1'' ''/mnt/local-storage/sc/wwn-1'' True"
  obtain r w' where run: "run_state ?m bare_world = (r, w')" by fastforce
  have f: "dl_ForceWipe demo_location" by (simp add: demo_location_def)
  have "FsOp (OpSymlink ''/dev/disk/by-id/wwn-1'' ''/mnt/local-storage/sc/wwn-1'') None \<in> set (w_log (snd (run_state ?m bare_world)))"
    by code_simp
  then have "newly bare_world w' (FsOp (OpSymlink ''/dev/disk/by-id/wwn-1'' ''/mnt/local-storage/sc/wwn-1'') None)"
    using run by (auto simp: newly_def bare_world_def demo_world_def dest: split_list)
  from newly_mem [OF lv_wipe_before_link [OF run f this]] run show ?thesis by blast
qed


section \<open>The effects of a reconcile\<close>

text \<open>A path may be wiped when it is a listed path of a storage class with consent, or the by-id path found for the
  device such a path resolves to.\<close>

definition listed_device :: "env \<Rightarrow> string \<Rightarrow> block_device \<Rightarrow> bool" where
  "listed_device E devicePath dev \<longleftrightarrow> (\<exists>t v d. FilePathEvalSymLinks (host_at E t v) devicePath = Inr d \<and> bd_KName dev = base d)"

definition wipe_target :: "env \<Rightarrow> string \<Rightarrow> string \<Rightarrow> bool" where
  "wipe_target E devicePath p \<longleftrightarrow> p = devicePath
     \<or> (\<exists>dev t v. listed_device E devicePath dev \<and> fst (GetUncachedPathID (host_at E t v) dev) = Inr p)"

definition may_wipe :: "env \<Rightarrow> (string \<times> disks) list \<Rightarrow> string \<Rightarrow> bool" where
  "may_wipe E ds p \<longleftrightarrow> (\<exists>(sc, d) \<in> set ds. dk_ForceWipe d \<and> (\<exists>devicePath \<in> set (dk_DevicePaths d). wipe_target E devicePath p))"

definition lv_allowed :: "env \<Rightarrow> (string \<times> disks) list \<Rightarrow> action \<Rightarrow> bool" where
  "lv_allowed E ds b \<longleftrightarrow> keeps_data b \<or> (\<exists>p e. b = FsOp (OpWipe p) e \<and> may_wipe E ds p)"

lemma lv_allowed_keeps [simp]: "keeps_data b \<Longrightarrow> lv_allowed E ds b"
  by (simp add: lv_allowed_def)

definition loc_ok :: "env \<Rightarrow> string \<Rightarrow> bool \<Rightarrow> disk_location \<Rightarrow> bool" where
  "loc_ok E devicePath forceWipe loc \<longleftrightarrow> dl_UserProvidedPath loc = devicePath \<and> dl_ForceWipe loc = forceWipe
     \<and> listed_device E devicePath (dl_BlockDevice loc) \<and> (dl_DiskID loc = '''' \<or> wipe_target E devicePath (dl_DiskID loc))"

lemma resolve_loc_ok:
  "wp (resolveValidDeviceLocation E devicePath forceWipe ds) (\<lambda>r w'. \<forall>loc. r = Inr (Some loc) \<longrightarrow> loc_ok E devicePath forceWipe loc) w"
proof -
  have find: "hasExactDisk ds n = Some b \<Longrightarrow> bd_KName b = n" for b n
    by (auto simp: hasExactDisk_def dest: find_Some_D)
  show ?thesis
    unfolding resolveValidDeviceLocation_def findDeviceByID_def evalSymlink_def host_query_def
    by (auto simp: wp_simps loc_ok_def wipe_target_def listed_device_def dest!: find split: sum.splits option.splits)
qed

lemma log_lv_sync: "always (log_ext keeps_data) (lv_syncPVAndLVDL E lv sc loc mm)"
  unfolding lv_syncPVAndLVDL_def
  by (intro controller_log log_Sync_within [OF keeps_data_sync])

lemma log_processExisting: "always (log_ext keeps_data) (processExistingSymlink E lv sc p loc mm)"
  unfolding processExistingSymlink_def by (intro controller_log log_lv_sync)

lemma log_lv_refresh: "always (log_ext keeps_data) (lv_refreshNotPreferred E dev e)"
  unfolding lv_refreshNotPreferred_def by (intro controller_log log_refresh)

lemma log_lv_processNew:
  assumes P: "\<And>b. keeps_data b \<Longrightarrow> P b" and w: "\<And>p e. dl_ForceWipe loc \<Longrightarrow> p = dl_DiskID loc \<and> dl_DiskID loc \<noteq> '''' \<or> p = dl_UserProvidedPath loc \<and> dl_DiskID loc = '''' \<Longrightarrow> P (FsOp (OpWipe p) e)"
  shows "always (log_ext P) (lv_processNewSymlink E lv sl sc loc mm)"
proof -
  have src: "fst (getSymlinkSourceAndTarget loc d) = dl_DiskID loc \<and> dl_DiskID loc \<noteq> ''''
      \<or> fst (getSymlinkSourceAndTarget loc d) = dl_UserProvidedPath loc \<and> dl_DiskID loc = ''''" for d
    by (simp add: getSymlinkSourceAndTarget_def)
  have create: "always (log_ext P) (createSymlink E lv sl (loc\<lparr>dl_SymlinkSource := s, dl_SymlinkPath := t\<rparr>) s t i)"
    if "getSymlinkSourceAndTarget loc d = (s, t, i)" for d s t i
    by (rule log_createSymlink_lv [OF P]) (use src [of d] that w in auto)
  note within = always_log_mono [OF log_processExisting P] always_log_mono [OF log_lv_sync P] always_log_mono [OF log_lv_refresh P]
  show ?thesis
    unfolding lv_processNewSymlink_def Let_def
    apply (rule log.prod_case)+
    apply (intro log.bind log.pure_get log_queries log.prod_case log.option_case log.ret)
    apply (split bool.split, intro conjI impI; intro controller_log within create; (assumption | simp))
    done
qed

lemma log_reportErrors [intro]:
  "always (log_ext keeps_data) (reportDeviceResolutionError E lv p e)"
  "always (log_ext keeps_data) (reportSymlinkLookupError E lv d p e)"
  "always (log_ext keeps_data) (reportProvisioningError E lv p e)"
  "always (log_ext keeps_data) (logDeviceError E lv p)"
  unfolding reportDeviceResolutionError_def reportSymlinkLookupError_def reportProvisioningError_def logDeviceError_def
  by (intro controller_log log_modify log_evalSymlink; simp)+


lemma log_provisionValid:
  assumes ok: "loc_ok E devicePath fw loc" and P: "\<And>b. keeps_data b \<Longrightarrow> P b"
    and w: "\<And>p e. fw \<Longrightarrow> wipe_target E devicePath p \<Longrightarrow> P (FsOp (OpWipe p) e)"
  shows "always (log_ext P) (provisionValidDevice E lv sl sc devicePath loc mm)"
proof -
  let ?id = "\<lambda>(r, dev). case r of Inr i \<Rightarrow> loc\<lparr>dl_BlockDevice := dev, dl_DiskID := i\<rparr> | Inl e \<Rightarrow> loc\<lparr>dl_BlockDevice := dev\<rparr>"
  have loc1: "wp (if dl_DiskID loc = '''' then do {
        (r, dev) \<leftarrow> host_query E (\<lambda>h. GetUncachedPathID h (dl_BlockDevice loc));
        State_Monad.return (case r of
            Inr matchedDeviceID \<Rightarrow> loc\<lparr>dl_BlockDevice := dev, dl_DiskID := matchedDeviceID\<rparr>
          | Inl e \<Rightarrow> loc\<lparr>dl_BlockDevice := dev\<rparr>)
      } else State_Monad.return loc)
      (\<lambda>l w'. dl_ForceWipe l = fw \<and> dl_UserProvidedPath l = devicePath \<and> (dl_DiskID l = '''' \<or> wipe_target E devicePath (dl_DiskID l))) v" for v
    using ok unfolding host_query_def loc_ok_def wipe_target_def
    by (auto simp: wp_simps split: sum.splits prod.splits) (metis fst_conv)+
  note within = always_log_mono [OF log_processExisting P] always_log_mono [OF log_reportErrors(2) P] always_log_mono [OF log_reportErrors(3) P]
  have new: "always (log_ext P) (do {
      (provisioned, err) \<leftarrow> lv_processNewSymlink E lv sl sc l mm;
      (case err of
         Some e \<Rightarrow> do { _ \<leftarrow> reportProvisioningError E lv devicePath e; State_Monad.return False }
       | None \<Rightarrow> State_Monad.return provisioned) })"
    if "dl_ForceWipe l = fw \<and> dl_UserProvidedPath l = devicePath \<and> (dl_DiskID l = '''' \<or> wipe_target E devicePath (dl_DiskID l))" for l
  proof -
    have pn: "always (log_ext P) (lv_processNewSymlink E lv sl sc l mm)"
    proof (rule log_lv_processNew [OF P])
      fix p e
      assume "dl_ForceWipe l" "p = dl_DiskID l \<and> dl_DiskID l \<noteq> '''' \<or> p = dl_UserProvidedPath l \<and> dl_DiskID l = ''''"
      then show "P (FsOp (OpWipe p) e)" using that w [of p e] by (auto simp: wipe_target_def)
    qed
    show ?thesis by (intro log.rules pn within; assumption)
  qed
  show ?thesis
    unfolding provisionValidDevice_def Let_def
    apply (rule log.bind, rule log_queries)
    apply (rule log.sum_case)
     apply (intro log.rules within, assumption)
    apply (rule log.cond)
     apply (intro log.rules within; assumption)
    apply (rule log_after [OF _ loc1])
     apply (intro log.rules log_queries)
    apply (rule new, assumption)
    done
qed


lemma log_validPathLoop:
  assumes P: "\<And>b. keeps_data b \<Longrightarrow> P b"
    and w: "\<And>p e path. fw \<Longrightarrow> path \<in> set paths \<Longrightarrow> wipe_target E path p \<Longrightarrow> P (FsOp (OpWipe p) e)"
  shows "always (log_ext P) (validPathLoop E lv sl sc fw ds mm paths n)"
  using w
proof (induction paths arbitrary: n)
  case (Cons path paths)
  note within = always_log_mono [OF log_reportErrors(1) P] always_log_mono [OF log_reportErrors(4) P]
  have rest: "always (log_ext P) (validPathLoop E lv sl sc fw ds mm paths n)" for n
    by (rule Cons.IH) (use Cons.prems in auto)
  have dev: "always (log_ext P) (provisionValidDevice E lv sl sc path loc mm)" if "loc_ok E path fw loc" for loc
    by (rule log_provisionValid [OF that P]) (use Cons.prems in auto)
  show ?case
    unfolding validPathLoop.simps
    apply (rule log_after [OF log_evalSymlink(4) resolve_loc_ok])
    apply (intro log.bind rest log.sum_case log.option_case log.ret within dev)
    apply (assumption | simp)+
    done
qed (simp add: log.ret)

lemma log_specDevices: "always (log_ext P) (specDevicesOf E ds ps)"
  by (induction ps) (auto intro!: log.rules)

lemma log_countMissing: "always (log_ext P) (countMissing E ps)"
  by (induction ps) (auto intro!: log.rules)

lemma log_splitDevices: "always (log_ext P) (splitDevices E ds)"
  by (induction ds) (auto intro!: log.rules)

lemma log_rejectedPath: "always (log_ext keeps_data) (lv_processRejectedPath E lv sl sc ds p)"
  unfolding lv_processRejectedPath_def FindLVDL_def
  by (intro controller_log log_evalSymlink log_lv_refresh log_Recreate_keeps log_ApplyStatus_keeps; simp)

lemma log_rejectedPaths: "always (log_ext keeps_data) (rejectedPathLoop E lv sl sc ds ps)"
  by (induction ps) (auto intro!: log.rules log_rejectedPath)

lemma log_rejectedDevices: "always (log_ext keeps_data) (lv_processRejectedDevicesForDeviceLinks E lv sl ds cs)"
  by (induction cs rule: lv_processRejectedDevicesForDeviceLinks.induct) (auto intro!: log.rules log_rejectedPaths)

lemma log_lv_devices: "always (log_ext (lv_allowed E (dc_Disks dc))) (lv_devices E lv sl dc bs)"
proof -
  let ?P = "lv_allowed E (dc_Disks dc)"
  have valid: "always (log_ext ?P) (validPathLoop E lv sl sc (dk_ForceWipe d) ds mm (dk_DevicePaths d) n)"
    if "(sc, d) \<in> set (dc_Disks dc)" for sc d ds mm n
    by (rule log_validPathLoop) (use that in \<open>auto simp: lv_allowed_def may_wipe_def\<close>)
  have metric: "?P (Metric m)" for m by simp
  show ?thesis
    unfolding lv_devices_def updateMissingDevicePathMetrics_def processValidDevices_def updateOrphanedSymlinkMetrics_def requeue_time_def
    by (intro controller_log log_splitDevices always_log_mono [OF log_rejectedDevices lv_allowed_keeps] log_countMissing
        log_specDevices valid metric) simp_all
qed

lemma generateConfig_disks:
  assumes "(sc, d) \<in> set (dc_Disks (generateConfig lv))"
  shows "\<exists>scd \<in> set (lv_StorageClassDevices lv). scd_StorageClassName scd = sc
    \<and> d = \<lparr>dk_DevicePaths = scd_DevicePaths scd, dk_ForceWipe = scd_ForceWipe scd\<rparr>"
proof -
  let ?f = "\<lambda>scd m. AList.update (scd_StorageClassName scd) \<lparr>dk_DevicePaths = scd_DevicePaths scd, dk_ForceWipe = scd_ForceWipe scd\<rparr> m"
  have "\<forall>p \<in> set (fold ?f (lv_StorageClassDevices lv) []). \<exists>scd \<in> set (lv_StorageClassDevices lv). scd_StorageClassName scd = fst p
      \<and> snd p = \<lparr>dk_DevicePaths = scd_DevicePaths scd, dk_ForceWipe = scd_ForceWipe scd\<rparr>"
    by (rule fold_invariant_set) (auto dest!: set_update_cases)
  from bspec [OF this, of "(sc, d)"] assms show ?thesis by (simp add: generateConfig_def)
qed


text \<open>What a reconcile may do, by the state of its object.\<close>

definition lv_effects :: "env \<Rightarrow> local_volume \<Rightarrow> action \<Rightarrow> bool" where
  "lv_effects E lv b \<longleftrightarrow>
     (if om_DeletionTimestamp (lv_meta lv) = None
      then keeps_data b \<or> (\<exists>p e scd. b = FsOp (OpWipe p) e \<and> scd \<in> set (lv_StorageClassDevices lv) \<and> scd_ForceWipe scd
             \<and> (\<exists>path \<in> set (scd_DevicePaths scd). wipe_target E path p))
      else bookkeeping b \<or> cleanup_action (lv_ownerLabels lv) True b)"

lemma lv_effects_allowed:
  assumes "om_DeletionTimestamp (lv_meta lv) = None" "lv_allowed E (dc_Disks (generateConfig lv)) b"
  shows "lv_effects E lv b"
  using assms generateConfig_disks [of _ _ lv] by (fastforce simp: lv_effects_def lv_allowed_def may_wipe_def)

lemma log_lv_cleanup_and_provision: "always (log_ext (lv_effects E lv)) (lv_cleanup_and_provision E sl lv)"
proof -
  let ?P = "lv_effects E lv"
  have book: "bookkeeping b \<Longrightarrow> ?P b" for b by (simp add: lv_effects_def)
  have clean: "cleanup_action (lv_ownerLabels lv) (om_DeletionTimestamp (lv_meta lv) \<noteq> None) b \<Longrightarrow> ?P b" for b
    by (cases "om_DeletionTimestamp (lv_meta lv)") (auto simp: lv_effects_def keeps_data_cleanup)
  have prov: "always (log_ext ?P) (lv_provision E sl lv)" if d: "om_DeletionTimestamp (lv_meta lv) = None"
  proof -
    have mk: "?P (FsOp (OpMkdirAll p) e)" for p e by (simp add: lv_effects_def d)
    have devs: "always (log_ext ?P) (lv_devices E lv sl (generateConfig lv) bs)" for bs
      by (rule always_log_mono [OF log_lv_devices lv_effects_allowed [OF d]])
    show ?thesis
      unfolding lv_provision_def Let_def by (intro controller_log log_fsops mk devs book bookkeeping_simps)
  qed
  show ?thesis
    unfolding lv_cleanup_and_provision_def requeue_time_def
    by (intro controller_log log_delete_pvs log_Cleanup_within clean prov log_modify book bookkeeping_simps; simp)
qed

text \<open>What the steps after the lookup may do, the whole reconcile may do.\<close>

lemma lv_Reconcile_log:
  assumes run: "\<And>lv. always (log_ext (P lv)) (lv_cleanup_and_provision E symlinkLocation lv)"
  shows "case e_get_lv E (w_clock w) request of
      Inl e \<Rightarrow> w_log (snd (run_state (lv_Reconcile E symlinkLocation request) w)) = w_log w
    | Inr lv \<Rightarrow> log_ext (P lv) w (snd (run_state (lv_Reconcile E symlinkLocation request) w))"
proof -
  let ?w = "w\<lparr>w_fastRequeue := False\<rparr>"
  have quiet: "log_ext P w (tick E ?w)" for P by (simp add: log_ext_def)
  have "wp (lv_Reconcile E symlinkLocation request) (\<lambda>r w'. case e_get_lv E (w_clock w) request of
      Inl e \<Rightarrow> w_log w' = w_log w | Inr lv \<Rightarrow> log_ext (P lv) w w') w"
  proof (cases "e_get_lv E (w_clock w) request")
    case (Inl e)
    then show ?thesis
      unfolding lv_Reconcile_def get_lv_def wp_bind wp_query wp_modify by (auto simp: wp_return stop_with_def)
  next
    case (Inr lv)
    have c: "w_clock ?w = w_clock w" by simp
    show ?thesis
      unfolding lv_Reconcile_def get_lv_def
      by (rule wp_bindI, unfold wp_modify, rule wp_bindI, unfold wp_query c Inr sum.case, rule log.wp_last [OF quiet],
          intro controller_log log_Reload log_syncCaches run)
  qed
  then show ?thesis by (simp add: wp_def case_prod_unfold)
qed


end
