(* ===== verification/Matcher.thy ===== *)
theory Matcher
  imports DiskUtil GlobMatch
begin

text \<open>
  Model of \<^verbatim>\<open>pkg/diskmaker/controllers/lvset/matcher.go\<close> and of \<^verbatim>\<open>matchesDeviceSpec\<close> in
  \<^verbatim>\<open>reconcile.go\<close>: the checks that decide whether a LocalVolumeSet may claim a device. The source keeps
  them in Go maps, whose iteration order is random: the tables are lists here, and the results are
  shown not to depend on their order. \<^verbatim>\<open>resource.ParseQuantity\<close> is a parameter \<open>pq\<close>. A check that
  returns an error counts as failed whatever its boolean result, so it returns \<open>bool result\<close>.
\<close>

section \<open>Filters on the device itself\<close>

definition negate_result :: "bool result \<Rightarrow> bool result" where
  "negate_result r = (case r of Inl e \<Rightarrow> Inl e | Inr b \<Rightarrow> Inr (\<not> b))"

definition notReadOnly :: "host \<Rightarrow> block_device \<Rightarrow> bool result" where
  "notReadOnly h dev = negate_result (GetReadOnly dev)"

definition notRemovable :: "host \<Rightarrow> block_device \<Rightarrow> bool result" where
  "notRemovable h dev = negate_result (GetRemovable dev)"

definition notSuspended :: "host \<Rightarrow> block_device \<Rightarrow> bool result" where
  "notSuspended h dev = Inr (bd_State dev \<noteq> StateSuspended)"

definition noBiosBootInPartLabel :: "host \<Rightarrow> block_device \<Rightarrow> bool result" where
  "noBiosBootInPartLabel h dev =
     (let biosBootInPartLabel = contains_str (to_lower (bd_PartLabel dev)) (to_lower ''bios'')
            \<or> contains_str (to_lower (bd_PartLabel dev)) (to_lower ''boot'')
      in Inr (\<not> biosBootInPartLabel))"

definition noFilesystemSignature :: "host \<Rightarrow> block_device \<Rightarrow> bool result" where
  "noFilesystemSignature h dev = Inr (bd_FSType dev = '''')"

definition noBindMounts :: "host \<Rightarrow> block_device \<Rightarrow> bool result" where
  "noBindMounts h dev = (case HasBindMounts h dev of Inl e \<Rightarrow> Inl e | Inr (b, _) \<Rightarrow> Inr (\<not> b))"

definition noChildren :: "host \<Rightarrow> block_device \<Rightarrow> bool result" where
  "noChildren h dev = negate_result (HasChildren h dev)"

definition canOpenExclusively :: "host \<Rightarrow> block_device \<Rightarrow> bool result" where
  "canOpenExclusively h dev =
     (case GetDevPath dev of
        (pathname, Some e) \<Rightarrow> Inl (Wrapf (''pathname: '' @ pathname @ '': '') e)
      | (pathname, None) \<Rightarrow>
          (case OpenExclusive h pathname of
             Inr fd \<Rightarrow> Inr True
           | Inl errno \<Rightarrow> if errno = EBUSY then Inr False else Inl (Wrapf (''pathname: '' @ pathname @ '': '') errno)))"

definition DefaultFilterMap :: "(string \<times> (host \<Rightarrow> block_device \<Rightarrow> bool result)) list" where
  "DefaultFilterMap =
     [(''notReadOnly'', notReadOnly), (''notRemovable'', notRemovable), (''notSuspended'', notSuspended),
      (''noBiosBootInPartLabel'', noBiosBootInPartLabel), (''noFilesystemSignature'', noFilesystemSignature),
      (''noBindMounts'', noBindMounts), (''noChildren'', noChildren), (''canOpenExclusively'', canOpenExclusively)]"

section \<open>Matchers on the inclusion spec\<close>

definition defaultMinSize :: int where
  "defaultMinSize = 1073741824"

definition inSizeRange :: "(string \<Rightarrow> int result) \<Rightarrow> block_device \<Rightarrow> device_inclusion_spec option \<Rightarrow> bool result" where
  "inSizeRange pq dev spec =
     (case spec of
        None \<Rightarrow> Inr True
      | Some sp \<Rightarrow>
          (case pq (bd_Size dev) of
             Inl e \<Rightarrow> Inl (Wrapf ''could not parse device size: '' e)
           | Inr quantity \<Rightarrow>
               let minSize = (case di_MinSize sp of None \<Rightarrow> defaultMinSize | Some m \<Rightarrow> m);
                   greaterThanOrEqualToMin = (minSize \<le> quantity);
                   lessThanOrEqualToMax = (case di_MaxSize sp of None \<Rightarrow> True | Some m \<Rightarrow> m \<ge> quantity)
               in Inr (greaterThanOrEqualToMin \<and> lessThanOrEqualToMax)))"

text \<open>The size check also writes the default minimum into the spec it was given.\<close>

definition inSizeRange_spec :: "(string \<Rightarrow> int result) \<Rightarrow> block_device \<Rightarrow> device_inclusion_spec option \<Rightarrow> device_inclusion_spec option" where
  "inSizeRange_spec pq dev spec =
     (case (spec, pq (bd_Size dev)) of
        (Some sp, Inr _) \<Rightarrow> Some (if di_MinSize sp = None then sp\<lparr>di_MinSize := Some defaultMinSize\<rparr> else sp)
      | _ \<Rightarrow> spec)"

definition RawDisk :: string where "RawDisk = ''disk''"

definition inTypeList :: "block_device \<Rightarrow> device_inclusion_spec option \<Rightarrow> bool result" where
  "inTypeList dev spec =
     (case spec of
        None \<Rightarrow> Inr (to_lower RawDisk = to_lower (bd_Type dev))
      | Some sp \<Rightarrow>
          if length (di_DeviceTypes sp) < 1 then Inr (to_lower RawDisk = to_lower (bd_Type dev))
          else Inr (list_ex (\<lambda>deviceType. to_lower deviceType = to_lower (bd_Type dev)) (di_DeviceTypes sp)))"

definition inMechanicalPropertyList :: "block_device \<Rightarrow> device_inclusion_spec option \<Rightarrow> bool result" where
  "inMechanicalPropertyList dev spec =
     (case spec of
        None \<Rightarrow> Inr True
      | Some sp \<Rightarrow>
          if di_DeviceMechanicalProperties sp = [] then Inr True
          else (case GetRotational dev of
                  Inl e \<Rightarrow> Inl e
                | Inr rotational \<Rightarrow>
                    Inr (list_ex (\<lambda>prop. prop = Rotational \<and> rotational \<or> prop = NonRotational \<and> \<not> rotational)
                           (di_DeviceMechanicalProperties sp))))"

definition inVendorList :: "block_device \<Rightarrow> device_inclusion_spec option \<Rightarrow> bool result" where
  "inVendorList dev spec =
     (case spec of
        None \<Rightarrow> Inr True
      | Some sp \<Rightarrow>
          if di_Vendors sp = [] then Inr True
          else Inr (list_ex (\<lambda>vendor. contains_str (to_lower (bd_Vendor dev)) (to_lower vendor)) (di_Vendors sp)))"

definition inModelList :: "block_device \<Rightarrow> device_inclusion_spec option \<Rightarrow> bool result" where
  "inModelList dev spec =
     (case spec of
        None \<Rightarrow> Inr True
      | Some sp \<Rightarrow>
          if di_Models sp = [] then Inr True
          else Inr (list_ex (\<lambda>model. contains_str (to_lower (bd_Model dev)) (to_lower model)) (di_Models sp)))"

definition matcherMap :: "(string \<Rightarrow> int result) \<Rightarrow> (string \<times> (block_device \<Rightarrow> device_inclusion_spec option \<Rightarrow> bool result)) list" where
  "matcherMap pq =
     [(''inSizeRange'', inSizeRange pq), (''inTypeList'', inTypeList),
      (''inMechanicalPropertyList'', inMechanicalPropertyList), (''inVendorList'', inVendorList),
      (''inModelList'', inModelList)]"

section \<open>The exclusion spec\<close>

fun nameFilterLoop :: "string list \<Rightarrow> string \<Rightarrow> bool result" where
  "nameFilterLoop [] kname = Inr True"
| "nameFilterLoop (pattern # patterns) kname =
     (case filepath_Match pattern kname of
        None \<Rightarrow> Inl (Errorf (''invalid device name filter pattern '' @ [quote] @ pattern @ [quote] @ '': syntax error in pattern''))
      | Some matched \<Rightarrow> if matched then Inr False else nameFilterLoop patterns kname)"

definition notInDeviceNameFilter :: "block_device \<Rightarrow> device_exclusion_spec option \<Rightarrow> bool result" where
  "notInDeviceNameFilter dev spec =
     (case spec of
        None \<Rightarrow> Inr True
      | Some sp \<Rightarrow> if de_DeviceNameFilter sp = [] then Inr True else nameFilterLoop (de_DeviceNameFilter sp) (bd_KName dev))"

definition exclusionMap :: "(string \<times> (block_device \<Rightarrow> device_exclusion_spec option \<Rightarrow> bool result)) list" where
  "exclusionMap = [(''notInDeviceNameFilter'', notInDeviceNameFilter)]"

section \<open>Running the checks\<close>

text \<open>A loop over a table: leave at the first error and at the first negative answer.\<close>

fun allPass :: "('a \<Rightarrow> bool result) list \<Rightarrow> 'a \<Rightarrow> bool" where
  "allPass [] x = True"
| "allPass (m # ms) x =
     (case m x of
        Inl e \<Rightarrow> False
      | Inr valid \<Rightarrow> if \<not> valid then False else allPass ms x)"

definition matchesDeviceSpec ::
  "(string \<Rightarrow> int result) \<Rightarrow> block_device \<Rightarrow> device_inclusion_spec option \<Rightarrow> device_exclusion_spec option \<Rightarrow> bool" where
  "matchesDeviceSpec pq blockDevice inclusionSpec exclusionSpec =
     (allPass (map (\<lambda>(name, matcher) spec. matcher blockDevice spec) (matcherMap pq)) inclusionSpec
      \<and> allPass (map (\<lambda>(name, excluder) spec. excluder blockDevice spec) exclusionMap) exclusionSpec)"

lemma allPass_iff: "allPass ms x \<longleftrightarrow> (\<forall>m \<in> set ms. m x = Inr True)"
  by (induction ms) (auto split: sum.splits)

text \<open>The order in which a table is walked does not matter.\<close>

lemma allPass_order: "set ms = set ns \<Longrightarrow> allPass ms = allPass ns"
  by (rule ext) (simp add: allPass_iff)

text \<open>The default that the size check writes into the spec changes no later answer.\<close>

lemma inSizeRange_spec_same:
  "inSizeRange pq dev' (inSizeRange_spec pq dev spec) = inSizeRange pq dev' spec"
  "inTypeList dev' (inSizeRange_spec pq dev spec) = inTypeList dev' spec"
  "inMechanicalPropertyList dev' (inSizeRange_spec pq dev spec) = inMechanicalPropertyList dev' spec"
  "inVendorList dev' (inSizeRange_spec pq dev spec) = inVendorList dev' spec"
  "inModelList dev' (inSizeRange_spec pq dev spec) = inModelList dev' spec"
  by (auto simp: inSizeRange_def inSizeRange_spec_def inTypeList_def inMechanicalPropertyList_def inVendorList_def
      inModelList_def split: option.splits sum.splits)

section \<open>What a spec selects\<close>

text \<open>The contract of the two specs, as the API documents them.\<close>

definition included :: "(string \<Rightarrow> int result) \<Rightarrow> block_device \<Rightarrow> device_inclusion_spec \<Rightarrow> bool" where
  "included pq dev sp \<longleftrightarrow>
     (\<exists>q. pq (bd_Size dev) = Inr q
        \<and> (case di_MinSize sp of None \<Rightarrow> 2 ^ 30 \<le> q | Some m \<Rightarrow> m \<le> q)
        \<and> (\<forall>m. di_MaxSize sp = Some m \<longrightarrow> q \<le> m))
     \<and> (\<exists>ty \<in> (if di_DeviceTypes sp = [] then {''disk''} else set (di_DeviceTypes sp)). to_lower ty = to_lower (bd_Type dev))
     \<and> (di_DeviceMechanicalProperties sp \<noteq> [] \<longrightarrow>
          (parseBitBool (bd_Rotational dev) = Inr True \<and> Rotational \<in> set (di_DeviceMechanicalProperties sp)
           \<or> parseBitBool (bd_Rotational dev) = Inr False \<and> NonRotational \<in> set (di_DeviceMechanicalProperties sp)))
     \<and> (di_Vendors sp \<noteq> [] \<longrightarrow> (\<exists>v \<in> set (di_Vendors sp). \<exists>a b. to_lower (bd_Vendor dev) = a @ to_lower v @ b))
     \<and> (di_Models sp \<noteq> [] \<longrightarrow> (\<exists>m \<in> set (di_Models sp). \<exists>a b. to_lower (bd_Model dev) = a @ to_lower m @ b))"

definition excluded :: "block_device \<Rightarrow> device_exclusion_spec \<Rightarrow> bool" where
  "excluded dev sp \<longleftrightarrow> (\<exists>p \<in> set (de_DeviceNameFilter sp). filepath_Match p (bd_KName dev) \<noteq> Some False)"

lemma nameFilterLoop_pass: "nameFilterLoop ps k = Inr True \<longleftrightarrow> (\<forall>p \<in> set ps. filepath_Match p k = Some False)"
  by (induction ps) (auto split: option.splits)

lemma rotational_cases: "GetRotational dev = Inr b \<longleftrightarrow> parseBitBool (bd_Rotational dev) = Inr b"
  by (auto simp: GetRotational_def wrap_err_def split: sum.splits)

lemma included_iff:
  "allPass (map (\<lambda>(name, matcher) spec. matcher dev spec) (matcherMap pq)) (Some sp) \<longleftrightarrow> included pq dev sp"
proof -
  have size: "inSizeRange pq dev (Some sp) = Inr True \<longleftrightarrow>
      (\<exists>q. pq (bd_Size dev) = Inr q \<and> (case di_MinSize sp of None \<Rightarrow> 2 ^ 30 \<le> q | Some m \<Rightarrow> m \<le> q)
        \<and> (\<forall>m. di_MaxSize sp = Some m \<longrightarrow> q \<le> m))"
    by (auto simp: inSizeRange_def Let_def defaultMinSize_def split: sum.splits option.splits)
  have type: "inTypeList dev (Some sp) = Inr True \<longleftrightarrow>
      (\<exists>ty \<in> (if di_DeviceTypes sp = [] then {''disk''} else set (di_DeviceTypes sp)). to_lower ty = to_lower (bd_Type dev))"
    by (auto simp: inTypeList_def RawDisk_def list_ex_iff)
  have mech: "inMechanicalPropertyList dev (Some sp) = Inr True \<longleftrightarrow>
      (di_DeviceMechanicalProperties sp \<noteq> [] \<longrightarrow>
          (parseBitBool (bd_Rotational dev) = Inr True \<and> Rotational \<in> set (di_DeviceMechanicalProperties sp)
           \<or> parseBitBool (bd_Rotational dev) = Inr False \<and> NonRotational \<in> set (di_DeviceMechanicalProperties sp)))"
    by (auto simp: inMechanicalPropertyList_def list_ex_iff rotational_cases [symmetric] split: sum.splits)
  have names: "inVendorList dev (Some sp) = Inr True \<longleftrightarrow>
      (di_Vendors sp \<noteq> [] \<longrightarrow> (\<exists>v \<in> set (di_Vendors sp). \<exists>a b. to_lower (bd_Vendor dev) = a @ to_lower v @ b))"
    "inModelList dev (Some sp) = Inr True \<longleftrightarrow>
      (di_Models sp \<noteq> [] \<longrightarrow> (\<exists>m \<in> set (di_Models sp). \<exists>a b. to_lower (bd_Model dev) = a @ to_lower m @ b))"
    by (simp_all add: inVendorList_def inModelList_def list_ex_iff contains_str_iff)
  show ?thesis
    unfolding allPass_iff matcherMap_def included_def size [symmetric] type [symmetric] mech [symmetric] names [symmetric]
    by simp
qed

text \<open>
  C30: a device matches the specs of a LocalVolumeSet exactly when it is included (its size is readable
  and within the bounds, 1 GiB being the default minimum; its type, rotational property, vendor and
  model are among those listed, where a list is given; a disk, where no type is given) and no name
  filter matches it or is malformed. Without an inclusion spec any disk matches. The order in which
  the checks are run does not matter.
\<close>

theorem matches_device_spec_exact:
  "matchesDeviceSpec pq dev inc exc \<longleftrightarrow>
     (case inc of None \<Rightarrow> to_lower (bd_Type dev) = ''disk'' | Some sp \<Rightarrow> included pq dev sp)
     \<and> (case exc of None \<Rightarrow> True | Some sp \<Rightarrow> \<not> excluded dev sp)"
proof -
  have ex: "allPass (map (\<lambda>(name, excluder) spec. excluder dev spec) exclusionMap) exc \<longleftrightarrow>
      (case exc of None \<Rightarrow> True | Some sp \<Rightarrow> \<not> excluded dev sp)"
    by (auto simp: allPass_iff exclusionMap_def notInDeviceNameFilter_def excluded_def nameFilterLoop_pass split: option.split)
  have none: "allPass (map (\<lambda>(name, matcher) spec. matcher dev spec) (matcherMap pq)) None \<longleftrightarrow> to_lower (bd_Type dev) = ''disk''"
  proof -
    have d: "to_lower ''disk'' = ''disk''" by code_simp
    show ?thesis
      by (auto simp: allPass_iff matcherMap_def inSizeRange_def inTypeList_def inMechanicalPropertyList_def
          inVendorList_def inModelList_def RawDisk_def d)
  qed
  show ?thesis
    unfolding matchesDeviceSpec_def ex by (cases inc) (simp_all add: none included_iff)
qed

section \<open>What the filters guarantee\<close>

text \<open>A device on which every filter passes, read at one moment.\<close>

definition usable :: "host \<Rightarrow> block_device \<Rightarrow> bool" where
  "usable h dev \<longleftrightarrow>
     bd_ReadOnly dev \<in> {''0'', ''''} \<and> bd_Removable dev \<in> {''0'', ''''} \<and> bd_State dev \<noteq> ''suspended''
     \<and> bd_FSType dev = ''''
     \<and> \<not> contains_str (to_lower (bd_PartLabel dev)) ''bios'' \<and> \<not> contains_str (to_lower (bd_PartLabel dev)) ''boot''
     \<and> (\<exists>m. mountFile h = Inr m \<and> (\<forall>l \<in> set (split_char newline m). \<not> mountLineMatches (bd_KName dev) l))
     \<and> (\<exists>ps. FilePathGlob h (path_join [''/sys/block/'', bd_KName dev, ''/*'']) = Inr ps
          \<and> (\<forall>p \<in> set ps. \<not> has_prefix (base p) (bd_KName dev)))
     \<and> bd_KName dev \<noteq> '''' \<and> (\<exists>fd. OpenExclusive h (path_join [''/dev/'', bd_KName dev]) = Inr fd)"

lemma parse_false: "negate_result (wrap_err p (parseBitBool s)) = Inr True \<longleftrightarrow> s = ''0'' \<or> s = ''''"
  by (auto simp: negate_result_def wrap_err_def parseBitBool_def)

lemma noBindMounts_iff:
  "noBindMounts h dev = Inr True \<longleftrightarrow>
    (\<exists>m. mountFile h = Inr m \<and> (\<forall>l \<in> set (split_char newline m). \<not> mountLineMatches (bd_KName dev) l))"
  by (auto simp: noBindMounts_def HasBindMounts_def find_None_iff find_Some_iff split: sum.splits option.splits)

lemma noChildren_iff:
  "noChildren h dev = Inr True \<longleftrightarrow>
    (\<exists>ps. FilePathGlob h (path_join [''/sys/block/'', bd_KName dev, ''/*'']) = Inr ps
        \<and> (\<forall>p \<in> set ps. \<not> has_prefix (base p) (bd_KName dev)))"
  by (auto simp: noChildren_def HasChildren_def negate_result_def list_ex_iff split: sum.splits)

lemma canOpenExclusively_iff:
  "canOpenExclusively h dev = Inr True \<longleftrightarrow>
    bd_KName dev \<noteq> '''' \<and> (\<exists>fd. OpenExclusive h (path_join [''/dev/'', bd_KName dev]) = Inr fd)"
  by (auto simp: canOpenExclusively_def GetDevPath_def split: sum.splits)

text \<open>
  The filters let a device pass exactly when it is writable, fixed, not suspended, without file
  system signature, without a BIOS or boot partition label, not mounted, without partitions, and can
  be opened exclusively; a check that cannot be made rejects the device.
\<close>

theorem default_filters_exact:
  "list_all (\<lambda>(name, filter). filter h dev = Inr True) DefaultFilterMap \<longleftrightarrow> usable h dev"
proof -
  have low: "to_lower ''bios'' = ''bios''" "to_lower ''boot'' = ''boot''" by code_simp+
  show ?thesis
    unfolding usable_def noBindMounts_iff [symmetric] noChildren_iff [symmetric] canOpenExclusively_iff [symmetric]
    by (auto simp: DefaultFilterMap_def notReadOnly_def notRemovable_def notSuspended_def noBiosBootInPartLabel_def
        noFilesystemSignature_def GetReadOnly_def GetRemovable_def parse_false StateSuspended_def Let_def low)
qed

end
