(* ===== verification/LvsetDevices.thy ===== *)
theory LvsetDevices
  imports Controllers Matcher "HOL-Library.Multiset"
begin

text \<open>
  The first half of \<^verbatim>\<open>pkg/diskmaker/controllers/lvset/reconcile.go\<close>: how \<^verbatim>\<open>getValidDevices\<close> sorts the
  block devices of the node into valid, delayed and rejected ones for a LocalVolumeSet.
\<close>

section \<open>Sorting out the devices\<close>

text \<open>The inner loop over the filters: one snapshot of the node per filter.\<close>

fun runFilters :: "env \<Rightarrow> (string \<times> (host \<Rightarrow> block_device \<Rightarrow> bool result)) list \<Rightarrow> block_device \<Rightarrow> bool prog" where
  "runFilters E [] dev = State_Monad.return True"
| "runFilters E ((name, flt) # fs) dev = do {
     r \<leftarrow> host_query E (\<lambda>h. flt h dev);
     (case r of
        Inl e \<Rightarrow> State_Monad.return False
      | Inr valid \<Rightarrow> if \<not> valid then State_Monad.return False else runFilters E fs dev)
   }"

datatype device_class = Unmatched | RejectedDevice | DelayedDevice | ValidDevice

definition classifyDevice :: "env \<Rightarrow> local_volume_set \<Rightarrow> block_device \<Rightarrow> device_class prog" where
  "classifyDevice E lvset blockDevice =
     (if \<not> matchesDeviceSpec (e_quantity E) blockDevice (lvset_DeviceInclusionSpec lvset) (lvset_DeviceExclusionSpec lvset)
      then State_Monad.return Unmatched
      else do {
        _ \<leftarrow> storeDeviceAge E (bd_KName blockDevice);
        passed \<leftarrow> runFilters E DefaultFilterMap blockDevice;
        (if \<not> passed then State_Monad.return RejectedDevice
         else do {
           isOldEnough \<leftarrow> isOlderThan E (bd_KName blockDevice);
           (if \<not> isOldEnough then do {
              _ \<leftarrow> lvset_report E (lvset_Name lvset)
                     (newDiskEvent ''DiscoveredNewDevice'' ''found possible matching disk, waiting 1m0s to claim'' (bd_KName blockDevice) ''Normal'');
              State_Monad.return DelayedDevice
            }
            else State_Monad.return ValidDevice)
         })
      })"

fun getValidDevices :: "env \<Rightarrow> local_volume_set \<Rightarrow> block_device list \<Rightarrow> (block_device list \<times> block_device list \<times> block_device list) prog" where
  "getValidDevices E lvset [] = State_Monad.return ([], [], [])"
| "getValidDevices E lvset (blockDevice # blockDevices) = do {
     c \<leftarrow> classifyDevice E lvset blockDevice;
     (valid, delayed, rejected) \<leftarrow> getValidDevices E lvset blockDevices;
     State_Monad.return (case c of
         Unmatched \<Rightarrow> (valid, delayed, rejected)
       | RejectedDevice \<Rightarrow> (valid, delayed, blockDevice # rejected)
       | DelayedDevice \<Rightarrow> (valid, blockDevice # delayed, rejected)
       | ValidDevice \<Rightarrow> (blockDevice # valid, delayed, rejected))
   }"

section \<open>Which devices are taken\<close>

text \<open>The clock runs forward and the time of a first observation is never changed.\<close>

definition ages_kept :: "world \<Rightarrow> world \<Rightarrow> bool" where
  "ages_kept w w' \<longleftrightarrow> w_clock w \<le> w_clock w' \<and> (\<forall>k t0. map_of (w_ages w) k = Some t0 \<longrightarrow> map_of (w_ages w') k = Some t0)"

interpretation ages: step_order ages_kept
  by unfold_locales (auto simp: ages_kept_def)

lemma ages_query [intro]: "always ages_kept (query E f)"
  by (simp add: always_def ages_kept_def query_def Let_def)

lemma ages_report [intro]: "always ages_kept (report rep e)"
  by (auto simp: always_def ages_kept_def report_def split: prod.splits option.splits)

lemma ages_store: "always ages_kept (storeDeviceAge E k)"
  unfolding always_def
  by (auto simp: storeDeviceAge_def ages_kept_def now_def query_def Let_def split: option.splits)

lemma ages_older: "always ages_kept (isOlderThan E k)"
  unfolding isOlderThan_def now_def by (intro ages.rules ages_query)

lemma ages_runFilters: "always ages_kept (runFilters E fs dev)"
  by (induction E fs dev rule: runFilters.induct) (auto simp: host_query_def intro!: ages.rules ages_query)

lemma ages_classify: "always ages_kept (classifyDevice E lvset dev)"
  unfolding classifyDevice_def by (intro ages.rules ages_store ages_runFilters ages_older ages_report)

lemma ages_valid: "always ages_kept (getValidDevices E lvset ds)"
  by (induction E lvset ds rule: getValidDevices.induct) (auto intro!: ages.rules ages_classify)

text \<open>A filter that passed did so on a snapshot of the node taken during the run.\<close>

definition passed_during :: "env \<Rightarrow> world \<Rightarrow> world \<Rightarrow> (host \<Rightarrow> block_device \<Rightarrow> bool result) \<Rightarrow> block_device \<Rightarrow> bool" where
  "passed_during E w w' flt dev \<longleftrightarrow>
     (\<exists>v. w_clock w \<le> w_clock v \<and> w_clock v < w_clock w' \<and> flt (host_at E (w_clock v) (tick E v)) dev = Inr True)"

lemma passed_during_mono:
  "passed_during E w1 w2 f d \<Longrightarrow> w_clock w \<le> w_clock w1 \<Longrightarrow> w_clock w2 \<le> w_clock w' \<Longrightarrow> passed_during E w w' f d"
  unfolding passed_during_def by (meson le_trans less_le_trans)

lemma runFilters_passed:
  "wp (runFilters E fs dev) (\<lambda>r w'. w_clock w \<le> w_clock w' \<and> (r \<longrightarrow> (\<forall>p \<in> set fs. passed_during E w w' (snd p) dev))) w"
proof (induction E fs dev arbitrary: w rule: runFilters.induct)
  case (2 E name flt fs dev)
  let ?h = "host_at E (w_clock w) (tick E w)"
  have now: "passed_during E w w' flt dev" if "flt ?h dev = Inr True" "w_clock (tick E w) \<le> w_clock w'" for w'
    unfolding passed_during_def using that by (intro exI [of _ w]) simp
  have step: "wp (runFilters E fs dev) (\<lambda>r w'. w_clock w \<le> w_clock w'
      \<and> (r \<longrightarrow> (\<forall>p \<in> set ((name, flt) # fs). passed_during E w w' (snd p) dev))) (tick E w)" if "flt ?h dev = Inr True"
  proof (rule wp_mono)
    show "wp (runFilters E fs dev) (\<lambda>r w'. w_clock (tick E w) \<le> w_clock w'
        \<and> (r \<longrightarrow> (\<forall>p \<in> set fs. passed_during E (tick E w) w' (snd p) dev))) (tick E w)"
      by (rule 2 [of True]) simp
  qed (use now [OF that] in \<open>auto intro: passed_during_mono\<close>)
  show ?case
    unfolding runFilters.simps host_query_def wp_bind wp_query
    using step by (auto simp: wp_return split: sum.split)
qed (simp add: wp_return)


text \<open>What is known of a device that is accepted in a run.\<close>

definition accepted_during :: "env \<Rightarrow> world \<Rightarrow> world \<Rightarrow> block_device \<Rightarrow> bool" where
  "accepted_during E w w' dev \<longleftrightarrow>
     bd_FSType dev = '''' \<and> bd_ReadOnly dev \<in> {''0'', ''''} \<and> bd_Removable dev \<in> {''0'', ''''} \<and> bd_State dev \<noteq> ''suspended''
     \<and> (\<exists>t fd. w_clock w \<le> t \<and> t < w_clock w' \<and> e_open E t (path_join [''/dev/'', bd_KName dev]) = Inr fd)
     \<and> (\<exists>t m. w_clock w \<le> t \<and> t < w_clock w' \<and> e_mountinfo E t = Inr m
          \<and> (\<forall>l \<in> set (split_char newline m). \<not> mountLineMatches (bd_KName dev) l))
     \<and> (\<exists>t t0. w_clock w \<le> t \<and> t < w_clock w' \<and> map_of (w_ages w') (bd_KName dev) = Some t0 \<and> t0 + deviceMinAge < e_now E t)"

lemma accepted_during_mono:
  assumes "accepted_during E w1 w2 d" "w_clock w \<le> w_clock w1" "ages_kept w2 w'"
  shows "accepted_during E w w' d"
  using assms unfolding accepted_during_def ages_kept_def by (meson le_trans less_le_trans)

lemmas accepted_later = accepted_during_mono [OF _ order_refl]

lemma accepted_earlier: "accepted_during E w1 w' d \<Longrightarrow> ages_kept w w1 \<Longrightarrow> accepted_during E w w' d"
  by (rule accepted_during_mono [OF _ _ ages.R_refl]) (auto simp: ages_kept_def)

lemma filters_accept:
  assumes "\<forall>p \<in> set DefaultFilterMap. passed_during E w w' (snd p) dev"
  shows "bd_FSType dev = '''' \<and> bd_ReadOnly dev \<in> {''0'', ''''} \<and> bd_Removable dev \<in> {''0'', ''''} \<and> bd_State dev \<noteq> ''suspended''
     \<and> (\<exists>t fd. w_clock w \<le> t \<and> t < w_clock w' \<and> e_open E t (path_join [''/dev/'', bd_KName dev]) = Inr fd)
     \<and> (\<exists>t m. w_clock w \<le> t \<and> t < w_clock w' \<and> e_mountinfo E t = Inr m
          \<and> (\<forall>l \<in> set (split_char newline m). \<not> mountLineMatches (bd_KName dev) l))"
proof -
  have p: "passed_during E w w' f dev" if "f \<in> snd ` set DefaultFilterMap" for f
    using assms that by blast
  have open1: "\<exists>t fd. w_clock w \<le> t \<and> t < w_clock w' \<and> e_open E t (path_join [''/dev/'', bd_KName dev]) = Inr fd"
    using p [of canOpenExclusively]
    by (auto simp: DefaultFilterMap_def passed_during_def canOpenExclusively_iff) (auto simp: host_at_def)
  have mount1: "\<exists>t m. w_clock w \<le> t \<and> t < w_clock w' \<and> e_mountinfo E t = Inr m
      \<and> (\<forall>l \<in> set (split_char newline m). \<not> mountLineMatches (bd_KName dev) l)"
    using p [of noBindMounts]
    by (auto simp: DefaultFilterMap_def passed_during_def noBindMounts_iff) (auto simp: host_at_def)
  have "bd_FSType dev = ''''" "bd_State dev \<noteq> ''suspended''" "bd_ReadOnly dev \<in> {''0'', ''''}" "bd_Removable dev \<in> {''0'', ''''}"
    using p [of noFilesystemSignature] p [of notSuspended] p [of notReadOnly] p [of notRemovable]
    by (auto simp: DefaultFilterMap_def passed_during_def noFilesystemSignature_def notSuspended_def StateSuspended_def
        notReadOnly_def notRemovable_def GetReadOnly_def GetRemovable_def parse_false)
  with open1 mount1 show ?thesis by blast
qed

lemma isOlderThan_true:
  "wp (isOlderThan E k) (\<lambda>r w'. r \<longrightarrow> (\<exists>t t0. w_clock w \<le> t \<and> t < w_clock w' \<and> map_of (w_ages w') k = Some t0 \<and> t0 + deviceMinAge < e_now E t)) w"
  unfolding isOlderThan_def now_def by (auto simp: wp_simps split: option.split)

abbreviation spec_matched :: "env \<Rightarrow> local_volume_set \<Rightarrow> block_device \<Rightarrow> bool" where
  "spec_matched E lvset d \<equiv> matchesDeviceSpec (e_quantity E) d (lvset_DeviceInclusionSpec lvset) (lvset_DeviceExclusionSpec lvset)"

lemma classify_spec:
  "wp (classifyDevice E lvset d)
     (\<lambda>c w'. (c = Unmatched \<longleftrightarrow> \<not> spec_matched E lvset d) \<and> (c = ValidDevice \<longrightarrow> accepted_during E w w' d)) w"
proof (cases "spec_matched E lvset d")
  case True
  have filters: "wp (runFilters E DefaultFilterMap d) (\<lambda>r w2. ages_kept w w2
      \<and> (r \<longrightarrow> (\<forall>p \<in> set DefaultFilterMap. passed_during E w w2 (snd p) d))) w1" if "ages_kept w w1" for w1
    by (rule wp_mono [OF wp_conj [OF ages.wp_last [OF that ages_runFilters] runFilters_passed]])
      (use that in \<open>auto simp: ages_kept_def intro: passed_during_mono\<close>)
  have old: "wp (isOlderThan E (bd_KName d)) (\<lambda>r w3. r \<longrightarrow> accepted_during E w w3 d) w2"
    if "ages_kept w w2" "\<forall>p \<in> set DefaultFilterMap. passed_during E w w2 (snd p) d" for w2
  proof (rule wp_mono [OF wp_conj [OF isOlderThan_true ages.wp_last [OF ages.R_refl [of w2] ages_older]]], intro impI)
    fix r w3
    assume a: "(r \<longrightarrow> (\<exists>t t0. w_clock w2 \<le> t \<and> t < w_clock w3 \<and> map_of (w_ages w3) (bd_KName d) = Some t0 \<and> t0 + deviceMinAge < e_now E t))
        \<and> ages_kept w2 w3" and r
    have "\<forall>p \<in> set DefaultFilterMap. passed_during E w w3 (snd p) d"
      using that(2) a by (auto simp: ages_kept_def intro: passed_during_mono)
    from filters_accept [OF this] a \<open>r\<close> that(1) show "accepted_during E w w3 d"
      unfolding accepted_during_def ages_kept_def by (meson le_trans)
  qed
  show ?thesis
    unfolding classifyDevice_def
    apply (simp only: True if_False simp_thms)
    apply (rule ages.wp_seq [OF ages.R_refl [of w] ages_store])
    apply (rule wp_bindI, rule wp_mono [OF filters], assumption)
    apply (rule wp_condI, rule wp_retI, simp)
    apply (rule wp_bindI, rule wp_mono [OF old], simp, simp)
    apply (rule wp_condI)
     apply (rule wp_bindI, simp add: report_def wp_simps)
    apply (rule wp_retI, simp)
    done
qed (simp add: classifyDevice_def wp_return)

lemma getValid_spec:
  "wp (getValidDevices E lvset ds)
     (\<lambda>(v, dl, rj) w'. mset v + mset dl + mset rj = mset (filter (spec_matched E lvset) ds)
        \<and> (\<forall>d \<in> set v. accepted_during E w w' d)) w"
proof (induction ds arbitrary: w)
  case (Cons d ds)
  let ?Q = "\<lambda>w1 (v, dl, rj) w'. mset v + mset dl + mset rj = mset (filter (spec_matched E lvset) ds)
      \<and> (\<forall>d \<in> set v. accepted_during E w1 w' d)"
  show ?case
    unfolding getValidDevices.simps
    apply (rule wp_bindI, rule wp_mono [OF wp_conj [OF classify_spec [of E lvset d w] ages.wp_last [OF ages.R_refl [of w] ages_classify]]])
    apply (rule wp_bindI, rule wp_mono [OF wp_conj [OF Cons ages.wp_last [OF ages.R_refl ages_valid]]])
    apply (auto simp: wp_return split: device_class.splits)
           apply (blast intro: accepted_earlier accepted_later)+
    done
qed (simp add: wp_return)


text \<open>
  C6: \<^verbatim>\<open>getValidDevices\<close> sorts the devices that match the specs, each exactly once, into valid, delayed
  and rejected ones. A valid device has no file system signature, is writable, fixed and not
  suspended, was found unmounted and could be opened exclusively at a moment of this very run, and
  was first seen more than \<^verbatim>\<open>deviceMinAge\<close> before the clock was read; first observations are never
  overwritten.
\<close>

theorem valid_devices_partition:
  assumes "run_state (getValidDevices E lvset ds) w = ((valid, delayed, rejected), w')"
  shows "mset valid + mset delayed + mset rejected =
      mset (filter (\<lambda>d. matchesDeviceSpec (e_quantity E) d (lvset_DeviceInclusionSpec lvset) (lvset_DeviceExclusionSpec lvset)) ds)
    \<and> (\<forall>d \<in> set valid. accepted_during E w w' d) \<and> ages_kept w w'"
  using wp_runD [OF getValid_spec assms] always_run [OF ages_valid assms] by simp

definition demo_lvset :: local_volume_set where
  "demo_lvset = \<lparr>lvset_meta = demo_meta\<lparr>om_Name := ''set''\<rparr>, lvset_Kind = ''LocalVolumeSet'',
     lvset_APIVersion = ''local.storage.openshift.io/v1alpha1'', lvset_NodeSelector = None, lvset_StorageClassName = ''sc'',
     lvset_MaxDeviceCount = Some 1, lvset_VolumeMode = ''Block'', lvset_FSType = '''', lvset_Tolerations = [],
     lvset_DeviceInclusionSpec = None, lvset_DeviceExclusionSpec = None,
     lvset_Status = \<lparr>lss_Conditions = [], lss_TotalProvisionedDeviceCount = None, lss_ObservedGeneration = 0\<rparr>\<rparr>"

definition late_env :: env where
  "late_env = demo_env\<lparr>e_now := (\<lambda>t. 100000000000)\<rparr>"

definition aged_world :: world where
  "aged_world = demo_world\<lparr>w_ages := [(''sda'', 0)]\<rparr>"

theorem valid_devices_partition_witness:
  "\<exists>w'. run_state (getValidDevices late_env demo_lvset [demo_device, demo_device\<lparr>bd_Type := ''part''\<rparr>]) aged_world
        = (([demo_device], [], []), w') \<and> accepted_during late_env aged_world w' demo_device"
proof -
  let ?m = "getValidDevices late_env demo_lvset [demo_device, demo_device\<lparr>bd_Type := ''part''\<rparr>]"
  have "fst (run_state ?m aged_world) = ([demo_device], [], [])" by code_simp
  then obtain w' where run: "run_state ?m aged_world = (([demo_device], [], []), w')"
    by (cases "run_state ?m aged_world") auto
  from valid_devices_partition [OF run] run show ?thesis by auto
qed

end
