(* ===== verification/LvsetReconcile.thy ===== *)
theory LvsetReconcile
  imports LvsetDevices
begin

text \<open>
  Model of \<^verbatim>\<open>pkg/diskmaker/controllers/lvset/reconcile.go\<close>, the controller that turns matching block
  devices of a node into symlinks and PVs for a LocalVolumeSet. The reconciler's fields are parts of
  \<open>world\<close>; helper calls that only read the node take one snapshot of it.
\<close>

section \<open>Counting the provisioned devices\<close>

text \<open>The loop over the paths of the symlink directory.\<close>

fun symlinkedLoop :: "host \<Rightarrow> block_device list \<Rightarrow> string list \<Rightarrow> (nat \<times> string list) result" where
  "symlinkedLoop h validDevices [] = Inr (0, [])"
| "symlinkedLoop h validDevices (path # paths) =
     (case anyDeviceMatches h path validDevices of
        Inl e \<Rightarrow> Inl e
      | Inr isMatch \<Rightarrow>
          (case symlinkedLoop h validDevices paths of
             Inl e \<Rightarrow> Inl e
           | Inr (n, noMatch) \<Rightarrow> if isMatch then Inr (Suc n, noMatch) else Inr (n, path # noMatch)))"

definition getAlreadySymlinked :: "host \<Rightarrow> string \<Rightarrow> block_device list \<Rightarrow> (nat \<times> string list) result" where
  "getAlreadySymlinked h symLinkDir validDevices =
     (case FilePathGlob h (path_join [symLinkDir, ''/*'']) of
        Inl e \<Rightarrow> Inl e
      | Inr paths \<Rightarrow> symlinkedLoop h validDevices paths)"

section \<open>Linking and provisioning one device\<close>

definition lvset_args :: "local_volume_set \<Rightarrow> block_device \<Rightarrow> storage_class \<Rightarrow> string list \<Rightarrow> string \<Rightarrow> sync_args" where
  "lvset_args obj dev storageClass mountPointMap symlinkPath =
     \<lparr>sa_obj = OwnerLVSet obj, sa_sc = storageClass, sa_mounts = mountPointMap, sa_path = symlinkPath,
      sa_extra = [], sa_dev = dev\<rparr>"

definition syncExistingPVAndLVDL ::
  "env \<Rightarrow> local_volume_set \<Rightarrow> block_device \<Rightarrow> storage_class \<Rightarrow> string list \<Rightarrow> string \<Rightarrow> error option prog" where
  "syncExistingPVAndLVDL E obj blockDevice storageClass mountPointMap symlinkPath = do {
     rc \<leftarrow> gets w_rc;
     SyncPVAndLVDL E rc (lvset_args obj blockDevice storageClass mountPointMap symlinkPath)
   }"

text \<open>The part under the lock; the deferred unlock follows it on every path.\<close>

definition lvset_linkLocked ::
  "env \<Rightarrow> local_volume_set \<Rightarrow> block_device \<Rightarrow> storage_class \<Rightarrow> string list \<Rightarrow> string \<Rightarrow> string \<Rightarrow> bool \<Rightarrow> string list \<Rightarrow> error option \<Rightarrow> error option prog" where
  "lvset_linkLocked E obj dev storageClass mountPointMap symlinkSourcePath symlinkPath pvLocked existingSymlinks lockErr =
     (let sync = syncExistingPVAndLVDL E obj dev storageClass mountPointMap symlinkPath
      in if existingSymlinks \<noteq> [] then
           (if symlinkPath \<in> set existingSymlinks then sync
            else State_Monad.return (Some (Errorf (''found existing symlinks for device '' @ bd_KName dev @ '' in '' @ dir (dir symlinkPath)))))
         else if \<not> pvLocked then
           State_Monad.return (case lockErr of
               Some e \<Rightarrow> Some e
             | None \<Rightarrow> Some (Errorf (''failed to acquire lock for '' @ fst (GetDevPath dev))))
         else do {
           err \<leftarrow> do_symlink E symlinkSourcePath symlinkPath;
           (case err of
              None \<Rightarrow> sync
            | Some e \<Rightarrow>
                if \<not> os_IsExist e then State_Monad.return (Some e)
                else do {
                  st \<leftarrow> do_stat E symlinkSourcePath;
                  (case st of
                     Inl statErr \<Rightarrow> State_Monad.return (Some (Wrapf (''could not create symlink: '' @ err_text e @ '','') statErr))
                   | Inr (Sym _) \<Rightarrow> do {
                       valid \<leftarrow> host_query E (\<lambda>h. PathEvalsToDiskLabel h symlinkSourcePath (bd_Name dev));
                       (case valid of
                          Inl evalErr \<Rightarrow> State_Monad.return (Some (Wrapf (''existing symlink not valid: '' @ err_text e @ '','') evalErr))
                        | Inr _ \<Rightarrow> sync)
                     }
                   | Inr _ \<Rightarrow> sync)
                })
         })"

definition createSymlinkAndSyncPVAndLVDL ::
  "env \<Rightarrow> local_volume_set \<Rightarrow> block_device \<Rightarrow> storage_class \<Rightarrow> string list \<Rightarrow> string \<Rightarrow> string \<Rightarrow> error option prog" where
  "createSymlinkAndSyncPVAndLVDL E obj dev storageClass mountPointMap symlinkSourcePath symlinkPath =
     (case GetDevPath dev of
        (_, Some e) \<Rightarrow> State_Monad.return (Some e)
      | (devLabelPath, None) \<Rightarrow> do {
          err \<leftarrow> do_mkdirall E (dir symlinkPath);
          (case err of
             Some e \<Rightarrow> State_Monad.return (Some (Wrapf ''could not create symlinkdir: '' e))
           | None \<Rightarrow> do {
               (pvLock, pvLocked, existingSymlinks, lockErr) \<leftarrow>
                 host_query E (\<lambda>h. GetPVCreationLock h devLabelPath [dir (dir symlinkPath)]);
               r \<leftarrow> lvset_linkLocked E obj dev storageClass mountPointMap symlinkSourcePath symlinkPath pvLocked existingSymlinks lockErr;
               _ \<leftarrow> query E (\<lambda>t w. Unlock (e_close E t) pvLock);
               State_Monad.return r
             })
        })"

definition reportProvisioningFailure :: "env \<Rightarrow> local_volume_set \<Rightarrow> string \<Rightarrow> error \<Rightarrow> unit prog" where
  "reportProvisioningFailure E lvSet devName err =
     lvset_report E (lvset_Name lvSet)
       (newDiskEvent ''ErrorProvisioningDisk'' (''provisioning failed for '' @ devName @ '': '' @ err_text err) devName ''Warning'')"

record new_symlink_result =
  ns_fastRequeue :: bool
  ns_maxCountReached :: bool

abbreviation ns_default :: new_symlink_result where
  "ns_default \<equiv> \<lparr>ns_fastRequeue = False, ns_maxCountReached = False\<rparr>"

text \<open>What is done about an error of the recovery of a lost link, before it is reported.\<close>

definition refreshNotPreferred :: "env \<Rightarrow> block_device \<Rightarrow> error \<Rightarrow> unit prog" where
  "refreshNotPreferred E blockDevice err =
     (case PolicyNotPreferredLVDL err of
        None \<Rightarrow> State_Monad.return ()
      | Some (d, pvSymlinkPath) \<Rightarrow> do {
          _ \<leftarrow> UpdateDeviceLinks E d blockDevice (lst_CurrentLinkTarget (ld_Status d)) pvSymlinkPath;
          State_Monad.return ()
        })"

definition lvset_recoverLink ::
  "env \<Rightarrow> local_volume_set \<Rightarrow> block_device \<Rightarrow> storage_class \<Rightarrow> string list \<Rightarrow> string \<Rightarrow> device_info \<Rightarrow> string \<Rightarrow> new_symlink_result result prog" where
  "lvset_recoverLink E lvset blockDevice storageClass mountPointMap symLinkDir info symlinkSourcePath = do {
     r \<leftarrow> RecoverPVSymlinkPath E info symLinkDir symlinkSourcePath;
     (case r of
        Inl e \<Rightarrow> do {
          _ \<leftarrow> refreshNotPreferred E blockDevice e;
          _ \<leftarrow> reportProvisioningFailure E lvset (bd_KName blockDevice) e;
          State_Monad.return (Inr ns_default)
        }
      | Inr symlinkPath \<Rightarrow> do {
          err \<leftarrow> syncExistingPVAndLVDL E lvset blockDevice storageClass mountPointMap symlinkPath;
          (case err of
             None \<Rightarrow> State_Monad.return (Inr ns_default)
           | Some e \<Rightarrow>
               if e = ErrTryAgain then State_Monad.return (Inr (ns_default\<lparr>ns_fastRequeue := True\<rparr>))
               else do {
                 _ \<leftarrow> reportProvisioningFailure E lvset (bd_KName blockDevice) e;
                 State_Monad.return (Inr ns_default)
               })
        })
   }"

definition lvset_newLink ::
  "env \<Rightarrow> local_volume_set \<Rightarrow> block_device \<Rightarrow> storage_class \<Rightarrow> string list \<Rightarrow> string \<Rightarrow> string \<Rightarrow> new_symlink_result result prog" where
  "lvset_newLink E lvset blockDevice storageClass mountPointMap symlinkSourcePath symlinkPath = do {
     _ \<leftarrow> lvset_report E (lvset_Name lvset) (newDiskEvent ''FoundMatchingDisk'' ''provisioning matching disk'' (bd_KName blockDevice) ''Normal'');
     err \<leftarrow> createSymlinkAndSyncPVAndLVDL E lvset blockDevice storageClass mountPointMap symlinkSourcePath symlinkPath;
     (case err of
        None \<Rightarrow> State_Monad.return (Inr ns_default)
      | Some e \<Rightarrow>
          if e = ErrTryAgain then State_Monad.return (Inr (ns_default\<lparr>ns_fastRequeue := True\<rparr>))
          else do {
            _ \<leftarrow> lvset_report E (lvset_Name lvset) (newDiskEvent ''ErrorProvisioningDisk''
                   (''provisioning failed for '' @ bd_Name blockDevice @ '': '' @ err_text e) (bd_KName blockDevice) ''Warning'');
            State_Monad.return (Inr ns_default)
          })
   }"

definition maxCountReached :: "local_volume_set \<Rightarrow> (nat \<times> string list) result \<Rightarrow> bool" where
  "maxCountReached lvset counted =
     (case lvset_MaxDeviceCount lvset of
        None \<Rightarrow> False
      | Some m \<Rightarrow> int32 (case counted of Inl _ \<Rightarrow> 0 | Inr (c, _) \<Rightarrow> c) \<ge> m)"

definition lvset_processNewSymlink ::
  "env \<Rightarrow> local_volume_set \<Rightarrow> block_device \<Rightarrow> block_device list \<Rightarrow> storage_class \<Rightarrow> string list \<Rightarrow> string \<Rightarrow> new_symlink_result result prog" where
  "lvset_processNewSymlink E lvset blockDevice blockDevices storageClass mountPointMap symLinkDir = do {
     st \<leftarrow> host_query E (\<lambda>h. GetSymLinkSourceAndTarget h blockDevice symLinkDir);
     (case st of
        (_, _, _, Some e) \<Rightarrow> State_Monad.return (Inr ns_default)
      | (symlinkSourcePath, symlinkPath, idExists, None) \<Rightarrow> do {
          counted \<leftarrow> host_query E (\<lambda>h. getAlreadySymlinked h symLinkDir blockDevices);
          (if (case counted of Inl e \<Rightarrow> True | Inr _ \<Rightarrow> False) \<and> lvset_MaxDeviceCount lvset \<noteq> None then do {
             _ \<leftarrow> lvset_report E (lvset_Name lvset) (newDiskEvent ''ErrorListingExistingSymlinks'' ''error determining already provisioned disks'' '''' ''Warning'');
             State_Monad.return (Inl (Wrapf ''could not determine how many devices are already provisioned: ''
               (case counted of Inl e \<Rightarrow> e | Inr _ \<Rightarrow> Errorf '''')))
           }
           else if maxCountReached lvset counted then do {
             _ \<leftarrow> lvset_report E (lvset_Name lvset) (newDiskEvent ''ErrorMaxCountReached'' ''error provisioning maximum count of devices reached'' '''' ''Warning'');
             State_Monad.return (Inr (ns_default\<lparr>ns_maxCountReached := True\<rparr>))
           }
           else do {
             l \<leftarrow> gets w_links;
             found \<leftarrow> host_query E (\<lambda>h. FindLSOManagedDeviceInfo h l symlinkSourcePath blockDevice);
             (case found of
                (_, _, Some e) \<Rightarrow> do {
                  _ \<leftarrow> reportProvisioningFailure E lvset (bd_KName blockDevice) e;
                  State_Monad.return (Inr ns_default)
                }
              | (info, True, None) \<Rightarrow>
                  lvset_recoverLink E lvset blockDevice storageClass mountPointMap symLinkDir info symlinkSourcePath
              | (info, False, None) \<Rightarrow>
                  lvset_newLink E lvset blockDevice storageClass mountPointMap symlinkSourcePath symlinkPath)
           })
        })
   }"

section \<open>The devices that are in use\<close>

definition lvset_processRejected :: "env \<Rightarrow> local_volume_set \<Rightarrow> string \<Rightarrow> string \<Rightarrow> block_device \<Rightarrow> unit prog" where
  "lvset_processRejected E lvset symLinkDir storageClassName blockDevice = do {
     ex \<leftarrow> HasExistingLocalVolumes E symLinkDir blockDevice;
     (case ex of
        Inl e \<Rightarrow> refreshNotPreferred E blockDevice e
      | Inr symlinkPath \<Rightarrow>
          if symlinkPath = '''' then State_Monad.return ()
          else do {
            rc \<leftarrow> gets w_rc;
            let lvdlName = GeneratePVName (base symlinkPath) (n_Name (rc_Node rc)) storageClassName;
            l \<leftarrow> FindLVDL E lvdlName (rc_Namespace rc);
            (if (case l of Inl e \<Rightarrow> \<not> IsNotFound e | Inr _ \<Rightarrow> False) then State_Monad.return ()
             else do {
               let lvdl = (case l of Inl _ \<Rightarrow> None | Inr d \<Rightarrow> Some d);
               mismatch \<leftarrow> host_query E (\<lambda>h. HasMismatchingSymlink h lvdl blockDevice);
               lvdlError \<leftarrow>
                 (if mismatch then do {
                    (_, err) \<leftarrow> RecreateSymlinkIfNeeded E (the lvdl) symlinkPath blockDevice;
                    State_Monad.return err
                  }
                  else do {
                    cur \<leftarrow> host_query E (\<lambda>h. Readlink h symlinkPath);
                    (case cur of
                       Inl e \<Rightarrow> State_Monad.return None
                     | Inr currentLinkTarget \<Rightarrow> do {
                         (_, err) \<leftarrow> ApplyStatus E (e_nodename E) lvdlName (rc_Namespace rc) blockDevice (Some (OwnerLVSet lvset)) currentLinkTarget symlinkPath;
                         State_Monad.return err
                       })
                  });
               (case lvdlError of
                  None \<Rightarrow> State_Monad.return ()
                | Some e \<Rightarrow> lvset_report E (lvset_Name lvset)
                    (newDiskEvent ''FailedLVDLProcessing'' (''failed to process lvdl '' @ err_text e) (bd_KName blockDevice) ''Warning''))
             })
          })
   }"

definition lvset_processRejectedDevicesForDeviceLinks :: "env \<Rightarrow> local_volume_set \<Rightarrow> block_device list \<Rightarrow> string \<Rightarrow> string \<Rightarrow> unit prog" where
  "lvset_processRejectedDevicesForDeviceLinks E lvset rejectedDevices symLinkDir storageClassName =
     for_each (lvset_processRejected E lvset symLinkDir storageClassName) rejectedDevices"

section \<open>Reconcile\<close>

text \<open>The loop over the valid devices: the requeue time, or the error that ends the reconcile.\<close>

fun lvset_validLoop ::
  "env \<Rightarrow> local_volume_set \<Rightarrow> block_device list \<Rightarrow> storage_class \<Rightarrow> string list \<Rightarrow> string \<Rightarrow> block_device list \<Rightarrow> int \<Rightarrow> int result prog" where
  "lvset_validLoop E lvset blockDevices storageClass mountPointMap symLinkDir [] requeueTime = State_Monad.return (Inr requeueTime)"
| "lvset_validLoop E lvset blockDevices storageClass mountPointMap symLinkDir (blockDevice # rest) requeueTime = do {
     ex \<leftarrow> host_query E (\<lambda>h. GetSymlinkedForCurrentSC h symLinkDir (bd_KName blockDevice));
     (case ex of
        Inl e \<Rightarrow> lvset_validLoop E lvset blockDevices storageClass mountPointMap symLinkDir rest requeueTime
      | Inr existingSymlink \<Rightarrow>
          if existingSymlink \<noteq> '''' then do {
            _ \<leftarrow> syncExistingPVAndLVDL E lvset blockDevice storageClass mountPointMap (path_join [symLinkDir, existingSymlink]);
            lvset_validLoop E lvset blockDevices storageClass mountPointMap symLinkDir rest requeueTime
          }
          else do {
            r \<leftarrow> lvset_processNewSymlink E lvset blockDevice blockDevices storageClass mountPointMap symLinkDir;
            (case r of
               Inl e \<Rightarrow> State_Monad.return (Inl e)
             | Inr result \<Rightarrow>
                 let requeueTime' = (if ns_fastRequeue result then fastRequeueTime else requeueTime)
                 in if ns_maxCountReached result then State_Monad.return (Inr requeueTime')
                    else lvset_validLoop E lvset blockDevices storageClass mountPointMap symLinkDir rest requeueTime')
          })
   }"

definition lvset_ownerLabels :: "local_volume_set \<Rightarrow> smap" where
  "lvset_ownerLabels lvset =
     [(PVOwnerKindLabel, LocalVolumeSetKind), (PVOwnerNamespaceLabel, lvset_Namespace lvset), (PVOwnerNameLabel, lvset_Name lvset)]"

text \<open>What follows the loop over the valid devices: counts, metrics, the rejected devices, the requeue time.\<close>

definition lvset_finish ::
  "env \<Rightarrow> local_volume_set \<Rightarrow> string \<Rightarrow> block_device list \<Rightarrow> block_device list \<Rightarrow> block_device list \<Rightarrow> block_device list \<Rightarrow> int \<Rightarrow> outcome prog" where
  "lvset_finish E lvset symLinkDir blockDevices validDevices delayedDevices rejectedDevices requeueTime = do {
     counted \<leftarrow> host_query E (\<lambda>h. getAlreadySymlinked h symLinkDir blockDevices);
     _ \<leftarrow> set_metric (SetLVSProvisionedPVMetric (e_nodename E) (lvset_StorageClassName lvset) (int (case counted of Inl _ \<Rightarrow> 0 | Inr (c, _) \<Rightarrow> c)));
     (orphans, _) \<leftarrow> host_query E (\<lambda>h. GetOrphanedSymlinks h symLinkDir (validDevices @ delayedDevices @ rejectedDevices));
     _ \<leftarrow> set_metric (SetLVSOrphanedSymlinksMetric (e_nodename E) (lvset_StorageClassName lvset) (int (length orphans)));
     _ \<leftarrow> lvset_processRejectedDevicesForDeviceLinks E lvset rejectedDevices symLinkDir (lvset_StorageClassName lvset);
     done_after (if length delayedDevices > 1 \<and> requeueTime = defaultRequeueTime then go_div deviceMinAge 2 else requeueTime)
   }"

definition lvset_provision :: "env \<Rightarrow> local_volume_set \<Rightarrow> outcome prog" where
  "lvset_provision E lvset = do {
     let storageClassName = lvset_StorageClassName lvset;
     sc \<leftarrow> get_sc E storageClassName;
     (case sc of
        Inl e \<Rightarrow> stop_with e
      | Inr storageClass \<Rightarrow> do {
          rc \<leftarrow> gets w_rc;
          (case map_of (rc_DiscoveryMap rc) storageClassName of
             None \<Rightarrow> stop_with (Errorf (''could not find storageclass entry '' @ storageClassName @ '' in provisioner config''))
           | Some symLinkConfig \<Rightarrow> do {
               let symLinkDir = mc_HostDir symLinkConfig;
               listed \<leftarrow> host_query E (\<lambda>h. ListBlockDevices h []);
               (case listed of
                  (_, Some e) \<Rightarrow> do {
                    _ \<leftarrow> lvset_report E (lvset_Name lvset) (newDiskEvent ''ErrorRunningBlockList'' (''failed to list block devices: '' @ err_text e) '''' ''Warning'');
                    stop_with e
                  }
                | ((blockDevices, badRows), None) \<Rightarrow> do {
                    _ \<leftarrow> (if badRows \<noteq> [] then lvset_report E (lvset_Name lvset) (newDiskEvent ''ErrorRunningBlockList'' ''error parsing rows'' '''' ''Warning'')
                          else State_Monad.return ());
                    (validDevices, delayedDevices, rejectedDevices) \<leftarrow> getValidDevices E lvset blockDevices;
                    _ \<leftarrow> set_metric (SetLVSUnmatchedDiskMetric (e_nodename E) storageClassName (int (length blockDevices) - int (length validDevices)));
                    mm \<leftarrow> GenerateMountMap E;
                    (case mm of
                       Inl e \<Rightarrow> stop_with e
                     | Inr mountPointMap \<Rightarrow> do {
                         loop \<leftarrow> lvset_validLoop E lvset blockDevices storageClass mountPointMap symLinkDir validDevices defaultRequeueTime;
                         (case loop of
                            Inl e \<Rightarrow> stop_with e
                          | Inr requeueTime \<Rightarrow>
                              lvset_finish E lvset symLinkDir blockDevices validDevices delayedDevices rejectedDevices requeueTime)
                       })
                  })
             })
        })
   }"

definition lvset_deletion :: "env \<Rightarrow> local_volume_set \<Rightarrow> int \<Rightarrow> outcome prog" where
  "lvset_deletion E lvset ts = do {
     _ \<leftarrow> set_metric (SetLVSDeletionTimestampMetric (lvset_Name lvset) (ts div 1000000000));
     pvs \<leftarrow> gets w_pvs;
     done_after (if OwnerHasReleasedPVs pvs (lvset_ownerLabels lvset) then fastRequeueTime else defaultRequeueTime)
   }"

definition lvset_cleanup_and_provision :: "env \<Rightarrow> local_volume_set \<Rightarrow> outcome prog" where
  "lvset_cleanup_and_provision E lvset = do {
     _ \<leftarrow> delete_pvs E;
     cl \<leftarrow> CleanupSymlinks E (lvset_ownerLabels lvset) (Some (om_DeletionTimestamp (lvset_meta lvset) \<noteq> None));
     (case cl of
        Some e \<Rightarrow> do {
          _ \<leftarrow> lvset_report E (lvset_Name lvset) (newDiskEvent ''ErrorRemovingSymLink'' (''failed to cleanup symlinks: '' @ err_text e) '''' ''Warning'');
          stop_with e
        }
      | None \<Rightarrow>
          (case om_DeletionTimestamp (lvset_meta lvset) of
             Some ts \<Rightarrow> lvset_deletion E lvset ts
           | None \<Rightarrow> do {
               _ \<leftarrow> set_metric (RemoveLVSDeletionTimestampMetric (lvset_Name lvset));
               lvset_provision E lvset
             }))
   }"

definition lvset_Reconcile :: "env \<Rightarrow> namespaced_name \<Rightarrow> outcome prog" where
  "lvset_Reconcile E request = do {
     g \<leftarrow> get_lvset E request;
     (case g of
        Inl e \<Rightarrow> if IsNotFound e then State_Monad.return (no_requeue, None) else stop_with e
      | Inr lvset \<Rightarrow> do {
          l \<leftarrow> gets w_links;
          (if \<not> IsSynced l then State_Monad.return (\<lparr>rq_Requeue = False, rq_After = fastRequeueTime\<rparr>, None)
           else do {
             err \<leftarrow> ReloadRuntimeConfig E (fst request);
             (case err of
                Some e \<Rightarrow> stop_with e
              | None \<Rightarrow> do {
                  synced \<leftarrow> gets w_cacheSynced;
                  serr \<leftarrow> (if synced then State_Monad.return None else syncCaches E IsLocalVolumeSetPV);
                  (case serr of
                     Some e \<Rightarrow> stop_with e
                   | None \<Rightarrow> do {
                       rc \<leftarrow> gets w_rc;
                       (case NodeSelectorMatchesNodeLabels E (rc_Node rc) (lvset_NodeSelector lvset) of
                          Inl e \<Rightarrow> stop_with e
                        | Inr matches \<Rightarrow>
                            if \<not> matches then State_Monad.return (no_requeue, None)
                            else lvset_cleanup_and_provision E lvset)
                     })
                })
           })
        })
   }"


section \<open>Linking a device\<close>

lemma log_syncExisting: "always (log_ext (sync_action path)) (syncExistingPVAndLVDL E obj dev sc mm path)"
  unfolding syncExistingPVAndLVDL_def
  by (intro log.rules log_Sync_within) (simp add: lvset_args_def)

lemmas log_syncExisting_within = always_log_mono [OF log_syncExisting]

lemma tmp_other [simp]: "s @ ''.tmp'' \<noteq> s" "s \<noteq> s @ ''.tmp''"
  by simp_all

text \<open>What the controller does for one new device: make the directory, link, synchronise.\<close>

definition lvset_link_action :: "string \<Rightarrow> string \<Rightarrow> action \<Rightarrow> bool" where
  "lvset_link_action src path b \<longleftrightarrow> sync_action path b
     \<or> (\<exists>r. b = FsOp (OpMkdirAll (dir path)) r) \<or> (\<exists>r. b = FsOp (OpSymlink src path) r)"

lemma log_linkLocked:
  assumes "\<And>b. sync_action path b \<Longrightarrow> P b"
    and "\<And>r. locked \<Longrightarrow> links = [] \<Longrightarrow> P (FsOp (OpSymlink src path) r)"
  shows "always (log_ext P) (lvset_linkLocked E obj dev sc mm src path locked links lerr)"
proof -
  have sync: "always (log_ext P) (syncExistingPVAndLVDL E obj dev sc mm path)"
    by (rule log_syncExisting_within) (rule assms(1))
  have existing: "always (log_ext P) (do {
      st \<leftarrow> do_stat E src;
      (case st of
         Inl statErr \<Rightarrow> State_Monad.return (f statErr)
       | Inr (Sym _) \<Rightarrow> do {
           valid \<leftarrow> host_query E (\<lambda>h. PathEvalsToDiskLabel h src n);
           (case valid of Inl evalErr \<Rightarrow> State_Monad.return (g evalErr) | Inr _ \<Rightarrow> syncExistingPVAndLVDL E obj dev sc mm path)
         }
       | Inr _ \<Rightarrow> syncExistingPVAndLVDL E obj dev sc mm path)})" for f g n
    by (intro log.rules log_queries) (auto split: inode.split intro!: log.rules log_queries sync)
  show ?thesis
    unfolding lvset_linkLocked_def Let_def
    by (intro log.rules sync log_fsops existing; (rule assms(2))?; simp)
qed

lemma log_createSymlink:
  "always (log_ext (lvset_link_action src path)) (createSymlinkAndSyncPVAndLVDL E obj dev sc mm src path)"
  unfolding createSymlinkAndSyncPVAndLVDL_def
  by (intro log.rules log_queries log_query log_fsops log_linkLocked) (auto simp: lvset_link_action_def)


section \<open>A link needs the lock\<close>

text \<open>
  A run of \<^verbatim>\<open>createSymlinkAndSyncPVAndLVDL\<close> touches no file but the symlink directory, the
  device's link and its temporary name, wipes nothing, and creates the link only from the device's
  chosen source and while it holds the exclusive lock on the device and no other link to the device
  was reported below the parent directory.
\<close>

theorem lvset_link_needs_lock:
  assumes "run_state (createSymlinkAndSyncPVAndLVDL E obj dev sc mm src path) w = (r, w')"
    and "run_state (do_mkdirall E (dir path)) w = (e1, w1)"
    and "GetPVCreationLock (host_at E (w_clock w1) (tick E w1)) (fst (GetDevPath dev)) [dir (dir path)] = (lock, locked, links, lerr)"
  shows "log_ext (\<lambda>b. sync_action path b \<or> (\<exists>e. b = FsOp (OpMkdirAll (dir path)) e)
      \<or> (\<exists>e. b = FsOp (OpSymlink src path) e) \<and> locked \<and> links = []) w w'"
proof -
  let ?P = "\<lambda>b. sync_action path b \<or> (\<exists>e. b = FsOp (OpMkdirAll (dir path)) e)
      \<or> (\<exists>e. b = FsOp (OpSymlink src path) e) \<and> locked \<and> links = []"
  have mk: "log_ext ?P w w1"
    by (rule always_run [OF log_fsops(4) assms(2)]) simp
  have rest: "wp (do {
      r \<leftarrow> lvset_linkLocked E obj dev sc mm src path locked links lerr;
      _ \<leftarrow> query E (\<lambda>t w. Unlock (e_close E t) lock);
      State_Monad.return r}) (\<lambda>r w'. log_ext ?P w w') (tick E w1)"
  proof (rule log.wp_last)
    show "log_ext ?P w (tick E w1)" using mk by (simp add: log_ext_def)
  qed (intro log.rules log_query log_linkLocked; simp)
  have "wp (createSymlinkAndSyncPVAndLVDL E obj dev sc mm src path) (\<lambda>r w'. log_ext ?P w w') w"
  proof (cases "GetDevPath dev")
    case (Pair devPath derr)
    show ?thesis
    proof (cases derr)
      case None
      have "wp (do_mkdirall E (dir path)) Q w \<longleftrightarrow> Q e1 w1" for Q by (simp add: wp_def assms(2))
      then show ?thesis
        using mk rest assms(3) Pair None
        unfolding createSymlinkAndSyncPVAndLVDL_def
        by (cases e1) (simp_all add: wp_bind wp_return host_query_def wp_query)
    qed (simp add: Pair createSymlinkAndSyncPVAndLVDL_def wp_return log.R_refl)
  qed
  from wp_runD [OF this assms(1)] show ?thesis .
qed

definition fresh_fs :: fs where
  "fresh_fs = AList.delete [''mnt'', ''local-storage'', ''sc'', ''wwn-1''] demo_fs"

definition fresh_world :: world where
  "fresh_world = demo_world\<lparr>w_fs := fresh_fs\<rparr>"

abbreviation demo_create :: "env \<Rightarrow> error option prog" where
  "demo_create E \<equiv> createSymlinkAndSyncPVAndLVDL E demo_lvset demo_device demo_sc [] ''/dev/disk/by-id/wwn-1'' ''/mnt/local-storage/sc/wwn-1''"

theorem lvset_link_needs_lock_witness:
  "\<exists>r w'. run_state (demo_create demo_env) fresh_world = (r, w')
     \<and> FsOp (OpSymlink ''/dev/disk/by-id/wwn-1'' ''/mnt/local-storage/sc/wwn-1'') None \<in> set (w_log w')
     \<and> log_ext (\<lambda>b. \<forall>p e. b \<noteq> FsOp (OpWipe p) e) fresh_world w'"
proof -
  let ?D = "dir ''/mnt/local-storage/sc/wwn-1''"
  obtain r w' where run: "run_state (demo_create demo_env) fresh_world = (r, w')" by fastforce
  obtain e1 w1 where mk: "run_state (do_mkdirall demo_env ?D) fresh_world = (e1, w1)" by fastforce
  obtain lock locked links lerr where lk: "GetPVCreationLock (host_at demo_env (w_clock w1) (tick demo_env w1))
      (fst (GetDevPath demo_device)) [dir ?D] = (lock, locked, links, lerr)" using prod_cases4 by blast
  have "FsOp (OpSymlink ''/dev/disk/by-id/wwn-1'' ''/mnt/local-storage/sc/wwn-1'') None
      \<in> set (w_log (snd (run_state (demo_create demo_env) fresh_world)))" by code_simp
  then have "FsOp (OpSymlink ''/dev/disk/by-id/wwn-1'' ''/mnt/local-storage/sc/wwn-1'') None \<in> set (w_log w')"
    using run by simp
  moreover have "log_ext (\<lambda>b. \<forall>p e. b \<noteq> FsOp (OpWipe p) e) fresh_world w'"
    by (rule log_ext_mono [OF lvset_link_needs_lock [OF run mk lk]]) (auto simp: link_swap_def)
  ultimately show ?thesis using run by blast
qed

definition claimed_world :: world where
  "claimed_world = fresh_world\<lparr>w_fs := ([''mnt'', ''local-storage'', ''other''], Dir)
     # ([''mnt'', ''local-storage'', ''other'', ''wwn-1''], Sym ''/dev/disk/by-id/wwn-1'') # fresh_fs\<rparr>"

definition find_fails :: env where
  "find_fails = demo_env\<lparr>e_cmd := (\<lambda>t c args. if c = ''find'' then ('''', Some (ExitError 1 ''find: permission denied'')) else ('''', None))\<rparr>"


section \<open>The limit on the number of devices\<close>

lemma symlinkedLoop_count:
  "symlinkedLoop h ds ps = Inr (c, nm) \<Longrightarrow>
   c = length (filter (\<lambda>p. \<exists>d \<in> set ds. PathEvalsToDiskLabel h p (bd_KName d) = Inr True) ps)
   \<and> nm = filter (\<lambda>p. \<not> (\<exists>d \<in> set ds. PathEvalsToDiskLabel h p (bd_KName d) = Inr True)) ps"
proof (induction ps arbitrary: c nm)
  case (Cons p ps)
  from Cons.prems obtain b c' nm' where b: "anyDeviceMatches h p ds = Inr b" and r: "symlinkedLoop h ds ps = Inr (c', nm')"
    and e: "(c, nm) = (if b then (Suc c', nm') else (c', p # nm'))"
    by (auto split: sum.splits if_splits)
  from Cons.IH [OF r] anyDeviceMatches_Inr [OF b] e show ?case by (auto split: if_splits)
qed simp

text \<open>The links of a directory that resolve to one of the devices.\<close>

definition provisioned_links :: "host \<Rightarrow> string \<Rightarrow> block_device list \<Rightarrow> string list" where
  "provisioned_links h symLinkDir ds =
     (case FilePathGlob h (path_join [symLinkDir, ''/*'']) of
        Inl e \<Rightarrow> []
      | Inr ps \<Rightarrow> filter (\<lambda>p. \<exists>d \<in> set ds. PathEvalsToDiskLabel h p (bd_KName d) = Inr True) ps)"

lemma getAlreadySymlinked_count:
  "getAlreadySymlinked h symLinkDir ds = Inr (c, nm) \<Longrightarrow> c = length (provisioned_links h symLinkDir ds)"
  by (auto simp: getAlreadySymlinked_def provisioned_links_def dest: symlinkedLoop_count split: sum.splits)

lemma int32_small: "n < 2 ^ 31 \<Longrightarrow> int32 n = int n"
  by (simp add: int32_def)

text \<open>
  C5: when a LocalVolumeSet limits the number of devices, \<^verbatim>\<open>processNewSymlink\<close> does nothing but report
  events unless, at the moment it counts them, the links of the directory that resolve to a device of
  the node can be counted and are fewer than the limit; so no link and no PV is created beyond it.
\<close>

theorem lvset_max_device_count:
  assumes "lvset_MaxDeviceCount lvset = Some m"
    and "run_state (lvset_processNewSymlink E lvset dev devs sc mm symLinkDir) w = (r, w')"
    and "h = host_at E (Suc (w_clock w)) (tick E (tick E w))"
    and "length (provisioned_links h symLinkDir devs) < 2 ^ 31"
  shows "int (length (provisioned_links h symLinkDir devs)) < m \<and> (\<exists>c nm. getAlreadySymlinked h symLinkDir devs = Inr (c, nm))
    \<or> log_ext (\<lambda>b. \<exists>o1 t rs msg. b = Event o1 t rs msg) w w'"
proof (rule disjCI)
  let ?P = "\<lambda>b. \<exists>o1 t rs msg. b = Event o1 t rs msg"
  let ?c = "getAlreadySymlinked h symLinkDir devs"
  assume many: "\<not> log_ext ?P w w'"
  have stop: "wp (lvset_processNewSymlink E lvset dev devs sc mm symLinkDir) (\<lambda>r w'. log_ext ?P w w') w"
    if "(case ?c of Inl _ \<Rightarrow> True | Inr _ \<Rightarrow> False) \<or> maxCountReached lvset ?c"
  proof -
    have ev: "log_ext ?P w v \<Longrightarrow> wp (do { _ \<leftarrow> lvset_report E obj e; State_Monad.return x }) (\<lambda>r w'. log_ext ?P w w') v" for obj e v and x :: "new_symlink_result result"
      by (erule log.wp_last) (intro log.rules log_reports, auto)
    have quiet: "log_ext ?P w (tick E w)" "log_ext ?P w (tick E (tick E w))" by (simp_all add: log_ext_def)
    show ?thesis
      unfolding lvset_processNewSymlink_def host_query_def wp_bind wp_query
      using that quiet ev assms(1,3)
      by (auto simp: wp_return wp_bind wp_query split: prod.split option.split sum.splits)
  qed
  show "int (length (provisioned_links h symLinkDir devs)) < m \<and> (\<exists>c nm. ?c = Inr (c, nm))"
  proof -
    have "\<not> ((case ?c of Inl _ \<Rightarrow> True | Inr _ \<Rightarrow> False) \<or> maxCountReached lvset ?c)"
      using wp_runD [OF stop assms(2)] many by blast
    with assms(1,4) show ?thesis
      by (cases ?c) (auto simp: maxCountReached_def dest!: getAlreadySymlinked_count simp: int32_small)
  qed
qed

theorem lvset_max_device_count_witness:
  "\<exists>r w'. run_state (lvset_processNewSymlink demo_env demo_lvset (demo_device\<lparr>bd_KName := ''sdb''\<rparr>)
        [demo_device, demo_device\<lparr>bd_KName := ''sdb''\<rparr>] demo_sc [] ''/mnt/local-storage/sc'') demo_world = (r, w')
     \<and> r = Inr \<lparr>ns_fastRequeue = False, ns_maxCountReached = True\<rparr>
     \<and> log_ext (\<lambda>b. \<exists>o1 t rs msg. b = Event o1 t rs msg) demo_world w'"
proof -
  let ?ds = "[demo_device, demo_device\<lparr>bd_KName := ''sdb''\<rparr>]"
  let ?m = "lvset_processNewSymlink demo_env demo_lvset (demo_device\<lparr>bd_KName := ''sdb''\<rparr>) ?ds demo_sc [] ''/mnt/local-storage/sc''"
  let ?h = "host_at demo_env (Suc (w_clock demo_world)) (tick demo_env (tick demo_env demo_world))"
  obtain r w' where run: "run_state ?m demo_world = (r, w')" by fastforce
  have m: "lvset_MaxDeviceCount demo_lvset = Some 1" by (simp add: demo_lvset_def)
  have r: "fst (run_state ?m demo_world) = Inr \<lparr>ns_fastRequeue = False, ns_maxCountReached = True\<rparr>" by code_simp
  have l: "length (provisioned_links ?h ''/mnt/local-storage/sc'' ?ds) = 1" by code_simp
  then have "length (provisioned_links ?h ''/mnt/local-storage/sc'' ?ds) < 2 ^ 31" by simp
  from lvset_max_device_count [OF m run refl this] l r run show ?thesis by auto
qed


section \<open>The effects of a reconcile\<close>

lemma keeps_data_lvset_link: "lvset_link_action src path b \<Longrightarrow> keeps_data b"
  by (auto simp: lvset_link_action_def keeps_data_def no_loss_def link_swap_def sync_action_def split: action.splits)

lemma log_refreshNotPreferred: "always (log_ext keeps_data) (refreshNotPreferred E dev e)"
  unfolding refreshNotPreferred_def
  by (intro controller_log log_refresh)

lemma log_reportFailure: "always (log_ext keeps_data) (reportProvisioningFailure E lvset d e)"
  unfolding reportProvisioningFailure_def by (intro controller_log) simp

lemma log_lvset_syncExisting: "always (log_ext keeps_data) (syncExistingPVAndLVDL E obj dev sc mm path)"
  by (rule log_syncExisting_within) (rule keeps_data_sync)

lemma log_recoverLink: "always (log_ext keeps_data) (lvset_recoverLink E lvset dev sc mm d info src)"
  unfolding lvset_recoverLink_def
  by (intro controller_log log_refreshNotPreferred log_reportFailure log_lvset_syncExisting)

lemma log_newLink: "always (log_ext keeps_data) (lvset_newLink E lvset dev sc mm src path)"
  unfolding lvset_newLink_def
  by (intro controller_log always_log_mono [OF log_createSymlink keeps_data_lvset_link]) simp_all

lemma log_processNew: "always (log_ext keeps_data) (lvset_processNewSymlink E lvset dev devs sc mm d)"
  unfolding lvset_processNewSymlink_def
  by (intro controller_log; (split bool.split)?; (intro conjI impI controller_log log_reportFailure log_recoverLink log_newLink)?; simp)

lemma log_processRejected: "always (log_ext keeps_data) (lvset_processRejected E lvset d sc dev)"
  unfolding lvset_processRejected_def FindLVDL_def
  by (intro controller_log log_refreshNotPreferred log_Recreate_keeps
      log_ApplyStatus_keeps) simp_all

lemma log_validLoop: "always (log_ext keeps_data) (lvset_validLoop E lvset devs sc mm d ds rq)"
  by (induction ds arbitrary: rq) (auto intro!: controller_log log_lvset_syncExisting log_processNew simp: Let_def)

lemma log_runFilters: "always (log_ext P) (runFilters E fs dev)"
  by (induction E fs dev rule: runFilters.induct) (auto intro!: log.rules)

lemma log_getValid: "always (log_ext keeps_data) (getValidDevices E lvset ds)"
  by (induction ds) (auto simp: classifyDevice_def intro!: controller_log log_runFilters log_ages)

lemma log_provision: "always (log_ext keeps_data) (lvset_provision E lvset)"
  unfolding lvset_provision_def lvset_finish_def lvset_processRejectedDevicesForDeviceLinks_def
  by (intro controller_log log_getValid log_validLoop log_processRejected) simp_all


text \<open>What a reconcile may do, by the state of its object.\<close>

definition lvset_effects :: "local_volume_set \<Rightarrow> action \<Rightarrow> bool" where
  "lvset_effects lvset b \<longleftrightarrow>
     (if om_DeletionTimestamp (lvset_meta lvset) = None then keeps_data b
      else bookkeeping b \<or> cleanup_action (lvset_ownerLabels lvset) True b)"

lemma log_cleanup_and_provision: "always (log_ext (lvset_effects lvset)) (lvset_cleanup_and_provision E lvset)"
proof -
  let ?P = "lvset_effects lvset"
  have book: "bookkeeping b \<Longrightarrow> ?P b" for b by (simp add: lvset_effects_def)
  have clean: "cleanup_action (lvset_ownerLabels lvset) (om_DeletionTimestamp (lvset_meta lvset) \<noteq> None) b \<Longrightarrow> ?P b" for b
    by (cases "om_DeletionTimestamp (lvset_meta lvset)") (auto simp: lvset_effects_def keeps_data_cleanup)
  have prov: "always (log_ext ?P) (lvset_provision E lvset)" if "om_DeletionTimestamp (lvset_meta lvset) = None"
    by (rule always_log_mono [OF log_provision]) (simp add: lvset_effects_def that)
  show ?thesis
    unfolding lvset_cleanup_and_provision_def lvset_deletion_def
    by (intro controller_log log_delete_pvs log_Cleanup_within clean prov book bookkeeping_simps)
qed

text \<open>What the steps after the lookup may do, the whole reconcile may do.\<close>

lemma lvset_Reconcile_log:
  assumes run: "\<And>lvset. always (log_ext (P lvset)) (lvset_cleanup_and_provision E lvset)"
  shows "case e_get_lvset E (w_clock w) request of
      Inl e \<Rightarrow> w_log (snd (run_state (lvset_Reconcile E request) w)) = w_log w
    | Inr lvset \<Rightarrow> log_ext (P lvset) w (snd (run_state (lvset_Reconcile E request) w))"
proof -
  have quiet: "log_ext P w (tick E w)" for P by (simp add: log_ext_def)
  have "wp (lvset_Reconcile E request) (\<lambda>r w'. case e_get_lvset E (w_clock w) request of
      Inl e \<Rightarrow> w_log w' = w_log w | Inr lvset \<Rightarrow> log_ext (P lvset) w w') w"
  proof (cases "e_get_lvset E (w_clock w) request")
    case (Inl e)
    then show ?thesis
      unfolding lvset_Reconcile_def get_lvset_def wp_bind wp_query by (auto simp: wp_return stop_with_def)
  next
    case (Inr lvset)
    show ?thesis
      unfolding lvset_Reconcile_def get_lvset_def
      by (rule wp_bindI, unfold wp_query Inr sum.case, rule log.wp_last [OF quiet],
          intro controller_log log_Reload log_syncCaches run)
  qed
  then show ?thesis by (simp add: wp_def case_prod_unfold)
qed


end
