(* ===== verification/Assets.thy ===== *)
theory Assets
  imports World
begin

text \<open>
  The embedded manifests, \<^verbatim>\<open>assets/assets.go\<close>: a file is read, its placeholders are replaced with
  \<^verbatim>\<open>strings.Replacer\<close>, and the text is decoded. The files and the YAML decoders are parameters of the environment; the
  replacement is modelled as the Go library does it, and shown to be substitution on templates.
\<close>

section \<open>The replacer\<close>

text \<open>
  The generic algorithm of \<^verbatim>\<open>strings.Replacer\<close>: at each position the first pair, in the order of the
  arguments, whose old string is found there is used; the text that was put in is not looked at again. An empty old string is found
  at each position once (\<open>ignoreEmpty\<close>).
\<close>

definition lookup_key :: "smap \<Rightarrow> bool \<Rightarrow> string \<Rightarrow> (string \<times> string) option" where
  "lookup_key pairs ignoreEmpty s = find (\<lambda>(k, v). (k \<noteq> [] \<or> \<not> ignoreEmpty) \<and> has_prefix s k) pairs"

lemma lookup_key_Some: "lookup_key pairs i s = Some (k, v) \<Longrightarrow> (k \<noteq> [] \<or> \<not> i) \<and> has_prefix s k \<and> (k, v) \<in> set pairs"
  unfolding lookup_key_def by (drule find_Some_D) auto

lemma has_prefix_length: "has_prefix s k \<Longrightarrow> length k \<le> length s"
  by (induction s k rule: has_prefix.induct) auto

function replaceFrom :: "smap \<Rightarrow> bool \<Rightarrow> string \<Rightarrow> string" where
  "replaceFrom pairs ignoreEmpty s =
     (case lookup_key pairs ignoreEmpty s of
        Some (k, v) \<Rightarrow> v @ replaceFrom pairs (k = []) (drop (length k) s)
      | None \<Rightarrow> (case s of [] \<Rightarrow> [] | c # cs \<Rightarrow> c # replaceFrom pairs False cs))"
  by pat_completeness auto

termination
proof (relation "measure (\<lambda>(pairs, i, s). 2 * length s + (if i then 0 else 1))")
  fix pairs i s a k v
  assume "lookup_key pairs i s = Some a" "(k, v) = a"
  then have "k \<noteq> [] \<or> \<not> i" "has_prefix s k" using lookup_key_Some by blast+
  with has_prefix_length [of s k] show "((pairs, k = [], drop (length k) s), pairs, i, s) \<in> measure (\<lambda>(pairs, i, s). 2 * length s + (if i then 0 else 1))"
    by (cases k) auto
qed auto

declare replaceFrom.simps [simp del]

definition Replace :: "smap \<Rightarrow> string \<Rightarrow> string" where
  "Replace pairs s = replaceFrom pairs False s"

section \<open>Reading manifests\<close>

definition ReadFile :: "env \<Rightarrow> string \<Rightarrow> string result" where
  "ReadFile E name = e_asset E name"

definition ReadFileAndReplace :: "env \<Rightarrow> string \<Rightarrow> smap \<Rightarrow> string result" where
  "ReadFileAndReplace E name pairs =
     (case ReadFile E name of
        Inl e \<Rightarrow> Inl e
      | Inr fileBytes \<Rightarrow> Inr (Replace pairs fileBytes))"

text \<open>The decoders that panic on malformed input.\<close>

definition orDie :: "'a option \<Rightarrow> 'a result" where
  "orDie r = (case r of None \<Rightarrow> Inl (Panic ''malformed manifest'') | Some x \<Rightarrow> Inr x)"

definition readManifest :: "env \<Rightarrow> (string \<Rightarrow> 'a option) \<Rightarrow> string \<Rightarrow> smap \<Rightarrow> 'a result" where
  "readManifest E decode name pairs =
     (case ReadFileAndReplace E name pairs of
        Inl e \<Rightarrow> Inl e
      | Inr b \<Rightarrow> orDie (decode b))"

lemmas manifest_defs = readManifest_def ReadFileAndReplace_def ReadFile_def orDie_def

definition LocalVolumeStorageClassTemplate :: string where
  "LocalVolumeStorageClassTemplate = ''templates/localvolume-storageclass.yaml''"
definition LocalProvisionerConfigMapTemplate :: string where
  "LocalProvisionerConfigMapTemplate = ''templates/local-provisioner-configmap.yaml''"
definition DiskMakerManagerDaemonSetTemplate :: string where
  "DiskMakerManagerDaemonSetTemplate = ''templates/diskmaker-manager-daemonset.yaml''"
definition DiskMakerDiscoveryDaemonSetTemplate :: string where
  "DiskMakerDiscoveryDaemonSetTemplate = ''templates/diskmaker-discovery-daemonset.yaml''"
definition MetricsServiceTemplate :: string where
  "MetricsServiceTemplate = ''templates/localmetrics/service.yaml''"
definition MetricsServiceMonitorTemplate :: string where
  "MetricsServiceMonitorTemplate = ''templates/localmetrics/service-monitor.yaml''"
definition PrometheusRuleTemplate :: string where
  "PrometheusRuleTemplate = ''templates/localmetrics/prometheus-rule.yaml''"

section \<open>Replacement is substitution\<close>

text \<open>
  A template is a sequence of text and of placeholders. Its placeholders start with a dollar sign and end with a
  brace, the only ones in them, and so do the old strings of the pairs.
\<close>

datatype piece = Text string | Placeholder string

fun source_text :: "piece \<Rightarrow> string" where
  "source_text (Text s) = s"
| "source_text (Placeholder k) = ''${'' @ k @ ''}''"

fun filled :: "smap \<Rightarrow> piece \<Rightarrow> string" where
  "filled vals (Text s) = s"
| "filled vals (Placeholder k) = (case map_of vals k of Some v \<Rightarrow> v | None \<Rightarrow> ''${'' @ k @ ''}'')"

definition placeholder_name :: "string \<Rightarrow> bool" where
  "placeholder_name k \<longleftrightarrow> CHR ''$'' \<notin> set k \<and> CHR ''}'' \<notin> set k"

fun plain_piece :: "piece \<Rightarrow> bool" where
  "plain_piece (Text s) \<longleftrightarrow> CHR ''$'' \<notin> set s"
| "plain_piece (Placeholder k) \<longleftrightarrow> placeholder_name k"

definition placeholder_pairs :: "smap \<Rightarrow> smap" where
  "placeholder_pairs vals = map (\<lambda>(k, v). (''${'' @ k @ ''}'', v)) vals"

lemma takeWhile_brace: "CHR ''}'' \<notin> set k \<Longrightarrow> takeWhile (\<lambda>c. c \<noteq> CHR ''}'') (k @ CHR ''}'' # r) = k"
  by (induction k) auto

lemma same_placeholder:
  assumes "placeholder_name k" "placeholder_name k'" "has_prefix (k @ ''}'' @ r) (k' @ ''}'')"
  shows "k = k'"
proof -
  from assms(3) obtain r' where "k @ CHR ''}'' # r = k' @ CHR ''}'' # r'" by (auto simp: has_prefix_iff)
  moreover have "takeWhile (\<lambda>c. c \<noteq> CHR ''}'') (k @ CHR ''}'' # r) = k" "takeWhile (\<lambda>c. c \<noteq> CHR ''}'') (k' @ CHR ''}'' # r') = k'"
    using assms(1,2) by (simp_all add: placeholder_name_def takeWhile_brace)
  ultimately show ?thesis by metis
qed

lemma find_placeholder:
  assumes "placeholder_name k" "list_all (\<lambda>(k, v). placeholder_name k) vals"
  shows "lookup_key (placeholder_pairs vals) i (''${'' @ k @ ''}'' @ r) = map_option (\<lambda>v. (''${'' @ k @ ''}'', v)) (map_of vals k)"
  using assms(2)
proof (induction vals)
  case (Cons p vals)
  obtain k' v where p: "p = (k', v)" by (cases p)
  have "has_prefix (''${'' @ k @ ''}'' @ r) (''${'' @ k' @ ''}'') \<longleftrightarrow> k = k'"
    using same_placeholder [OF assms(1), of k' r] Cons.prems by (auto simp: p has_prefix_iff)
  with Cons show ?case by (simp add: p lookup_key_def placeholder_pairs_def)
qed (simp add: lookup_key_def placeholder_pairs_def)

lemma no_placeholder: "c \<noteq> CHR ''$'' \<Longrightarrow> lookup_key (placeholder_pairs vals) i (c # s) = None"
  by (induction vals) (auto simp: lookup_key_def placeholder_pairs_def)

lemma replace_text: "CHR ''$'' \<notin> set t \<Longrightarrow> replaceFrom (placeholder_pairs vals) i (t @ s) =
    (if t = [] then replaceFrom (placeholder_pairs vals) i s else t @ replaceFrom (placeholder_pairs vals) False s)"
proof (induction t arbitrary: i)
  case (Cons c t)
  then have "lookup_key (placeholder_pairs vals) i (c # t @ s) = None" by (intro no_placeholder) auto
  with Cons show ?case by (subst replaceFrom.simps) simp
qed simp


lemma replace_missing:
  assumes "lookup_key (placeholder_pairs vals) i (''${'' @ k @ ''}'' @ s) = None" "placeholder_name k"
  shows "replaceFrom (placeholder_pairs vals) i (''${'' @ k @ ''}'' @ s) = ''${'' @ k @ ''}'' @ replaceFrom (placeholder_pairs vals) False s"
proof -
  have "replaceFrom (placeholder_pairs vals) False ((''{'' @ k @ ''}'') @ s) = (''{'' @ k @ ''}'') @ replaceFrom (placeholder_pairs vals) False s"
    using assms(2) by (subst replace_text) (auto simp: placeholder_name_def)
  with assms(1) show ?thesis by (subst replaceFrom.simps) simp
qed

lemma replace_pieces:
  assumes "list_all plain_piece ps" "list_all (\<lambda>(k, v). placeholder_name k) vals"
  shows "replaceFrom (placeholder_pairs vals) False (concat (map source_text ps)) = concat (map (filled vals) ps)"
  using assms(1)
proof (induction ps)
  case Nil
  have "lookup_key (placeholder_pairs vals) False [] = None"
    by (induction vals) (auto simp: lookup_key_def placeholder_pairs_def)
  then show ?case by (subst replaceFrom.simps) simp
next
  case (Cons p ps)
  let ?rest = "concat (map source_text ps)"
  have ih: "replaceFrom (placeholder_pairs vals) False ?rest = concat (map (filled vals) ps)" using Cons by simp
  show ?case
  proof (cases p)
    case (Text t)
    with Cons.prems have "CHR ''$'' \<notin> set t" by simp
    from replace_text [OF this, of vals False ?rest] ih show ?thesis by (simp add: Text)
  next
    case (Placeholder k)
    then have k: "placeholder_name k" using Cons.prems by simp
    note found = find_placeholder [OF k assms(2), of False ?rest]
    show ?thesis
    proof (cases "map_of vals k")
      case None
      with found replace_missing [OF _ k, of vals False ?rest] ih show ?thesis by (simp add: Placeholder)
    next
      case (Some v)
      with found have "lookup_key (placeholder_pairs vals) False (''${'' @ k @ ''}'' @ ?rest) = Some (''${'' @ k @ ''}'', v)" by simp
      then have "replaceFrom (placeholder_pairs vals) False (''${'' @ k @ ''}'' @ ?rest) = v @ replaceFrom (placeholder_pairs vals) False ?rest"
        by (subst replaceFrom.simps) simp
      with Some ih show ?thesis by (simp add: Placeholder)
    qed
  qed
qed

text \<open>
  Filling in a manifest is substitution: every placeholder that the pairs name is replaced by its value, all other
  text stays as it is, and nothing in a value is taken for a placeholder again, whatever the value is.
\<close>

theorem read_file_and_replace:
  assumes "e_asset E name = Inr (concat (map source_text ps))" "list_all plain_piece ps" "list_all (\<lambda>(k, v). placeholder_name k) vals"
  shows "ReadFileAndReplace E name (placeholder_pairs vals) = Inr (concat (map (filled vals) ps))"
  using assms(1) replace_pieces [OF assms(2,3)] by (simp add: ReadFileAndReplace_def ReadFile_def Replace_def)

text \<open>The manifest of a storage class, \<^verbatim>\<open>templates/localvolume-storageclass.yaml\<close>.\<close>

definition nl :: string where "nl = [CHR 0x0A]"

definition storageclass_manifest :: "piece list" where
  "storageclass_manifest = [Text (''apiVersion: storage.k8s.io/v1'' @ nl @ ''kind: StorageClass'' @ nl @ ''metadata:'' @ nl @ ''  name: ''),
     Placeholder ''OBJECT_NAME'', Text (nl @ ''provisioner: kubernetes.io/no-provisioner'' @ nl @ ''reclaimPolicy: Delete'' @ nl
       @ ''volumeBindingMode: WaitForFirstConsumer'' @ nl)]"

theorem read_file_and_replace_witness:
  "ReadFileAndReplace (demo_env\<lparr>e_asset := (\<lambda>f. Inr (concat (map source_text storageclass_manifest)))\<rparr>) LocalVolumeStorageClassTemplate
     [(''${OBJECT_NAME}'', ''${OBJECT_NAME}'')] = Inr (concat (map source_text storageclass_manifest))"
proof -
  let ?E = "demo_env\<lparr>e_asset := (\<lambda>f. Inr (concat (map source_text storageclass_manifest)))\<rparr>"
  have a: "e_asset ?E LocalVolumeStorageClassTemplate = Inr (concat (map source_text storageclass_manifest))" by simp
  have b: "list_all plain_piece storageclass_manifest" "list_all (\<lambda>(k, v). placeholder_name k) [(''OBJECT_NAME'', ''${OBJECT_NAME}'')]" by code_simp+
  have c: "placeholder_pairs [(''OBJECT_NAME'', ''${OBJECT_NAME}'')] = [(''${OBJECT_NAME}'', ''${OBJECT_NAME}'')]"
    "concat (map (filled [(''OBJECT_NAME'', ''${OBJECT_NAME}'')]) storageclass_manifest) = concat (map source_text storageclass_manifest)" by code_simp+
  from read_file_and_replace [OF a b] c show ?thesis by metis
qed

end
