(* ===== verification/Operator.thy ===== *)
theory Operator
  imports Controllers Assets
begin

text \<open>
  What the controllers of the operator share: \<^verbatim>\<open>pkg/common/finalizer_util.go\<close> (the PVs an object owns
  and their release), \<^verbatim>\<open>pkg/common/resourceapply.go\<close> (storage classes), the ownership labels, and the
  contract of the protection finalizer that both controllers fulfil. An object is protected by its
  finalizer while PVs that carry its labels exist.
\<close>

section \<open>Labels and errors\<close>

definition OwnerNamespaceLabel :: string where "OwnerNamespaceLabel = ''local.storage.openshift.io/owner-namespace''"
definition OwnerNameLabel :: string where "OwnerNameLabel = ''local.storage.openshift.io/owner-name''"
definition OwnerKindLabel :: string where "OwnerKindLabel = ''local.storage.openshift.io/owner-kind''"

definition empty_meta :: obj_meta where
  "empty_meta = \<lparr>om_Name = '''', om_Namespace = '''', om_UID = '''', om_Labels = [], om_Annotations = [], om_Finalizers = [],
     om_OwnerReferences = [], om_CreationTimestamp = None, om_DeletionTimestamp = None, om_Generation = 0\<rparr>"

definition DiskMakerName :: string where "DiskMakerName = ''diskmaker-manager''"

text \<open>Decimal digits, as \<^verbatim>\<open>fmt\<close> prints an integer.\<close>

fun show_nat :: "nat \<Rightarrow> string" where
  "show_nat n = (if n < 10 then [char_of (48 + n)] else show_nat (n div 10) @ [char_of (48 + n mod 10)])"

declare show_nat.simps [simp del]

definition show_int :: "int \<Rightarrow> string" where
  "show_int i = (if i < 0 then CHR ''-'' # show_nat (nat (- i)) else show_nat (nat i))"

text \<open>\<^verbatim>\<open>NewAggregate\<close> of the apimachinery: nil for no error; repeated texts are shown once.\<close>

definition NewAggregate :: "error list \<Rightarrow> error option" where
  "NewAggregate errs =
     (if errs = [] then None
      else let texts = rev (remdups (rev (map err_text errs)))
           in Some (Errorf (if length texts = 1 then hd texts else ''['' @ join_str '', '' texts @ '']'')))"

section \<open>PVs owned by an object\<close>

definition ownerSelector :: "owner \<Rightarrow> smap" where
  "ownerSelector obj =
     [(PVOwnerKindLabel, fst (owner_gvk obj)), (PVOwnerNameLabel, om_Name (owner_meta obj)),
      (PVOwnerNamespaceLabel, om_Namespace (owner_meta obj))]"

definition unnamed :: "owner \<Rightarrow> bool" where
  "unnamed obj \<longleftrightarrow> om_Name (owner_meta obj) = '''' \<or> om_Namespace (owner_meta obj) = '''' \<or> fst (owner_gvk obj) = ''''"

definition GetOwnedPVs :: "env \<Rightarrow> owner \<Rightarrow> pv list result prog" where
  "GetOwnedPVs E obj =
     (if unnamed obj then State_Monad.return (Inl (Errorf ''name, namespace or kind is empty''))
      else wrapE (Wrapf ''failed to list persistent volumes: '') (list_pv E (ownerSelector obj)))"

text \<open>An Available PV nobody claims gets a claim that does not exist, so that it becomes Released.\<close>

definition releasable :: "pv \<Rightarrow> bool" where
  "releasable p \<longleftrightarrow> pv_ReclaimPolicy p \<noteq> ReclaimRetain \<and> pv_Phase p = VolumeAvailable \<and> pv_ClaimRef p = None"

definition releasedPV :: "string \<Rightarrow> string \<Rightarrow> pv \<Rightarrow> pv" where
  "releasedPV namespace uid p =
     p\<lparr>pv_ClaimRef := Some \<lparr>cr_UID = uid, cr_Namespace = namespace, cr_Name = ''release-'' @ uid\<rparr>\<rparr>"

definition releaseOne :: "env \<Rightarrow> string \<Rightarrow> pv \<Rightarrow> error option prog" where
  "releaseOne E namespace p =
     (if pv_ReclaimPolicy p = ReclaimRetain then State_Monad.return None
      else if pv_Phase p = VolumeAvailable \<and> pv_ClaimRef p = None then do {
        uid \<leftarrow> query E (\<lambda>t w. e_uuid E t);
        err \<leftarrow> api E (UpdatePV (releasedPV namespace uid p));
        State_Monad.return (case err of
            None \<Rightarrow> None
          | Some e \<Rightarrow> Some (Wrapf (''failed to set ClaimRef for persistent volume '' @ pv_Name p @ '': '') e))
      }
      else State_Monad.return None)"

definition ReleaseAvailablePVs :: "env \<Rightarrow> owner \<Rightarrow> error option prog" where
  "ReleaseAvailablePVs E obj =
     (if unnamed obj then State_Monad.return (Some (Errorf ''name, namespace or kind is empty''))
      else do {
        l \<leftarrow> list_pv E (ownerSelector obj);
        (case l of
           Inl e \<Rightarrow> State_Monad.return (Some (Wrapf ''failed to list persistent volumes: '' e))
         | Inr items \<Rightarrow> do {
             r \<leftarrow> forM items (releaseOne E (om_Namespace (owner_meta obj)));
             State_Monad.return (case r of
                 Some e \<Rightarrow> Some e
               | None \<Rightarrow>
                   if list_ex (\<lambda>p. pv_ReclaimPolicy p = ReclaimRetain) items
                   then Some (Errorf (fst (owner_gvk obj) @ '' object '' @ om_Namespace (owner_meta obj) @ ''/''
                          @ om_Name (owner_meta obj) @ '' has persistent volumes with Retain reclaim policy blocking deletion''))
                   else None)
           })
      })"

section \<open>Storage classes\<close>

text \<open>
  \<^verbatim>\<open>ApplyStorageClass\<close>: the merge of metadata is the resource library's (\<open>e_ensure_meta\<close>). Of the result
  the callers use the error only.
\<close>

definition mergedStorageClass :: "env \<Rightarrow> storage_class \<Rightarrow> storage_class \<Rightarrow> bool \<times> storage_class" where
  "mergedStorageClass E required existing =
     (let (c1, m) = e_ensure_meta E (sc_meta existing) (sc_meta required);
          x1 = existing\<lparr>sc_meta := m\<rparr>;
          c2 = (c1 \<or> sc_MountOptions required \<noteq> sc_MountOptions x1);
          x2 = x1\<lparr>sc_MountOptions := sc_MountOptions required\<rparr>;
          c3 = (c2 \<or> sc_AllowedTopologies x2 \<noteq> sc_AllowedTopologies required)
      in (c3, x2\<lparr>sc_AllowedTopologies := sc_AllowedTopologies required\<rparr>))"

definition ApplyStorageClass :: "env \<Rightarrow> storage_class \<Rightarrow> error option prog" where
  "ApplyStorageClass E required = do {
     g \<leftarrow> get_sc E (sc_Name required);
     (case g of
        Inl e \<Rightarrow> if IsNotFound e then api E (CreateStorageClass required) else State_Monad.return (Some e)
      | Inr existing \<Rightarrow>
          (let (changed, merged) = mergedStorageClass E required existing
           in if \<not> changed then State_Monad.return None else api E (UpdateStorageClass merged)))
   }"


section \<open>Runs with their time\<close>

text \<open>The log grows by permitted actions only, and the clock does not go back.\<close>

definition timed :: "(action \<Rightarrow> bool) \<Rightarrow> world \<Rightarrow> world \<Rightarrow> bool" where
  "timed P w w' \<longleftrightarrow> log_ext P w w' \<and> w_clock w \<le> w_clock w'"

interpretation timed: step_order "timed P" for P
  by unfold_locales (auto simp: timed_def log.R_refl intro: log.R_trans)

lemma timed_log: "timed P w w' \<Longrightarrow> log_ext P w w'"
  by (simp add: timed_def)

lemma timed_mono: "timed P w w' \<Longrightarrow> (\<And>b. P b \<Longrightarrow> Q b) \<Longrightarrow> timed Q w w'"
  by (auto simp: timed_def intro: log_ext_mono)

lemma always_timed_mono: "always (timed P) m \<Longrightarrow> (\<And>b. P b \<Longrightarrow> Q b) \<Longrightarrow> always (timed Q) m"
  by (auto simp: always_def intro: timed_mono)

lemma always_timed_log: "always (timed P) m \<Longrightarrow> always (log_ext P) m"
  by (auto simp: always_def timed_def)

lemma timed_query [simp, intro]: "always (timed P) (query E f)"
  by (simp add: always_def query_def timed_def log_ext_def Let_def)

lemma timed_queries [simp, intro]:
  "always (timed P) (get_pv E n)" "always (timed P) (list_pv E s)" "always (timed P) (get_lv E nn)"
  "always (timed P) (get_lvset E nn)" "always (timed P) (get_sc E n)" "always (timed P) (list_sc E s)"
  "always (timed P) (now E)"
  by (simp_all add: query_defs)

lemma timed_api [intro]: "(\<And>r. P (Api c r)) \<Longrightarrow> always (timed P) (api E c)"
  by (simp add: always_def api_def timed_def log_ext_def Let_def)

lemma timed_event [intro]: "P (Event obj ty reason msg) \<Longrightarrow> always (timed P) (record_event obj ty reason msg)"
  by (simp add: always_def record_event_def timed_def log_ext_def)

lemma timed_modify: "(\<And>w. w_log (f w) = w_log w) \<Longrightarrow> (\<And>w. w_clock (f w) = w_clock w) \<Longrightarrow> always (timed P) (modify f)"
  by (simp add: always_def timed_def log_ext_def)

lemmas operator_rules = timed.rules timed_query timed_queries timed_api timed_event

text \<open>A program that looks an object up and acts on what it found.\<close>

lemma timed_lookup:
  assumes "\<And>t. always (timed P) (k (g t))"
  shows "always (timed P) (State_Monad.bind (query E (\<lambda>t w. g t)) k)"
proof -
  have "wp (State_Monad.bind (query E (\<lambda>t w. g t)) k) (\<lambda>r w'. timed P w w') w" for w
    unfolding wp_bind wp_query
    by (rule timed.wp_last) (auto simp: timed_def log_ext_def intro: assms)
  then show ?thesis by (simp add: always_def wp_def case_prod_unfold)
qed

lemma timed_stop [simp, intro]: "always (timed P) (stop_with e)"
  unfolding stop_with_def by (rule timed.ret)

section \<open>Release of PVs\<close>

text \<open>What a release may do: give a listed, releasable PV a claim that no object answers.\<close>

definition release_of :: "env \<Rightarrow> nat \<Rightarrow> owner \<Rightarrow> action \<Rightarrow> bool" where
  "release_of E t obj b \<longleftrightarrow> (\<exists>items p uid e. e_list_pv E t (ownerSelector obj) = Inr items \<and> p \<in> set items \<and> releasable p
     \<and> b = Api (UpdatePV (releasedPV (om_Namespace (owner_meta obj)) uid p)) e)"

lemma timed_releaseOne:
  "(\<And>uid e. releasable p \<Longrightarrow> P (Api (UpdatePV (releasedPV ns uid p)) e)) \<Longrightarrow> always (timed P) (releaseOne E ns p)"
  unfolding releaseOne_def by (intro operator_rules) (simp add: releasable_def)

lemma timed_Release:
  assumes "\<And>t b. release_of E t obj b \<Longrightarrow> P b"
  shows "always (timed P) (ReleaseAvailablePVs E obj)"
proof -
  have "wp (ReleaseAvailablePVs E obj) (\<lambda>r w'. timed P w w') w" for w
  proof (cases "unnamed obj")
    case True
    then show ?thesis by (simp add: ReleaseAvailablePVs_def wp_return timed.R_refl)
  next
    case False
    have tick: "timed P w (tick E w)" by (simp add: timed_def log_ext_def)
    have loop: "always (timed P) (forM items (releaseOne E (om_Namespace (owner_meta obj))))"
      if "e_list_pv E (w_clock w) (ownerSelector obj) = Inr items" for items
    proof (rule timed.forM, rule timed_releaseOne)
      fix p uid e assume "p \<in> set items" "releasable p"
      with that show "P (Api (UpdatePV (releasedPV (om_Namespace (owner_meta obj)) uid p)) e)"
        by (intro assms [of "w_clock w"]) (auto simp: release_of_def)
    qed
    show ?thesis
      unfolding ReleaseAvailablePVs_def list_pv_def
      using False tick
      by (auto simp: wp_bind [of "query E f" for f] wp_query wp_return split: sum.split
          intro!: timed.wp_last timed.bind timed.ret loop)
  qed
  then show ?thesis by (simp add: always_def wp_def case_prod_unfold)
qed

lemma timed_GetOwned [simp, intro]: "always (timed P) (GetOwnedPVs E obj)"
  unfolding GetOwnedPVs_def by (intro operator_rules)

text \<open>A loop that ends without an error has run its body without an error on every element.\<close>

lemma release_loop_done:
  "wp (forM items (releaseOne E ns)) (\<lambda>r w'. r = None \<longrightarrow>
     (\<forall>p \<in> set items. releasable p \<longrightarrow> (\<exists>uid. newly w w' (Api (UpdatePV (releasedPV ns uid p)) None)))) w"
proof (induction items arbitrary: w)
  case Nil
  show ?case by (simp add: wp_return)
next
  case (Cons p items)
  have one: "wp (releaseOne E ns p) (\<lambda>r w'. r = None \<longrightarrow> releasable p \<longrightarrow>
      (\<exists>uid. newly w w' (Api (UpdatePV (releasedPV ns uid p)) None))) w"
    unfolding releaseOne_def
    by (auto simp: wp_simps releasable_def split: option.splits
        intro!: exI [of _ "e_uuid E (w_clock w)"] newlyI1)
  have grow: "always (log_ext (\<lambda>_. True)) (releaseOne E ns q)" for q
    by (rule always_timed_log [OF timed_releaseOne]) simp
  have loop: "always (log_ext (\<lambda>_. True)) (forM items (releaseOne E ns))"
    by (rule log.forM) (rule grow)
  have first: "log_ext (\<lambda>_. True) w w1" if "run_state (releaseOne E ns p) w = (r, w1)" for r w1
    by (rule always_run [OF grow that])
  show ?case
  proof (rule wp_runI)
    fix r w'
    assume run: "run_state (forM (p # items) (releaseOne E ns)) w = (r, w')"
    obtain r1 w1 where r1: "run_state (releaseOne E ns p) w = (r1, w1)" by fastforce
    show "r = None \<longrightarrow> (\<forall>q \<in> set (p # items). releasable q \<longrightarrow> (\<exists>uid. newly w w' (Api (UpdatePV (releasedPV ns uid q)) None)))"
    proof (cases r1)
      case None
      with run r1 have rest: "run_state (forM items (releaseOne E ns)) w1 = (r, w')" by simp
      show ?thesis
        using wp_runD [OF one r1] None wp_runD [OF Cons.IH rest] first [OF r1] always_run [OF loop rest]
        by (auto intro: newly_later newly_earlier) (meson newly_earlier newly_later)+
    qed (use run r1 in auto)
  qed
qed


text \<open>
  C16: releasing the PVs of an object that is being deleted touches nothing but PVs that carry its
  labels, are Available, unclaimed and not to be retained, and changes nothing of them but the claim;
  when it reports no error, no PV of the object is to be retained and every releasable one has been
  given up.
\<close>

theorem release_available_pvs:
  assumes "run_state (ReleaseAvailablePVs E obj) w = (r, w')"
  shows "log_ext (release_of E (w_clock w) obj) w w' \<and>
    (r = None \<longrightarrow> (\<exists>items. e_list_pv E (w_clock w) (ownerSelector obj) = Inr items
       \<and> (\<forall>p \<in> set items. pv_ReclaimPolicy p \<noteq> ReclaimRetain)
       \<and> (\<forall>p \<in> set items. releasable p \<longrightarrow>
            (\<exists>uid. newly w w' (Api (UpdatePV (releasedPV (om_Namespace (owner_meta obj)) uid p)) None)))))"
proof (cases "unnamed obj")
  case True
  with assms show ?thesis by (auto simp: ReleaseAvailablePVs_def log.R_refl)
next
  case False
  let ?ns = "om_Namespace (owner_meta obj)"
  show ?thesis
  proof (cases "e_list_pv E (w_clock w) (ownerSelector obj)")
    case (Inl e)
    have "wp (ReleaseAvailablePVs E obj) (\<lambda>r w'. r \<noteq> None \<and> log_ext (\<lambda>_. False) w w') w"
      unfolding ReleaseAvailablePVs_def list_pv_def using False Inl by (simp add: wp_simps)
    from wp_runD [OF this assms] show ?thesis by (auto simp: log_ext_def)
  next
    case (Inr items)
    have loop: "always (log_ext (release_of E (w_clock w) obj)) (forM items (releaseOne E ?ns))"
      by (rule log.forM, rule always_timed_log, rule timed_releaseOne) (auto simp: release_of_def Inr)
    obtain r1 where run: "run_state (forM items (releaseOne E ?ns)) (tick E w) = (r1, w')"
      and r: "r = None \<Longrightarrow> r1 = None \<and> (\<forall>p \<in> set items. pv_ReclaimPolicy p \<noteq> ReclaimRetain)"
      using assms False Inr
      by (auto simp: ReleaseAvailablePVs_def list_pv_def query_def Let_def list_ex_iff split: prod.splits option.splits if_splits)
    have "newly w w' b" if "newly (tick E w) w' b" for b
      using that by (simp add: newly_def)
    with always_run [OF loop run] wp_runD [OF release_loop_done run] r Inr show ?thesis
      by (auto simp: log_ext_def) blast
  qed
qed

definition orphan_pv :: pv where
  "orphan_pv = demo_pv\<lparr>pv_Phase := VolumeAvailable, pv_ClaimRef := None, pv_ReclaimPolicy := ReclaimDelete\<rparr>"

definition owning_env :: env where
  "owning_env = demo_env\<lparr>e_list_pv := (\<lambda>t s. Inr [orphan_pv])\<rparr>"

theorem release_available_pvs_witness:
  "\<exists>w' uid. run_state (ReleaseAvailablePVs owning_env (OwnerLV demo_lv)) demo_world = (None, w')
     \<and> newly demo_world w' (Api (UpdatePV (releasedPV ''ns'' uid orphan_pv)) None)"
proof -
  let ?m = "ReleaseAvailablePVs owning_env (OwnerLV demo_lv)"
  have "fst (run_state ?m demo_world) = None" by code_simp
  then obtain w' where run: "run_state ?m demo_world = (None, w')" by (cases "run_state ?m demo_world") auto
  have "e_list_pv owning_env (w_clock demo_world) (ownerSelector (OwnerLV demo_lv)) = Inr [orphan_pv]" "releasable orphan_pv"
    "om_Namespace (owner_meta (OwnerLV demo_lv)) = ''ns''" by code_simp+
  with release_available_pvs [OF run] run show ?thesis by auto
qed

section \<open>The protection finalizer\<close>

text \<open>
  The owner was found unused: in this run, no earlier than its start, the API server listed no PV with
  the owner's labels.
\<close>

definition found_unused :: "env \<Rightarrow> world \<Rightarrow> owner \<Rightarrow> bool" where
  "found_unused E w obj \<longleftrightarrow> (\<exists>t \<ge> w_clock w. e_list_pv E t (ownerSelector obj) = Inr [])"

text \<open>
  The shape both controllers share: release, list, and go on only when nothing is listed. What comes
  after the empty list may rely on it.
\<close>

lemma guarded_by_unused:
  assumes start: "timed P w0 w"
    and release: "\<And>t b. release_of E t obj b \<Longrightarrow> P b"
    and f: "\<And>e v. timed P w0 v \<Longrightarrow> wp (f e) Q v" and g: "\<And>e v. timed P w0 v \<Longrightarrow> wp (g e) Q v"
    and u: "\<And>ps v. ps \<noteq> [] \<Longrightarrow> timed P w0 v \<Longrightarrow> wp (u ps) Q v"
    and k: "\<And>v. found_unused E w0 obj \<Longrightarrow> timed P w0 v \<Longrightarrow> wp k Q v"
  shows "wp (State_Monad.bind (ReleaseAvailablePVs E obj) (\<lambda>r. case r of
       Some e \<Rightarrow> f e
     | None \<Rightarrow> State_Monad.bind (GetOwnedPVs E obj) (\<lambda>l. case l of
         Inl e \<Rightarrow> g e
       | Inr ps \<Rightarrow> if ps \<noteq> [] then u ps else k))) Q w"
proof (rule timed.wp_seq [OF start timed_Release [OF release]], assumption, rule wp_optionI)
  fix r :: "error option" and w1
  assume w1: "timed P w0 w1"
  let ?rest = "\<lambda>l. case l of Inl e \<Rightarrow> g e | Inr ps \<Rightarrow> if ps \<noteq> [] then u ps else k"
  have unused: "wp (GetOwnedPVs E obj) (\<lambda>l w2. timed P w0 w2 \<and> (l = Inr [] \<longrightarrow> found_unused E w0 obj)) w1"
  proof (rule wp_conj)
    show "wp (GetOwnedPVs E obj) (\<lambda>l w2. timed P w0 w2) w1" by (rule timed.wp_last [OF w1]) (rule timed_GetOwned)
    show "wp (GetOwnedPVs E obj) (\<lambda>l w2. l = Inr [] \<longrightarrow> found_unused E w0 obj) w1"
      using w1 by (auto simp: GetOwnedPVs_def list_pv_def wp_simps timed_def found_unused_def split: sum.splits)
  qed
  show "wp (State_Monad.bind (GetOwnedPVs E obj) ?rest) Q w1"
  proof (rule wp_bindI, rule wp_mono [OF unused], elim conjE)
    fix l :: "pv list result" and w2 assume "timed P w0 w2" "l = Inr [] \<longrightarrow> found_unused E w0 obj"
    then show "wp (?rest l) Q w2" by (cases l) (auto intro: g u k)
  qed
qed (rule f)

text \<open>
  The contract of the finalizer. A controller reconciles one kind of object; \<open>stored\<close> recognises its
  writes of an object, \<open>named_by\<close> the object a request names. It promises that a write without the
  finalizer is one of an object that was found unused in the same reconcile. Then, however often and in
  whatever order the controller is called, an object whose PVs are always listed keeps its finalizer.
\<close>

locale finalizer_contract =
  fixes reconcile :: "env \<Rightarrow> namespaced_name \<Rightarrow> 'r prog"
    and unprotected :: "action \<Rightarrow> owner \<Rightarrow> bool"
  assumes removes_only_unused:
    "timed (\<lambda>b. \<forall>obj. unprotected b obj \<longrightarrow> found_unused E w obj) w (snd (run_state (reconcile E request) w))"
begin

lemma protected_while_used:
  assumes "\<And>t. e_list_pv E t (ownerSelector obj) \<noteq> Inr []"
  shows "log_ext (\<lambda>b. \<not> unprotected b obj) w
    (snd (run_state (for_each (\<lambda>request. State_Monad.bind (reconcile E request) (\<lambda>_. State_Monad.return ())) requests) w))"
proof -
  have "always (log_ext (\<lambda>b. \<not> unprotected b obj)) (reconcile E request)" for request
    unfolding always_def
  proof
    show "log_ext (\<lambda>b. \<not> unprotected b obj) w (snd (run_state (reconcile E request) w))" for w
      by (rule log_ext_mono [OF timed_log [OF removes_only_unused]]) (use assms in \<open>auto simp: found_unused_def\<close>)
  qed
  then have "always (log_ext (\<lambda>b. \<not> unprotected b obj))
      (for_each (\<lambda>request. State_Monad.bind (reconcile E request) (\<lambda>_. State_Monad.return ())) requests)"
    by (intro log.for_each log.bind log.ret)
  then show ?thesis by (simp add: always_def)
qed

end

end
