(* ===== verification/PvOwnership.thy ===== *)
theory PvOwnership
  imports LvReconcile LvsetReconcile Operator
begin

text \<open>
  The owner that a PV names in its labels, and whom the PVs that the diskmaker writes name: a walk over the two
  diskmaker controllers under the interface \<open>pv_writers\<close>, which says where PVs are written.
\<close>

section \<open>The owner a PV names\<close>

text \<open>A label selector selects a PV that carries all its labels.\<close>

definition selected :: "smap \<Rightarrow> pv \<Rightarrow> bool" where
  "selected sel p = list_all (\<lambda>(k, v). map_of (pv_Labels p) k = Some v) sel"

text \<open>The labels the two provisioning controllers add on top of the owner's.\<close>

definition extra_labels :: "sync_args \<Rightarrow> bool" where
  "extra_labels a \<longleftrightarrow> list_all (\<lambda>kv. fst kv \<in> {LocalVolumeOwnerNameForPV, LocalVolumeOwnerNamespaceForPV}) (sa_extra a)"

type_synonym owner_ident = "string \<times> namespaced_name"

definition owner_of :: "pv \<Rightarrow> owner_ident option" where
  "owner_of p =
     (case (map_of (pv_Labels p) PVOwnerKindLabel, map_of (pv_Labels p) PVOwnerNamespaceLabel, map_of (pv_Labels p) PVOwnerNameLabel) of
        (Some kind, Some ns, Some n) \<Rightarrow> Some (kind, ns, n)
      | _ \<Rightarrow> None)"

definition owner_name :: "owner \<Rightarrow> owner_ident" where
  "owner_name obj = (fst (owner_gvk obj), om_Namespace (owner_meta obj), om_Name (owner_meta obj))"

text \<open>A PV carries all labels of an owner or none of them.\<close>

definition labelled :: "pv \<Rightarrow> bool" where
  "labelled p \<longleftrightarrow> owner_of p \<noteq> None
     \<or> (\<forall>k \<in> {PVOwnerKindLabel, PVOwnerNamespaceLabel, PVOwnerNameLabel}. map_of (pv_Labels p) k = None)"

lemma owner_of_eq:
  "owner_of p = Some (kind, ns, n) \<longleftrightarrow> map_of (pv_Labels p) PVOwnerKindLabel = Some kind
     \<and> map_of (pv_Labels p) PVOwnerNamespaceLabel = Some ns \<and> map_of (pv_Labels p) PVOwnerNameLabel = Some n"
  by (auto simp: owner_of_def split: option.splits)

lemma selected_owner: "selected (ownerSelector obj) p \<longleftrightarrow> owner_of p = Some (owner_name obj)"
  by (auto simp: selected_def ownerSelector_def owner_name_def owner_of_eq)

lemma map_of_fold_update:
  "k \<notin> fst ` set es \<Longrightarrow> map_of (fold (\<lambda>(k, v). AList.update k v) es m) k = map_of m k"
  by (induction es arbitrary: m) (auto simp: update_conv')

lemma pvLabels_owner:
  assumes "extra_labels a"
  shows "map_of (pvLabels a hostname) PVOwnerKindLabel = Some (fst (owner_gvk (sa_obj a)))"
    "map_of (pvLabels a hostname) PVOwnerNamespaceLabel = Some (om_Namespace (owner_meta (sa_obj a)))"
    "map_of (pvLabels a hostname) PVOwnerNameLabel = Some (om_Name (owner_meta (sa_obj a)))"
proof -
  have keys: "k \<notin> fst ` set (sa_extra a)" if "k \<in> {PVOwnerKindLabel, PVOwnerNamespaceLabel, PVOwnerNameLabel}" for k
    using assms that by (auto simp: extra_labels_def list_all_iff label_defs LocalVolumeOwnerNameForPV_def LocalVolumeOwnerNamespaceForPV_def)
  show "map_of (pvLabels a hostname) PVOwnerKindLabel = Some (fst (owner_gvk (sa_obj a)))"
    "map_of (pvLabels a hostname) PVOwnerNamespaceLabel = Some (om_Namespace (owner_meta (sa_obj a)))"
    "map_of (pvLabels a hostname) PVOwnerNameLabel = Some (om_Name (owner_meta (sa_obj a)))"
    unfolding pvLabels_def by (subst map_of_fold_update, rule keys, simp, simp add: label_defs)+
qed

text \<open>
  The labels of a PV that is created or updated: the owner the PV named before, if it named one, else
  the owner that provisions.
\<close>

lemma mutatePV_labels:
  "pv_Labels (mutatePV new labels ann p) =
     addMissing labels (fold AList.delete DeprecatedLabels (InitMapIfNil (pv_Labels (if om_CreationTimestamp (pv_meta p) = None then new else p))))"
  by (simp add: mutatePV_def Let_def)

lemma short_labels:
  assumes "length m \<le> Suc 0" "map_of m a = Some x" "map_of m b = Some y" shows "a = b"
  using assms by (cases m) (auto split: if_splits)

lemma owner_kinds_differ:
  "PVOwnerKindLabel \<noteq> PVOwnerNamespaceLabel" "PVOwnerKindLabel \<noteq> PVOwnerNameLabel" "PVOwnerNamespaceLabel \<noteq> PVOwnerNameLabel"
  "PVOwnerKindLabel \<notin> set DeprecatedLabels" "PVOwnerNamespaceLabel \<notin> set DeprecatedLabels" "PVOwnerNameLabel \<notin> set DeprecatedLabels"
  by (simp_all add: label_defs DeprecatedLabels_def)

lemma owner_of_mutatePV:
  assumes "extra_labels a" "labelled q" "q = (if om_CreationTimestamp (pv_meta p) = None then new else p)"
  shows "owner_of (mutatePV new (pvLabels a hostname) ann p) = (case owner_of q of None \<Rightarrow> Some (owner_name (sa_obj a)) | Some o1 \<Rightarrow> Some o1)"
proof (cases "owner_of q")
  case None
  then have "map_of (InitMapIfNil (pv_Labels q)) k = None" if "k \<in> {PVOwnerKindLabel, PVOwnerNamespaceLabel, PVOwnerNameLabel}" for k
    using assms(2) that by (auto simp: labelled_def InitMapIfNil_def)
  then show ?thesis
    using None by (simp add: owner_of_eq owner_name_def mutatePV_labels map_of_addMissing map_of_fold_delete owner_kinds_differ
        pvLabels_owner [OF assms(1)] flip: assms(3))
next
  case (Some o1)
  obtain kind ns n where o1: "o1 = (kind, ns, n)" by (cases o1)
  then have m: "map_of (pv_Labels q) PVOwnerKindLabel = Some kind" "map_of (pv_Labels q) PVOwnerNamespaceLabel = Some ns"
    "map_of (pv_Labels q) PVOwnerNameLabel = Some n"
    using Some by (simp_all add: owner_of_eq)
  then have "InitMapIfNil (pv_Labels q) = pv_Labels q"
    using short_labels [of "pv_Labels q", OF _ m(1,2)] owner_kinds_differ by (fastforce simp: InitMapIfNil_def)
  then show ?thesis
    unfolding Some o1 option.case owner_of_eq mutatePV_labels
    by (simp add: map_of_addMissing map_of_fold_delete owner_kinds_differ m flip: assms(3))
qed


section \<open>Who writes PVs\<close>

lemma no_pv_write_simps [simp]:
  "no_pv_write (Event o1 t r m)" "no_pv_write (Metric m')" "no_pv_write DeletePVs" "no_pv_write (FsOp op e)"
  "no_pv_write (Api (CreateLVDL d) e)" "no_pv_write (Api (UpdateLVDLStatus d) e)"
  by (simp_all add: no_pv_write_def)

lemma status_no_pv: "status_action d b \<Longrightarrow> no_pv_write b"
  by (auto simp: status_action_def)

text \<open>Actions that write no PV and set no gauge.\<close>

definition plain_action :: "action \<Rightarrow> bool" where
  "plain_action b \<longleftrightarrow> no_pv_write b \<and> (\<forall>op. b \<noteq> Metric op)"

lemma plain_steps:
  "swap_action d path b \<Longrightarrow> plain_action b" "apply_action node n ns obj b \<Longrightarrow> plain_action b" "status_action d b \<Longrightarrow> plain_action b"
  using swap_no_pv [of d path b] swap_sync [of d path b] apply_no_pv [of node n ns obj b] apply_sync [of node n ns obj b]
    status_no_pv [of d b] status_sync [of d b]
  by (auto simp: plain_action_def)

text \<open>
  The gauges a controller may touch for an object: counts by storage class for this node, and for a LocalVolumeSet
  the time of its deletion, set while it is being deleted and removed otherwise.
\<close>

definition owner_metric :: "env \<Rightarrow> owner \<Rightarrow> metric_op \<Rightarrow> bool" where
  "owner_metric E obj op \<longleftrightarrow>
     (case obj of
        OwnerLV lv \<Rightarrow> \<exists>sc d n. (sc, d) \<in> set (dc_Disks (generateConfig lv))
          \<and> (op = SetLVProvisionedPVMetric (e_nodename E) sc n \<or> op = SetLVOrphanedSymlinksMetric (e_nodename E) sc n
             \<or> op = SetLVMissingDevicePathMetric (e_nodename E) sc n)
      | OwnerLVSet s \<Rightarrow>
          (case om_DeletionTimestamp (lvset_meta s) of
             Some ts \<Rightarrow> op = SetLVSDeletionTimestampMetric (lvset_Name s) (ts div 1000000000)
           | None \<Rightarrow> op = RemoveLVSDeletionTimestampMetric (lvset_Name s)
               \<or> (\<exists>n. op = SetLVSProvisionedPVMetric (e_nodename E) (lvset_StorageClassName s) n
                      \<or> op = SetLVSUnmatchedDiskMetric (e_nodename E) (lvset_StorageClassName s) n
                      \<or> op = SetLVSOrphanedSymlinksMetric (e_nodename E) (lvset_StorageClassName s) n)))"

lemma owner_metric_simps [simp]:
  "om_DeletionTimestamp (lvset_meta s) = Some ts \<Longrightarrow> owner_metric E (OwnerLVSet s) (SetLVSDeletionTimestampMetric (lvset_Name s) (ts div 1000000000))"
  "om_DeletionTimestamp (lvset_meta s) = None \<Longrightarrow> owner_metric E (OwnerLVSet s) (RemoveLVSDeletionTimestampMetric (lvset_Name s))"
  "om_DeletionTimestamp (lvset_meta s) = None \<Longrightarrow> owner_metric E (OwnerLVSet s) (SetLVSProvisionedPVMetric (e_nodename E) (lvset_StorageClassName s) n)"
  "om_DeletionTimestamp (lvset_meta s) = None \<Longrightarrow> owner_metric E (OwnerLVSet s) (SetLVSUnmatchedDiskMetric (e_nodename E) (lvset_StorageClassName s) n)"
  "om_DeletionTimestamp (lvset_meta s) = None \<Longrightarrow> owner_metric E (OwnerLVSet s) (SetLVSOrphanedSymlinksMetric (e_nodename E) (lvset_StorageClassName s) n)"
  by (auto simp: owner_metric_def)

lemma owner_metric_lv:
  assumes "(sc, d) \<in> set (dc_Disks (generateConfig lv))"
  shows "owner_metric E (OwnerLV lv) (SetLVProvisionedPVMetric (e_nodename E) sc n)"
    "owner_metric E (OwnerLV lv) (SetLVOrphanedSymlinksMetric (e_nodename E) sc n)"
    "owner_metric E (OwnerLV lv) (SetLVMissingDevicePathMetric (e_nodename E) sc n)"
  using assms by (auto simp: owner_metric_def)

text \<open>
  A diskmaker controller writes PVs in two places only: the synchronisation of a device with its object,
  and the cleanup of PVs with the object's labels. Whatever holds of the writes of these two, of the gauges of the object and of all
  other actions, holds of the whole reconcile.
\<close>

locale pv_writers =
  fixes E :: env and P :: "action \<Rightarrow> bool" and obj :: owner and labels :: smap
  assumes other: "plain_action b \<Longrightarrow> P b"
    and metric: "owner_metric E obj op \<Longrightarrow> P (Metric op)"
    and sync: "sa_obj a = obj \<Longrightarrow> extra_labels a \<Longrightarrow> always (log_ext P) (SyncPVAndLVDL E rc a)"
    and cleaned: "cleanable labels p \<Longrightarrow> P (Api (UpdatePV (withoutSymlinkFinalizer p)) r)"
begin

lemma others [simp]: "P (Event o1 t r m)" "P DeletePVs" "P (FsOp op e)"
  by (simp_all add: other plain_action_def)

lemmas pv_free = controller_log log_fsops log_fail_event log_evalSymlink log_modify log_Reload log_syncCaches log_delete_pvs
  always_log_mono [OF log_Recreate other [OF plain_steps(1)]] always_log_mono [OF log_ApplyStatus other [OF plain_steps(2)]]
  always_log_mono [OF log_UpdateDeviceLinks other [OF plain_steps(3)]]

lemma cleanup: "labels = ls \<Longrightarrow> always (log_ext P) (CleanupSymlinks E ls (Some del))"
  by (rule log_Cleanup_within [where labels = ls]) (auto simp: cleanup_action_def cleaned)

subsection \<open>The LocalVolume controller\<close>

lemma lv_sync: "obj = OwnerLV lv \<Longrightarrow> always (log_ext P) (lv_syncPVAndLVDL E lv sc loc mm)"
  unfolding lv_syncPVAndLVDL_def by (intro pv_free sync) (simp_all add: extra_labels_def)

lemma lv_existing: "obj = OwnerLV lv \<Longrightarrow> always (log_ext P) (processExistingSymlink E lv sc p loc mm)"
  unfolding processExistingSymlink_def by (intro pv_free lv_sync)

lemma lv_refresh: "always (log_ext P) (lv_refreshNotPreferred E dev e)"
  unfolding lv_refreshNotPreferred_def by (intro pv_free)

lemma lv_create: "always (log_ext P) (createSymlink E lv sl loc src tgt idE)"
  unfolding createSymlink_def by (intro pv_free log_lv_linkLocked) simp_all

lemma lv_new: "obj = OwnerLV lv \<Longrightarrow> always (log_ext P) (lv_processNewSymlink E lv sl sc loc mm)"
  unfolding lv_processNewSymlink_def Let_def
  apply (intro log.bind log.pure_get log_queries log.prod_case log.option_case log.ret)
  apply (split bool.split, intro conjI impI; intro pv_free lv_existing lv_sync lv_refresh lv_create; assumption)
  done

lemma lv_reports:
  "always (log_ext P) (reportDeviceResolutionError E lv p e)" "always (log_ext P) (reportSymlinkLookupError E lv d p e)"
  "always (log_ext P) (reportProvisioningError E lv p e)" "always (log_ext P) (logDeviceError E lv p)"
  unfolding reportDeviceResolutionError_def reportSymlinkLookupError_def reportProvisioningError_def logDeviceError_def
  by (intro pv_free; simp)+

lemma lv_valid: "obj = OwnerLV lv \<Longrightarrow> always (log_ext P) (provisionValidDevice E lv sl sc path loc mm)"
  unfolding provisionValidDevice_def Let_def by (intro pv_free lv_reports lv_existing lv_new)

lemma lv_valid_loop: "obj = OwnerLV lv \<Longrightarrow> always (log_ext P) (validPathLoop E lv sl sc fw ds mm ps n)"
  by (induction ps arbitrary: n) (auto intro!: log.rules lv_reports lv_valid log_evalSymlink)

lemma lv_rejected: "always (log_ext P) (lv_processRejectedPath E lv sl sc ds p)"
  unfolding lv_processRejectedPath_def FindLVDL_def by (intro pv_free lv_refresh) simp_all

lemma lv_rejected_loop: "always (log_ext P) (rejectedPathLoop E lv sl sc ds ps)"
  by (induction ps) (auto intro!: log.rules lv_rejected)

lemma lv_rejected_classes: "always (log_ext P) (lv_processRejectedDevicesForDeviceLinks E lv sl ds cs)"
proof (induction cs)
  case (Cons c cs)
  then show ?case by (cases c) (auto intro!: log.rules lv_rejected_loop)
qed (simp add: log.ret)

lemma lv_run: "obj = OwnerLV lv \<Longrightarrow> labels = lv_ownerLabels lv \<Longrightarrow> always (log_ext P) (lv_cleanup_and_provision E sl lv)"
  unfolding lv_cleanup_and_provision_def lv_provision_def lv_devices_def updateMissingDevicePathMetrics_def
    processValidDevices_def updateOrphanedSymlinkMetrics_def requeue_time_def Let_def
  by (intro pv_free cleanup lv_valid_loop lv_rejected_classes log_splitDevices log_countMissing log_specDevices metric;
      (simp add: owner_metric_lv)?)

subsection \<open>The LocalVolumeSet controller\<close>

lemma set_sync: "obj = OwnerLVSet s \<Longrightarrow> always (log_ext P) (syncExistingPVAndLVDL E s dev sc mm path)"
  unfolding syncExistingPVAndLVDL_def by (intro pv_free sync) (simp_all add: lvset_args_def extra_labels_def)

lemma set_linkLocked: "obj = OwnerLVSet s \<Longrightarrow> always (log_ext P) (lvset_linkLocked E s dev sc mm src path locked links lerr)"
  unfolding lvset_linkLocked_def Let_def
  by (intro log.rules set_sync log_fsops log_queries others; (simp split: inode.split)?;
      (intro allI impI conjI log.rules log_queries set_sync)?)

lemma set_create: "obj = OwnerLVSet s \<Longrightarrow> always (log_ext P) (createSymlinkAndSyncPVAndLVDL E s dev sc mm src path)"
  unfolding createSymlinkAndSyncPVAndLVDL_def by (intro pv_free set_linkLocked) simp_all

lemma set_refresh: "always (log_ext P) (refreshNotPreferred E dev e)"
  unfolding refreshNotPreferred_def by (intro pv_free)

lemma set_failure: "always (log_ext P) (reportProvisioningFailure E s d e)"
  unfolding reportProvisioningFailure_def by (intro pv_free) simp

lemma set_links:
  assumes "obj = OwnerLVSet s"
  shows "always (log_ext P) (lvset_recoverLink E s dev sc mm d info src)" "always (log_ext P) (lvset_newLink E s dev sc mm src path)"
  unfolding lvset_recoverLink_def lvset_newLink_def
  by (intro pv_free set_refresh set_failure set_sync [OF assms] set_create [OF assms]; simp)+

lemma set_new: "obj = OwnerLVSet s \<Longrightarrow> always (log_ext P) (lvset_processNewSymlink E s dev devs sc mm d)"
  unfolding lvset_processNewSymlink_def
  by (intro pv_free; (split bool.split)?; (intro conjI impI pv_free set_failure set_links)?; simp)

lemma set_rejected: "always (log_ext P) (lvset_processRejected E s d sc dev)"
  unfolding lvset_processRejected_def FindLVDL_def by (intro pv_free set_refresh) simp_all

lemma set_valid: "obj = OwnerLVSet s \<Longrightarrow> always (log_ext P) (lvset_validLoop E s devs sc mm d ds rq)"
  by (induction ds arbitrary: rq) (auto intro!: log.rules log_queries set_sync set_new simp: Let_def)

lemma set_getValid: "always (log_ext P) (getValidDevices E s ds)"
  by (induction ds) (auto simp: classifyDevice_def intro!: controller_log log_runFilters log_ages)

lemma set_run: "obj = OwnerLVSet s \<Longrightarrow> labels = lvset_ownerLabels s \<Longrightarrow> always (log_ext P) (lvset_cleanup_and_provision E s)"
  unfolding lvset_cleanup_and_provision_def lvset_deletion_def lvset_provision_def lvset_finish_def
    lvset_processRejectedDevicesForDeviceLinks_def
  by (intro pv_free cleanup set_getValid set_valid set_rejected metric; simp)

end


section \<open>Whom the written PVs name\<close>

definition writes_pvs :: "(pv \<Rightarrow> bool) \<Rightarrow> action \<Rightarrow> bool" where
  "writes_pvs ok b \<longleftrightarrow> (\<forall>p r. b = Api (CreatePV p) r \<or> b = Api (UpdatePV p) r \<longrightarrow> ok p)"

lemma writes_pvs_simps [simp]:
  "writes_pvs ok (Event o1 t r m)" "writes_pvs ok (Api (CreatePV p) e) = ok p" "writes_pvs ok (Api (UpdatePV p) e) = ok p"
  by (auto simp: writes_pvs_def)

text \<open>The names under which an object is an owner: its kind as read, and the kind of its controller.\<close>

definition controller_kind :: "owner \<Rightarrow> string" where
  "controller_kind obj = (case obj of OwnerLV _ \<Rightarrow> LocalVolumeKind | OwnerLVSet _ \<Rightarrow> LocalVolumeSetKind)"

definition owner_names :: "owner \<Rightarrow> owner_ident set" where
  "owner_names obj = {owner_name obj, (controller_kind obj, om_Namespace (owner_meta obj), om_Name (owner_meta obj))}"

text \<open>
  Provided that the PVs that are read carry all labels of an owner or none, so does a PV that is written, and
  the owner it names is the object, or the one that a PV named when it was read.
\<close>

definition named_by :: "env \<Rightarrow> owner \<Rightarrow> pv \<Rightarrow> bool" where
  "named_by E obj p \<longleftrightarrow> ((\<forall>t n q. e_get_pv E t n = Inr q \<longrightarrow> labelled q) \<longrightarrow>
     (\<exists>o1. owner_of p = Some o1 \<and> (o1 \<in> owner_names obj \<or> (\<exists>t n q. e_get_pv E t n = Inr q \<and> owner_of q = Some o1))))"

lemma named_by_mutatePV:
  assumes "extra_labels a" "p = emptyPV n \<or> (\<exists>t m. e_get_pv E t m = Inr p)"
  shows "named_by E (sa_obj a) (mutatePV (desiredPV rc a hostname mc c) (pvLabels a hostname) ann p)"
  unfolding named_by_def
proof
  assume reads: "\<forall>t n q. e_get_pv E t n = Inr q \<longrightarrow> labelled q"
  let ?q = "if om_CreationTimestamp (pv_meta p) = None then desiredPV rc a hostname mc c else p"
  have q: "?q = desiredPV rc a hostname mc c \<or> (\<exists>t m. e_get_pv E t m = Inr ?q)"
    using assms(2) by (auto simp: emptyPV_def)
  have new: "labelled (desiredPV rc a hostname mc c)" "owner_of (desiredPV rc a hostname mc c) = None"
    by (simp_all add: labelled_def owner_of_def desiredPV_def CreateLocalPVSpec_def AddFinalizer_def)
  have "labelled ?q" using q new reads by metis
  from owner_of_mutatePV [OF assms(1) this refl, of hostname ann] q new
  show "\<exists>o1. owner_of (mutatePV (desiredPV rc a hostname mc c) (pvLabels a hostname) ann p) = Some o1
      \<and> (o1 \<in> owner_names (sa_obj a) \<or> (\<exists>t n q. e_get_pv E t n = Inr q \<and> owner_of q = Some o1))"
    by (cases "owner_of ?q") (auto simp: owner_names_def)
qed

lemma sync_named:
  assumes "extra_labels a"
  shows "always (log_ext (writes_pvs (named_by E (sa_obj a)))) (SyncPVAndLVDL E rc a)"
proof (rule log_Sync)
  fix hostname
  let ?P = "writes_pvs (named_by E (sa_obj a))"
  note named = named_by_mutatePV [OF assms]
  have step: "always (log_ext ?P) (CreateOrUpdatePV E (desiredPV rc a hostname mc c) p (pvLabels a hostname) ann vm)"
    if "p = emptyPV n \<or> (\<exists>t m. e_get_pv E t m = Inr p)" for mc c p ann vm n
    unfolding CreateOrUpdatePV_def
    by (rule log_get_then [where Q = "\<lambda>g. \<forall>q. g = Inr q \<longrightarrow> (\<exists>t m. e_get_pv E t m = Inr q)"], blast)
      (intro log.rules log_mutateEvent log_api; use that in \<open>auto intro!: named [where n = n]\<close>)
  show "always (log_ext ?P) (syncPV E rc a hostname)"
    by (rule log_syncPV [where Q = "\<lambda>g. \<forall>q. g = Inr q \<longrightarrow> (\<exists>t m. e_get_pv E t m = Inr q)"], blast)
      (rule step [of _ "pvNameFor rc a"], auto split: sum.split)
qed (simp add: writes_pvs_def no_pv_write_def)

lemma cleanable_owner:
  "cleanable (lv_ownerLabels lv) p \<Longrightarrow> owner_of (withoutSymlinkFinalizer p) = Some (LocalVolumeKind, lv_Namespace lv, lv_Name lv)"
  "cleanable (lvset_ownerLabels s) p \<Longrightarrow> owner_of (withoutSymlinkFinalizer p) = Some (LocalVolumeSetKind, lvset_Namespace s, lvset_Name s)"
  by (simp_all add: cleanable_def pvHasLabels_def lv_ownerLabels_def lvset_ownerLabels_def owner_of_eq withoutSymlinkFinalizer_def RemoveFinalizer_def)

interpretation lv_writes: pv_writers E "writes_pvs (named_by E (OwnerLV lv))" "OwnerLV lv" "lv_ownerLabels lv" for E lv
proof
  show "always (log_ext (writes_pvs (named_by E (OwnerLV lv)))) (SyncPVAndLVDL E rc a)" if "sa_obj a = OwnerLV lv" "extra_labels a" for a rc
    using sync_named [OF that(2), of E rc] that(1) by simp
qed (auto simp: writes_pvs_def plain_action_def no_pv_write_def named_by_def cleanable_owner owner_names_def controller_kind_def owner_meta_def)

interpretation lvset_writes: pv_writers E "writes_pvs (named_by E (OwnerLVSet s))" "OwnerLVSet s" "lvset_ownerLabels s" for E s
proof
  show "always (log_ext (writes_pvs (named_by E (OwnerLVSet s)))) (SyncPVAndLVDL E rc a)" if "sa_obj a = OwnerLVSet s" "extra_labels a" for a rc
    using sync_named [OF that(2), of E rc] that(1) by simp
qed (auto simp: writes_pvs_def plain_action_def no_pv_write_def named_by_def cleanable_owner owner_names_def controller_kind_def owner_meta_def)

end
