(* ===== verification/LvController.thy ===== *)
theory LvController
  imports Operator
begin

text \<open>
  The LocalVolume controller of the operator, \<^verbatim>\<open>pkg/controllers/localvolume\<close>: the protection finalizer, the
  storage classes a LocalVolume asks for, its status, and the maps from a PV event to the objects to
  reconcile. The registry of storage class owners is \<^verbatim>\<open>w_lvOwners\<close>.
\<close>

section \<open>Finalizers as a list\<close>

definition localVolumeFinalizer :: string where
  "localVolumeFinalizer = ''storage.openshift.com/local-volume-protection''"

fun contains :: "string list \<Rightarrow> string \<Rightarrow> bool" where
  "contains [] s \<longleftrightarrow> False"
| "contains (v # list) s \<longleftrightarrow> (if v = s then True else contains list s)"

text \<open>
  \<^verbatim>\<open>remove\<close> deletes in place while it ranges over the same backing array: \<open>arr\<close> is that array, \<open>m\<close> the
  length of the shortened slice, \<open>i\<close> the index, \<open>k\<close> the remaining iterations. A slice expression past
  the end of the shortened slice panics (\<open>None\<close>).
\<close>

fun removeLoop :: "nat \<Rightarrow> nat \<Rightarrow> string list \<Rightarrow> nat \<Rightarrow> string \<Rightarrow> string list option" where
  "removeLoop 0 i arr m s = Some (take m arr)"
| "removeLoop (Suc k) i arr m s =
     (if arr ! i = s then
        (if i + 1 > m then None
         else removeLoop k (i + 1) (take i arr @ drop (i + 1) (take m arr) @ drop (m - 1) arr) (m - 1) s)
      else removeLoop k (i + 1) arr m s)"

definition remove :: "string list \<Rightarrow> string \<Rightarrow> string list option" where
  "remove list s = removeLoop (length list) 0 list (length list) s"

definition addFinalizer :: "local_volume \<Rightarrow> local_volume \<times> bool" where
  "addFinalizer lv =
     (let currentFinalizers = om_Finalizers (lv_meta lv)
      in if contains currentFinalizers localVolumeFinalizer then (lv, False)
         else (lv\<lparr>lv_meta := (lv_meta lv)\<lparr>om_Finalizers := currentFinalizers @ [localVolumeFinalizer]\<rparr>\<rparr>, True))"

definition removeFinalizer :: "local_volume \<Rightarrow> local_volume option" where
  "removeFinalizer lv =
     (let currentFinalizers = om_Finalizers (lv_meta lv)
      in if \<not> contains currentFinalizers localVolumeFinalizer then Some lv
         else map_option (\<lambda>fs. lv\<lparr>lv_meta := (lv_meta lv)\<lparr>om_Finalizers := fs\<rparr>\<rparr>) (remove currentFinalizers localVolumeFinalizer))"

definition isDeletionCandidate :: "obj_meta \<Rightarrow> string \<Rightarrow> bool" where
  "isDeletionCandidate obj finalizer \<longleftrightarrow> om_DeletionTimestamp obj \<noteq> None \<and> contains (om_Finalizers obj) finalizer"

section \<open>Ownership\<close>

definition getOwnerRefs :: "local_volume \<Rightarrow> owner_ref list" where
  "getOwnerRefs cr = [\<lparr>or_APIVersion = ''local.storage.openshift.io/v1'', or_Kind = LocalVolumeKind, or_Name = lv_Name cr,
     or_UID = om_UID (lv_meta cr), or_Controller = Some True, or_BlockOwnerDeletion = None\<rparr>]"

definition setLabel :: "string \<Rightarrow> string \<Rightarrow> bool \<times> smap \<Rightarrow> bool \<times> smap" where
  "setLabel k v p = (if map_of (snd p) k \<noteq> Some v then (True, AList.update k v (snd p)) else p)"

text \<open>A nil map of labels and an empty one lead to the same result: a label is missing, so it is changed.\<close>

definition addOwnerLabels :: "obj_meta \<Rightarrow> local_volume \<Rightarrow> bool \<times> obj_meta" where
  "addOwnerLabels meta cr =
     (let (changed, labels) = setLabel OwnerKindLabel LocalVolumeKind
            (setLabel OwnerNameLabel (lv_Name cr) (setLabel OwnerNamespaceLabel (lv_Namespace cr) (False, om_Labels meta)))
      in (changed, meta\<lparr>om_Labels := labels\<rparr>))"

definition getOwnerLabelSelector :: "local_volume \<Rightarrow> smap" where
  "getOwnerLabelSelector cr =
     [(OwnerNamespaceLabel, lv_Namespace cr), (OwnerNameLabel, lv_Name cr), (OwnerKindLabel, LocalVolumeKind)]"

definition generateStorageClass :: "env \<Rightarrow> local_volume \<Rightarrow> string \<Rightarrow> storage_class result" where
  "generateStorageClass E cr scName =
     (case readManifest E (e_read_sc E) LocalVolumeStorageClassTemplate [(''${OBJECT_NAME}'', scName)] of
        Inl e \<Rightarrow> Inl e
      | Inr sc \<Rightarrow> Inr (sc\<lparr>sc_meta := snd (addOwnerLabels (sc_meta sc) cr)\<rparr>))"

section \<open>Calls of the API server\<close>

definition lv_recordEvent :: "local_volume \<Rightarrow> string \<Rightarrow> string \<Rightarrow> unit prog" where
  "lv_recordEvent lv reason msg = record_event (lv_Name lv) ''Warning'' reason msg"

definition conflictEvent :: "local_volume \<Rightarrow> error option \<Rightarrow> unit prog" where
  "conflictEvent lv err =
     (case err of
        Some e \<Rightarrow> if IsConflict e
          then lv_recordEvent lv ''LocalVolumeUpdateFailed'' (''updating localvolume '' @ LocalVolumeKey lv @ '' failed: '' @ err_text e)
          else State_Monad.return ()
      | None \<Rightarrow> State_Monad.return ())"

definition updateLocalVolume :: "env \<Rightarrow> local_volume \<Rightarrow> error option prog" where
  "updateLocalVolume E lv = do {
     err \<leftarrow> api E (UpdateLocalVolume lv);
     _ \<leftarrow> conflictEvent lv err;
     State_Monad.return err
   }"

definition syncStatus :: "env \<Rightarrow> local_volume \<Rightarrow> local_volume \<Rightarrow> error option prog" where
  "syncStatus E oldInstance newInstance =
     (if lv_Status oldInstance \<noteq> lv_Status newInstance then do {
        err \<leftarrow> api E (UpdateLocalVolumeStatus newInstance);
        _ \<leftarrow> conflictEvent newInstance err;
        State_Monad.return err
      }
      else State_Monad.return None)"

section \<open>Storage classes\<close>

definition deleteStorageClass :: "env \<Rightarrow> storage_class \<Rightarrow> error list prog" where
  "deleteStorageClass E sc = do {
     err \<leftarrow> api E (DeleteStorageClass (sc_Name sc));
     State_Monad.return (case err of
         None \<Rightarrow> []
       | Some e \<Rightarrow> if IsNotFound e then [] else [Errorf (''error deleting storageclass '' @ sc_Name sc @ '': '' @ err_text e)])
   }"

fun removeLoopSC :: "env \<Rightarrow> string list \<Rightarrow> storage_class list \<Rightarrow> error list prog" where
  "removeLoopSC E expected [] = State_Monad.return []"
| "removeLoopSC E expected (sc # items) = do {
     e1 \<leftarrow> (if sc_Name sc \<notin> set expected then deleteStorageClass E sc else State_Monad.return []);
     e2 \<leftarrow> removeLoopSC E expected items;
     State_Monad.return (e1 @ e2)
   }"

definition removeUnExpectedStorageClasses :: "env \<Rightarrow> local_volume \<Rightarrow> string list \<Rightarrow> error option prog" where
  "removeUnExpectedStorageClasses E cr expectedStorageClasses = do {
     l \<leftarrow> list_sc E (getOwnerLabelSelector cr);
     (case l of
        Inl e \<Rightarrow> State_Monad.return (Some (Errorf (''error listing storageclasses for CR '' @ lv_Name cr @ '': '' @ err_text e)))
      | Inr items \<Rightarrow> do {
          removeErrors \<leftarrow> removeLoopSC E expectedStorageClasses items;
          State_Monad.return (NewAggregate removeErrors)
        })
   }"

definition applyOne :: "env \<Rightarrow> local_volume \<Rightarrow> storage_class_device \<Rightarrow> error option prog" where
  "applyOne E cr d =
     (case generateStorageClass E cr (scd_StorageClassName d) of
        Inl e \<Rightarrow> State_Monad.return (Some (Errorf (''error generating storageClass '' @ scd_StorageClassName d @ '': '' @ err_text e)))
      | Inr storageClass \<Rightarrow> do {
          err \<leftarrow> ApplyStorageClass E storageClass;
          State_Monad.return (case err of
              None \<Rightarrow> None
            | Some e \<Rightarrow> Some (Errorf (''error creating storageClass '' @ scd_StorageClassName d @ '': '' @ err_text e)))
        })"

definition lv_syncStorageClass :: "env \<Rightarrow> local_volume \<Rightarrow> error option prog" where
  "lv_syncStorageClass E cr = do {
     r \<leftarrow> forM (lv_StorageClassDevices cr) (applyOne E cr);
     (case r of
        Some e \<Rightarrow> State_Monad.return (Some e)
      | None \<Rightarrow> do {
          _ \<leftarrow> removeUnExpectedStorageClasses E cr (map scd_StorageClassName (lv_StorageClassDevices cr));
          State_Monad.return None
        })
   }"

section \<open>Status conditions\<close>

definition availableCondition :: "cond_status \<Rightarrow> string \<Rightarrow> time \<Rightarrow> operator_condition" where
  "availableCondition st msg t = \<lparr>oc_Type = ''Available'', oc_Status = st, oc_Reason = '''', oc_Message = msg,
     oc_LastTransitionTime = Some t\<rparr>"

definition with_conditions :: "operator_condition list \<Rightarrow> local_volume \<Rightarrow> local_volume" where
  "with_conditions cs lv = lv\<lparr>lv_Status := (lv_Status lv)\<lparr>lvs_Conditions := cs\<rparr>\<rparr>"

definition addFailureCondition :: "env \<Rightarrow> local_volume \<Rightarrow> local_volume \<Rightarrow> error \<Rightarrow> error option prog" where
  "addFailureCondition E oldLv lv err = do {
     t \<leftarrow> now E;
     _ \<leftarrow> syncStatus E oldLv (with_conditions [availableCondition ConditionFalse (''error syncing local storage: '' @ err_text err) t] lv);
     State_Monad.return (Some err)
   }"

definition addSuccessCondition :: "env \<Rightarrow> local_volume \<Rightarrow> local_volume prog" where
  "addSuccessCondition E lv = do {
     t \<leftarrow> now E;
     State_Monad.return
       (if list_ex (\<lambda>c. oc_Type c = ''Available'' \<and> oc_Status c = ConditionTrue \<and> oc_Message c = ''Ready'') (lvs_Conditions (lv_Status lv))
        then lv else with_conditions [availableCondition ConditionTrue ''Ready'' t] lv)
   }"

section \<open>Reconciling\<close>

definition cleanupLocalVolumeDeployment :: "env \<Rightarrow> local_volume \<Rightarrow> error option prog" where
  "cleanupLocalVolumeDeployment E lv = do {
     r \<leftarrow> ReleaseAvailablePVs E (OwnerLV lv);
     (case r of
        Some e \<Rightarrow>
          (let msg = ''error releasing unbound persistent volumes for localvolume '' @ LocalVolumeKey lv @ '': '' @ err_text e in do {
             _ \<leftarrow> lv_recordEvent lv ''ReleasingPersistentVolumeFailed'' msg;
             State_Monad.return (Some (Errorf msg))
           })
      | None \<Rightarrow> do {
          l \<leftarrow> GetOwnedPVs E (OwnerLV lv);
          (case l of
             Inl e \<Rightarrow>
               (let msg = ''error listing persistent volumes for localvolume '' @ LocalVolumeKey lv @ '': '' @ err_text e in do {
                  _ \<leftarrow> lv_recordEvent lv ''ListingPersistentVolumeFailed'' msg;
                  State_Monad.return (Some (Errorf msg))
                })
           | Inr ownedPVs \<Rightarrow>
               if ownedPVs \<noteq> [] then
                 (let msg = ''localvolume '' @ LocalVolumeKey lv @ '' has owned persistentvolumes in use'' in do {
                    _ \<leftarrow> lv_recordEvent lv ''LocalVolumeDeletionFailed'' msg;
                    State_Monad.return (Some (Errorf msg))
                  })
               else do {
                 err \<leftarrow> removeUnExpectedStorageClasses E lv [];
                 (case err of
                    Some e \<Rightarrow> do {
                      _ \<leftarrow> lv_recordEvent lv ''DeletingStorageClassFailed'' (err_text e);
                      State_Monad.return (Some e)
                    }
                  | None \<Rightarrow>
                      (case removeFinalizer lv of
                         None \<Rightarrow> State_Monad.return (Some (Panic ''slice bounds out of range''))
                       | Some lv1 \<Rightarrow> updateLocalVolume E lv1))
               })
        })
   }"

definition generationOf :: "daemonset \<Rightarrow> generation_status" where
  "generationOf ds = \<lparr>gs_Group = ''apps'', gs_Resource = ''DaemonSet'', gs_Namespace = om_Namespace (ds_meta ds),
     gs_Name = om_Name (ds_meta ds), gs_LastGeneration = om_Generation (ds_meta ds)\<rparr>"

definition lv_reportManaged :: "env \<Rightarrow> local_volume \<Rightarrow> local_volume \<Rightarrow> daemonset \<Rightarrow> error option prog" where
  "lv_reportManaged E instance0 lv ds = do {
     lv1 \<leftarrow> addSuccessCondition E (lv\<lparr>lv_Status := (lv_Status lv)\<lparr>lvs_Generations := [generationOf ds], lvs_State := Managed\<rparr>\<rparr>);
     err \<leftarrow> syncStatus E instance0 (lv1\<lparr>lv_Status := (lv_Status lv1)\<lparr>lvs_ObservedGeneration := Some (om_Generation (lv_meta lv1))\<rparr>\<rparr>);
     State_Monad.return (case err of None \<Rightarrow> None | Some e \<Rightarrow> Some (Errorf (''error syncing status: '' @ err_text e)))
   }"

definition syncLocalVolumeProvider :: "env \<Rightarrow> local_volume \<Rightarrow> error option prog" where
  "syncLocalVolumeProvider E instance0 =
     (let lv = SetDefaults instance0
      in if isDeletionCandidate (lv_meta lv) localVolumeFinalizer then cleanupLocalVolumeDeployment E lv
         else case addFinalizer lv of (lv1, modified) \<Rightarrow>
           if modified then updateLocalVolume E lv1
           else if lv_ManagementState lv1 \<noteq> Managed \<and> lv_ManagementState lv1 \<noteq> Force then do {
             err \<leftarrow> syncStatus E instance0 (lv1\<lparr>lv_Status := (lv_Status lv1)\<lparr>lvs_State := lv_ManagementState lv1\<rparr>\<rparr>);
             State_Monad.return (case err of None \<Rightarrow> None | Some e \<Rightarrow> Some (Errorf (''error syncing status: '' @ err_text e)))
           }
           else do {
             err \<leftarrow> lv_syncStorageClass E lv1;
             (case err of
                Some e \<Rightarrow> addFailureCondition E instance0 lv1 e
              | None \<Rightarrow> do {
                  g \<leftarrow> query E (\<lambda>t w. e_get_ds E t (lv_Namespace lv1, DiskMakerName));
                  (case g of
                     Inl e \<Rightarrow> addFailureCondition E instance0 lv1 e
                   | Inr ds \<Rightarrow> lv_reportManaged E instance0 lv1 ds)
                })
           })"

text \<open>
  The registry operations of a reconcile. On a lookup that finds nothing the object is the empty one,
  so that there is nothing to deregister.
\<close>

definition emptyLV :: local_volume where
  "emptyLV = \<lparr>lv_meta = empty_meta, lv_Kind = '''', lv_APIVersion = '''',
     lv_ManagementState = StateUnset, lv_LogLevel = '''', lv_NodeSelector = None, lv_StorageClassDevices = [], lv_Tolerations = [],
     lv_Status = \<lparr>lvs_ObservedGeneration = None, lvs_State = StateUnset, lvs_Conditions = [], lvs_Generations = []\<rparr>\<rparr>"

definition deregisterLVFromStorageClass :: "local_volume \<Rightarrow> owner_map \<Rightarrow> owner_map" where
  "deregisterLVFromStorageClass lv m =
     fold (\<lambda>d. DeregisterStorageClassOwner (scd_StorageClassName d) (lv_Namespace lv, lv_Name lv)) (lv_StorageClassDevices lv) m"

definition registerLV :: "namespaced_name \<Rightarrow> local_volume \<Rightarrow> owner_map \<Rightarrow> owner_map" where
  "registerLV request lv m = fold (\<lambda>d. RegisterStorageClassOwner (scd_StorageClassName d) request) (lv_StorageClassDevices lv) m"

definition operator_lv_Reconcile :: "env \<Rightarrow> namespaced_name \<Rightarrow> outcome prog" where
  "operator_lv_Reconcile E request = do {
     g \<leftarrow> get_lv E request;
     (case g of
        Inl e \<Rightarrow>
          if IsNotFound e then do {
            _ \<leftarrow> modify (\<lambda>w. w\<lparr>w_lvOwners := deregisterLVFromStorageClass emptyLV (w_lvOwners w)\<rparr>);
            State_Monad.return (no_requeue, None)
          }
          else State_Monad.return (\<lparr>rq_Requeue = True, rq_After = 0\<rparr>, Some e)
      | Inr lv \<Rightarrow> do {
          _ \<leftarrow> modify (\<lambda>w. w\<lparr>w_lvOwners := registerLV request lv (w_lvOwners w)\<rparr>);
          err \<leftarrow> syncLocalVolumeProvider E lv;
          State_Monad.return (case err of Some e \<Rightarrow> (\<lparr>rq_Requeue = True, rq_After = 0\<rparr>, Some e) | None \<Rightarrow> (no_requeue, None))
        })
   }"

text \<open>The two maps from a PV event to reconcile requests.\<close>

definition requestsByClass :: "owner_map \<Rightarrow> pv \<Rightarrow> namespaced_name list" where
  "requestsByClass m p = GetStorageClassOwners m (pv_StorageClassName p)"

definition requestsByOwner :: "string \<Rightarrow> pv \<Rightarrow> namespaced_name list" where
  "requestsByOwner kind p =
     (case map_of (pv_Labels p) PVOwnerNameLabel of
        None \<Rightarrow> []
      | Some ownerName \<Rightarrow>
          (case map_of (pv_Labels p) PVOwnerNamespaceLabel of
             None \<Rightarrow> []
           | Some ownerNamespace \<Rightarrow>
               (case map_of (pv_Labels p) PVOwnerKindLabel of
                  None \<Rightarrow> []
                | Some ownerKind \<Rightarrow> if ownerKind \<noteq> kind then [] else [(ownerNamespace, ownerName)])))"


section \<open>Lemmas on finalizers\<close>

lemma contains_iff [simp]: "contains xs s \<longleftrightarrow> s \<in> set xs"
  by (induction xs) auto

lemma removeLoop_absent:
  "i + k = length arr \<Longrightarrow> m \<le> length arr \<Longrightarrow> s \<notin> set (drop i arr) \<Longrightarrow> removeLoop k i arr m s = Some (take m arr)"
proof (induction k arbitrary: i)
  case (Suc k)
  then have "drop i arr = arr ! i # drop (Suc i) arr" by (intro Cons_nth_drop_Suc [symmetric]) simp
  with Suc.prems(3) have "arr ! i \<noteq> s" "s \<notin> set (drop (Suc i) arr)" by auto
  with Suc show ?case by simp
qed simp

lemma removeLoop_once:
  assumes "k + i = length (a @ s # b)" "i \<le> length a" "s \<notin> set a" "s \<notin> set b"
  shows "removeLoop k i (a @ s # b) (length (a @ s # b)) s = Some (a @ b)"
  using assms
proof (induction k arbitrary: i)
  case (Suc k)
  show ?case
  proof (cases "i = length a")
    case True
    define arr where "arr = a @ b @ drop (length (a @ b)) (a @ s # b)"
    have "removeLoop k (i + 1) arr (length (a @ b)) s = Some (take (length (a @ b)) arr)"
    proof (rule removeLoop_absent)
      show "i + 1 + k = length arr" "length (a @ b) \<le> length arr" using Suc.prems True by (auto simp: arr_def)
      have "drop (Suc (length a)) arr = drop 1 (b @ drop (length b) (s # b))" by (simp add: arr_def)
      also have "set \<dots> \<subseteq> set b"
        by (cases b rule: rev_cases) (auto dest: in_set_dropD)
      finally show "s \<notin> set (drop (i + 1) arr)" using True assms(4) by auto
    qed
    moreover have "take (length (a @ b)) arr = a @ b" by (simp add: arr_def)
    ultimately show ?thesis using True by (simp add: arr_def nth_append)
  next
    case False
    then have "(a @ s # b) ! i \<noteq> s" using Suc.prems by (auto simp: nth_append dest: nth_mem)
    then show ?thesis using Suc False by simp
  qed
qed simp

text \<open>
  On a list that holds the finalizer at most once the removal in place is the removal; where it is held
  twice and the last entry is one of them, the loop slices past the end.
\<close>

lemma remove_once:
  assumes "count_list xs s \<le> 1"
  shows "remove xs s = Some (filter (\<lambda>x. x \<noteq> s) xs)"
proof (cases "s \<in> set xs")
  case True
  then obtain a b where xs: "xs = a @ s # b" by (metis split_list)
  with assms have "s \<notin> set a" "s \<notin> set b"
    by (auto simp: count_list_0_iff [symmetric])
  then have "filter (\<lambda>x. x \<noteq> s) a = a" "filter (\<lambda>x. x \<noteq> s) b = b" by (auto simp: filter_id_conv)
  with removeLoop_once [of "length xs" 0 a s b] \<open>s \<notin> set a\<close> \<open>s \<notin> set b\<close> xs show ?thesis
    by (simp add: remove_def)
next
  case False
  then have "filter (\<lambda>x. x \<noteq> s) xs = xs" by (auto simp: filter_id_conv)
  with removeLoop_absent [of 0 "length xs" xs "length xs" s] False show ?thesis by (simp add: remove_def)
qed

lemma removeLoop_panics:
  "i + k = length arr \<Longrightarrow> 0 < k \<Longrightarrow> m < length arr \<Longrightarrow> last arr = s \<Longrightarrow> removeLoop k i arr m s = None"
proof (induction k arbitrary: i arr m)
  case (Suc k)
  let ?arr = "take i arr @ drop (i + 1) (take m arr) @ drop (m - 1) arr"
  have nonempty: "arr \<noteq> []" using Suc.prems by auto
  show ?case
  proof (cases "k = 0")
    case True
    with Suc.prems have "length arr - 1 = i" "i + 1 > m" by auto
    with Suc.prems nonempty show ?thesis by (simp add: last_conv_nth)
  next
    case False
    have "removeLoop k (i + 1) ?arr (m - 1) s = None" if "\<not> i + 1 > m"
      using Suc that nonempty False by (intro Suc.IH) auto
    moreover have "removeLoop k (i + 1) arr m s = None"
      using Suc False by (intro Suc.IH) auto
    ultimately show ?thesis by simp
  qed
qed simp


section \<open>The effects of a reconcile\<close>

lemma SetDefaults_same [simp]:
  "lv_meta (SetDefaults lv) = lv_meta lv" "lv_Kind (SetDefaults lv) = lv_Kind lv"
  "lv_StorageClassDevices (SetDefaults lv) = lv_StorageClassDevices lv"
  by (simp_all add: SetDefaults_def Let_def)

definition being_deleted :: "local_volume \<Rightarrow> bool" where
  "being_deleted lv \<longleftrightarrow> isDeletionCandidate (lv_meta lv) localVolumeFinalizer"

definition lv_classes :: "local_volume \<Rightarrow> string list" where
  "lv_classes lv = map scd_StorageClassName (lv_StorageClassDevices lv)"

text \<open>What a reconcile of a LocalVolume that was read as \<open>lv\<close> at the start \<open>w\<close> may do.\<close>

definition lv_operator_action :: "env \<Rightarrow> world \<Rightarrow> local_volume \<Rightarrow> action \<Rightarrow> bool" where
  "lv_operator_action E w lv b \<longleftrightarrow>
     (case b of
        Event _ _ _ _ \<Rightarrow> True
      | Api (UpdateLocalVolume lv') r \<Rightarrow>
          if being_deleted lv then found_unused E w (OwnerLV lv) \<and> removeFinalizer (SetDefaults lv) = Some lv'
          else addFinalizer (SetDefaults lv) = (lv', True)
      | Api (UpdateLocalVolumeStatus lv') r \<Rightarrow> \<not> being_deleted lv \<and> (\<exists>st. lv' = (SetDefaults lv)\<lparr>lv_Status := st\<rparr>)
      | Api (CreateStorageClass sc) r \<Rightarrow>
          \<not> being_deleted lv \<and> (\<exists>n \<in> set (lv_classes lv). generateStorageClass E (SetDefaults lv) n = Inr sc)
      | Api (UpdateStorageClass sc) r \<Rightarrow>
          \<not> being_deleted lv \<and> (\<exists>n \<in> set (lv_classes lv). \<exists>required t existing.
             generateStorageClass E (SetDefaults lv) n = Inr required \<and> e_get_sc E t (sc_Name required) = Inr existing
             \<and> sc = snd (mergedStorageClass E required existing))
      | Api (DeleteStorageClass n) r \<Rightarrow>
          (\<exists>t items sc. e_list_sc E t (getOwnerLabelSelector lv) = Inr items \<and> sc \<in> set items \<and> n = sc_Name sc)
          \<and> (if being_deleted lv then found_unused E w (OwnerLV lv) else n \<notin> set (lv_classes lv))
      | Api (UpdatePV p) r \<Rightarrow> being_deleted lv \<and> (\<exists>t. release_of E t (OwnerLV lv) b)
      | _ \<Rightarrow> False)"

lemma timed_updateLV:
  "(\<And>r. P (Api (UpdateLocalVolume lv) r)) \<Longrightarrow> (\<And>o1 t rs m. P (Event o1 t rs m)) \<Longrightarrow> always (timed P) (updateLocalVolume E lv)"
  unfolding updateLocalVolume_def conflictEvent_def lv_recordEvent_def by (intro operator_rules)

lemma timed_syncStatus:
  "(\<And>r. P (Api (UpdateLocalVolumeStatus lv) r)) \<Longrightarrow> (\<And>o1 t rs m. P (Event o1 t rs m)) \<Longrightarrow> always (timed P) (syncStatus E old lv)"
  unfolding syncStatus_def conflictEvent_def lv_recordEvent_def by (intro operator_rules)

lemma timed_removeLoopSC:
  "(\<And>sc r. sc \<in> set items \<Longrightarrow> sc_Name sc \<notin> set expected \<Longrightarrow> P (Api (DeleteStorageClass (sc_Name sc)) r)) \<Longrightarrow>
   always (timed P) (removeLoopSC E expected items)"
proof (induction items)
  case (Cons sc items)
  then show ?case unfolding removeLoopSC.simps deleteStorageClass_def by (intro operator_rules) auto
qed (simp add: timed.ret)

lemma timed_removeUnexpected:
  assumes "\<And>t items sc r. e_list_sc E t (getOwnerLabelSelector cr) = Inr items \<Longrightarrow> sc \<in> set items \<Longrightarrow>
      sc_Name sc \<notin> set expected \<Longrightarrow> P (Api (DeleteStorageClass (sc_Name sc)) r)"
  shows "always (timed P) (removeUnExpectedStorageClasses E cr expected)"
  unfolding removeUnExpectedStorageClasses_def list_sc_def
  by (rule timed_lookup) (intro operator_rules timed_removeLoopSC assms; assumption)

lemma timed_Apply:
  assumes "\<And>r. P (Api (CreateStorageClass required) r)"
    and "\<And>t existing r. e_get_sc E t (sc_Name required) = Inr existing \<Longrightarrow>
      P (Api (UpdateStorageClass (snd (mergedStorageClass E required existing))) r)"
  shows "always (timed P) (ApplyStorageClass E required)"
  unfolding ApplyStorageClass_def get_sc_def Let_def
  by (rule timed_lookup) (intro operator_rules assms(1), drule assms(2), simp)

lemma selector_SetDefaults [simp]:
  "ownerSelector (OwnerLV (SetDefaults lv)) = ownerSelector (OwnerLV lv)"
  "release_of E t (OwnerLV (SetDefaults lv)) = release_of E t (OwnerLV lv)"
  "found_unused E w (OwnerLV (SetDefaults lv)) = found_unused E w (OwnerLV lv)"
  "getOwnerLabelSelector (SetDefaults lv) = getOwnerLabelSelector lv"
  by (auto simp: ownerSelector_def owner_gvk_def owner_meta_def release_of_def found_unused_def getOwnerLabelSelector_def fun_eq_iff)

lemma timed_report_failure:
  "always (timed (lv_operator_action E w lv)) (do { _ \<leftarrow> lv_recordEvent cr reason msg; State_Monad.return x })"
  unfolding lv_recordEvent_def by (intro operator_rules) (simp add: lv_operator_action_def)

lemma cleanup_effects:
  assumes "being_deleted lv" "timed (lv_operator_action E w lv) w v"
  shows "wp (cleanupLocalVolumeDeployment E (SetDefaults lv)) (\<lambda>r w'. timed (lv_operator_action E w lv) w w') v"
  unfolding cleanupLocalVolumeDeployment_def Let_def
proof (rule guarded_by_unused [OF assms(2)])
  let ?P = "lv_operator_action E w lv"
  have event: "?P (Event o1 t rs m)" for o1 t rs m by (simp add: lv_operator_action_def)
  show "?P b" if "release_of E t (OwnerLV (SetDefaults lv)) b" for t b
    using that assms(1) unfolding selector_SetDefaults
    by (cases b) (auto simp: lv_operator_action_def release_of_def split: api_write.splits)
  fix v1
  assume "found_unused E w (OwnerLV (SetDefaults lv))" "timed ?P w v1"
  then show "wp (do {
      err \<leftarrow> removeUnExpectedStorageClasses E (SetDefaults lv) [];
      case err of
        None \<Rightarrow> (case removeFinalizer (SetDefaults lv) of
            None \<Rightarrow> State_Monad.return (Some (Panic ''slice bounds out of range'')) | Some lv1 \<Rightarrow> updateLocalVolume E lv1)
      | Some e \<Rightarrow> do { _ \<leftarrow> lv_recordEvent (SetDefaults lv) ''DeletingStorageClassFailed'' (err_text e); State_Monad.return (Some e) }}) (\<lambda>r w'. timed ?P w w') v1"
    unfolding lv_recordEvent_def using assms(1)
    by (elim timed.wp_last, intro operator_rules event timed_removeUnexpected timed_updateLV) (auto simp: lv_operator_action_def)
qed (erule timed.wp_last, rule timed_report_failure)+

lemma timed_lv_syncStorageClass:
  assumes "\<not> being_deleted lv"
  shows "always (timed (lv_operator_action E w lv)) (lv_syncStorageClass E (SetDefaults lv))"
  unfolding lv_syncStorageClass_def applyOne_def using assms
  by (intro operator_rules timed_Apply timed_removeUnexpected)
    (auto simp: lv_operator_action_def lv_classes_def)

lemma addFinalizer_kept: "addFinalizer lv = (lv1, False) \<Longrightarrow> lv1 = lv"
  by (auto simp: addFinalizer_def Let_def split: if_splits)

lemma sync_effects:
  assumes "timed (lv_operator_action E w lv) w v"
  shows "wp (syncLocalVolumeProvider E lv) (\<lambda>r w'. timed (lv_operator_action E w lv) w w') v"
proof (cases "being_deleted lv")
  case True
  with cleanup_effects [OF True assms] show ?thesis
    by (simp add: syncLocalVolumeProvider_def being_deleted_def Let_def)
next
  case False
  let ?P = "lv_operator_action E w lv" and ?lv = "SetDefaults lv"
  obtain lv1 modified where add: "addFinalizer ?lv = (lv1, modified)" by fastforce
  have event: "?P (Event o1 t rs m)" for o1 t rs m by (simp add: lv_operator_action_def)
  have status: "always (timed ?P) (syncStatus E lv (?lv\<lparr>lv_Status := st\<rparr>))" for st
    by (rule timed_syncStatus) (use False in \<open>auto simp: lv_operator_action_def\<close>)
  have fail: "always (timed ?P) (addFailureCondition E lv ?lv e)" for e
    unfolding addFailureCondition_def with_conditions_def by (intro operator_rules status)
  have again: "always (timed ?P) (syncStatus E lv (x\<lparr>lv_Status := st\<rparr>))" if "\<exists>st'. x = ?lv\<lparr>lv_Status := st'\<rparr>" for x st
    using that status by auto
  have managed: "always (timed ?P) (lv_reportManaged E lv ?lv ds)" for ds
    unfolding lv_reportManaged_def addSuccessCondition_def with_conditions_def
    by (simp, intro timed.bind timed_queries timed.ret again) auto
  show ?thesis
  proof (cases modified)
    case True
    have "always (timed ?P) (updateLocalVolume E lv1)"
      by (rule timed_updateLV) (use False True add in \<open>auto simp: lv_operator_action_def\<close>)
    then show ?thesis
      using False add True timed.wp_last [OF assms] by (simp add: syncLocalVolumeProvider_def being_deleted_def Let_def)
  next
    case keep: False
    with add have lv1: "addFinalizer ?lv = (?lv, False)" using addFinalizer_kept by simp
    have "always (timed ?P) (syncLocalVolumeProvider E lv)"
      unfolding syncLocalVolumeProvider_def Let_def lv1
      using False by (auto simp: being_deleted_def intro!: operator_rules status fail managed timed_lv_syncStorageClass)
    then show ?thesis by (rule timed.wp_last [OF assms])
  qed
qed


lemma operator_lv_timed:
  "timed (\<lambda>b. \<exists>lv. e_get_lv E (w_clock w) request = Inr lv \<and> lv_operator_action E w lv b) w
     (snd (run_state (operator_lv_Reconcile E request) w))"
proof (cases "e_get_lv E (w_clock w) request")
  case (Inl e)
  have "wp (operator_lv_Reconcile E request) (\<lambda>r w'. timed (\<lambda>b. False) w w') w"
    unfolding operator_lv_Reconcile_def get_lv_def by (simp add: wp_simps Inl timed_def)
  with Inl show ?thesis by (simp add: wp_def case_prod_unfold)
next
  case (Inr lv)
  let ?v = "(tick E w)\<lparr>w_lvOwners := registerLV request lv (w_lvOwners w)\<rparr>"
  have start: "timed (lv_operator_action E w lv) w ?v" by (simp add: timed_def log_ext_def)
  have "wp (operator_lv_Reconcile E request) (\<lambda>r w'. timed (lv_operator_action E w lv) w w') w"
    unfolding operator_lv_Reconcile_def get_lv_def
    using sync_effects [OF start] by (simp add: wp_simps Inr)
  with Inr show ?thesis by (simp add: wp_def case_prod_unfold)
qed

text \<open>
  C14: what a reconcile of a LocalVolume by the operator may do. While the object is not being deleted it
  adds the missing finalizer, writes the status of the object it read, creates the storage classes the
  object lists or merges into existing ones of the same name, and deletes only storage classes that carry the object's
  labels and that it does not list. Once the object is being deleted, PVs are released, and the storage
  classes and the finalizer are removed only after the API server listed no PV of this object.
\<close>

theorem operator_lv_effects:
  "case e_get_lv E (w_clock w) request of
      Inl e \<Rightarrow> w_log (snd (run_state (operator_lv_Reconcile E request) w)) = w_log w
    | Inr lv \<Rightarrow> log_ext (lv_operator_action E w lv) w (snd (run_state (operator_lv_Reconcile E request) w))"
  using timed_log [OF operator_lv_timed, of E w request] by (auto split: sum.split)

section \<open>The finalizer contract\<close>

text \<open>A write of a LocalVolume without the protection finalizer.\<close>

definition lv_unprotected :: "action \<Rightarrow> owner \<Rightarrow> bool" where
  "lv_unprotected b obj \<longleftrightarrow>
     (\<exists>lv r. b = Api (UpdateLocalVolume lv) r \<and> localVolumeFinalizer \<notin> set (om_Finalizers (lv_meta lv)) \<and> obj = OwnerLV lv)"

lemma removeFinalizer_owner: "removeFinalizer lv = Some lv' \<Longrightarrow> ownerSelector (OwnerLV lv') = ownerSelector (OwnerLV lv)"
  by (auto simp: removeFinalizer_def Let_def ownerSelector_def owner_gvk_def owner_meta_def split: if_splits)

lemma unprotected_unused:
  "lv_operator_action E w lv b \<Longrightarrow> lv_unprotected b obj \<Longrightarrow> found_unused E w obj"
  by (auto simp: lv_operator_action_def lv_unprotected_def found_unused_def addFinalizer_def Let_def
      dest!: removeFinalizer_owner split: if_splits)

interpretation lv_finalizer: finalizer_contract operator_lv_Reconcile lv_unprotected
  by unfold_locales (rule timed_mono [OF operator_lv_timed], blast intro: unprotected_unused)

text \<open>
  Protection of a LocalVolume. However often and in whatever order the operator reconciles LocalVolumes,
  as long as the API server never lists the PVs of an object as gone, no write takes the protection
  finalizer off that object.
\<close>

theorem lv_protected_while_used:
  assumes "\<forall>t. e_list_pv E t (ownerSelector (OwnerLV lv)) \<noteq> Inr []"
  shows "log_ext (\<lambda>b. \<not> lv_unprotected b (OwnerLV lv)) w
    (snd (run_state (for_each (\<lambda>request. do { _ \<leftarrow> operator_lv_Reconcile E request; State_Monad.return () }) requests) w))"
  using assms by (intro lv_finalizer.protected_while_used) blast

definition deleted_lv :: local_volume where
  "deleted_lv = demo_lv\<lparr>lv_meta := (lv_meta demo_lv)\<lparr>om_DeletionTimestamp := Some 5, om_Finalizers := [localVolumeFinalizer]\<rparr>\<rparr>"

definition deleting_env :: env where
  "deleting_env = owning_env\<lparr>e_get_lv := (\<lambda>t n. Inr deleted_lv)\<rparr>"

theorem lv_protected_while_used_witness:
  "log_ext (\<lambda>b. \<not> lv_unprotected b (OwnerLV deleted_lv)) demo_world
     (snd (run_state (for_each (\<lambda>request. do { _ \<leftarrow> operator_lv_Reconcile deleting_env request; State_Monad.return () })
       [(''ns'', ''lv''), (''ns'', ''lv'')]) demo_world))"
  by (rule lv_protected_while_used) (simp add: deleting_env_def owning_env_def)

lemma removeLoopSC_accepted:
  assumes "\<forall>t c. e_write E t c = None"
  shows "wp (removeLoopSC E expected items) (\<lambda>r w'. r = [] \<and> log_ext (\<lambda>_. True) w w') w"
proof (rule wp_conj)
  show "wp (removeLoopSC E expected items) (\<lambda>r w'. r = []) w"
    using assms by (induction items arbitrary: w) (simp_all add: wp_simps deleteStorageClass_def)
  show "wp (removeLoopSC E expected items) (\<lambda>r w'. log_ext (\<lambda>_. True) w w') w"
    by (rule always_wp, rule always_timed_log, rule timed_removeLoopSC) simp
qed

lemma cleanup_accepted:
  assumes "\<not> unnamed (OwnerLV lv)" "\<forall>t. e_list_pv E t (ownerSelector (OwnerLV lv)) = Inr []"
    and "\<forall>t. \<exists>items. e_list_sc E t (getOwnerLabelSelector lv) = Inr items" "\<forall>t c. e_write E t c = None"
    and "removeFinalizer lv = Some lv'"
  shows "wp (cleanupLocalVolumeDeployment E lv) (\<lambda>r w'. r = None \<and> newly w w' (Api (UpdateLocalVolume lv') None)) w"
proof -
  let ?w = "tick E (tick E (tick E w))"
  obtain items where items: "e_list_sc E (Suc (Suc (w_clock w))) (getOwnerLabelSelector lv) = Inr items" using assms(3) by blast
  have last: "newly w (act (Api (UpdateLocalVolume lv') None) (tick E v)) (Api (UpdateLocalVolume lv') None)"
    if "log_ext (\<lambda>_. True) ?w v" for v
    using that by (auto simp: newly_def log_ext_def intro: exI [of _ "[]"])
  show ?thesis
    unfolding cleanupLocalVolumeDeployment_def ReleaseAvailablePVs_def GetOwnedPVs_def list_pv_def
      removeUnExpectedStorageClasses_def list_sc_def updateLocalVolume_def conflictEvent_def Let_def
    using assms(1,2,4,5)
    by (simp add: wp_simps items NewAggregate_def)
      (auto intro!: wp_mono [OF removeLoopSC_accepted [OF assms(4)]] simp: last)
qed

text \<open>
  C13: deletion comes to an end. When nothing is left of the object's PVs and the API server accepts the
  writes, one reconcile of an object that is being deleted and holds the finalizer once removes the
  finalizer, and it alone, and asks for no retry.
\<close>

theorem lv_deletion_completes:
  assumes "e_get_lv E (w_clock w) request = Inr lv" and "being_deleted lv" and "\<not> unnamed (OwnerLV lv)"
    and "count_list (om_Finalizers (lv_meta lv)) localVolumeFinalizer = 1"
    and "\<forall>t. e_list_pv E t (ownerSelector (OwnerLV lv)) = Inr []"
    and "\<forall>t. \<exists>items. e_list_sc E t (getOwnerLabelSelector lv) = Inr items" and "\<forall>t c. e_write E t c = None"
    and "run_state (operator_lv_Reconcile E request) w = (r, w')"
  shows "r = (no_requeue, None) \<and> (\<exists>lv'. newly w w' (Api (UpdateLocalVolume lv') None)
    \<and> lv_meta lv' = (lv_meta lv)\<lparr>om_Finalizers := filter (\<lambda>f. f \<noteq> localVolumeFinalizer) (om_Finalizers (lv_meta lv))\<rparr>)"
proof -
  let ?v = "(tick E w)\<lparr>w_lvOwners := registerLV request lv (w_lvOwners w)\<rparr>"
  obtain lv' where lv': "removeFinalizer (SetDefaults lv) = Some lv'"
    "lv_meta lv' = (lv_meta lv)\<lparr>om_Finalizers := filter (\<lambda>f. f \<noteq> localVolumeFinalizer) (om_Finalizers (lv_meta lv))\<rparr>"
    using assms(2,4) by (auto simp: removeFinalizer_def Let_def remove_once being_deleted_def isDeletionCandidate_def)
  have named: "\<not> unnamed (OwnerLV (SetDefaults lv))"
    using assms(3) by (simp add: unnamed_def owner_meta_def owner_gvk_def)
  have clean: "wp (cleanupLocalVolumeDeployment E (SetDefaults lv))
      (\<lambda>r w'. r = None \<and> newly ?v w' (Api (UpdateLocalVolume lv') None)) ?v"
    by (rule cleanup_accepted [OF named _ _ assms(7) lv'(1)]) (use assms(5,6) in simp_all)
  have "wp (operator_lv_Reconcile E request) (\<lambda>r w'. r = (no_requeue, None) \<and> newly w w' (Api (UpdateLocalVolume lv') None)) w"
    unfolding operator_lv_Reconcile_def get_lv_def syncLocalVolumeProvider_def Let_def
    using assms(2) clean
    by (simp add: wp_simps assms(1) being_deleted_def) (auto elim!: wp_mono simp: newly_def)
  from wp_runD [OF this assms(8)] lv'(2) show ?thesis by blast
qed

definition unused_env :: env where
  "unused_env = demo_env\<lparr>e_get_lv := (\<lambda>t n. Inr deleted_lv)\<rparr>"

theorem lv_deletion_completes_witness:
  "\<exists>w' lv'. run_state (operator_lv_Reconcile unused_env (''ns'', ''lv'')) demo_world = ((no_requeue, None), w')
     \<and> newly demo_world w' (Api (UpdateLocalVolume lv') None) \<and> om_Finalizers (lv_meta lv') = []"
proof -
  let ?m = "operator_lv_Reconcile unused_env (''ns'', ''lv'')"
  obtain r w' where run: "run_state ?m demo_world = (r, w')" by fastforce
  have lv: "e_get_lv unused_env (w_clock demo_world) (''ns'', ''lv'') = Inr deleted_lv" "being_deleted deleted_lv"
    "\<not> unnamed (OwnerLV deleted_lv)" "count_list (om_Finalizers (lv_meta deleted_lv)) localVolumeFinalizer = 1"
    "\<forall>t. e_list_pv unused_env t (ownerSelector (OwnerLV deleted_lv)) = Inr []"
    "\<forall>t. \<exists>items. e_list_sc unused_env t (getOwnerLabelSelector deleted_lv) = Inr items"
    "\<forall>t c. e_write unused_env t c = None"
    by (simp_all add: unused_env_def demo_env_def being_deleted_def isDeletionCandidate_def deleted_lv_def unnamed_def
        demo_lv_def demo_meta_def owner_meta_def owner_gvk_def localVolumeFinalizer_def)
  from lv_deletion_completes [OF lv run] run show ?thesis
    by (auto simp: deleted_lv_def)
qed

text \<open>
  The removal in place of the finalizer panics when the list holds it more than once with the last
  entry among them: the deletion of such an object can never come to an end.
\<close>

theorem remove_duplicate_panics:
  assumes "count_list (butlast list) s > 0" and "last list = s" and "list \<noteq> []"
  shows "remove list s = None"
proof -
  have "s \<in> set (butlast list)" using assms(1) by (metis count_list_0_iff less_numeral_extra(3))
  then obtain a b where list: "butlast list = a @ s # b" "s \<notin> set a" by (metis split_list_first)
  then have full: "list = a @ s # b @ [s]" using assms(2,3) by (metis append.assoc append_Cons append_butlast_last_id)
  have skip: "removeLoop (k + (length a - i)) i list (length list) s = removeLoop k (length a) list (length list) s"
    if "i \<le> length a" for i k
    using that
  proof (induction "length a - i" arbitrary: i)
    case (Suc d)
    then have "list ! i \<noteq> s" using list(2) full by (auto simp: nth_append dest: nth_mem)
    moreover have "length a - i = Suc (length a - Suc i)" using Suc by simp
    ultimately show ?case using Suc by simp
  qed simp
  have "removeLoop (Suc (length b + 1)) (length a) list (length list) s = None"
    using removeLoop_panics [of "Suc (length a)" "length b + 1" "a @ b @ [s, s]" "length list - 1" s] full
    by (simp add: nth_append)
  moreover have "length list = Suc (length b + 1) + (length a - 0)" using full by simp
  ultimately show ?thesis using skip [of 0 "Suc (length b + 1)"] by (simp add: remove_def)
qed

end
