(* ===== verification/LvsetController.thy ===== *)
theory LvsetController
  imports LvController
begin

text \<open>
  The LocalVolumeSet controller of the operator, \<^verbatim>\<open>pkg/controllers/localvolumeset\<close>: the protection
  finalizer, the storage class of the set, the status conditions and the device count. The registry of
  storage class owners is \<^verbatim>\<open>w_lvsetOwners\<close>.
\<close>

section \<open>Conditions\<close>

definition newCondition :: "string \<Rightarrow> string \<Rightarrow> cond_status \<Rightarrow> time option \<Rightarrow> operator_condition" where
  "newCondition conditionType conditionMessage conditionStatus t =
     \<lparr>oc_Type = conditionType, oc_Status = conditionStatus, oc_Reason = '''', oc_Message = conditionMessage, oc_LastTransitionTime = t\<rparr>"

fun setConditionLoop :: "operator_condition \<Rightarrow> operator_condition list \<Rightarrow> operator_condition list \<times> bool" where
  "setConditionLoop new [] = ([new], True)"
| "setConditionLoop new (condition # rest) =
     (if oc_Type condition = oc_Type new then
        (new\<lparr>oc_LastTransitionTime := oc_LastTransitionTime condition\<rparr> # rest,
         oc_Status condition \<noteq> oc_Status new \<or> oc_LastTransitionTime condition = None \<or> oc_Message condition \<noteq> oc_Message new)
      else case setConditionLoop new rest of (cs, changed) \<Rightarrow> (condition # cs, changed))"

definition SetCondition ::
  "operator_condition list \<Rightarrow> string \<Rightarrow> string \<Rightarrow> cond_status \<Rightarrow> time \<Rightarrow> operator_condition list \<times> bool" where
  "SetCondition conditions conditionType conditionMessage conditionStatus t =
     (let new = newCondition conditionType conditionMessage conditionStatus (Some t)
      in if length conditions < 1 then ([new], True) else setConditionLoop new conditions)"

section \<open>The finalizer\<close>

definition updateFinalizer :: "env \<Rightarrow> bool \<Rightarrow> local_volume_set \<Rightarrow> (error option \<times> local_volume_set) prog" where
  "updateFinalizer E setFinalizer lvSet =
     (let meta = (if setFinalizer then AddFinalizer else RemoveFinalizer) LocalVolumeProtectionFinalizer (lvset_meta lvSet);
          lvSet' = lvSet\<lparr>lvset_meta := meta\<rparr>
      in if length (om_Finalizers meta) \<noteq> length (om_Finalizers (lvset_meta lvSet)) then do {
           err \<leftarrow> api E (UpdateLocalVolumeSet lvSet');
           State_Monad.return (err, lvSet')
         }
         else State_Monad.return (None, lvSet'))"

definition syncFinalizer :: "env \<Rightarrow> local_volume_set \<Rightarrow> (error option \<times> local_volume_set) prog" where
  "syncFinalizer E lvSet =
     (if om_DeletionTimestamp (lvset_meta lvSet) \<noteq> None then do {
        r \<leftarrow> ReleaseAvailablePVs E (OwnerLVSet lvSet);
        (case r of
           Some e \<Rightarrow> State_Monad.return (Some (Errorf (''error releasing unbound persistent volumes for localvolumeset ''
                        @ LocalVolumeSetKey lvSet @ '': '' @ err_text e)), lvSet)
         | None \<Rightarrow> do {
             l \<leftarrow> GetOwnedPVs E (OwnerLVSet lvSet);
             (case l of
                Inl e \<Rightarrow> State_Monad.return (Some (Wrapf ''could not list owned PVs: '' e), lvSet)
              | Inr ownedPVs \<Rightarrow>
                  if ownedPVs \<noteq> [] then
                    State_Monad.return (Some (Errorf (''localvolumeset '' @ LocalVolumeSetKey lvSet @ '' has owned persistentvolumes in use'')), lvSet)
                  else updateFinalizer E False lvSet)
           })
      }
      else updateFinalizer E True lvSet)"

section \<open>The storage class\<close>

definition lvset_owner_labels :: "local_volume_set \<Rightarrow> smap" where
  "lvset_owner_labels lvs =
     [(OwnerNameLabel, lvset_Name lvs), (OwnerNamespaceLabel, lvset_Namespace lvs), (OwnerKindLabel, LocalVolumeSetKind)]"

definition isStorageClassOwnedByLocalVolumeSet :: "storage_class \<Rightarrow> local_volume_set \<Rightarrow> bool" where
  "isStorageClassOwnedByLocalVolumeSet sc lvs =
     list_all (\<lambda>(key, expectedValue). map_of (om_Labels (sc_meta sc)) key = Some expectedValue) (lvset_owner_labels lvs)"

definition removeStorageClass :: "env \<Rightarrow> local_volume_set \<Rightarrow> error option prog" where
  "removeStorageClass E lvs = do {
     g \<leftarrow> get_sc E (lvset_StorageClassName lvs);
     (case g of
        Inl e \<Rightarrow> State_Monad.return (if IsNotFound e then None
          else Some (Wrapf (''failed to get storageClass for LocalVolumeSet '' @ lvset_Name lvs @ '': '') e))
      | Inr sc \<Rightarrow>
          if \<not> isStorageClassOwnedByLocalVolumeSet sc lvs then State_Monad.return None
          else do {
            err \<leftarrow> api E (DeleteStorageClass (sc_Name sc));
            State_Monad.return (case err of
                None \<Rightarrow> None
              | Some e \<Rightarrow> if IsNotFound e then None else Some (Wrapf ''failed to delete storageClass: '' e))
          })
   }"

definition lvset_storageClass :: "local_volume_set \<Rightarrow> storage_class" where
  "lvset_storageClass lvs =
     \<lparr>sc_meta = empty_meta\<lparr>om_Name := lvset_StorageClassName lvs, om_Labels := lvset_owner_labels lvs\<rparr>,
      sc_Provisioner = ''kubernetes.io/no-provisioner'', sc_ReclaimPolicy = Some ReclaimDelete,
      sc_BindingMode = ''WaitForFirstConsumer'', sc_MountOptions = [], sc_AllowedTopologies = []\<rparr>"

definition lvset_syncStorageClass :: "env \<Rightarrow> local_volume_set \<Rightarrow> error option prog" where
  "lvset_syncStorageClass E lvs =
     (if \<not> ContainsFinalizer (lvset_meta lvs) LocalVolumeProtectionFinalizer then do {
        _ \<leftarrow> removeStorageClass E lvs;
        State_Monad.return None
      }
      else do {
        err \<leftarrow> ApplyStorageClass E (lvset_storageClass lvs);
        State_Monad.return (case err of
            None \<Rightarrow> None
          | Some e \<Rightarrow> Some (Wrapf (''error syncing StorageClass '' @ lvset_StorageClassName lvs @ '': '') e))
      })"

section \<open>Status\<close>

text \<open>
  A lookup that finds nothing leaves the object empty: the deregistration then names the empty class.
\<close>

definition forget_lvset :: "namespaced_name \<Rightarrow> unit prog" where
  "forget_lvset request = modify (\<lambda>w. w\<lparr>w_lvsetOwners := DeregisterStorageClassOwner '''' request (w_lvsetOwners w)\<rparr>)"

definition with_lvset_conditions :: "operator_condition list \<Rightarrow> local_volume_set \<Rightarrow> local_volume_set" where
  "with_lvset_conditions cs s = s\<lparr>lvset_Status := (lvset_Status s)\<lparr>lss_Conditions := cs\<rparr>\<rparr>"

definition setConditionAndUpdate :: "env \<Rightarrow> local_volume_set \<Rightarrow> string \<Rightarrow> string \<Rightarrow> cond_status \<Rightarrow> error option prog" where
  "setConditionAndUpdate E lvSet conditionType conditionMessage conditionStatus = do {
     t \<leftarrow> now E;
     (case SetCondition (lss_Conditions (lvset_Status lvSet)) conditionType conditionMessage conditionStatus t of
        (cs, changed) \<Rightarrow>
          if changed then api E (UpdateLocalVolumeSetStatus (with_lvset_conditions cs lvSet)) else State_Monad.return None)
   }"

definition diskMakerCondition :: "daemonset result \<Rightarrow> string \<times> cond_status" where
  "diskMakerCondition g =
     (case g of
        Inl _ \<Rightarrow> (''DiskMaker: Not found.'', ConditionFalse)
      | Inr ds \<Rightarrow>
          if ds_NumberUnavailable ds > 0 then
            (''DiskMaker: '' @ show_int (ds_NumberUnavailable ds) @ ''/'' @ show_int (ds_CurrentNumberScheduled ds) @ '' Unavailable.'',
             ConditionFalse)
          else (''DiskMaker: Available'', ConditionTrue))"

definition updateDaemonSetsCondition :: "env \<Rightarrow> namespaced_name \<Rightarrow> error option prog" where
  "updateDaemonSetsCondition E request = do {
     d \<leftarrow> query E (\<lambda>t w. e_get_ds E t (fst request, DiskMakerName));
     (if (case d of Inl e \<Rightarrow> \<not> IsNotFound e | Inr _ \<Rightarrow> False) then
        State_Monad.return (Some (case d of Inl e \<Rightarrow> Wrapf (''failed to get '' @ DiskMakerName @ '': '') e | Inr _ \<Rightarrow> Errorf ''''))
      else do {
        g \<leftarrow> get_lvset E request;
        (case g of
           Inl e \<Rightarrow> if IsNotFound e then do { _ \<leftarrow> forget_lvset request; State_Monad.return None }
                    else State_Monad.return (Some (Wrapf ''failed to get localvolumeset: '' e))
         | Inr lvSet \<Rightarrow>
             setConditionAndUpdate E lvSet ''DaemonSetsAvailable'' (fst (diskMakerCondition d)) (snd (diskMakerCondition d)))
      })
   }"

definition updateTotalProvisionedDeviceCountStatus :: "env \<Rightarrow> namespaced_name \<Rightarrow> error option prog" where
  "updateTotalProvisionedDeviceCountStatus E request = do {
     g \<leftarrow> get_lvset E request;
     (case g of
        Inl e \<Rightarrow> if IsNotFound e then do { _ \<leftarrow> forget_lvset request; State_Monad.return None }
                 else State_Monad.return (Some (Wrapf ''failed to get localvolumeset: '' e))
      | Inr lvSet \<Rightarrow> do {
          l \<leftarrow> query E (\<lambda>t w. e_list_pv_class E t (lvset_StorageClassName lvSet));
          (case l of
             Inl e \<Rightarrow> State_Monad.return (Some (Wrapf ''failed to list persistent volumes: '' e))
           | Inr pvs \<Rightarrow> do {
               err \<leftarrow> api E (UpdateLocalVolumeSetStatus (lvSet\<lparr>lvset_Status := (lvset_Status lvSet)\<lparr>
                        lss_TotalProvisionedDeviceCount := Some (int32 (length pvs)),
                        lss_ObservedGeneration := om_Generation (lvset_meta lvSet)\<rparr>\<rparr>));
               State_Monad.return (case err of None \<Rightarrow> None | Some e \<Rightarrow> Some (Wrapf ''failed to update status: '' e))
             })
        })
   }"

definition addAvailabilityConditions :: "env \<Rightarrow> namespaced_name \<Rightarrow> outcome \<Rightarrow> outcome prog" where
  "addAvailabilityConditions E request result = do {
     g \<leftarrow> get_lvset E request;
     (case g of
        Inl e \<Rightarrow> if IsNotFound e then do { _ \<leftarrow> forget_lvset request; State_Monad.return result }
                 else State_Monad.return (fst result, Some (Wrapf ''failed to get localvolumeset: '' e))
      | Inr lvSet \<Rightarrow> do {
          err \<leftarrow> (case snd result of
             None \<Rightarrow> setConditionAndUpdate E lvSet ''Available'' ''Operator reconciled successfully.'' ConditionTrue
           | Some e \<Rightarrow> setConditionAndUpdate E lvSet ''Available'' (''Operator error: '' @ err_text e) ConditionFalse);
          State_Monad.return (case err of Some e \<Rightarrow> (fst result, Some e) | None \<Rightarrow> result)
        })
   }"

section \<open>Reconciling\<close>

definition lvset_afterFinalizer :: "env \<Rightarrow> namespaced_name \<Rightarrow> error option \<times> local_volume_set \<Rightarrow> outcome prog" where
  "lvset_afterFinalizer E request f =
     (case f of
        (Some e, _) \<Rightarrow> stop_with (Wrapf ''failed to update localvolumeset finalizer: '' e)
      | (None, lvSet) \<Rightarrow> do {
          e1 \<leftarrow> lvset_syncStorageClass E lvSet;
          (case e1 of
             Some e \<Rightarrow> stop_with e
           | None \<Rightarrow> do {
               e2 \<leftarrow> updateDaemonSetsCondition E request;
               (case e2 of
                  Some e \<Rightarrow> stop_with e
                | None \<Rightarrow> do {
                    e3 \<leftarrow> updateTotalProvisionedDeviceCountStatus E request;
                    (case e3 of Some e \<Rightarrow> stop_with e | None \<Rightarrow> State_Monad.return (no_requeue, None))
                  })
             })
        })"

definition lvset_reconcile :: "env \<Rightarrow> namespaced_name \<Rightarrow> outcome prog" where
  "lvset_reconcile E request = do {
     g \<leftarrow> get_lvset E request;
     (case g of
        Inl e \<Rightarrow> if IsNotFound e then do { _ \<leftarrow> forget_lvset request; State_Monad.return (no_requeue, None) } else stop_with e
      | Inr lvSet \<Rightarrow> do {
          _ \<leftarrow> modify (\<lambda>w. w\<lparr>w_lvsetOwners := RegisterStorageClassOwner (lvset_StorageClassName lvSet) request (w_lvsetOwners w)\<rparr>);
          f \<leftarrow> syncFinalizer E lvSet;
          lvset_afterFinalizer E request f
        })
   }"

definition operator_lvset_Reconcile :: "env \<Rightarrow> namespaced_name \<Rightarrow> outcome prog" where
  "operator_lvset_Reconcile E request = do {
     result \<leftarrow> lvset_reconcile E request;
     addAvailabilityConditions E request result
   }"


section \<open>What SetCondition does\<close>

lemma setConditionLoop_spec:
  "setConditionLoop new cs =
     (case filter (\<lambda>c. oc_Type c = oc_Type new) cs of
        [] \<Rightarrow> (cs @ [new], True)
      | c # _ \<Rightarrow>
          (takeWhile (\<lambda>c. oc_Type c \<noteq> oc_Type new) cs @ new\<lparr>oc_LastTransitionTime := oc_LastTransitionTime c\<rparr>
             # tl (dropWhile (\<lambda>c. oc_Type c \<noteq> oc_Type new) cs),
           oc_Status c \<noteq> oc_Status new \<or> oc_LastTransitionTime c = None \<or> oc_Message c \<noteq> oc_Message new))"
  by (induction cs) (auto split: list.splits)

text \<open>
  \<^verbatim>\<open>SetCondition\<close> appends a condition of a new type with the current time; of a type that is there it
  overwrites the first one in place, keeps all others, and reports a change exactly when the status or
  the message differs or no transition time was set. The transition time of an existing condition is
  never moved, not even when its status changes.
\<close>

theorem set_condition_exact:
  "SetCondition cs ty msg st t =
     (case filter (\<lambda>c. oc_Type c = ty) cs of
        [] \<Rightarrow> (cs @ [newCondition ty msg st (Some t)], True)
      | c # _ \<Rightarrow>
          (takeWhile (\<lambda>c. oc_Type c \<noteq> ty) cs @ newCondition ty msg st (oc_LastTransitionTime c)
             # tl (dropWhile (\<lambda>c. oc_Type c \<noteq> ty) cs),
           oc_Status c \<noteq> st \<or> oc_LastTransitionTime c = None \<or> oc_Message c \<noteq> msg))"
  by (auto simp: SetCondition_def setConditionLoop_spec Let_def newCondition_def split: list.splits)

section \<open>The effects of a reconcile\<close>

text \<open>What a reconcile of a LocalVolumeSet that was read as \<open>s\<close> at the start \<open>w\<close> may do.\<close>

definition lvset_operator_action :: "env \<Rightarrow> world \<Rightarrow> namespaced_name \<Rightarrow> local_volume_set \<Rightarrow> action \<Rightarrow> bool" where
  "lvset_operator_action E w request s b \<longleftrightarrow>
     (case b of
        Api (UpdateLocalVolumeSet s') r \<Rightarrow>
          if om_DeletionTimestamp (lvset_meta s) \<noteq> None
          then found_unused E w (OwnerLVSet s) \<and> s' = s\<lparr>lvset_meta := RemoveFinalizer LocalVolumeProtectionFinalizer (lvset_meta s)\<rparr>
          else s' = s\<lparr>lvset_meta := AddFinalizer LocalVolumeProtectionFinalizer (lvset_meta s)\<rparr>
      | Api (UpdateLocalVolumeSetStatus s') r \<Rightarrow> \<exists>t s0 st. e_get_lvset E t request = Inr s0 \<and> s' = s0\<lparr>lvset_Status := st\<rparr>
      | Api (CreateStorageClass sc) r \<Rightarrow> om_DeletionTimestamp (lvset_meta s) = None \<and> sc = lvset_storageClass s
      | Api (UpdateStorageClass sc) r \<Rightarrow> om_DeletionTimestamp (lvset_meta s) = None
          \<and> (\<exists>t existing. e_get_sc E t (lvset_StorageClassName s) = Inr existing
             \<and> sc = snd (mergedStorageClass E (lvset_storageClass s) existing))
      | Api (DeleteStorageClass n) r \<Rightarrow> om_DeletionTimestamp (lvset_meta s) \<noteq> None \<and> found_unused E w (OwnerLVSet s)
          \<and> (\<exists>t sc. e_get_sc E t (lvset_StorageClassName s) = Inr sc \<and> isStorageClassOwnedByLocalVolumeSet sc s \<and> n = sc_Name sc)
      | Api (UpdatePV p) r \<Rightarrow> om_DeletionTimestamp (lvset_meta s) \<noteq> None \<and> (\<exists>t. release_of E t (OwnerLVSet s) b)
      | _ \<Rightarrow> False)"

lemma timed_setConditionAndUpdate:
  "(\<And>cs r. P (Api (UpdateLocalVolumeSetStatus (with_lvset_conditions cs s)) r)) \<Longrightarrow>
   always (timed P) (setConditionAndUpdate E s ty msg st)"
  unfolding setConditionAndUpdate_def by (intro operator_rules)

lemma timed_forget [simp, intro]: "always (timed P) (forget_lvset request)"
  unfolding forget_lvset_def by (rule timed_modify) simp_all

text \<open>The status of the set is written on the object as it was last read.\<close>

definition status_write :: "env \<Rightarrow> namespaced_name \<Rightarrow> action \<Rightarrow> bool" where
  "status_write E request b \<longleftrightarrow>
     (\<exists>t s0 st r. e_get_lvset E t request = Inr s0 \<and> b = Api (UpdateLocalVolumeSetStatus (s0\<lparr>lvset_Status := st\<rparr>)) r)"

lemma timed_status_programs:
  "always (timed (status_write E request)) (updateDaemonSetsCondition E request)"
  "always (timed (status_write E request)) (updateTotalProvisionedDeviceCountStatus E request)"
  "always (timed (status_write E request)) (addAvailabilityConditions E request result)"
  unfolding updateDaemonSetsCondition_def updateTotalProvisionedDeviceCountStatus_def addAvailabilityConditions_def get_lvset_def
  by (intro operator_rules timed_lookup timed_setConditionAndUpdate timed_forget;
      auto simp: status_write_def with_lvset_conditions_def)+


lemma status_write_action: "status_write E request b \<Longrightarrow> lvset_operator_action E w request s b"
  unfolding status_write_def lvset_operator_action_def by (elim exE conjE) (simp, blast)

lemmas timed_status = always_timed_mono [OF timed_status_programs(1) status_write_action]
  always_timed_mono [OF timed_status_programs(2) status_write_action]
  always_timed_mono [OF timed_status_programs(3) status_write_action]

text \<open>After \<^verbatim>\<open>syncFinalizer\<close> succeeded, the finalizer is there, or the set is being deleted and unused.\<close>

definition finalizer_settled :: "env \<Rightarrow> world \<Rightarrow> local_volume_set \<Rightarrow> local_volume_set \<Rightarrow> bool" where
  "finalizer_settled E w s s1 \<longleftrightarrow>
     (if om_DeletionTimestamp (lvset_meta s) \<noteq> None
      then found_unused E w (OwnerLVSet s) \<and> s1 = s\<lparr>lvset_meta := RemoveFinalizer LocalVolumeProtectionFinalizer (lvset_meta s)\<rparr>
      else s1 = s\<lparr>lvset_meta := AddFinalizer LocalVolumeProtectionFinalizer (lvset_meta s)\<rparr>)"

lemma updateFinalizer_effects:
  assumes "timed P w v" "\<And>r. P (Api (UpdateLocalVolumeSet s') r)"
    and "s' = s\<lparr>lvset_meta := (if b then AddFinalizer else RemoveFinalizer) LocalVolumeProtectionFinalizer (lvset_meta s)\<rparr>"
  shows "wp (updateFinalizer E b s) (\<lambda>r w'. timed P w w' \<and> snd r = s') v"
proof (rule wp_conj)
  have "always (timed P) (updateFinalizer E b s)"
    unfolding updateFinalizer_def Let_def by (intro operator_rules) (use assms(2,3) in simp)
  then show "wp (updateFinalizer E b s) (\<lambda>r w'. timed P w w') v" by (rule timed.wp_last [OF assms(1)])
  show "wp (updateFinalizer E b s) (\<lambda>r w'. snd r = s') v"
    using assms(3) by (simp add: updateFinalizer_def Let_def wp_simps)
qed

lemma syncFinalizer_effects:
  assumes start: "timed (lvset_operator_action E w request s) w v"
  shows "wp (syncFinalizer E s) (\<lambda>r w'. timed (lvset_operator_action E w request s) w w'
    \<and> (fst r = None \<longrightarrow> finalizer_settled E w s (snd r))) v"
proof (cases "om_DeletionTimestamp (lvset_meta s) = None")
  case True
  show ?thesis
    unfolding syncFinalizer_def using True
    by (simp, intro wp_mono [OF updateFinalizer_effects [OF start _ refl, of True]])
      (auto simp: lvset_operator_action_def finalizer_settled_def)
next
  case False
  let ?P = "lvset_operator_action E w request s"
  have release: "?P b" if "release_of E t (OwnerLVSet s) b" for t b
    using that False by (cases b) (auto simp: lvset_operator_action_def release_of_def split: api_write.splits)
  have removal: "wp (updateFinalizer E False s) (\<lambda>r w'. timed ?P w w' \<and> (fst r = None \<longrightarrow> finalizer_settled E w s (snd r))) v1"
    if "found_unused E w (OwnerLVSet s)" "timed ?P w v1" for v1
    by (rule wp_mono [OF updateFinalizer_effects [OF that(2) _ refl]])
      (use False that(1) in \<open>auto simp: lvset_operator_action_def finalizer_settled_def\<close>)
  show ?thesis
    unfolding syncFinalizer_def using False
    by (simp, intro guarded_by_unused [OF start release] removal) (auto simp: wp_return)
qed


lemma syncClass_effects:
  assumes "finalizer_settled E w s s1"
  shows "always (timed (lvset_operator_action E w request s)) (lvset_syncStorageClass E s1)"
proof (cases "om_DeletionTimestamp (lvset_meta s) = None")
  case True
  with assms have s1: "lvset_storageClass s1 = lvset_storageClass s" "ContainsFinalizer (lvset_meta s1) LocalVolumeProtectionFinalizer"
    by (auto simp: finalizer_settled_def lvset_storageClass_def lvset_owner_labels_def AddFinalizer_def ContainsFinalizer_def)
  have name: "sc_Name (lvset_storageClass s) = lvset_StorageClassName s" by (simp add: lvset_storageClass_def)
  show ?thesis
    unfolding lvset_syncStorageClass_def s1(1) using s1(2) True
    by (simp, intro operator_rules timed_Apply) (auto simp: lvset_operator_action_def name)
next
  case False
  with assms have s1: "lvset_StorageClassName s1 = lvset_StorageClassName s" "\<not> ContainsFinalizer (lvset_meta s1) LocalVolumeProtectionFinalizer"
    "\<And>sc. isStorageClassOwnedByLocalVolumeSet sc s1 = isStorageClassOwnedByLocalVolumeSet sc s" "found_unused E w (OwnerLVSet s)"
    by (auto simp: finalizer_settled_def isStorageClassOwnedByLocalVolumeSet_def lvset_owner_labels_def RemoveFinalizer_def ContainsFinalizer_def)
  have "always (timed (lvset_operator_action E w request s)) (removeStorageClass E s1)"
    unfolding removeStorageClass_def get_sc_def s1(1,3)
    by (rule timed_lookup, intro operator_rules) (use False s1(4) in \<open>auto simp: lvset_operator_action_def\<close>)
  then show ?thesis
    unfolding lvset_syncStorageClass_def using s1(2) by (simp add: timed.bind timed.ret)
qed

lemma lvset_reconcile_timed:
  assumes "e_get_lvset E (w_clock w) request = Inr s"
  shows "wp (operator_lvset_Reconcile E request) (\<lambda>r w'. timed (lvset_operator_action E w request s) w w') w"
proof -
  let ?P = "lvset_operator_action E w request s"
  let ?v = "(tick E w)\<lparr>w_lvsetOwners := RegisterStorageClassOwner (lvset_StorageClassName s) request (w_lvsetOwners w)\<rparr>"
  have start: "timed ?P w ?v" by (simp add: timed_def log_ext_def)
  have rest: "wp (lvset_afterFinalizer E request f) (\<lambda>r w'. timed ?P w w') v"
    if "timed ?P w v \<and> (fst f = None \<longrightarrow> finalizer_settled E w s (snd f))" for f v
    using that unfolding lvset_afterFinalizer_def
    by (cases f; cases "fst f") (auto intro!: timed.wp_last operator_rules syncClass_effects timed_status timed_stop)
  have "wp (lvset_reconcile E request) (\<lambda>r w'. timed ?P w w') w"
    unfolding lvset_reconcile_def get_lvset_def
    by (simp add: wp_simps assms) (rule wp_mono [OF syncFinalizer_effects [OF start] rest])
  then show ?thesis
    unfolding operator_lvset_Reconcile_def
    by (rule wp_bindI [OF wp_mono]) (rule timed.wp_last, assumption, rule timed_status)
qed

lemma operator_lvset_timed:
  "timed (\<lambda>b. case e_get_lvset E (w_clock w) request of Inl e \<Rightarrow> status_write E request b
      | Inr s \<Rightarrow> lvset_operator_action E w request s b) w (snd (run_state (operator_lvset_Reconcile E request) w))"
proof (cases "e_get_lvset E (w_clock w) request")
  case (Inl e)
  have start: "timed (status_write E request) w (tick E w)"
    and forget: "timed (status_write E request) w ((tick E w)\<lparr>w_lvsetOwners := m\<rparr>)" for m
    by (simp_all add: timed_def log_ext_def)
  have "wp (operator_lvset_Reconcile E request) (\<lambda>r w'. timed (status_write E request) w w') w"
    unfolding operator_lvset_Reconcile_def lvset_reconcile_def get_lvset_def
    by (auto simp: wp_simps Inl stop_with_def forget_lvset_def intro!: timed.wp_last timed_status_programs start forget)
  with Inl show ?thesis by (simp add: wp_def case_prod_unfold)
next
  case (Inr s)
  with lvset_reconcile_timed [OF Inr] show ?thesis by (simp add: wp_def case_prod_unfold)
qed

text \<open>
  C15: what a reconcile of a LocalVolumeSet by the operator may do. While the set is not being deleted it
  adds the missing finalizer, creates its storage class or merges its labels into an existing one of
  that name, and writes its status. Once it is being deleted, PVs are released; the finalizer goes, and
  then the storage class if it carries the labels of the set, only after the API server listed no PV of
  the set. Status writes change nothing but the status of the object as it was last read.
\<close>

theorem operator_lvset_effects:
  "log_ext (\<lambda>b. case e_get_lvset E (w_clock w) request of
        Inl e \<Rightarrow> status_write E request b
      | Inr s \<Rightarrow> lvset_operator_action E w request s b) w (snd (run_state (operator_lvset_Reconcile E request) w))"
  by (rule timed_log [OF operator_lvset_timed])

section \<open>The finalizer contract\<close>

definition lvset_unprotected :: "action \<Rightarrow> owner \<Rightarrow> bool" where
  "lvset_unprotected b obj \<longleftrightarrow>
     (\<exists>s r. b = Api (UpdateLocalVolumeSet s) r \<and> LocalVolumeProtectionFinalizer \<notin> set (om_Finalizers (lvset_meta s)) \<and> obj = OwnerLVSet s)"

lemma lvset_unprotected_unused:
  "lvset_operator_action E w request s b \<Longrightarrow> lvset_unprotected b obj \<Longrightarrow> found_unused E w obj"
  by (auto simp: lvset_operator_action_def lvset_unprotected_def found_unused_def AddFinalizer_def RemoveFinalizer_def
      ownerSelector_def owner_gvk_def owner_meta_def split: if_splits)

lemma status_not_unprotected: "status_write E request b \<Longrightarrow> \<not> lvset_unprotected b obj"
  by (auto simp: status_write_def lvset_unprotected_def)

interpretation lvset_finalizer: finalizer_contract operator_lvset_Reconcile lvset_unprotected
  by unfold_locales (rule timed_mono [OF operator_lvset_timed],
      auto simp: status_not_unprotected split: sum.splits intro: lvset_unprotected_unused)

text \<open>
  Protection of a LocalVolumeSet. However often and in whatever order the operator reconciles
  LocalVolumeSets, as long as the API server never lists the PVs of a set as gone, no write takes the
  protection finalizer off that set.
\<close>

theorem lvset_protected_while_used:
  assumes "\<forall>t. e_list_pv E t (ownerSelector (OwnerLVSet s)) \<noteq> Inr []"
  shows "log_ext (\<lambda>b. \<not> lvset_unprotected b (OwnerLVSet s)) w
    (snd (run_state (for_each (\<lambda>request. do { _ \<leftarrow> operator_lvset_Reconcile E request; State_Monad.return () }) requests) w))"
  using assms by (intro lvset_finalizer.protected_while_used) blast


definition demo_set :: local_volume_set where
  "demo_set = \<lparr>lvset_meta = demo_meta\<lparr>om_Name := ''set'', om_DeletionTimestamp := Some 5, om_Finalizers := [LocalVolumeProtectionFinalizer]\<rparr>, lvset_Kind = ''LocalVolumeSet'',
     lvset_APIVersion = ''local.storage.openshift.io/v1alpha1'', lvset_NodeSelector = None, lvset_StorageClassName = ''sc'',
     lvset_MaxDeviceCount = None, lvset_VolumeMode = ''Block'', lvset_FSType = '''', lvset_Tolerations = [],
     lvset_DeviceInclusionSpec = None, lvset_DeviceExclusionSpec = None,
     lvset_Status = \<lparr>lss_Conditions = [], lss_TotalProvisionedDeviceCount = None, lss_ObservedGeneration = 0\<rparr>\<rparr>"

definition busy_env :: env where
  "busy_env = owning_env\<lparr>e_get_lvset := (\<lambda>t n. Inr demo_set)\<rparr>"

theorem lvset_protected_while_used_witness:
  "log_ext (\<lambda>b. \<not> lvset_unprotected b (OwnerLVSet demo_set)) demo_world
     (snd (run_state (for_each (\<lambda>request. do { _ \<leftarrow> operator_lvset_Reconcile busy_env request; State_Monad.return () })
       [(''ns'', ''set''), (''ns'', ''set'')]) demo_world))"
  by (rule lvset_protected_while_used) (simp add: busy_env_def owning_env_def)

end
