(* ===== verification/Cluster.thy ===== *)
theory Cluster
  imports PvOwnership LvController LvsetController
begin

text \<open>
  The operator and the diskmakers of all nodes on one API server: the stored owners and PVs, the steps
  that reconciles and users make, and the invariant that no PV outlives the object that owns it. The server is a parameter with the
  laws of \<open>api_server\<close>; \<open>etcd\<close> is one that has them.
\<close>

section \<open>The cluster\<close>

record cluster =
  c_lvs :: "namespaced_name \<Rightarrow> local_volume option"
  c_lvsets :: "namespaced_name \<Rightarrow> local_volume_set option"
  c_pvs :: "pv list"

text \<open>The metadata stored for an owner, and the owner whose metadata a write updates.\<close>

definition meta_at :: "cluster \<Rightarrow> owner_ident \<Rightarrow> obj_meta option" where
  "meta_at s o1 =
     (if fst o1 = LocalVolumeKind then map_option lv_meta (c_lvs s (snd o1))
      else if fst o1 = LocalVolumeSetKind then map_option lvset_meta (c_lvsets s (snd o1))
      else None)"

definition updated_owner :: "api_write \<Rightarrow> (owner_ident \<times> obj_meta) option" where
  "updated_owner c =
     (case c of
        UpdateLocalVolume lv \<Rightarrow> Some ((LocalVolumeKind, lv_Namespace lv, lv_Name lv), lv_meta lv)
      | UpdateLocalVolumeSet x \<Rightarrow> Some ((LocalVolumeSetKind, lvset_Namespace x, lvset_Name x), lvset_meta x)
      | _ \<Rightarrow> None)"

text \<open>
  What the API server does with a write that it reports as successful, as the documentation of object metadata
  says (\<^verbatim>\<open>vendor/k8s.io/apimachinery/pkg/apis/meta/v1/types.go\<close>, \<^verbatim>\<open>ObjectMeta\<close>): an update stores the metadata it is
  given except for the time of deletion, which a client cannot change; an object that is being deleted is
  removed with its last finalizer; an update creates nothing, and writes of the status or of another object
  leave the metadata alone. PVs appear only as a client wrote them.
\<close>

definition put_meta :: "obj_meta \<Rightarrow> obj_meta \<Rightarrow> obj_meta option" where
  "put_meta old m =
     (if om_DeletionTimestamp old \<noteq> None \<and> om_Finalizers m = [] then None
      else Some (m\<lparr>om_DeletionTimestamp := om_DeletionTimestamp old\<rparr>))"

locale api_server =
  fixes store :: "api_write \<Rightarrow> cluster \<Rightarrow> cluster"
  assumes pvs_written: "p \<in> set (c_pvs (store c s)) \<Longrightarrow> p \<in> set (c_pvs s) \<or> c = CreatePV p \<or> c = UpdatePV p"
    and meta_other: "(\<forall>m. updated_owner c \<noteq> Some (o1, m)) \<Longrightarrow> meta_at (store c s) o1 = meta_at s o1"
    and meta_update: "updated_owner c = Some (o1, m) \<Longrightarrow> meta_at (store c s) o1 =
      (case meta_at s o1 of None \<Rightarrow> None | Some old \<Rightarrow> put_meta old m)"

text \<open>A log of actions, newest first, as the server sees it.\<close>

definition server_action :: "(api_write \<Rightarrow> cluster \<Rightarrow> cluster) \<Rightarrow> action \<Rightarrow> cluster \<Rightarrow> cluster" where
  "server_action store b s = (case b of Api c None \<Rightarrow> store c s | _ \<Rightarrow> s)"

definition apply_log :: "(api_write \<Rightarrow> cluster \<Rightarrow> cluster) \<Rightarrow> action list \<Rightarrow> cluster \<Rightarrow> cluster" where
  "apply_log store new s = foldr (server_action store) new s"

section \<open>The invariant\<close>

text \<open>
  The metadata of an owner: the name it is stored under, the finalizer of the operator as the only one,
  and that finalizer in place when the object is being deleted.
\<close>

definition meta_ok :: "owner_ident \<Rightarrow> obj_meta \<Rightarrow> bool" where
  "meta_ok o1 m \<longleftrightarrow> (om_Namespace m, om_Name m) = snd o1 \<and> set (om_Finalizers m) \<subseteq> {LocalVolumeProtectionFinalizer}
     \<and> (om_DeletionTimestamp m \<noteq> None \<longrightarrow> LocalVolumeProtectionFinalizer \<in> set (om_Finalizers m))"

definition owner_kinds :: "string set" where
  "owner_kinds = {LocalVolumeKind, LocalVolumeSetKind}"

definition owners :: "cluster \<Rightarrow> owner_ident set" where
  "owners s = {o1. fst o1 \<in> owner_kinds \<and> (\<exists>p \<in> set (c_pvs s). owner_of p = Some o1)}"

definition objects_ok :: "cluster \<Rightarrow> bool" where
  "objects_ok s \<longleftrightarrow> (\<forall>o1 m. meta_at s o1 = Some m \<longrightarrow> meta_ok o1 m) \<and> (\<forall>p \<in> set (c_pvs s). labelled p)"

definition no_orphans :: "cluster \<Rightarrow> bool" where
  "no_orphans s \<longleftrightarrow> objects_ok s \<and> (\<forall>o1 \<in> owners s. meta_at s o1 \<noteq> None)"

text \<open>While the actions of one run are applied, the PVs name owners of a fixed set, all of them stored.\<close>

definition owned_within :: "owner_ident set \<Rightarrow> cluster \<Rightarrow> bool" where
  "owned_within S s \<longleftrightarrow> objects_ok s \<and> owners s \<subseteq> S \<and> (\<forall>o1 \<in> S. meta_at s o1 \<noteq> None)"

lemma objects_okD: "objects_ok s \<Longrightarrow> meta_at s o1 = Some m \<Longrightarrow> meta_ok o1 m"
  unfolding objects_ok_def by blast

lemma owned_within_orphans: "owned_within S s \<Longrightarrow> no_orphans s"
  by (auto simp: owned_within_def no_orphans_def)

lemma no_orphans_within: "no_orphans s \<Longrightarrow> owned_within (owners s) s"
  by (auto simp: owned_within_def no_orphans_def)

lemma within_insert: "owned_within S s \<Longrightarrow> meta_at s o1 \<noteq> None \<Longrightarrow> owned_within (insert o1 S) s"
  by (auto simp: owned_within_def)

text \<open>The writes that keep this.\<close>

definition safe_pv :: "owner_ident set \<Rightarrow> pv \<Rightarrow> bool" where
  "safe_pv S p \<longleftrightarrow> labelled p \<and> (\<forall>o1. owner_of p = Some o1 \<longrightarrow> fst o1 \<in> owner_kinds \<longrightarrow> o1 \<in> S)"

definition safe_write :: "owner_ident set \<Rightarrow> action \<Rightarrow> bool" where
  "safe_write S b \<longleftrightarrow> writes_pvs (safe_pv S) b \<and>
     (\<forall>c r o1 m. b = Api c r \<longrightarrow> updated_owner c = Some (o1, m) \<longrightarrow>
        set (om_Finalizers m) \<subseteq> {LocalVolumeProtectionFinalizer} \<and> (om_Finalizers m = [] \<longrightarrow> o1 \<notin> S))"

lemma updated_owner_name: "updated_owner c = Some (o1, m) \<Longrightarrow> (om_Namespace m, om_Name m) = snd o1"
  by (auto simp: updated_owner_def split: api_write.splits)

context api_server
begin

lemma meta_after:
  assumes "owned_within S s" "safe_write S (Api c None)"
  shows "(\<forall>m. meta_at (store c s) o1 = Some m \<longrightarrow> meta_ok o1 m) \<and> (o1 \<in> S \<longrightarrow> meta_at (store c s) o1 \<noteq> None)"
proof (cases "\<exists>m. updated_owner c = Some (o1, m)")
  case True
  then obtain m where c: "updated_owner c = Some (o1, m)" ..
  then have "set (om_Finalizers m) \<subseteq> {LocalVolumeProtectionFinalizer}" "om_Finalizers m = [] \<longrightarrow> o1 \<notin> S"
    using assms(2) c unfolding safe_write_def by blast+
  then show ?thesis
    using meta_update [OF c, of s] updated_owner_name [OF c] assms(1)
    by (cases "om_Finalizers m") (auto simp: meta_ok_def put_meta_def owned_within_def objects_ok_def split: option.splits if_splits)
next
  case False
  with meta_other [of c o1 s] assms(1) show ?thesis by (auto simp: owned_within_def dest: objects_okD)
qed

lemma store_keeps:
  assumes "owned_within S s" "safe_write S (Api c None)"
  shows "owned_within S (store c s)"
proof -
  have "safe_pv S p" if "p \<in> set (c_pvs (store c s))" for p
    using pvs_written [OF that] assms
    by (auto simp: safe_write_def safe_pv_def owned_within_def objects_ok_def owners_def)
  then show ?thesis
    using meta_after [OF assms] by (auto simp: owned_within_def objects_ok_def owners_def safe_pv_def)
qed

lemma log_keeps: "owned_within S s \<Longrightarrow> list_all (safe_write S) new \<Longrightarrow> owned_within S (apply_log store new s)"
proof (induction new)
  case (Cons b new)
  then have "owned_within S (apply_log store new s)" "safe_write S b" by simp_all
  then show ?case
    by (auto simp: apply_log_def server_action_def store_keeps split: action.split option.split)
qed (simp add: apply_log_def)

end


section \<open>Runs against a snapshot\<close>

text \<open>
  What a reconcile reads from the API server it finds in the cluster; reads may fail. An object that is
  read carries its kind.
\<close>

definition reads :: "env \<Rightarrow> cluster \<Rightarrow> bool" where
  "reads E s \<longleftrightarrow>
     (\<forall>t k lv. e_get_lv E t k = Inr lv \<longrightarrow> c_lvs s k = Some lv \<and> lv_Kind lv = LocalVolumeKind)
     \<and> (\<forall>t k x. e_get_lvset E t k = Inr x \<longrightarrow> c_lvsets s k = Some x \<and> lvset_Kind x = LocalVolumeSetKind)
     \<and> (\<forall>t n p. e_get_pv E t n = Inr p \<longrightarrow> p \<in> set (c_pvs s))
     \<and> (\<forall>t sel ps. e_list_pv E t sel = Inr ps \<longrightarrow> ps = filter (selected sel) (c_pvs s))"

lemma readsD:
  assumes "reads E s"
  shows "e_get_lv E t k = Inr lv \<Longrightarrow> c_lvs s k = Some lv \<and> lv_Kind lv = LocalVolumeKind"
    "e_get_lvset E t k = Inr x \<Longrightarrow> c_lvsets s k = Some x \<and> lvset_Kind x = LocalVolumeSetKind"
    "e_get_pv E t n = Inr p \<Longrightarrow> p \<in> set (c_pvs s)"
    "e_list_pv E t sel = Inr ps \<Longrightarrow> ps = filter (selected sel) (c_pvs s)"
  using assms unfolding reads_def by blast+

lemma kinds_differ: "LocalVolumeKind \<noteq> LocalVolumeSetKind"
  by (simp add: label_defs LocalVolumeKind_def LocalVolumeSetKind_def)

lemma read_lv:
  assumes "reads E s" "objects_ok s" "e_get_lv E t k = Inr lv"
  shows "owner_name (OwnerLV lv) = (LocalVolumeKind, k)" "meta_at s (LocalVolumeKind, k) = Some (lv_meta lv)" "meta_ok (LocalVolumeKind, k) (lv_meta lv)"
proof -
  show m: "meta_at s (LocalVolumeKind, k) = Some (lv_meta lv)" using readsD(1) [OF assms(1,3)] by (simp add: meta_at_def)
  then show "meta_ok (LocalVolumeKind, k) (lv_meta lv)" by (rule objects_okD [OF assms(2)])
  then show "owner_name (OwnerLV lv) = (LocalVolumeKind, k)"
    using readsD(1) [OF assms(1,3)] by (simp add: owner_name_def owner_gvk_def owner_meta_def meta_ok_def)
qed

lemma read_lvset:
  assumes "reads E s" "objects_ok s" "e_get_lvset E t k = Inr x"
  shows "owner_name (OwnerLVSet x) = (LocalVolumeSetKind, k)" "meta_at s (LocalVolumeSetKind, k) = Some (lvset_meta x)"
    "meta_ok (LocalVolumeSetKind, k) (lvset_meta x)"
proof -
  show m: "meta_at s (LocalVolumeSetKind, k) = Some (lvset_meta x)" using readsD(2) [OF assms(1,3)] kinds_differ by (auto simp: meta_at_def)
  then show "meta_ok (LocalVolumeSetKind, k) (lvset_meta x)" by (rule objects_okD [OF assms(2)])
  then show "owner_name (OwnerLVSet x) = (LocalVolumeSetKind, k)"
    using readsD(2) [OF assms(1,3)] by (simp add: owner_name_def owner_gvk_def owner_meta_def meta_ok_def)
qed

lemma unused_not_owner:
  assumes "reads E s" "found_unused E w obj" shows "owner_name obj \<notin> owners s"
proof
  assume "owner_name obj \<in> owners s"
  then obtain p where "p \<in> set (c_pvs s)" "selected (ownerSelector obj) p" by (auto simp: owners_def selected_owner)
  moreover have "filter (selected (ownerSelector obj)) (c_pvs s) = []"
    using assms(2) readsD(4) [OF assms(1)] unfolding found_unused_def by metis
  ultimately show False by (metis filter_empty_conv)
qed

lemma release_safe:
  assumes "reads E s" "objects_ok s" "release_of E t obj (Api (UpdatePV p) r)"
  shows "safe_pv (owners s) p"
proof -
  from assms(1,3) obtain q uid ns where q: "q \<in> set (c_pvs s)" "p = releasedPV ns uid q"
    by (auto simp: release_of_def dest!: readsD(4) [OF assms(1)])
  have "owner_of p = owner_of q" "labelled p = labelled q"
    by (simp_all add: q releasedPV_def owner_of_def labelled_def)
  with q(1) assms(2) show ?thesis by (auto simp: safe_pv_def objects_ok_def owners_def)
qed

text \<open>What the operator writes is safe for the owners of the snapshot.\<close>

lemma removeLoop_subset: "removeLoop k i arr m s = Some l \<Longrightarrow> set l \<subseteq> set arr"
proof (induction k i arr m s rule: removeLoop.induct)
  case (2 k i arr m s)
  show ?case
  proof (cases "arr ! i = s")
    case True
    have "set (take i arr @ drop (i + 1) (take m arr) @ drop (m - 1) arr) \<subseteq> set arr"
      by (auto dest!: in_set_takeD in_set_dropD)
    with 2 True show ?thesis by (fastforce split: if_splits)
  qed (use 2 in simp)
qed (auto dest: in_set_takeD)

lemma removeFinalizer_meta:
  "removeFinalizer lv = Some lv' \<Longrightarrow> set (om_Finalizers (lv_meta lv')) \<subseteq> set (om_Finalizers (lv_meta lv))
     \<and> om_Namespace (lv_meta lv') = om_Namespace (lv_meta lv) \<and> om_Name (lv_meta lv') = om_Name (lv_meta lv)"
  by (auto simp: removeFinalizer_def remove_def Let_def dest!: removeLoop_subset split: if_splits)

lemma same_finalizer: "localVolumeFinalizer = LocalVolumeProtectionFinalizer"
  by (simp add: localVolumeFinalizer_def LocalVolumeProtectionFinalizer_def)

lemma lv_operator_safe:
  assumes "reads E s" "objects_ok s" "e_get_lv E t k = Inr lv" "lv_operator_action E w lv b"
  shows "safe_write (owners s) b"
proof -
  note lv = read_lv [OF assms(1-3)]
  have unused: "found_unused E w (OwnerLV lv) \<Longrightarrow> (LocalVolumeKind, k) \<notin> owners s"
    using unused_not_owner [OF assms(1)] lv(1) by metis
  have pvs: "writes_pvs (safe_pv (owners s)) b"
    unfolding writes_pvs_def
    using assms(4) release_safe [OF assms(1,2)] by (auto simp: lv_operator_action_def)
  have "set (om_Finalizers m) \<subseteq> {LocalVolumeProtectionFinalizer} \<and> (om_Finalizers m = [] \<longrightarrow> o1 \<notin> owners s)"
    if "b = Api c r" "updated_owner c = Some (o1, m)" for c r o1 m
    using that assms(4) lv(3) unused
    by (auto simp: updated_owner_def lv_operator_action_def addFinalizer_def Let_def meta_ok_def same_finalizer
        dest!: removeFinalizer_meta split: api_write.splits if_splits) blast+
  with pvs show ?thesis by (simp add: safe_write_def)
qed

lemma lvset_operator_safe:
  assumes "reads E s" "objects_ok s" "e_get_lvset E t k = Inr x" "lvset_operator_action E w k x b"
  shows "safe_write (owners s) b"
proof -
  note x = read_lvset [OF assms(1-3)]
  have unused: "found_unused E w (OwnerLVSet x) \<Longrightarrow> (LocalVolumeSetKind, k) \<notin> owners s"
    using unused_not_owner [OF assms(1)] x(1) by metis
  have pvs: "writes_pvs (safe_pv (owners s)) b"
    unfolding writes_pvs_def
    using assms(4) release_safe [OF assms(1,2)] by (auto simp: lvset_operator_action_def)
  have "set (om_Finalizers m) \<subseteq> {LocalVolumeProtectionFinalizer} \<and> (om_Finalizers m = [] \<longrightarrow> o1 \<notin> owners s)"
    if "b = Api c r" "updated_owner c = Some (o1, m)" for c r o1 m
    using that assms(4) x(3) unused
    by (auto simp: updated_owner_def lvset_operator_action_def AddFinalizer_def RemoveFinalizer_def meta_ok_def
        split: api_write.splits if_splits)
  with pvs show ?thesis by (simp add: safe_write_def)
qed

lemma status_safe: "status_write E request b \<Longrightarrow> safe_write S b"
  by (auto simp: status_write_def safe_write_def writes_pvs_def updated_owner_def)

lemma operator_lv_safe:
  assumes "reads E s" "objects_ok s"
  shows "log_ext (safe_write (owners s)) w (snd (run_state (operator_lv_Reconcile E k) w))"
  by (rule log_ext_mono [OF timed_log [OF operator_lv_timed]]) (use lv_operator_safe [OF assms] in blast)

lemma operator_lvset_safe:
  assumes "reads E s" "objects_ok s"
  shows "log_ext (safe_write (owners s)) w (snd (run_state (operator_lvset_Reconcile E k) w))"
  by (rule log_ext_mono [OF timed_log [OF operator_lvset_timed]])
    (use lvset_operator_safe [OF assms] in \<open>auto simp: status_safe split: sum.splits\<close>)


text \<open>What the diskmaker writes is safe for the owners of the snapshot and the object it reconciles.\<close>

lemma log_ext_conj: "log_ext P w w' \<Longrightarrow> log_ext Q w w' \<Longrightarrow> log_ext (\<lambda>b. P b \<and> Q b) w w'"
  by (auto simp: log_ext_def list_all_iff)

lemma always_log_conj: "always (log_ext P) m \<Longrightarrow> always (log_ext Q) m \<Longrightarrow> always (log_ext (\<lambda>b. P b \<and> Q b)) m"
  by (auto simp: always_def intro: log_ext_conj)

lemma named_safe:
  assumes "reads E s" "objects_ok s" "owner_names obj = {o1}" "named_by E obj p"
  shows "safe_pv (insert o1 (owners s)) p"
proof -
  have "\<forall>t n q. e_get_pv E t n = Inr q \<longrightarrow> labelled q"
    using readsD(3) [OF assms(1)] assms(2) by (auto simp: objects_ok_def)
  with assms(3,4) obtain o2 where o2: "owner_of p = Some o2" "o2 = o1 \<or> (\<exists>t n q. e_get_pv E t n = Inr q \<and> owner_of q = Some o2)"
    unfolding named_by_def by blast
  then have "fst o2 \<in> owner_kinds \<longrightarrow> o2 = o1 \<or> o2 \<in> owners s"
    using readsD(3) [OF assms(1)] by (auto simp: owners_def)
  with o2(1) show ?thesis by (auto simp: safe_pv_def labelled_def)
qed

lemma keeps_data_no_owner: "keeps_data b \<Longrightarrow> b = Api c r \<Longrightarrow> updated_owner c = None"
  by (auto simp: keeps_data_def no_loss_def updated_owner_def)

lemma cleanup_no_owner: "cleanup_action ls d b \<Longrightarrow> b = Api c r \<Longrightarrow> updated_owner c = None"
  by (auto simp: cleanup_action_def updated_owner_def)

lemma effects_no_owner:
  "lv_effects E lv (Api c r) \<Longrightarrow> updated_owner c = None" "lvset_effects x (Api c r) \<Longrightarrow> updated_owner c = None"
  by (auto simp: lv_effects_def lvset_effects_def dest: keeps_data_no_owner [OF _ refl] cleanup_no_owner [OF _ refl] split: if_splits)

lemma diskmaker_write_safe:
  assumes "reads E s" "objects_ok s" "owner_names obj = {o1}"
    and "\<And>c r. b = Api c r \<Longrightarrow> updated_owner c = None" "writes_pvs (named_by E obj) b"
  shows "safe_write (insert o1 (owners s)) b"
  using assms(4,5) named_safe [OF assms(1-3)] by (auto simp: safe_write_def writes_pvs_def)

lemma diskmaker_lv_safe:
  assumes "reads E s" "objects_ok s"
  shows "\<exists>S. owners s \<subseteq> S \<and> (\<forall>o1 \<in> S - owners s. meta_at s o1 \<noteq> None)
    \<and> log_ext (safe_write S) w (snd (run_state (lv_Reconcile E symlinkLocation k) w))"
proof (cases "e_get_lv E (w_clock w) k")
  case (Inl e)
  then have "w_log (snd (run_state (lv_Reconcile E symlinkLocation k) w)) = w_log w"
    using lv_Reconcile_log [OF log_lv_cleanup_and_provision, where w = w and request = k and E = E] by simp
  then show ?thesis by (intro exI [of _ "owners s"]) (simp add: log_ext_def)
next
  case (Inr lv)
  note lv = read_lv [OF assms Inr]
  have o1: "owner_names (OwnerLV lv) = {(LocalVolumeKind, k)}"
    using lv by (auto simp: owner_names_def controller_kind_def meta_ok_def owner_meta_def)
  have "log_ext (\<lambda>b. lv_effects E lv b \<and> writes_pvs (named_by E (OwnerLV lv)) b) w (snd (run_state (lv_Reconcile E symlinkLocation k) w))"
    using lv_Reconcile_log [OF always_log_conj [OF log_lv_cleanup_and_provision lv_writes.lv_run [OF refl refl]], where w = w and request = k and E = E] Inr
    by simp
  then have "log_ext (safe_write (insert (LocalVolumeKind, k) (owners s))) w (snd (run_state (lv_Reconcile E symlinkLocation k) w))"
    by (rule log_ext_mono, intro diskmaker_write_safe [OF assms o1])
      (auto dest: effects_no_owner)
  with lv(2) show ?thesis by blast
qed

lemma diskmaker_lvset_safe:
  assumes "reads E s" "objects_ok s"
  shows "\<exists>S. owners s \<subseteq> S \<and> (\<forall>o1 \<in> S - owners s. meta_at s o1 \<noteq> None)
    \<and> log_ext (safe_write S) w (snd (run_state (lvset_Reconcile E k) w))"
proof (cases "e_get_lvset E (w_clock w) k")
  case (Inl e)
  then have "w_log (snd (run_state (lvset_Reconcile E k) w)) = w_log w"
    using lvset_Reconcile_log [OF log_cleanup_and_provision, where w = w and request = k and E = E] by simp
  then show ?thesis by (intro exI [of _ "owners s"]) (simp add: log_ext_def)
next
  case (Inr x)
  note x = read_lvset [OF assms Inr]
  have o1: "owner_names (OwnerLVSet x) = {(LocalVolumeSetKind, k)}"
    using x by (auto simp: owner_names_def controller_kind_def meta_ok_def owner_meta_def)
  have "log_ext (\<lambda>b. lvset_effects x b \<and> writes_pvs (named_by E (OwnerLVSet x)) b) w (snd (run_state (lvset_Reconcile E k) w))"
    using lvset_Reconcile_log [OF always_log_conj [OF log_cleanup_and_provision lvset_writes.set_run [OF refl refl]], where w = w and request = k and E = E] Inr
    by simp
  then have "log_ext (safe_write (insert (LocalVolumeSetKind, k) (owners s))) w (snd (run_state (lvset_Reconcile E k) w))"
    by (rule log_ext_mono, intro diskmaker_write_safe [OF assms o1])
      (auto dest: effects_no_owner)
  with x(2) show ?thesis by blast
qed

section \<open>The steps of the cluster\<close>

text \<open>
  A step is a whole reconcile of one of the two controllers of the operator or of the two of a diskmaker, on
  any node, from any state of its process and with any outcome of its calls, as long as it reads what is stored; or
  something that happens around the program: a user creates an owner, edits its specification, or deletes it; a PV
  changes otherwise than in its labels, disappears, or appears without labels of an owner. A user deletes an owner when it carries the finalizer,
  or when no PV names it.
\<close>

definition same_meta :: "cluster \<Rightarrow> cluster \<Rightarrow> owner_ident \<Rightarrow> bool" where
  "same_meta s s' o1 \<longleftrightarrow> meta_at s' o1 = meta_at s o1"

inductive cluster_step :: "(api_write \<Rightarrow> cluster \<Rightarrow> cluster) \<Rightarrow> cluster \<Rightarrow> cluster \<Rightarrow> bool" for store where
  operator_lv: "\<lbrakk>reads E s; run_state (operator_lv_Reconcile E k) w = (r, w'); w_log w' = new @ w_log w\<rbrakk> \<Longrightarrow>
    cluster_step store s (apply_log store new s)"
| operator_lvset: "\<lbrakk>reads E s; run_state (operator_lvset_Reconcile E k) w = (r, w'); w_log w' = new @ w_log w\<rbrakk> \<Longrightarrow>
    cluster_step store s (apply_log store new s)"
| diskmaker_lv: "\<lbrakk>reads E s; run_state (lv_Reconcile E symlinkLocation k) w = (r, w'); w_log w' = new @ w_log w\<rbrakk> \<Longrightarrow>
    cluster_step store s (apply_log store new s)"
| diskmaker_lvset: "\<lbrakk>reads E s; run_state (lvset_Reconcile E k) w = (r, w'); w_log w' = new @ w_log w\<rbrakk> \<Longrightarrow>
    cluster_step store s (apply_log store new s)"
| owner_created: "\<lbrakk>c_pvs s' = c_pvs s; \<forall>o2. o2 \<noteq> o1 \<longrightarrow> same_meta s s' o2; meta_at s o1 = None; meta_at s' o1 = Some m;
    (om_Namespace m, om_Name m) = snd o1; om_Finalizers m = []; om_DeletionTimestamp m = None\<rbrakk> \<Longrightarrow> cluster_step store s s'"
| owner_edited: "\<lbrakk>c_pvs s' = c_pvs s; \<forall>o2. same_meta s s' o2\<rbrakk> \<Longrightarrow> cluster_step store s s'"
| owner_deleted: "\<lbrakk>c_pvs s' = c_pvs s; \<forall>o2. o2 \<noteq> o1 \<longrightarrow> same_meta s s' o2; meta_at s o1 = Some m;
    LocalVolumeProtectionFinalizer \<in> set (om_Finalizers m); meta_at s' o1 = Some (m\<lparr>om_DeletionTimestamp := Some t\<rparr>)\<rbrakk> \<Longrightarrow> cluster_step store s s'"
| unused_deleted: "\<lbrakk>c_pvs s' = c_pvs s; \<forall>o2. o2 \<noteq> o1 \<longrightarrow> same_meta s s' o2; o1 \<notin> owners s; meta_at s' o1 = None\<rbrakk> \<Longrightarrow> cluster_step store s s'"
| pvs_changed: "\<lbrakk>\<forall>o2. same_meta s s' o2;
    \<forall>p \<in> set (c_pvs s'). (\<exists>q \<in> set (c_pvs s). pv_Labels p = pv_Labels q) \<or> (labelled p \<and> owner_of p = None)\<rbrakk> \<Longrightarrow> cluster_step store s s'"

inductive_cases cluster_stepE: "cluster_step store s s'"

lemma no_orphansI:
  assumes "\<And>o1 m. meta_at s o1 = Some m \<Longrightarrow> meta_ok o1 m" "\<And>p. p \<in> set (c_pvs s) \<Longrightarrow> labelled p" "\<And>o1. o1 \<in> owners s \<Longrightarrow> meta_at s o1 \<noteq> None"
  shows "no_orphans s"
  using assms unfolding no_orphans_def objects_ok_def by blast

lemma no_orphansD:
  assumes "no_orphans s"
  shows "objects_ok s" "meta_at s o1 = Some m \<Longrightarrow> meta_ok o1 m" "p \<in> set (c_pvs s) \<Longrightarrow> labelled p" "o1 \<in> owners s \<Longrightarrow> meta_at s o1 \<noteq> None"
  using assms unfolding no_orphans_def objects_ok_def by blast+

lemma no_orphans_around:
  assumes "no_orphans s" "\<And>p. p \<in> set (c_pvs s') \<Longrightarrow> labelled p" "owners s' \<subseteq> owners s"
    and "\<And>o1. same_meta s s' o1 \<or> (\<exists>m. meta_at s' o1 = Some m \<and> meta_ok o1 m) \<or> meta_at s' o1 = None \<and> o1 \<notin> owners s"
  shows "no_orphans s'"
proof (rule no_orphansI)
  show "meta_ok o1 m" if "meta_at s' o1 = Some m" for o1 m
    using assms(4) [of o1] no_orphansD(2) [OF assms(1), of o1] that by (auto simp: same_meta_def)
  show "meta_at s' o1 \<noteq> None" if "o1 \<in> owners s'" for o1
    using assms(3) assms(4) [of o1] no_orphansD(4) [OF assms(1), of o1] that by (auto simp: same_meta_def)
qed (rule assms(2))

lemma owners_same: "c_pvs s' = c_pvs s \<Longrightarrow> owners s' = owners s"
  by (simp add: owners_def)

lemma same_labels: "pv_Labels p = pv_Labels q \<Longrightarrow> owner_of p = owner_of q \<and> labelled p = labelled q"
  by (simp add: labelled_def owner_of_def)

lemma changed_pv:
  assumes "(\<exists>q \<in> Q. pv_Labels p = pv_Labels q) \<or> (labelled p \<and> owner_of p = None)" "\<And>q. q \<in> Q \<Longrightarrow> labelled q"
  shows "labelled p \<and> (owner_of p = None \<or> (\<exists>q \<in> Q. owner_of p = owner_of q))"
  using assms(1)
proof
  assume "\<exists>q \<in> Q. pv_Labels p = pv_Labels q"
  then obtain q where q: "q \<in> Q" "pv_Labels p = pv_Labels q" ..
  from same_labels [OF q(2)] assms(2) [OF q(1)] q(1) show ?thesis by blast
qed simp

text \<open>One owner changes, or none, and the PVs stay.\<close>

lemma owner_changed:
  assumes "no_orphans s" "c_pvs s' = c_pvs s" "\<forall>o2. o2 \<noteq> o1 \<longrightarrow> same_meta s s' o2"
    and "(\<exists>m. meta_at s' o1 = Some m \<and> meta_ok o1 m) \<or> meta_at s' o1 = None \<and> o1 \<notin> owners s"
  shows "no_orphans s'"
proof (rule no_orphans_around [OF assms(1)])
  show "labelled p" if "p \<in> set (c_pvs s')" for p using that assms(2) no_orphansD(3) [OF assms(1)] by simp
  show "owners s' \<subseteq> owners s" using owners_same [OF assms(2)] by simp
  show "same_meta s s' o2 \<or> (\<exists>m. meta_at s' o2 = Some m \<and> meta_ok o2 m) \<or> meta_at s' o2 = None \<and> o2 \<notin> owners s" for o2
    using assms(3,4) by (cases "o2 = o1") blast+
qed

context api_server
begin

lemma run_keeps:
  assumes "no_orphans s" "owners s \<subseteq> S" "\<forall>o1 \<in> S - owners s. meta_at s o1 \<noteq> None"
    and "log_ext (safe_write S) w w'" "w_log w' = new @ w_log w"
  shows "no_orphans (apply_log store new s)"
proof -
  have "owned_within S s" using assms(1-3) unfolding owned_within_def no_orphans_def by blast
  moreover have "list_all (safe_write S) new" using assms(4,5) by (auto simp: log_ext_def)
  ultimately show ?thesis by (rule owned_within_orphans [OF log_keeps])
qed

lemma step_keeps:
  assumes "cluster_step store s s'" "no_orphans s"
  shows "no_orphans s'"
  using assms(1)
proof cases
  case (operator_lv E k w r w' new)
  with operator_lv_safe [OF operator_lv(2) no_orphansD(1) [OF assms(2)], of w k] show ?thesis
    using run_keeps [OF assms(2) order_refl, of w w' new] by simp
next
  case (operator_lvset E k w r w' new)
  with operator_lvset_safe [OF operator_lvset(2) no_orphansD(1) [OF assms(2)], of w k] show ?thesis
    using run_keeps [OF assms(2) order_refl, of w w' new] by simp
next
  case (diskmaker_lv E symlinkLocation k w r w' new)
  obtain S where "owners s \<subseteq> S" "\<forall>o1 \<in> S - owners s. meta_at s o1 \<noteq> None" "log_ext (safe_write S) w w'"
    using diskmaker_lv_safe [OF diskmaker_lv(2) no_orphansD(1) [OF assms(2)], of w symlinkLocation k] diskmaker_lv(3) by auto
  from run_keeps [OF assms(2) this diskmaker_lv(4)] show ?thesis unfolding diskmaker_lv(1) .
next
  case (diskmaker_lvset E k w r w' new)
  obtain S where "owners s \<subseteq> S" "\<forall>o1 \<in> S - owners s. meta_at s o1 \<noteq> None" "log_ext (safe_write S) w w'"
    using diskmaker_lvset_safe [OF diskmaker_lvset(2) no_orphansD(1) [OF assms(2)], of w k] diskmaker_lvset(3) by auto
  from run_keeps [OF assms(2) this diskmaker_lvset(4)] show ?thesis unfolding diskmaker_lvset(1) .
next
  case pvs_changed
  have pvs: "labelled p" "owner_of p = None \<or> (\<exists>q \<in> set (c_pvs s). owner_of p = owner_of q)" if "p \<in> set (c_pvs s')" for p
    using changed_pv [OF bspec [OF pvs_changed(2) that] no_orphansD(3) [OF assms(2)]] by blast+
  have "owners s' \<subseteq> owners s"
  proof
    fix o1 assume "o1 \<in> owners s'"
    then obtain p where p: "p \<in> set (c_pvs s')" "owner_of p = Some o1" "fst o1 \<in> owner_kinds" by (auto simp: owners_def)
    with pvs(2) [OF p(1)] obtain q where "q \<in> set (c_pvs s)" "owner_of q = Some o1" by auto
    with p(3) show "o1 \<in> owners s" by (auto simp: owners_def)
  qed
  from no_orphans_around [OF assms(2) pvs(1) this] pvs_changed(1) show ?thesis by blast
next
  case (owner_created o1 m)
  then have "meta_ok o1 m" by (simp add: meta_ok_def)
  with owner_created(4) have "\<exists>m. meta_at s' o1 = Some m \<and> meta_ok o1 m" by blast
  from owner_changed [OF assms(2) owner_created(1,2) disjI1 [OF this]] show ?thesis .
next
  case owner_edited
  show ?thesis
  proof (rule no_orphans_around [OF assms(2)])
    show "labelled p" if "p \<in> set (c_pvs s')" for p using that owner_edited(1) no_orphansD(3) [OF assms(2)] by simp
    show "owners s' \<subseteq> owners s" using owners_same [OF owner_edited(1)] by simp
  qed (use owner_edited(2) in blast)
next
  case (owner_deleted o1 m t)
  then have "meta_ok o1 (m\<lparr>om_DeletionTimestamp := Some t\<rparr>)" using no_orphansD(2) [OF assms(2) owner_deleted(3)] by (simp add: meta_ok_def)
  with owner_deleted(5) have "\<exists>m. meta_at s' o1 = Some m \<and> meta_ok o1 m" by blast
  from owner_changed [OF assms(2) owner_deleted(1,2) disjI1 [OF this]] show ?thesis .
next
  case (unused_deleted o1)
  from owner_changed [OF assms(2) unused_deleted(1,2) disjI2] unused_deleted(3,4) show ?thesis by blast
qed

end


section \<open>A server\<close>

text \<open>A server that stores objects by name.\<close>

definition put_lv :: "local_volume \<Rightarrow> local_volume option \<Rightarrow> local_volume option" where
  "put_lv new stored =
     (case stored of
        None \<Rightarrow> None
      | Some old \<Rightarrow> map_option (\<lambda>m. new\<lparr>lv_meta := m, lv_Status := lv_Status old\<rparr>) (put_meta (lv_meta old) (lv_meta new)))"

definition put_lvset :: "local_volume_set \<Rightarrow> local_volume_set option \<Rightarrow> local_volume_set option" where
  "put_lvset new stored =
     (case stored of
        None \<Rightarrow> None
      | Some old \<Rightarrow> map_option (\<lambda>m. new\<lparr>lvset_meta := m, lvset_Status := lvset_Status old\<rparr>) (put_meta (lvset_meta old) (lvset_meta new)))"

definition put_pv :: "pv \<Rightarrow> pv list \<Rightarrow> pv list" where
  "put_pv p ps =
     filter (\<lambda>q. \<not> (pv_Name q = pv_Name p \<and> om_DeletionTimestamp (pv_meta q) \<noteq> None \<and> om_Finalizers (pv_meta q) = []))
       (map (\<lambda>q. if pv_Name q = pv_Name p then p else q) ps)"

definition etcd :: "api_write \<Rightarrow> cluster \<Rightarrow> cluster" where
  "etcd c s =
     (case c of
        CreatePV p \<Rightarrow> if pv_Name p \<in> pv_Name ` set (c_pvs s) then s else s\<lparr>c_pvs := p # c_pvs s\<rparr>
      | UpdatePV p \<Rightarrow> s\<lparr>c_pvs := put_pv p (c_pvs s)\<rparr>
      | UpdateLocalVolume new \<Rightarrow>
          s\<lparr>c_lvs := (c_lvs s)((lv_Namespace new, lv_Name new) := put_lv new (c_lvs s (lv_Namespace new, lv_Name new)))\<rparr>
      | UpdateLocalVolumeStatus new \<Rightarrow>
          s\<lparr>c_lvs := (c_lvs s)((lv_Namespace new, lv_Name new) :=
            map_option (\<lambda>old. old\<lparr>lv_Status := lv_Status new\<rparr>) (c_lvs s (lv_Namespace new, lv_Name new)))\<rparr>
      | UpdateLocalVolumeSet new \<Rightarrow>
          s\<lparr>c_lvsets := (c_lvsets s)((lvset_Namespace new, lvset_Name new) := put_lvset new (c_lvsets s (lvset_Namespace new, lvset_Name new)))\<rparr>
      | UpdateLocalVolumeSetStatus new \<Rightarrow>
          s\<lparr>c_lvsets := (c_lvsets s)((lvset_Namespace new, lvset_Name new) :=
            map_option (\<lambda>old. old\<lparr>lvset_Status := lvset_Status new\<rparr>) (c_lvsets s (lvset_Namespace new, lvset_Name new)))\<rparr>
      | _ \<Rightarrow> s)"

lemma etcd_other:
  assumes "\<forall>m. updated_owner c \<noteq> Some (o1, m)" shows "meta_at (etcd c s) o1 = meta_at s o1"
proof -
  obtain kind k where o1: "o1 = (kind, k)" by (cases o1)
  have "map_option lv_meta (c_lvs (etcd c s) k) = map_option lv_meta (c_lvs s k)" if "kind = LocalVolumeKind"
    using assms that o1 by (cases c) (simp_all add: etcd_def updated_owner_def option.map_comp comp_def split: prod.splits)
  moreover have "map_option lvset_meta (c_lvsets (etcd c s) k) = map_option lvset_meta (c_lvsets s k)" if "kind = LocalVolumeSetKind"
    using assms that o1 by (cases c) (simp_all add: etcd_def updated_owner_def option.map_comp comp_def split: prod.splits)
  ultimately show ?thesis by (simp add: meta_at_def o1)
qed

lemma etcd_update:
  assumes "updated_owner c = Some (o1, m)"
  shows "meta_at (etcd c s) o1 = (case meta_at s o1 of None \<Rightarrow> None | Some old \<Rightarrow> put_meta old m)"
proof (cases c)
  case (UpdateLocalVolume new)
  with assms show ?thesis
    by (auto simp: etcd_def meta_at_def updated_owner_def put_lv_def option.map_comp comp_def option.map_ident split: option.split)
next
  case (UpdateLocalVolumeSet new)
  with assms kinds_differ show ?thesis
    by (auto simp: etcd_def meta_at_def updated_owner_def put_lvset_def option.map_comp comp_def option.map_ident split: option.split)
qed (use assms in \<open>simp_all add: updated_owner_def\<close>)

interpretation etcd: api_server etcd
proof
  show "p \<in> set (c_pvs s) \<or> c = CreatePV p \<or> c = UpdatePV p" if "p \<in> set (c_pvs (etcd c s))" for p c s
    using that by (cases c) (auto simp: etcd_def put_pv_def split: if_splits)
qed (simp_all add: etcd_other etcd_update)

section \<open>No PV loses its owner\<close>

inductive cluster_reachable :: "(api_write \<Rightarrow> cluster \<Rightarrow> cluster) \<Rightarrow> cluster \<Rightarrow> bool" for store where
  start: "\<lbrakk>c_pvs s = []; \<And>o1. meta_at s o1 = None\<rbrakk> \<Longrightarrow> cluster_reachable store s"
| step: "\<lbrakk>cluster_reachable store s; cluster_step store s s'\<rbrakk> \<Longrightarrow> cluster_reachable store s'"

lemma reachable_no_orphans:
  assumes "api_server store" "cluster_reachable store s"
  shows "no_orphans s"
  using assms(2)
proof induction
  case (start s)
  then show ?case by (intro no_orphansI) (auto simp: owners_def)
next
  case (step s s')
  then show ?case by (blast intro: api_server.step_keeps [OF assms(1)])
qed



section \<open>A run from the empty cluster\<close>

text \<open>A LocalVolume is created, and a diskmaker reconciles it on a node with one disk.\<close>

definition lsblk_sda :: string where
  "lsblk_sda = ''NAME=\"sda\" TYPE=\"disk\" SIZE=\"100\" KNAME=\"sda\"''"

definition empty_cluster :: cluster where
  "empty_cluster = \<lparr>c_lvs = (\<lambda>k. None), c_lvsets = (\<lambda>k. None), c_pvs = []\<rparr>"

definition fresh_cluster :: cluster where
  "fresh_cluster = empty_cluster\<lparr>c_lvs := (\<lambda>k. if k = (''ns'', ''lv'') then Some demo_lv else None)\<rparr>"

definition provisioning_env :: env where
  "provisioning_env = demo_env\<lparr>
     e_get_lv := (\<lambda>t k. case c_lvs fresh_cluster k of Some lv \<Rightarrow> Inr lv | None \<Rightarrow> Inl (NotFound (snd k))),
     e_get_sc := (\<lambda>t n. Inr demo_sc),
     e_cmd := (\<lambda>t c a. if c = ''lsblk'' then (lsblk_sda, None) else ('''', None))\<rparr>"

definition synced_world :: world where
  "synced_world = demo_world\<lparr>w_links := (w_links demo_world)\<lparr>lc_synced := True\<rparr>\<rparr>"

abbreviation provisioning_run :: "outcome \<times> world" where
  "provisioning_run \<equiv> run_state (lv_Reconcile provisioning_env ''/mnt/local-storage'' (''ns'', ''lv'')) synced_world"

definition provisioned_cluster :: cluster where
  "provisioned_cluster = apply_log etcd (w_log (snd provisioning_run)) fresh_cluster"

text \<open>The LocalVolume has a PV and no finalizer.\<close>

definition unprotected_pv :: "cluster \<Rightarrow> bool" where
  "unprotected_pv s \<longleftrightarrow> list_ex (\<lambda>p. owner_of p = Some (''LocalVolume'', ''ns'', ''lv'')) (c_pvs s)
     \<and> (case meta_at s (''LocalVolume'', ''ns'', ''lv'') of Some m \<Rightarrow> om_Finalizers m = [] | None \<Rightarrow> False)"

lemma provisioned_unprotected: "unprotected_pv provisioned_cluster"
  unfolding provisioned_cluster_def by code_simp

lemma provisioned_pv: "\<exists>p \<in> set (c_pvs provisioned_cluster). owner_of p = Some (''LocalVolume'', ''ns'', ''lv'')"
  using provisioned_unprotected by (auto simp: unprotected_pv_def list_ex_iff)

lemma fresh_meta:
  "meta_at empty_cluster o1 = None"
  "meta_at fresh_cluster o1 = (if o1 = (''LocalVolume'', ''ns'', ''lv'') then Some (lv_meta demo_lv) else None)"
  by (cases o1; auto simp: fresh_cluster_def empty_cluster_def meta_at_def LocalVolumeKind_def LocalVolumeSetKind_def)+

lemma provisioned_reachable: "cluster_reachable etcd provisioned_cluster"
proof -
  have "cluster_reachable etcd empty_cluster"
    by (rule cluster_reachable.start, simp add: empty_cluster_def) (rule fresh_meta)
  moreover have "cluster_step etcd empty_cluster fresh_cluster"
    by (rule owner_created [where ?o1.0 = "(''LocalVolume'', ''ns'', ''lv'')" and m = "lv_meta demo_lv"])
      (simp_all add: fresh_meta same_meta_def, simp_all add: fresh_cluster_def empty_cluster_def demo_lv_def demo_meta_def)
  ultimately have "cluster_reachable etcd fresh_cluster" by (rule cluster_reachable.step)
  moreover have "reads provisioning_env fresh_cluster"
    unfolding reads_def
    by (auto simp: provisioning_env_def fresh_cluster_def empty_cluster_def demo_env_def demo_lv_def LocalVolumeKind_def split: if_splits)
  then have "cluster_step etcd fresh_cluster provisioned_cluster"
    unfolding provisioned_cluster_def
  proof (rule diskmaker_lv)
    show "provisioning_run = (fst provisioning_run, snd provisioning_run)" by (rule prod.collapse [symmetric])
    have "w_log synced_world = []" by code_simp
    then show "w_log (snd provisioning_run) = w_log (snd provisioning_run) @ w_log synced_world" by (simp only: append_Nil2)
  qed
  ultimately show ?thesis by (rule cluster_reachable.step)
qed


text \<open>
  C35: the finalizer may come too late. The diskmaker does not wait for it: there is a history of the cluster after
  which a LocalVolume has a PV and no finalizer at all, so that a deletion at this moment removes the object at once
  and leaves the PV without an owner.
\<close>

theorem pv_before_finalizer:
  "\<exists>s m. cluster_reachable etcd s \<and> (\<exists>p \<in> set (c_pvs s). owner_of p = Some (LocalVolumeKind, ''ns'', ''lv''))
     \<and> meta_at s (LocalVolumeKind, ''ns'', ''lv'') = Some m \<and> om_Finalizers m = []"
proof -
  obtain m where "meta_at provisioned_cluster (LocalVolumeKind, ''ns'', ''lv'') = Some m" "om_Finalizers m = []"
    using provisioned_unprotected by (auto simp: unprotected_pv_def LocalVolumeKind_def split: option.splits)
  with provisioned_reachable provisioned_pv show ?thesis unfolding LocalVolumeKind_def by blast
qed

end
