(* ===== verification/Monitoring.thy ===== *)
theory Monitoring
  imports Operator
begin

text \<open>
  Model of \<^verbatim>\<open>pkg/localmetrics\<close>: the Service, ServiceMonitor and PrometheusRule that expose the metrics of
  the daemons, and the collector of device link metrics. The YAML decoder is a parameter of the environment.
\<close>

section \<open>Exporter\<close>

record exporter =
  ex_Name :: string
  ex_Namespace :: string
  ex_OwnerRefs :: "owner_ref list"
  ex_AppLabel :: string
  ex_ServiceCertName :: string

definition NewExporter :: "string \<Rightarrow> string \<Rightarrow> string \<Rightarrow> owner_ref list \<Rightarrow> string \<Rightarrow> exporter" where
  "NewExporter name namespace certName ownerRefs appLabel =
     \<lparr>ex_Name = name, ex_Namespace = namespace, ex_OwnerRefs = ownerRefs, ex_AppLabel = appLabel, ex_ServiceCertName = certName\<rparr>"

definition exporterPairs :: "exporter \<Rightarrow> smap" where
  "exporterPairs e = [(''${OBJECT_NAME}'', ex_Name e), (''${OBJECT_NAMESPACE}'', ex_Namespace e),
     (''${APP_LABEL}'', ex_AppLabel e), (''${SERVICE_CERT_NAME}'', ex_ServiceCertName e)]"

definition mo_key :: "monitor_object \<Rightarrow> namespaced_name" where
  "mo_key m = (om_Namespace (mo_meta m), om_Name (mo_meta m))"

definition withOwnerRefs :: "owner_ref list \<Rightarrow> monitor_object \<Rightarrow> monitor_object" where
  "withOwnerRefs refs m = m\<lparr>mo_meta := (mo_meta m)\<lparr>om_OwnerReferences := refs\<rparr>\<rparr>"

text \<open>
  A service is replaced, with the version and the cluster IP of the existing one; of a service monitor
  and of a rule only the spec is replaced.
\<close>

definition updatedObject :: "monitor_kind \<Rightarrow> monitor_object \<Rightarrow> monitor_object \<Rightarrow> monitor_object" where
  "updatedObject kind new old =
     (case kind of
        ServiceKind \<Rightarrow> new\<lparr>mo_ResourceVersion := mo_ResourceVersion old, mo_ClusterIP := mo_ClusterIP old\<rparr>
      | ServiceMonitorKind \<Rightarrow> old\<lparr>mo_Spec := mo_Spec new\<rparr>
      | PrometheusRuleKind \<Rightarrow> old\<lparr>mo_Spec := mo_Spec new\<rparr>)"

text \<open>The messages of the three variants: on creation, lookup, update, decoding and as a whole.\<close>

definition monitor_messages :: "monitor_kind \<Rightarrow> string \<times> string \<times> string \<times> string \<times> string" where
  "monitor_messages kind =
     (case kind of
        ServiceKind \<Rightarrow> (''failed to create metrics exporter service '', ''failed to retrieve metrics exporter service '',
          ''failed to update service '', ''failed to get service. '', ''failed to enable service monitor. '')
      | ServiceMonitorKind \<Rightarrow> (''failed to get servicemonitor '', ''failed to retrieve servicemonitor '',
          ''failed to update servicemonitor '', ''failed to get service monitor. '', ''failed to enable service monitor. '')
      | PrometheusRuleKind \<Rightarrow> (''failed to create prometheusrule '', ''failed to retrieve prometheusrule '',
          ''failed to update prometheusrule '', ''failed to get prometheus rule. '', ''failed to enable prometheus rule. ''))"

definition failedOn :: "string \<Rightarrow> monitor_object \<Rightarrow> error \<Rightarrow> error" where
  "failedOn what m e = Errorf (what @ fst (mo_key m) @ ''/'' @ snd (mo_key m) @ ''. '' @ err_text e)"

definition createOrUpdateMonitor :: "env \<Rightarrow> monitor_kind \<Rightarrow> monitor_object \<Rightarrow> error option prog" where
  "createOrUpdateMonitor E kind m =
     (case monitor_messages kind of (creating, retrieving, updating, _, _) \<Rightarrow> do {
        g \<leftarrow> query E (\<lambda>t w. e_get_monitor E t kind (mo_key m));
        (case g of
           Inl e \<Rightarrow>
             if IsNotFound e then do {
               r \<leftarrow> api E (CreateMonitor kind m);
               State_Monad.return (map_option (failedOn creating m) r)
             }
             else State_Monad.return (Some (failedOn retrieving m e))
         | Inr old \<Rightarrow> do {
             r \<leftarrow> api E (UpdateMonitor kind (updatedObject kind m old));
             State_Monad.return (map_option (failedOn updating m) r)
           })
      })"

text \<open>
  \<^verbatim>\<open>getMetricsService\<close>, \<^verbatim>\<open>getMetricsServiceMonitor\<close> and \<^verbatim>\<open>getPrometheusRule\<close>: the file, and the messages when it
  cannot be read and when it cannot be decoded.
\<close>

definition monitor_file :: "monitor_kind \<Rightarrow> string \<times> string \<times> (error \<Rightarrow> string)" where
  "monitor_file kind =
     (case kind of
        ServiceKind \<Rightarrow> (MetricsServiceTemplate, ''failed to fetch service monitor file. '', (\<lambda>e. ''failed to decode service monitor''))
      | ServiceMonitorKind \<Rightarrow> (MetricsServiceMonitorTemplate, ''failed to fetch service monitor file. '', (\<lambda>e. ''failed to decode service monitor''))
      | PrometheusRuleKind \<Rightarrow> (PrometheusRuleTemplate, ''failed to fetch prometheus rule file. '',
          (\<lambda>e. ''failed to decode prometheus rule file: '' @ err_text e)))"

definition getMonitor :: "env \<Rightarrow> monitor_kind \<Rightarrow> smap \<Rightarrow> monitor_object result" where
  "getMonitor E kind pairs =
     (case monitor_file kind of (name, fetching, decoding) \<Rightarrow>
        case ReadFile E name of
          Inl e \<Rightarrow> Inl (Errorf (fetching @ err_text e))
        | Inr file \<Rightarrow>
            (case e_read_monitor E kind (Replace pairs file) of
               Inl e \<Rightarrow> Inl (Errorf (decoding e))
             | Inr m \<Rightarrow> Inr m))"

definition enableMonitor :: "env \<Rightarrow> monitor_kind \<Rightarrow> smap \<Rightarrow> owner_ref list \<Rightarrow> error option prog" where
  "enableMonitor E kind pairs refs =
     (case monitor_messages kind of (_, _, _, decoding, enabling) \<Rightarrow>
        case getMonitor E kind pairs of
          Inl e \<Rightarrow> State_Monad.return (Some (Errorf (decoding @ err_text e)))
        | Inr m \<Rightarrow> do {
            r \<leftarrow> createOrUpdateMonitor E kind (withOwnerRefs refs m);
            State_Monad.return (map_option (\<lambda>e. Errorf (enabling @ err_text e)) r)
          })"

definition enableService :: "env \<Rightarrow> exporter \<Rightarrow> error option prog" where
  "enableService E e = enableMonitor E ServiceKind (exporterPairs e) (ex_OwnerRefs e)"

definition enableServiceMonitor :: "env \<Rightarrow> exporter \<Rightarrow> error option prog" where
  "enableServiceMonitor E e = enableMonitor E ServiceMonitorKind (exporterPairs e) (ex_OwnerRefs e)"

definition EnableMetricsExporter :: "env \<Rightarrow> exporter \<Rightarrow> error option prog" where
  "EnableMetricsExporter E e = do {
     r \<leftarrow> enableService E e;
     (case r of Some err \<Rightarrow> State_Monad.return (Some err) | None \<Rightarrow> enableServiceMonitor E e)
   }"

section \<open>Alert rules\<close>

definition CreateOrUpdateAlertRules :: "env \<Rightarrow> string \<Rightarrow> string \<Rightarrow> owner_ref list \<Rightarrow> error option prog" where
  "CreateOrUpdateAlertRules E namespace diskmakerName ownerRefs =
     enableMonitor E PrometheusRuleKind [(''${OBJECT_NAMESPACE}'', namespace), (''${DAEMONSET_NAME}'', diskmakerName)] ownerRefs"

section \<open>Device link metrics\<close>

text \<open>A gauge with value 1 and its labels: name, persistent volume, policy; or a scrape error.\<close>

datatype link_metric =
    Mismatch string string link_policy
  | WithoutStablePath string string link_policy
  | InvalidMetric string error

definition linkMetrics :: "lvdl \<Rightarrow> link_metric list" where
  "linkMetrics link =
     (let mismatch = (lst_CurrentLinkTarget (ld_Status link) \<noteq> lst_PreferredLinkTarget (ld_Status link));
          noStablePath = (length (lst_ValidLinkTargets (ld_Status link)) = 0);
          policy = (if ls_Policy (ld_Spec link) = PolicyUnset then PolicyNone else ls_Policy (ld_Spec link))
      in if \<not> mismatch \<and> \<not> noStablePath then []
         else (if mismatch then [Mismatch (ld_Name link) (ls_PersistentVolumeName (ld_Spec link)) policy] else [])
            @ (if noStablePath then [WithoutStablePath (ld_Name link) (ls_PersistentVolumeName (ld_Spec link)) policy] else []))"

fun collectLoop :: "string \<Rightarrow> lvdl list \<Rightarrow> link_metric list" where
  "collectLoop nodeName [] = []"
| "collectLoop nodeName (link # items) =
     (if ls_NodeName (ld_Spec link) \<noteq> nodeName then collectLoop nodeName items
      else linkMetrics link @ collectLoop nodeName items)"

definition Collect :: "string \<Rightarrow> lvdl list result \<Rightarrow> link_metric list" where
  "Collect nodeName l =
     (case l of
        Inl err \<Rightarrow> [InvalidMetric ''lso_device_link_mismatch'' err, InvalidMetric ''lso_device_link_without_stable_path'' err]
      | Inr items \<Rightarrow> collectLoop nodeName items)"

section \<open>Lemmas\<close>

text \<open>The monitoring programs write objects of their kinds only.\<close>

definition monitor_write :: "action \<Rightarrow> bool" where
  "monitor_write b \<longleftrightarrow> (\<exists>k m r. b = Api (CreateMonitor k m) r \<or> b = Api (UpdateMonitor k m) r)"

lemma timed_enable: "always (timed monitor_write) (enableMonitor E kind pairs refs)"
  unfolding enableMonitor_def createOrUpdateMonitor_def
  by (intro operator_rules) (auto simp: monitor_write_def)

lemma timed_monitoring:
  "always (timed monitor_write) (EnableMetricsExporter E e)"
  "always (timed monitor_write) (CreateOrUpdateAlertRules E ns n refs)"
  unfolding EnableMetricsExporter_def enableService_def enableServiceMonitor_def CreateOrUpdateAlertRules_def
  by (intro operator_rules timed_enable)+

text \<open>
  A scrape reports a link exactly when it belongs to this node and has a problem: a mismatch gauge if
  its current target is not the preferred one, a gauge for missing stable paths if no by-id link is
  known, nothing otherwise.
\<close>

lemma collect_exact:
  "Mismatch n p pol \<in> set (Collect nodeName (Inr items)) \<longleftrightarrow>
     (\<exists>l \<in> set items. ls_NodeName (ld_Spec l) = nodeName \<and> ld_Name l = n \<and> ls_PersistentVolumeName (ld_Spec l) = p
        \<and> lst_CurrentLinkTarget (ld_Status l) \<noteq> lst_PreferredLinkTarget (ld_Status l)
        \<and> pol = (if ls_Policy (ld_Spec l) = PolicyUnset then PolicyNone else ls_Policy (ld_Spec l)))"
proof -
  have "Mismatch n p pol \<in> set (collectLoop nodeName items) \<longleftrightarrow> (\<exists>l \<in> set items. ls_NodeName (ld_Spec l) = nodeName \<and> Mismatch n p pol \<in> set (linkMetrics l))"
    by (induction items) auto
  then show ?thesis by (auto simp: Collect_def linkMetrics_def Let_def)
qed

end
