(* ===== verification/TlsProfile.thy ===== *)
theory TlsProfile
  imports Operator
begin

text \<open>
  The TLS profile that the daemons' kube-rbac-proxy is started with, \<^verbatim>\<open>pkg/tls/tlsprofile.go\<close>, together with the
  observer it calls, \<^verbatim>\<open>ObserveTLSSecurityProfile\<close>, and the accessors of untyped values, from their vendored sources.
  The named profiles and the table of cipher names are parameters.
\<close>

section \<open>Untyped values\<close>

text \<open>A field that is missing is \<open>None\<close>; the path runs into something that is not a map: an error.\<close>

fun NestedFieldNoCopy :: "json \<Rightarrow> string list \<Rightarrow> json option result" where
  "NestedFieldNoCopy v [] = Inr (Some v)"
| "NestedFieldNoCopy v (field # path) =
     (case v of
        JNull \<Rightarrow> Inr None
      | JMap m \<Rightarrow> (case map_of m field of None \<Rightarrow> Inr None | Some v1 \<Rightarrow> NestedFieldNoCopy v1 path)
      | _ \<Rightarrow> Inl (Errorf (field @ '' accessor error: expected map[string]interface{}'')))"

definition NestedString :: "(string \<times> json) list \<Rightarrow> string list \<Rightarrow> string result" where
  "NestedString obj path =
     (case NestedFieldNoCopy (JMap obj) path of
        Inl e \<Rightarrow> Inl e
      | Inr None \<Rightarrow> Inr ''''
      | Inr (Some (JString s)) \<Rightarrow> Inr s
      | Inr (Some _) \<Rightarrow> Inl (Errorf ''accessor error: expected string''))"

fun strings_of :: "json list \<Rightarrow> string list option" where
  "strings_of [] = Some []"
| "strings_of (JString s # vs) = map_option ((#) s) (strings_of vs)"
| "strings_of (v # vs) = None"

definition NestedStringSlice :: "(string \<times> json) list \<Rightarrow> string list \<Rightarrow> string list result" where
  "NestedStringSlice obj path =
     (case NestedFieldNoCopy (JMap obj) path of
        Inl e \<Rightarrow> Inl e
      | Inr None \<Rightarrow> Inr []
      | Inr (Some (JList vs)) \<Rightarrow>
          (case strings_of vs of
             Some ss \<Rightarrow> Inr ss
           | None \<Rightarrow> Inl (Errorf ''accessor error: contains non-string key in the slice''))
      | Inr (Some _) \<Rightarrow> Inl (Errorf ''accessor error: expected []interface{}''))"

section \<open>The observer\<close>

definition DefaultTLSProfileType :: string where "DefaultTLSProfileType = ''Intermediate''"

text \<open>
  The profile of the given type, the custom one if the type says so, the default one if there is none. A
  table without the default profile makes the code dereference nil.
\<close>

definition getSecurityProfileCiphers :: "env \<Rightarrow> tls_profile option \<Rightarrow> (string \<times> string list) result" where
  "getSecurityProfileCiphers E profile =
     (let profileType = (case profile of None \<Rightarrow> DefaultTLSProfileType | Some p \<Rightarrow> tp_Type p);
          profileSpec = (if profileType = ''Custom'' then (case profile of None \<Rightarrow> None | Some p \<Rightarrow> tp_Custom p)
                         else e_tls_profiles E profileType);
          spec = (case profileSpec of None \<Rightarrow> e_tls_profiles E DefaultTLSProfileType | Some s \<Rightarrow> Some s)
      in case spec of
           None \<Rightarrow> Inl (Panic ''nil pointer dereference'')
         | Some s \<Rightarrow> Inr (ts_MinTLSVersion s, List.map_filter (e_iana E) (ts_Ciphers s)))"

abbreviation minVersionPath :: "string list" where
  "minVersionPath \<equiv> [''servingInfo'', ''minTLSVersion'']"

abbreviation cipherSuitesPath :: "string list" where
  "cipherSuitesPath \<equiv> [''servingInfo'', ''cipherSuites'']"

definition observedConfig :: "string \<Rightarrow> string list \<Rightarrow> (string \<times> json) list" where
  "observedConfig minVersion suites =
     [(''servingInfo'', JMap [(''minTLSVersion'', JString minVersion), (''cipherSuites'', JList (map JString suites))])]"

definition existingErrors :: "(string \<times> json) list \<Rightarrow> error list" where
  "existingErrors existing =
     (case NestedString existing minVersionPath of
        Inl e \<Rightarrow> [Errorf (''failed to retrieve spec.servingInfo.minTLSVersion: '' @ err_text e)] | Inr _ \<Rightarrow> [])
     @ (case NestedStringSlice existing cipherSuitesPath of
        Inl e \<Rightarrow> [Errorf (''failed to retrieve spec.servingInfo.cipherSuites: '' @ err_text e)] | Inr _ \<Rightarrow> [])"

text \<open>
  The lister, \<^verbatim>\<open>clientAPIServerLister\<close>: one object by name, or all that a selector matches. With errors the
  observer hands back the existing configuration, which no caller looks at then; its events only go to a log.
\<close>

definition lister_Get :: "env \<Rightarrow> string \<Rightarrow> api_server_config result prog" where
  "lister_Get E name = query E (\<lambda>t w. e_get_apiserver E t name)"

definition lister_List :: "api_server_config list result \<Rightarrow> (smap \<Rightarrow> bool) \<Rightarrow> api_server_config list result" where
  "lister_List listed selector =
     (case listed of
        Inl e \<Rightarrow> Inl e
      | Inr items \<Rightarrow> Inr (filter (\<lambda>a. selector (as_Labels a)) items))"

definition ObserveTLSSecurityProfile :: "env \<Rightarrow> (string \<times> json) list \<Rightarrow> ((string \<times> json) list \<times> error list) prog" where
  "ObserveTLSSecurityProfile E existing = do {
     let errs = existingErrors existing;
     g \<leftarrow> lister_Get E ''cluster'';
     State_Monad.return
       (case (case g of Inr a \<Rightarrow> Inr (as_TLSSecurityProfile a) | Inl e \<Rightarrow> if IsNotFound e then Inr None else Inl e) of
          Inl e \<Rightarrow> (existing, errs @ [e])
        | Inr profile \<Rightarrow>
            (case getSecurityProfileCiphers E profile of
               Inl e \<Rightarrow> (existing, errs @ [e])
             | Inr (v, suites) \<Rightarrow> (observedConfig v suites, errs)))
   }"

section \<open>The values for the proxy\<close>

fun strings_Join :: "string list \<Rightarrow> string \<Rightarrow> string" where
  "strings_Join [] sep = ''''"
| "strings_Join [s] sep = s"
| "strings_Join (s # t # ss) sep = s @ sep @ strings_Join (t # ss) sep"

definition GetTLSProfileValues :: "env \<Rightarrow> (string \<times> json) list \<Rightarrow> (string \<times> string \<times> (string \<times> json) list) result prog" where
  "GetTLSProfileValues E previousObservedConfig = do {
     (observed, errs) \<leftarrow> ObserveTLSSecurityProfile E previousObservedConfig;
     State_Monad.return
       (if errs \<noteq> [] then Inl (Errorf (''failed to observe TLS security profile: ['' @ strings_Join (map err_text errs) '' '' @ '']''))
        else case NestedString observed minVersionPath of
          Inl e \<Rightarrow> Inl (Wrapf ''failed to extract minTLSVersion from observed config: '' e)
        | Inr minVersion \<Rightarrow>
            (case NestedStringSlice observed cipherSuitesPath of
               Inl e \<Rightarrow> Inl (Wrapf ''failed to extract cipherSuites from observed config: '' e)
             | Inr suites \<Rightarrow> Inr (minVersion, strings_Join suites '','', observed)))
   }"

text \<open>
  The use both controllers make of it: on an error the daemon runs with empty values and the last profile
  is kept.
\<close>

definition observeTLS :: "env \<Rightarrow> (string \<times> string) prog" where
  "observeTLS E = do {
     c \<leftarrow> gets w_tlsConfig;
     r \<leftarrow> GetTLSProfileValues E c;
     (case r of
        Inl e \<Rightarrow> State_Monad.return ('''', '''')
      | Inr (tlsMinVersion, tlsCipherSuites, observed) \<Rightarrow> do {
          _ \<leftarrow> modify (\<lambda>w. w\<lparr>w_tlsConfig := observed\<rparr>);
          State_Monad.return (tlsMinVersion, tlsCipherSuites)
        })
   }"

section \<open>What the proxy gets\<close>

text \<open>The remembered configuration is nil at first and later one that was observed.\<close>

definition tls_config_ok :: "(string \<times> json) list \<Rightarrow> bool" where
  "tls_config_ok c \<longleftrightarrow> c = [] \<or> (\<exists>v suites. c = observedConfig v suites)"

lemma strings_of_map [simp]: "strings_of (map JString ss) = Some ss"
  by (induction ss) auto

lemma observed_values [simp]:
  "NestedString (observedConfig v suites) minVersionPath = Inr v"
  "NestedStringSlice (observedConfig v suites) cipherSuitesPath = Inr suites"
  by (simp_all add: NestedString_def NestedStringSlice_def observedConfig_def)

lemma no_existing_errors [simp]: "tls_config_ok c \<Longrightarrow> existingErrors c = []"
  by (auto simp: tls_config_ok_def existingErrors_def) (simp add: NestedString_def NestedStringSlice_def)+

text \<open>The profile of the cluster at a time: of the object, or the default when there is none.\<close>

definition cluster_profile :: "env \<Rightarrow> nat \<Rightarrow> (string \<times> string list) result" where
  "cluster_profile E t =
     (case e_get_apiserver E t ''cluster'' of
        Inr a \<Rightarrow> getSecurityProfileCiphers E (as_TLSSecurityProfile a)
      | Inl e \<Rightarrow> if IsNotFound e then getSecurityProfileCiphers E None else Inl e)"

text \<open>
  The proxy gets the cluster's profile or nothing. The minimal version and the list of ciphers, joined by commas, are
  those of the profile read in this run, with the default profile when the cluster has no object; when the profile cannot be read, both
  are empty and the remembered configuration stays. The remembered configuration is always one that can be read
  again, so that an earlier run never makes a later one fail.
\<close>

theorem tls_profile_values:
  assumes "tls_config_ok (w_tlsConfig w)" "run_state (observeTLS E) w = (r, w')"
  shows "tls_config_ok (w_tlsConfig w') \<and>
    (case cluster_profile E (w_clock w) of
       Inl e \<Rightarrow> r = ('''', '''') \<and> w_tlsConfig w' = w_tlsConfig w
     | Inr (v, suites) \<Rightarrow> r = (v, strings_Join suites '','') \<and> w_tlsConfig w' = observedConfig v suites)"
proof -
  have "wp (observeTLS E) (\<lambda>r w'. tls_config_ok (w_tlsConfig w') \<and>
      (case cluster_profile E (w_clock w) of
         Inl e \<Rightarrow> r = ('''', '''') \<and> w_tlsConfig w' = w_tlsConfig w
       | Inr (v, suites) \<Rightarrow> r = (v, strings_Join suites '','') \<and> w_tlsConfig w' = observedConfig v suites)) w"
    unfolding observeTLS_def GetTLSProfileValues_def ObserveTLSSecurityProfile_def lister_Get_def cluster_profile_def
    using assms(1)
    by (auto simp: wp_simps tls_config_ok_def split: sum.splits prod.splits)
  from wp_runD [OF this assms(2)] show ?thesis .
qed

theorem tls_profile_values_witness:
  "\<exists>w'. run_state (observeTLS demo_env) demo_world = ((''VersionTLS12'', ''a,b''), w')
     \<and> w_tlsConfig w' = observedConfig ''VersionTLS12'' [''a'', ''b'']"
proof -
  obtain r w' where run: "run_state (observeTLS demo_env) demo_world = (r, w')" by fastforce
  have ok: "tls_config_ok (w_tlsConfig demo_world)" by (simp add: tls_config_ok_def demo_world_def)
  have p: "cluster_profile demo_env (w_clock demo_world) = Inr (''VersionTLS12'', [''a'', ''b''])" by code_simp
  from tls_profile_values [OF ok run] p run show ?thesis by auto
qed

lemma timed_observeTLS [simp, intro]: "always (timed P) (observeTLS E)"
  unfolding observeTLS_def GetTLSProfileValues_def ObserveTLSSecurityProfile_def lister_Get_def Let_def
  by (intro operator_rules timed_modify) simp_all

end
