(* ===== verification/Sha256.thy ===== *)
theory Sha256
  imports Main "HOL-Library.Word"
begin

text \<open>
  SHA-256 of Go's \<^verbatim>\<open>crypto/sha256\<close>, as the code uses it for the hash of the provisioner's configuration and for
  the names of discovery results, with the lower-case encoding of \<^verbatim>\<open>encoding/hex\<close>. Bytes are integers
  from 0 to 255, a string is the list of its bytes.
\<close>

unbundle bit_operations_syntax

type_synonym w32 = "32 word"

section \<open>Constants\<close>

text \<open>
  The constants are fractional parts: 32 bits of the cube roots of the first 64 primes for the rounds, and of
  the square roots of the first eight for the initial state. \<open>int_root e n\<close> is the integer \<open>e\<close>-th root,
  found bit by bit; the roots that occur have at most 35 bits.
\<close>

fun root_bits :: "nat \<Rightarrow> int \<Rightarrow> nat \<Rightarrow> int \<Rightarrow> int" where
  "root_bits e n 0 acc = acc"
| "root_bits e n (Suc b) acc = root_bits e n b (if (acc + 2 ^ b) ^ e \<le> n then acc + 2 ^ b else acc)"

definition int_root :: "nat \<Rightarrow> int \<Rightarrow> int" where
  "int_root e n = root_bits e n 36 0"

definition small_primes :: "nat list" where
  "small_primes =
     [2, 3, 5, 7, 11, 13, 17, 19, 23, 29, 31, 37, 41, 43, 47, 53,
      59, 61, 67, 71, 73, 79, 83, 89, 97, 101, 103, 107, 109, 113, 127, 131,
      137, 139, 149, 151, 157, 163, 167, 173, 179, 181, 191, 193, 197, 199, 211, 223,
      227, 229, 233, 239, 241, 251, 257, 263, 269, 271, 277, 281, 283, 293, 307, 311]"

definition fraction_bits :: "nat \<Rightarrow> nat \<Rightarrow> w32" where
  "fraction_bits e p = of_int (int_root e (int p * 2 ^ (32 * e)))"

definition sha_k :: "w32 list" where
  "sha_k = map (fraction_bits 3) small_primes"

definition sha_init :: "w32 list" where
  "sha_init = map (fraction_bits 2) (take 8 small_primes)"

section \<open>Padding\<close>

definition be_bytes :: "nat \<Rightarrow> int \<Rightarrow> int list" where
  "be_bytes n v = map (\<lambda>i. (v div 256 ^ (n - 1 - i)) mod 256) [0..<n]"

definition sha_pad :: "int list \<Rightarrow> int list" where
  "sha_pad bs =
     (let zeros = (119 - length bs mod 64) mod 64
      in bs @ [128] @ replicate zeros 0 @ be_bytes 8 (8 * int (length bs)))"

fun be_words :: "int list \<Rightarrow> w32 list" where
  "be_words (a # b # c # d # bs) = of_int (((a * 256 + b) * 256 + c) * 256 + d) # be_words bs"
| "be_words bs = []"

section \<open>Compression\<close>

definition sha_s0 :: "w32 \<Rightarrow> w32" where "sha_s0 x = word_rotr 7 x XOR word_rotr 18 x XOR drop_bit 3 x"
definition sha_s1 :: "w32 \<Rightarrow> w32" where "sha_s1 x = word_rotr 17 x XOR word_rotr 19 x XOR drop_bit 10 x"
definition sha_big0 :: "w32 \<Rightarrow> w32" where "sha_big0 x = word_rotr 2 x XOR word_rotr 13 x XOR word_rotr 22 x"
definition sha_big1 :: "w32 \<Rightarrow> w32" where "sha_big1 x = word_rotr 6 x XOR word_rotr 11 x XOR word_rotr 25 x"

text \<open>The message schedule, newest word first.\<close>

fun sha_schedule :: "nat \<Rightarrow> w32 list \<Rightarrow> w32 list" where
  "sha_schedule 0 ws = ws"
| "sha_schedule (Suc n) ws = sha_schedule n ((sha_s1 (ws ! 1) + ws ! 6 + sha_s0 (ws ! 14) + ws ! 15) # ws)"

fun sha_round :: "w32 \<times> w32 \<Rightarrow> w32 list \<Rightarrow> w32 list" where
  "sha_round (k, m) [a, b, c, d, e, f, g, h] =
     (let t1 = h + sha_big1 e + ((e AND f) XOR (NOT e AND g)) + k + m;
          t2 = sha_big0 a + ((a AND b) XOR (a AND c) XOR (b AND c))
      in [t1 + t2, a, b, c, d + t1, e, f, g])"
| "sha_round km st = st"

definition sha_block :: "w32 list \<Rightarrow> w32 list \<Rightarrow> w32 list" where
  "sha_block ws st = map2 (+) st (fold sha_round (zip sha_k (rev (sha_schedule 48 (rev ws)))) st)"

function sha_blocks :: "w32 list \<Rightarrow> w32 list \<Rightarrow> w32 list" where
  "sha_blocks ws st = (if length ws < 16 then st else sha_blocks (drop 16 ws) (sha_block (take 16 ws) st))"
  by pat_completeness auto
termination by (relation "measure (\<lambda>(ws, st). length ws)") auto

declare sha_blocks.simps [simp del]

definition sha256 :: "int list \<Rightarrow> int list" where
  "sha256 bs = concat (map (\<lambda>x. be_bytes 4 (uint x)) (sha_blocks (be_words (sha_pad bs)) sha_init))"

section \<open>Hexadecimal text\<close>

definition hex_char :: "int \<Rightarrow> char" where
  "hex_char d = char_of (if d < 10 then 48 + d else 87 + d)"

definition EncodeToString :: "int list \<Rightarrow> string" where
  "EncodeToString bs = concat (map (\<lambda>b. [hex_char (b div 16), hex_char (b mod 16)]) bs)"

definition bytes_of :: "string \<Rightarrow> int list" where
  "bytes_of s = map of_char s"

section \<open>Lengths\<close>

lemma length_be_bytes [simp]: "length (be_bytes n v) = n"
  by (simp add: be_bytes_def)

lemma length_sha_round [simp]: "length (sha_round km st) = length st"
  by (cases "(km, st)" rule: sha_round.cases) (auto simp: Let_def)

lemma length_sha_rounds [simp]: "length (fold sha_round kms st) = length st"
  by (induction kms arbitrary: st) auto

lemma length_sha_blocks: "length (sha_blocks ws st) = length st"
proof (induction ws st rule: sha_blocks.induct)
  case (1 ws st)
  then show ?case by (subst sha_blocks.simps) (auto simp: sha_block_def)
qed

lemma length_sha_init: "length sha_init = 8"
  by (simp add: sha_init_def small_primes_def)

lemma length_sha256 [simp]: "length (sha256 bs) = 32"
  by (simp add: sha256_def length_concat comp_def length_sha_blocks sum_list_triv) (simp add: length_sha_init)

lemma length_EncodeToString [simp]: "length (EncodeToString bs) = 2 * length bs"
  by (induction bs) (auto simp: EncodeToString_def)

end
