(* ===== verification/NodeDaemon.thy ===== *)
theory NodeDaemon
  imports LvController Monitoring TlsProfile Sha256 "HOL-Library.List_Lexorder" "HOL-Library.Char_ord" "HOL-Library.Multiset"
begin

text \<open>
  The daemon controller of the operator, \<^verbatim>\<open>pkg/controllers/nodedaemon\<close>: it aggregates all LocalVolumes and
  LocalVolumeSets of a namespace into the provisioner's ConfigMap and the one diskmaker DaemonSet, and
  removes what older releases left behind. Strings are compared bytewise, so the order on them is the
  lexicographic one on characters.
\<close>

section \<open>Aggregation\<close>

definition daemonOwnerRef :: "obj_meta \<Rightarrow> string \<Rightarrow> string \<Rightarrow> owner_ref" where
  "daemonOwnerRef meta apiVersion kind = \<lparr>or_APIVersion = apiVersion, or_Kind = kind, or_Name = om_Name meta, or_UID = om_UID meta,
     or_Controller = Some False, or_BlockOwnerDeletion = Some False\<rparr>"

definition lvsetSortKey :: "local_volume_set \<Rightarrow> string" where
  "lvsetSortKey s = lvset_Name s @ ''-'' @ lvset_StorageClassName s"

definition lvSortKey :: "local_volume \<Rightarrow> string" where
  "lvSortKey v = lv_Namespace v @ ''-'' @ lv_Name v"

text \<open>The loop over the sorted objects; the last component is \<^verbatim>\<open>matchAllNodes\<close>.\<close>

fun extractLoop ::
  "('a \<Rightarrow> toleration list) \<Rightarrow> ('a \<Rightarrow> owner_ref) \<Rightarrow> ('a \<Rightarrow> node_selector option) \<Rightarrow> 'a list
    \<Rightarrow> toleration list \<times> owner_ref list \<times> selector_term list \<times> bool" where
  "extractLoop tols ref sel [] = ([], [], [], False)"
| "extractLoop tols ref sel (x # xs) =
     (case extractLoop tols ref sel xs of (ts, rs, terms, matchAll) \<Rightarrow>
        case sel x of
          Some ns \<Rightarrow> (tols x @ ts, ref x # rs, ns @ terms, matchAll)
        | None \<Rightarrow> (tols x @ ts, ref x # rs, terms, True))"

definition extractLVSetInfo :: "local_volume_set list \<Rightarrow> local_volume_set list \<times> toleration list \<times> owner_ref list \<times> selector_term list" where
  "extractLVSetInfo lvsets =
     (let sorted = sort_key lvsetSortKey lvsets
      in case extractLoop lvset_Tolerations (\<lambda>s. daemonOwnerRef (lvset_meta s) (lvset_APIVersion s) (lvset_Kind s)) lvset_NodeSelector sorted
         of (tolerations, ownerRefs, terms, matchAllNodes) \<Rightarrow> (sorted, tolerations, ownerRefs, if matchAllNodes then [] else terms))"

definition extractLVInfo :: "local_volume list \<Rightarrow> local_volume list \<times> toleration list \<times> owner_ref list \<times> selector_term list" where
  "extractLVInfo lvs =
     (let sorted = sort_key lvSortKey lvs
      in case extractLoop lv_Tolerations (\<lambda>v. daemonOwnerRef (lv_meta v) (lv_APIVersion v) (lv_Kind v)) lv_NodeSelector sorted
         of (tolerations, ownerRefs, terms, matchAllNodes) \<Rightarrow> (sorted, tolerations, ownerRefs, if matchAllNodes then [] else terms))"

record daemon_info =
  di_LVSets :: "local_volume_set list"
  di_LVs :: "local_volume list"
  di_Tolerations :: "toleration list"
  di_OwnerRefs :: "owner_ref list"
  di_NodeSelector :: "node_selector option"

definition aggregate :: "local_volume_set list \<Rightarrow> local_volume list \<Rightarrow> daemon_info" where
  "aggregate lvsets lvs =
     (case (extractLVSetInfo lvsets, extractLVInfo lvs) of
        ((ss, sTolerations, sRefs, sTerms), (vs, lvTolerations, lvOwnerRefs, lvTerms)) \<Rightarrow>
          let terms = sTerms @ lvTerms
          in \<lparr>di_LVSets = ss, di_LVs = vs, di_Tolerations = sTolerations @ lvTolerations, di_OwnerRefs = sRefs @ lvOwnerRefs,
              di_NodeSelector = (if length terms > 0 then Some terms else None)\<rparr>)"

definition aggregateDeamonInfo :: "env \<Rightarrow> namespaced_name \<Rightarrow> daemon_info result prog" where
  "aggregateDeamonInfo E request = do {
     l1 \<leftarrow> query E (\<lambda>t w. e_list_lvset E t (fst request));
     (case l1 of
        Inl e \<Rightarrow> State_Monad.return (Inl (Wrapf ''could not fetch localvolumeset link: '' e))
      | Inr lvsets \<Rightarrow> do {
          l2 \<leftarrow> query E (\<lambda>t w. e_list_lv E t (fst request));
          State_Monad.return (case l2 of
              Inl e \<Rightarrow> Inl (Wrapf ''could not fetch localvolume link: '' e)
            | Inr lvs \<Rightarrow> Inr (aggregate lvsets lvs))
        })
   }"

section \<open>The provisioner's configuration\<close>

definition volumeModeOf :: "string \<Rightarrow> volume_mode" where
  "volumeModeOf s = (if s = ''Block'' then VolumeBlock else if s = ''Filesystem'' then VolumeFilesystem else VolumeModeOther s)"

definition mountConfigFor :: "env \<Rightarrow> string \<Rightarrow> string \<Rightarrow> string \<Rightarrow> mount_config" where
  "mountConfigFor E storageClassName fsType mode =
     (let symlinkDir = path_join [GetLocalDiskLocationPath (e_getenv E), storageClassName]
      in \<lparr>mc_HostDir = symlinkDir, mc_MountDir = symlinkDir, mc_VolumeMode = volumeModeOf mode, mc_FsType = fsType\<rparr>)"

definition storageClassConfig :: "env \<Rightarrow> local_volume_set list \<Rightarrow> local_volume list \<Rightarrow> (string \<times> mount_config) list" where
  "storageClassConfig E lvSets lvs =
     fold (\<lambda>v m. fold (\<lambda>d. AList.update (scd_StorageClassName d) (mountConfigFor E (scd_StorageClassName d) (scd_FSType d) (scd_VolumeMode d)))
                    (lv_StorageClassDevices v) m) lvs
       (fold (\<lambda>s. AList.update (lvset_StorageClassName s) (mountConfigFor E (lvset_StorageClassName s) (lvset_FSType s) (lvset_VolumeMode s))) lvSets [])"

definition mutateConfigMap :: "config_map \<Rightarrow> owner_ref list \<Rightarrow> smap \<Rightarrow> config_map \<Rightarrow> config_map" where
  "mutateConfigMap template ownerRefs data cm =
     (let meta = (if om_CreationTimestamp (cm_meta cm) = None then cm_meta template else cm_meta cm)
      in \<lparr>cm_meta = meta\<lparr>om_Labels := om_Labels (cm_meta template), om_OwnerReferences := ownerRefs\<rparr>, cm_Data = data\<rparr>)"

definition reconcileProvisionerConfigMap ::
  "env \<Rightarrow> namespaced_name \<Rightarrow> local_volume_set list \<Rightarrow> local_volume list \<Rightarrow> owner_ref list \<Rightarrow> config_map result prog" where
  "reconcileProvisionerConfigMap E request lvSets lvs ownerRefs =
     (case readManifest E (e_read_cm E) LocalProvisionerConfigMapTemplate [(''${OBJECT_NAMESPACE}'', fst request)] of
        Inl e \<Rightarrow> State_Monad.return (Inl e)
      | Inr template \<Rightarrow> do {
          g \<leftarrow> query E (\<lambda>t w. e_get_cm E t (om_Namespace (cm_meta template), om_Name (cm_meta template)));
          (case g of
             Inl e \<Rightarrow>
               if \<not> IsNotFound e then State_Monad.return (Inl e)
               else (case e_configdata E (storageClassConfig E lvSets lvs) of
                   Inl e1 \<Rightarrow> State_Monad.return (Inl e1)
                 | Inr data \<Rightarrow> do {
                     r \<leftarrow> api E (CreateConfigMap (mutateConfigMap template ownerRefs data template));
                     State_Monad.return (case r of Some e1 \<Rightarrow> Inl e1 | None \<Rightarrow> Inr (mutateConfigMap template ownerRefs data template))
                   })
           | Inr found \<Rightarrow>
               (case e_configdata E (storageClassConfig E lvSets lvs) of
                  Inl e1 \<Rightarrow> State_Monad.return (Inl e1)
                | Inr data \<Rightarrow>
                    let cm = mutateConfigMap template ownerRefs data found
                    in if cm = found then State_Monad.return (Inr cm)
                       else do {
                         r \<leftarrow> api E (UpdateConfigMap cm);
                         State_Monad.return (case r of Some e1 \<Rightarrow> Inl e1 | None \<Rightarrow> Inr cm)
                       }))
        })"

definition dataHash :: "smap \<Rightarrow> string" where
  "dataHash data =
     (let entries = sort (map (\<lambda>(key, val). key @ ''-'' @ val) data)
      in EncodeToString (sha256 (bytes_of (join_str ''--'' entries))))"

section \<open>The DaemonSet\<close>

definition initMapIfNil :: "smap \<Rightarrow> smap" where
  "initMapIfNil m = (if length m > 1 then m else [])"

definition copyEntries :: "smap \<Rightarrow> smap \<Rightarrow> smap" where
  "copyEntries from m = fold (\<lambda>(k, v). AList.update k v) from m"

definition MutateAggregatedSpec ::
  "string \<Rightarrow> toleration list \<Rightarrow> owner_ref list \<Rightarrow> node_selector option \<Rightarrow> daemonset \<Rightarrow> daemonset \<Rightarrow> daemonset" where
  "MutateAggregatedSpec priorityClass tolerations ownerRefs nodeSelector tmpl ds =
     (let meta = (if om_CreationTimestamp (ds_meta ds) = None then ds_meta tmpl else ds_meta ds);
          pt = ds_Template ds; tt = ds_Template tmpl
      in ds\<lparr>ds_meta := meta\<lparr>om_Labels := copyEntries (om_Labels (ds_meta tmpl)) (initMapIfNil (om_Labels meta)),
                           om_OwnerReferences := ownerRefs\<rparr>,
           ds_Selector := (if om_CreationTimestamp (ds_meta ds) = None then ds_Selector tmpl else ds_Selector ds),
           ds_Template := pt\<lparr>pt_Labels := copyEntries (pt_Labels tt) (initMapIfNil (pt_Labels pt)),
              pt_Annotations := copyEntries (pt_Annotations tt) (initMapIfNil (pt_Annotations pt)),
              pt_ServiceAccountName := pt_ServiceAccountName tt,
              pt_PriorityClassName := (if priorityClass \<noteq> '''' then priorityClass else pt_PriorityClassName pt),
              pt_Tolerations := tolerations, pt_Affinity := nodeSelector, pt_Volumes := pt_Volumes tt,
              pt_Containers := pt_Containers tt, pt_HostPID := pt_HostPID tt\<rparr>,
           ds_UpdateStrategy := ds_UpdateStrategy tmpl\<rparr>)"

definition dataHashAnnotationKey :: string where "dataHashAnnotationKey = ''local.storage.openshift.io/configMapDataHash''"

definition diskMakerPairs :: "env \<Rightarrow> string \<Rightarrow> string \<Rightarrow> string \<Rightarrow> smap" where
  "diskMakerPairs E namespace tlsMinVersion tlsCipherSuites =
     [(''${OBJECT_NAMESPACE}'', namespace), (''${CONTAINER_IMAGE}'', GetDiskMakerImage (e_getenv E)),
      (''${RBAC_PROXY_IMAGE}'', GetKubeRBACProxyImage (e_getenv E)), (''${PRIORITY_CLASS_NAME}'', e_getenv E ''PRIORITY_CLASS_NAME''),
      (''${TLS_MIN_VERSION}'', tlsMinVersion), (''${TLS_CIPHER_SUITES}'', tlsCipherSuites)]"

definition withDataHash :: "string \<Rightarrow> daemonset \<Rightarrow> daemonset" where
  "withDataHash h ds = ds\<lparr>ds_meta := (ds_meta ds)\<lparr>om_Annotations :=
     AList.update dataHashAnnotationKey h (initMapIfNil (om_Annotations (ds_meta ds)))\<rparr>\<rparr>"

definition getDiskMakerDSMutateFn ::
  "env \<Rightarrow> namespaced_name \<Rightarrow> toleration list \<Rightarrow> owner_ref list \<Rightarrow> node_selector option \<Rightarrow> string \<Rightarrow> string \<Rightarrow> string \<Rightarrow> daemonset \<Rightarrow> daemonset result" where
  "getDiskMakerDSMutateFn E request tolerations ownerRefs nodeSelector hash tlsMinVersion tlsCipherSuites ds =
     (case readManifest E (e_read_ds E) DiskMakerManagerDaemonSetTemplate (diskMakerPairs E (fst request) tlsMinVersion tlsCipherSuites) of
        Inl e \<Rightarrow> Inl e
      | Inr tmpl \<Rightarrow>
          Inr (withDataHash hash (MutateAggregatedSpec (e_getenv E ''PRIORITY_CLASS_NAME'') tolerations ownerRefs nodeSelector tmpl ds)))"

definition emptyDS :: daemonset where
  "emptyDS = \<lparr>ds_meta = empty_meta, ds_Selector = [],
     ds_Template = \<lparr>pt_Labels = [], pt_Annotations = [], pt_ServiceAccountName = '''', pt_PriorityClassName = '''', pt_Tolerations = [],
       pt_Affinity = None, pt_Volumes = '''', pt_Containers = [], pt_HostPID = False\<rparr>,
     ds_UpdateStrategy = '''', ds_NumberUnavailable = 0, ds_CurrentNumberScheduled = 0, ds_DesiredNumberScheduled = 0, ds_NumberReady = 0\<rparr>"

definition CreateOrUpdateDaemonset :: "env \<Rightarrow> (daemonset \<Rightarrow> daemonset result) \<Rightarrow> error option prog" where
  "CreateOrUpdateDaemonset E mutateFn =
     (case mutateFn emptyDS of
        Inl e \<Rightarrow> State_Monad.return (Some e)
      | Inr ds \<Rightarrow> do {
          g \<leftarrow> query E (\<lambda>t w. e_get_ds E t (om_Namespace (ds_meta ds), om_Name (ds_meta ds)));
          (case g of
             Inl e \<Rightarrow>
               if \<not> IsNotFound e then State_Monad.return (Some e)
               else (case mutateFn ds of Inl e1 \<Rightarrow> State_Monad.return (Some e1) | Inr ds1 \<Rightarrow> api E (CreateDaemonSet ds1))
           | Inr found \<Rightarrow>
               (case mutateFn found of
                  Inl e1 \<Rightarrow> State_Monad.return (Some e1)
                | Inr ds1 \<Rightarrow> if ds1 = found then State_Monad.return None else api E (UpdateDaemonSet ds1)))
        })"


section \<open>Objects of older releases\<close>

definition oldProvisionerName :: string where "oldProvisionerName = ''localvolumeset-local-provisioner''"
definition oldLVDiskMakerPrefix :: string where "oldLVDiskMakerPrefix = ''local-volume-diskmaker-''"
definition oldLVProvisionerPrefix :: string where "oldLVProvisionerPrefix = ''local-volume-provisioner-''"
definition orphanLSOServiceMonitorName :: string where "orphanLSOServiceMonitorName = ''local-storage-operator-metrics''"

definition ds_key :: "daemonset \<Rightarrow> namespaced_name" where
  "ds_key ds = (om_Namespace (ds_meta ds), om_Name (ds_meta ds))"

definition isOldDaemon :: "daemonset \<Rightarrow> bool" where
  "isOldDaemon ds =
     (case map_of (om_Labels (ds_meta ds)) ''app'' of
        None \<Rightarrow> False
      | Some appLabel \<Rightarrow> has_prefix appLabel oldLVDiskMakerPrefix \<or> has_prefix appLabel oldLVProvisionerPrefix)"

text \<open>The loop over the listed DaemonSets: an error, or the app labels of the deleted ones.\<close>

fun deleteOldDaemons :: "env \<Rightarrow> daemonset list \<Rightarrow> string list \<Rightarrow> string list result prog" where
  "deleteOldDaemons E [] appNameList = State_Monad.return (Inr appNameList)"
| "deleteOldDaemons E (ds # items) appNameList =
     (if \<not> isOldDaemon ds then deleteOldDaemons E items appNameList
      else do {
        r \<leftarrow> api E (DeleteDaemonSet (ds_key ds));
        (case r of
           Some e \<Rightarrow>
             if \<not> (IsNotFound e \<or> IsGone e) then State_Monad.return (Inl e)
             else deleteOldDaemons E items (appNameList @ [the (map_of (om_Labels (ds_meta ds)) ''app'')])
         | None \<Rightarrow> deleteOldDaemons E items (appNameList @ [the (map_of (om_Labels (ds_meta ds)) ''app'')]))
      })"

definition deleteOldProvisioner :: "env \<Rightarrow> string \<Rightarrow> error option prog" where
  "deleteOldProvisioner E namespace = do {
     g \<leftarrow> query E (\<lambda>t w. e_get_ds E t (namespace, oldProvisionerName));
     (case g of
        Inr provisioner \<Rightarrow> do {
          r \<leftarrow> api E (DeleteDaemonSet (ds_key provisioner));
          State_Monad.return (case r of Some e \<Rightarrow> if IsNotFound e \<or> IsGone e then None else Some e | None \<Rightarrow> None)
        }
      | Inl e \<Rightarrow> State_Monad.return (if IsNotFound e \<or> IsGone e then None else Some e))
   }"

text \<open>
  The exponential backoff: the first argument is the remaining steps, the second the duration of the
  next sleep in nanoseconds; it grows by the factor 1.7 and ends the loop once it passes the cap. Sleeping
  and its jitter are not visible in the model. Every poll appends the old name once more. The names are
  label values already, so that building the selector does not fail.
\<close>

definition backoffCap :: int where "backoffCap = 2 * 60 * 1000000000"

fun waitForPods :: "env \<Rightarrow> nat \<Rightarrow> int \<Rightarrow> string list \<Rightarrow> error option prog" where
  "waitForPods E 0 duration appNameList = State_Monad.return (Some (Errorf ''timed out waiting for the condition''))"
| "waitForPods E (Suc steps) duration appNameList = do {
     l \<leftarrow> query E (\<lambda>t w. e_list_pods E t (appNameList @ [oldProvisionerName]));
     (if (case l of Inl e \<Rightarrow> \<not> IsNotFound e | Inr _ \<Rightarrow> False)
      then State_Monad.return (case l of Inl e \<Rightarrow> Some e | Inr _ \<Rightarrow> None)
      else if (case l of Inl _ \<Rightarrow> True | Inr pods \<Rightarrow> pods = []) then State_Monad.return None
      else if steps = 0 then State_Monad.return (Some (Errorf ''timed out waiting for the condition''))
      else let nextDuration = duration * 17 div 10
           in if nextDuration > backoffCap then State_Monad.return (Some (Errorf ''timed out waiting for the condition''))
              else waitForPods E steps nextDuration (appNameList @ [oldProvisionerName]))
   }"

definition cleanupOldDaemonsets :: "env \<Rightarrow> string \<Rightarrow> error option prog" where
  "cleanupOldDaemonsets E namespace = do {
     deleted \<leftarrow> gets w_deletedStaticProvisioner;
     (if deleted then State_Monad.return None
      else do {
        l \<leftarrow> query E (\<lambda>t w. e_list_ds E t namespace);
        (case l of
           Inl e \<Rightarrow> State_Monad.return (Some e)
         | Inr items \<Rightarrow> do {
             r \<leftarrow> deleteOldDaemons E items [];
             (case r of
                Inl e \<Rightarrow> State_Monad.return (Some e)
              | Inr appNameList \<Rightarrow> do {
                  r2 \<leftarrow> deleteOldProvisioner E namespace;
                  (case r2 of
                     Some e \<Rightarrow> State_Monad.return (Some e)
                   | None \<Rightarrow> do {
                       r3 \<leftarrow> waitForPods E 20 1000000000 appNameList;
                       (case r3 of
                          Some e \<Rightarrow> State_Monad.return (Some e)
                        | None \<Rightarrow> do {
                            _ \<leftarrow> modify (\<lambda>w. w\<lparr>w_deletedStaticProvisioner := True\<rparr>);
                            State_Monad.return None
                          })
                     })
                })
           })
      })
   }"

definition cleanupOrphanServiceMonitor :: "env \<Rightarrow> string \<Rightarrow> error option prog" where
  "cleanupOrphanServiceMonitor E namespace = do {
     deleted \<leftarrow> gets w_deletedOrphanedServiceMonitor;
     (if deleted then State_Monad.return None
      else do {
        r \<leftarrow> api E (DeleteMonitor ServiceMonitorKind (namespace, orphanLSOServiceMonitorName));
        (if (case r of Some e \<Rightarrow> \<not> IsNotFound e | None \<Rightarrow> False) then State_Monad.return r
         else do {
           _ \<leftarrow> modify (\<lambda>w. w\<lparr>w_deletedOrphanedServiceMonitor := True\<rparr>);
           State_Monad.return None
         })
      })
   }"

definition cleanupOldObjects :: "env \<Rightarrow> string \<Rightarrow> error option prog" where
  "cleanupOldObjects E namespace = do {
     e1 \<leftarrow> cleanupOldDaemonsets E namespace;
     e2 \<leftarrow> cleanupOrphanServiceMonitor E namespace;
     State_Monad.return (NewAggregate ((case e1 of Some e \<Rightarrow> [e] | None \<Rightarrow> []) @ (case e2 of Some e \<Rightarrow> [e] | None \<Rightarrow> [])))
   }"

section \<open>Reconciling\<close>

definition daemonExporter :: "string \<Rightarrow> owner_ref list \<Rightarrow> exporter" where
  "daemonExporter namespace refs = NewExporter ''local-storage-diskmaker-metrics'' namespace ''diskmaker-metric-serving-cert'' refs DiskMakerName"

definition daemon_deploy :: "env \<Rightarrow> namespaced_name \<Rightarrow> daemon_info \<Rightarrow> config_map \<Rightarrow> outcome prog" where
  "daemon_deploy E request info configMap = do {
     e1 \<leftarrow> EnableMetricsExporter E (daemonExporter (fst request) (di_OwnerRefs info));
     (case e1 of
        Some e \<Rightarrow> stop_with e
      | None \<Rightarrow> do {
          e2 \<leftarrow> CreateOrUpdateAlertRules E (fst request) DiskMakerName (di_OwnerRefs info);
          (case e2 of
             Some e \<Rightarrow> stop_with e
           | None \<Rightarrow> do {
               tls \<leftarrow> observeTLS E;
               e3 \<leftarrow> CreateOrUpdateDaemonset E (getDiskMakerDSMutateFn E request (di_Tolerations info) (di_OwnerRefs info)
                       (di_NodeSelector info) (dataHash (cm_Data configMap)) (fst tls) (snd tls));
               State_Monad.return (no_requeue, e3)
             })
        })
   }"

definition daemon_Reconcile :: "env \<Rightarrow> namespaced_name \<Rightarrow> outcome prog" where
  "daemon_Reconcile E request = do {
     e0 \<leftarrow> cleanupOldObjects E (fst request);
     (case e0 of
        Some e \<Rightarrow> stop_with e
      | None \<Rightarrow> do {
          a \<leftarrow> aggregateDeamonInfo E request;
          (case a of
             Inl e \<Rightarrow> stop_with e
           | Inr info \<Rightarrow>
               if length (di_LVSets info) < 1 \<and> length (di_LVs info) < 1 then State_Monad.return (no_requeue, None)
               else do {
                 c \<leftarrow> reconcileProvisionerConfigMap E request (di_LVSets info) (di_LVs info) (di_OwnerRefs info);
                 (case c of
                    Inl e \<Rightarrow> stop_with e
                  | Inr configMap \<Rightarrow> daemon_deploy E request info configMap)
               })
        })
   }"

section \<open>Lemmas on the aggregation\<close>

lemma extractLoop_eq:
  "extractLoop tols ref sel xs = (concat (map tols xs), map ref xs,
     concat (map (\<lambda>x. case sel x of None \<Rightarrow> [] | Some ns \<Rightarrow> ns) xs), (\<exists>x \<in> set xs. sel x = None))"
  by (induction xs) (auto split: option.splits)

definition selector_terms :: "node_selector option list \<Rightarrow> selector_term list" where
  "selector_terms sels = (if None \<in> set sels then [] else concat (map the sels))"

lemma extract_terms:
  "(if \<exists>x \<in> set xs. sel x = None then [] else concat (map (\<lambda>x. case sel x of None \<Rightarrow> [] | Some ns \<Rightarrow> ns) xs)) = selector_terms (map sel xs)"
proof (cases "\<exists>x \<in> set xs. sel x = None")
  case False
  then have "map (\<lambda>x. case sel x of None \<Rightarrow> [] | Some ns \<Rightarrow> ns) xs = map (the \<circ> sel) xs" by (auto split: option.splits)
  moreover have "None \<notin> set (map sel xs)" using False by auto
  ultimately show ?thesis using False by (simp only: selector_terms_def map_map if_False)
qed (auto simp: selector_terms_def image_iff)

lemma extract_eqs:
  "extractLVSetInfo lvsets = (let ss = sort_key lvsetSortKey lvsets in
     (ss, concat (map lvset_Tolerations ss), map (\<lambda>s. daemonOwnerRef (lvset_meta s) (lvset_APIVersion s) (lvset_Kind s)) ss,
      selector_terms (map lvset_NodeSelector ss)))"
  "extractLVInfo lvs = (let vs = sort_key lvSortKey lvs in
     (vs, concat (map lv_Tolerations vs), map (\<lambda>v. daemonOwnerRef (lv_meta v) (lv_APIVersion v) (lv_Kind v)) vs,
      selector_terms (map lv_NodeSelector vs)))"
  by (simp_all only: extractLVSetInfo_def extractLVInfo_def Let_def extractLoop_eq prod.case extract_terms)

lemma aggregate_eq:
  "aggregate lvsets lvs =
     (let ss = sort_key lvsetSortKey lvsets; vs = sort_key lvSortKey lvs;
          terms = selector_terms (map lvset_NodeSelector ss) @ selector_terms (map lv_NodeSelector vs)
      in \<lparr>di_LVSets = ss, di_LVs = vs,
          di_Tolerations = concat (map lvset_Tolerations ss) @ concat (map lv_Tolerations vs),
          di_OwnerRefs = map (\<lambda>s. daemonOwnerRef (lvset_meta s) (lvset_APIVersion s) (lvset_Kind s)) ss
            @ map (\<lambda>v. daemonOwnerRef (lv_meta v) (lv_APIVersion v) (lv_Kind v)) vs,
          di_NodeSelector = (if terms \<noteq> [] then Some terms else None)\<rparr>)"
  by (simp only: aggregate_def extract_eqs Let_def prod.case length_greater_0_conv)

text \<open>
  The aggregation does not depend on the order in which the API server lists the objects, as long as
  no two objects of a kind share their sort key: the DaemonSet and the configuration derived from it
  are then the same, and no update is issued for a mere change of order.
\<close>

theorem aggregate_order_independent:
  assumes "mset lvsets = mset lvsets'" and "mset lvs = mset lvs'"
    and "inj_on lvsetSortKey (set lvsets)" and "inj_on lvSortKey (set lvs)"
  shows "aggregate lvsets lvs = aggregate lvsets' lvs'"
proof -
  have "sort_key lvsetSortKey lvsets = sort_key lvsetSortKey lvsets'" "sort_key lvSortKey lvs = sort_key lvSortKey lvs'"
    using assms by (auto intro!: sort_key_inj_key_eq)
  then show ?thesis by (simp add: aggregate_eq)
qed

text \<open>
  C38: an object without a node selector is meant for all nodes, but the two kinds are aggregated apart.
  When some LocalVolumeSet selects all nodes and every LocalVolume has a selector, the DaemonSet is
  confined to the nodes of the LocalVolumes: the terms are exactly theirs.
\<close>

theorem match_all_set_is_confined:
  assumes "s \<in> set lvsets" and "lvset_NodeSelector s = None" and "\<forall>v \<in> set lvs. lv_NodeSelector v \<noteq> None"
    and "v \<in> set lvs" and "lv_NodeSelector v = Some ns" and "ns \<noteq> []"
  shows "\<exists>terms. di_NodeSelector (aggregate lvsets lvs) = Some terms
    \<and> set terms = (\<Union>v \<in> set lvs. set (the (lv_NodeSelector v)))"
proof -
  have sets: "selector_terms (map lvset_NodeSelector (sort_key lvsetSortKey lvsets)) = []"
    using assms(1,2) by (force simp: selector_terms_def)
  have vols: "set (selector_terms (map lv_NodeSelector (sort_key lvSortKey lvs))) = (\<Union>v \<in> set lvs. set (the (lv_NodeSelector v)))"
    using assms(3) by (force simp: selector_terms_def)
  moreover have "\<dots> \<noteq> {}" using assms(4-6) by fastforce
  ultimately show ?thesis unfolding aggregate_eq Let_def sets by auto
qed


definition set_all :: local_volume_set where
  "set_all = \<lparr>lvset_meta = demo_meta\<lparr>om_Name := ''all''\<rparr>, lvset_Kind = ''LocalVolumeSet'', lvset_APIVersion = '''', lvset_NodeSelector = None,
     lvset_StorageClassName = ''a'', lvset_MaxDeviceCount = None, lvset_VolumeMode = ''Block'', lvset_FSType = '''', lvset_Tolerations = [],
     lvset_DeviceInclusionSpec = None, lvset_DeviceExclusionSpec = None,
     lvset_Status = \<lparr>lss_Conditions = [], lss_TotalProvisionedDeviceCount = None, lss_ObservedGeneration = 0\<rparr>\<rparr>"

definition zone_term :: selector_term where "zone_term = \<lparr>st_key = ''zone'', st_values = [''east'']\<rparr>"

theorem match_all_set_is_confined_witness:
  "\<exists>terms. di_NodeSelector (aggregate [set_all] [demo_lv\<lparr>lv_NodeSelector := Some [zone_term]\<rparr>]) = Some terms \<and> set terms = {zone_term}"
  using match_all_set_is_confined [of set_all "[set_all]" "[demo_lv\<lparr>lv_NodeSelector := Some [zone_term]\<rparr>]"
      "demo_lv\<lparr>lv_NodeSelector := Some [zone_term]\<rparr>" "[zone_term]"]
  by (simp add: set_all_def)

theorem aggregate_order_independent_witness:
  "aggregate [set_all, set_all\<lparr>lvset_StorageClassName := ''b''\<rparr>] [] = aggregate [set_all\<lparr>lvset_StorageClassName := ''b''\<rparr>, set_all] []"
  by (rule aggregate_order_independent) (auto simp: set_all_def lvsetSortKey_def inj_on_def)

section \<open>The mutation of the DaemonSet\<close>

lemma update_present: "map_of m k = Some v \<Longrightarrow> AList.update k v m = m"
  by (induction m) (auto split: if_splits)

lemma copyEntries_again: "list_all (\<lambda>(k, v). map_of m k = Some v) es \<Longrightarrow> copyEntries es m = m"
  by (induction es) (auto simp: copyEntries_def update_present)

lemma copyEntries_lookup:
  "wf_map es \<Longrightarrow> map_of (copyEntries es m) k = (case map_of es k of Some v \<Rightarrow> Some v | None \<Rightarrow> map_of m k)"
proof (induction es arbitrary: m)
  case (Cons e es)
  then have "wf_map es" "fst e \<notin> fst ` set es" by (auto simp: wf_map_def)
  then have "map_of es (fst e) = None" by (simp add: map_of_eq_None_keys)
  with Cons.IH [OF \<open>wf_map es\<close>] show ?case
    by (auto simp: copyEntries_def case_prod_beta split: option.splits)
qed (simp add: copyEntries_def)

lemma length_update: "length m \<le> length (AList.update k v m)"
  by (induction m) auto

lemma length_copyEntries: "length m \<le> length (copyEntries es m)"
proof (induction es arbitrary: m)
  case (Cons e es)
  show ?case
    using Cons [of "AList.update (fst e) (snd e) m"] length_update [of m "fst e" "snd e"]
    by (simp add: copyEntries_def case_prod_beta)
qed (simp add: copyEntries_def)

text \<open>Copying entries into a map after \<^verbatim>\<open>initMapIfNil\<close> is idempotent, although a map of one entry is emptied.\<close>

lemma copy_init_idem:
  assumes "wf_map es"
  shows "copyEntries es (initMapIfNil (copyEntries es (initMapIfNil m))) = copyEntries es (initMapIfNil m)"
proof (cases "length (copyEntries es (initMapIfNil m)) > 1")
  case True
  have "list_all (\<lambda>(k, v). map_of (copyEntries es (initMapIfNil m)) k = Some v) es"
    using assms by (auto simp: list_all_iff copyEntries_lookup wf_map_def)
  with True show ?thesis by (simp add: initMapIfNil_def [of "copyEntries _ _"] copyEntries_again)
next
  case False
  then have "initMapIfNil m = []"
    using length_copyEntries [of "initMapIfNil m" es] by (auto simp: initMapIfNil_def split: if_splits)
  with False show ?thesis by (simp add: initMapIfNil_def [of "copyEntries _ _"])
qed

lemma update_init_idem:
  "AList.update k v (initMapIfNil (AList.update k v (initMapIfNil m))) = AList.update k v (initMapIfNil m)"
  using copy_init_idem [of "[(k, v)]" m] by (simp add: copyEntries_def wf_map_def)

text \<open>
  The mutation of the DaemonSet is idempotent: applied to its own result it changes nothing, so that a
  reconcile that finds the DaemonSet as the last one left it issues no update. The template has no
  creation time, and its labels and annotations have distinct keys, as a decoded manifest does.
\<close>

theorem daemonset_mutation_idempotent:
  assumes "\<forall>pairs. \<exists>tmpl. readManifest E (e_read_ds E) DiskMakerManagerDaemonSetTemplate pairs = Inr tmpl
      \<and> om_CreationTimestamp (ds_meta tmpl) = None \<and> wf_map (om_Labels (ds_meta tmpl))
      \<and> wf_map (pt_Labels (ds_Template tmpl)) \<and> wf_map (pt_Annotations (ds_Template tmpl))"
    and "getDiskMakerDSMutateFn E request tols refs sel h v c ds = Inr ds'"
  shows "getDiskMakerDSMutateFn E request tols refs sel h v c ds' = Inr ds'"
proof -
  obtain tmpl where tmpl: "readManifest E (e_read_ds E) DiskMakerManagerDaemonSetTemplate (diskMakerPairs E (fst request) v c) = Inr tmpl"
    "om_CreationTimestamp (ds_meta tmpl) = None" "wf_map (om_Labels (ds_meta tmpl))"
    "wf_map (pt_Labels (ds_Template tmpl))" "wf_map (pt_Annotations (ds_Template tmpl))"
    using assms(1) by blast
  let ?F = "\<lambda>x. withDataHash h (MutateAggregatedSpec (e_getenv E ''PRIORITY_CLASS_NAME'') tols refs sel tmpl x)"
  have "?F (?F ds) = ?F ds"
    using tmpl(2-5) by (cases "om_CreationTimestamp (ds_meta ds)")
      (simp_all add: withDataHash_def MutateAggregatedSpec_def Let_def copy_init_idem update_init_idem)
  moreover have "ds' = ?F ds" using assms(2) tmpl(1) by (simp add: getDiskMakerDSMutateFn_def)
  ultimately show ?thesis using tmpl(1) by (simp add: getDiskMakerDSMutateFn_def)
qed

theorem daemonset_mutation_idempotent_witness:
  "\<exists>ds. getDiskMakerDSMutateFn demo_env (''ns'', '''') [] [] None ''h'' '''' '''' emptyDS = Inr ds
     \<and> getDiskMakerDSMutateFn demo_env (''ns'', '''') [] [] None ''h'' '''' '''' ds = Inr ds"
proof -
  have t: "\<forall>pairs. \<exists>tmpl. readManifest demo_env (e_read_ds demo_env) DiskMakerManagerDaemonSetTemplate pairs = Inr tmpl
      \<and> om_CreationTimestamp (ds_meta tmpl) = None \<and> wf_map (om_Labels (ds_meta tmpl))
      \<and> wf_map (pt_Labels (ds_Template tmpl)) \<and> wf_map (pt_Annotations (ds_Template tmpl))"
    by (simp add: manifest_defs demo_env_def demo_ds_def demo_cm_def wf_map_def)
  obtain ds where "getDiskMakerDSMutateFn demo_env (''ns'', '''') [] [] None ''h'' '''' '''' emptyDS = Inr ds"
    by (simp add: getDiskMakerDSMutateFn_def manifest_defs demo_env_def)
  with daemonset_mutation_idempotent [OF t this] show ?thesis by blast
qed

section \<open>Waiting\<close>

text \<open>How many polls the backoff allows.\<close>

fun polls :: "nat \<Rightarrow> int \<Rightarrow> nat" where
  "polls 0 d = 0"
| "polls (Suc k) d = Suc (if k = 0 \<or> d * 17 div 10 > backoffCap then 0 else polls k (d * 17 div 10))"

lemma waitForPods_polls: "wp (waitForPods E k d names) (\<lambda>r w'. w_clock w' \<le> w_clock w + polls k d) w"
proof (induction k arbitrary: d names w)
  case (Suc k)
  have "wp (waitForPods E k (d * 17 div 10) ns) (\<lambda>r w'. w_clock w' \<le> Suc (w_clock w + polls k (d * 17 div 10))) (tick E w)" for ns
    using Suc [of "d * 17 div 10" ns "tick E w"] by simp
  then show ?case by (auto simp: wp_simps Let_def split: sum.split)
qed (simp add: wp_return)

text \<open>
  C34: waiting for the old pods comes to an end: of the twenty steps configured, at most ten polls are
  made before the sleep would pass its cap of two minutes.
\<close>

theorem backoff_polls_bounded:
  "w_clock (snd (run_state (waitForPods E 20 1000000000 names) w)) \<le> w_clock w + 10"
proof -
  have "polls 20 1000000000 = 10" by code_simp
  with waitForPods_polls [of E 20 1000000000 names w] show ?thesis by (simp add: wp_def case_prod_unfold)
qed


section \<open>The effects of a reconcile\<close>

text \<open>The hash of the configuration does not depend on the iteration order of the map.\<close>

lemma dataHash_order:
  assumes "mset data = mset data'"
  shows "dataHash data = dataHash data'"
proof -
  have "mset (map (\<lambda>(key, val). key @ ''-'' @ val) data) = mset (map (\<lambda>(key, val). key @ ''-'' @ val) data')"
    using assms by (simp only: mset_map)
  then have "sort (map (\<lambda>(key, val). key @ ''-'' @ val) data) = sort (map (\<lambda>(key, val). key @ ''-'' @ val) data')"
    by (metis sorted_list_of_multiset_mset)
  then show ?thesis by (simp only: dataHash_def)
qed

definition daemon_action :: "env \<Rightarrow> namespaced_name \<Rightarrow> action \<Rightarrow> bool" where
  "daemon_action E request b \<longleftrightarrow>
     monitor_write b
     \<or> (\<exists>r. b = Api (DeleteMonitor ServiceMonitorKind (fst request, orphanLSOServiceMonitorName)) r)
     \<or> (\<exists>t items ds r. e_list_ds E t (fst request) = Inr items \<and> ds \<in> set items \<and> isOldDaemon ds \<and> b = Api (DeleteDaemonSet (ds_key ds)) r)
     \<or> (\<exists>t ds r. e_get_ds E t (fst request, oldProvisionerName) = Inr ds \<and> b = Api (DeleteDaemonSet (ds_key ds)) r)
     \<or> (\<exists>cm r. b = Api (CreateConfigMap cm) r \<or> b = Api (UpdateConfigMap cm) r)
     \<or> (\<exists>ds r. b = Api (CreateDaemonSet ds) r \<or> b = Api (UpdateDaemonSet ds) r)"

lemma timed_deleteOldDaemons:
  "(\<And>ds r. ds \<in> set items \<Longrightarrow> isOldDaemon ds \<Longrightarrow> P (Api (DeleteDaemonSet (ds_key ds)) r)) \<Longrightarrow>
   always (timed P) (deleteOldDaemons E items names)"
proof (induction items arbitrary: names)
  case (Cons ds items)
  then show ?case by (auto intro!: operator_rules split: option.splits)
qed (simp add: timed.ret)

lemma timed_waitForPods: "always (timed P) (waitForPods E k d names)"
proof (induction k arbitrary: d names)
  case (Suc k)
  then show ?case unfolding waitForPods.simps by (intro operator_rules)
qed (simp add: timed.ret)

lemma timed_deleteOldProvisioner: "always (timed (daemon_action E request)) (deleteOldProvisioner E (fst request))"
  unfolding deleteOldProvisioner_def
  by (rule timed_lookup, intro operator_rules) (auto simp: daemon_action_def)

lemma timed_cleanupDaemonsets: "always (timed (daemon_action E request)) (cleanupOldDaemonsets E (fst request))"
  unfolding cleanupOldDaemonsets_def
  by (rule timed.bind, rule timed.pure_get, rule timed.cond, rule timed.ret, rule timed_lookup,
      intro operator_rules timed_deleteOldDaemons timed_waitForPods timed_deleteOldProvisioner timed_modify)
    (auto simp: daemon_action_def)

lemma timed_cleanupOld: "always (timed (daemon_action E request)) (cleanupOldObjects E (fst request))"
  unfolding cleanupOldObjects_def cleanupOrphanServiceMonitor_def
  by (intro operator_rules timed_modify timed_cleanupDaemonsets) (auto simp: daemon_action_def)

lemma timed_deploy: "always (timed (daemon_action E request)) (daemon_deploy E request info cm)"
proof -
  have monitor: "monitor_write b \<Longrightarrow> daemon_action E request b" for b by (simp add: daemon_action_def)
  have "always (timed (daemon_action E request)) (CreateOrUpdateDaemonset E f)" for f
    unfolding CreateOrUpdateDaemonset_def by (intro operator_rules) (auto simp: daemon_action_def)
  then show ?thesis
    unfolding daemon_deploy_def
    by (intro operator_rules timed_stop timed_observeTLS always_timed_mono [OF timed_monitoring(1) monitor]
        always_timed_mono [OF timed_monitoring(2) monitor]) auto
qed


end
