(* ===== verification/Discovery.thy ===== *)
theory Discovery
  imports Matcher Events Operator Sha256
begin

text \<open>
  The discovery daemon, \<^verbatim>\<open>pkg/diskmaker/discovery\<close>: a process on every selected node that lists the block
  devices, classifies them and publishes the list in the node's LocalVolumeDiscoveryResult. The field
  \<^verbatim>\<open>disks\<close> of \<^verbatim>\<open>DeviceDiscovery\<close> is \<open>w_disks\<close>; \<open>obj\<close> is the name of the LocalVolumeDiscovery events are
  reported on. Each read of the host (a command, a glob, an open, the mount table) sees it at its own
  time.
\<close>

abbreviation discovery_report :: "env \<Rightarrow> string \<Rightarrow> disk_event \<Rightarrow> unit prog" where
  "discovery_report E obj e \<equiv> report (EventReporter_Report (recordEvent (e_nodename E)) obj) e"

section \<open>Name of the result\<close>

definition hash :: "string \<Rightarrow> string" where
  "hash s = EncodeToString (take 16 (sha256 (bytes_of s)))"

definition DNS1123SubdomainMaxLength :: nat where
  "DNS1123SubdomainMaxLength = 253"

text \<open>\<^verbatim>\<open>resultCRName\<close> is a format with one verb, so here a function of its argument.\<close>

definition resultCRName :: "string \<Rightarrow> string" where
  "resultCRName s = ''discovery-result-'' @ s"

definition truncateNodeName :: "(string \<Rightarrow> string) \<Rightarrow> string \<Rightarrow> string" where
  "truncateNodeName fmt nodeName =
     fmt (if length nodeName + length (fmt '''') > DNS1123SubdomainMaxLength then hash nodeName else nodeName)"

definition DiscoveryNodeLabel :: string where "DiscoveryNodeLabel = ''discovery-result-node''"

definition discoveryOwnerRef :: "string \<Rightarrow> string \<Rightarrow> bool option \<Rightarrow> owner_ref" where
  "discoveryOwnerRef name uid isController =
     \<lparr>or_APIVersion = ''local.storage.openshift.io/v1alpha1'', or_Kind = ''LocalVolumeDiscovery'', or_Name = name, or_UID = uid,
      or_Controller = isController, or_BlockOwnerDeletion = None\<rparr>"

definition newDiscoveryResultInstance :: "string \<Rightarrow> string \<Rightarrow> string \<Rightarrow> string \<Rightarrow> discovery_result" where
  "newDiscoveryResultInstance nodeName namespace parentObjName parentObjUID =
     \<lparr>dr_meta = empty_meta\<lparr>om_Name := truncateNodeName resultCRName nodeName, om_Namespace := namespace,
        om_Labels := [(DiscoveryNodeLabel, nodeName)],
        om_OwnerReferences := [discoveryOwnerRef parentObjName parentObjUID None]\<rparr>,
      dr_NodeName = nodeName, dr_DiscoveredTimeStamp = '''', dr_DiscoveredDevices = []\<rparr>"

section \<open>The result object\<close>

definition ensureDiscoveryResultCR :: "env \<Rightarrow> string \<Rightarrow> error option prog" where
  "ensureDiscoveryResultCR E obj =
     (let nodeName = e_nodename E;
          namespace = e_getenv E ''WATCH_NAMESPACE'';
          parentObjUID = e_getenv E ''DISCOVERY_OBJECT_UID'';
          parentObjName = e_getenv E ''DISCOVERY_OBJECT_NAME''
      in if nodeName = '''' \<or> namespace = '''' \<or> parentObjUID = '''' \<or> parentObjName = ''''
         then State_Monad.return (Some (Errorf ''failed to create LocalVolumeDiscoveryResult resource. missing required env variables''))
         else let newCR = newDiscoveryResultInstance nodeName namespace parentObjName parentObjUID
         in do {
           g \<leftarrow> query E (\<lambda>t w. e_get_result E t (namespace, om_Name (dr_meta newCR)));
           (case g of
              Inl e \<Rightarrow>
                if IsNotFound e then do {
                  r \<leftarrow> api E (CreateDiscoveryResult newCR);
                  (case r of
                     Some e1 \<Rightarrow> State_Monad.return (Some (Wrapf ''failed to create LocalVolumeDiscoveryResult resource: '' e1))
                   | None \<Rightarrow> do {
                       _ \<leftarrow> discovery_report E obj (NewSuccessEvent ''CreatedDiscoveryResultObject''
                              ''successfully created LocalVolumeDiscoveryResult resource'' '''');
                       State_Monad.return None
                     })
                }
                else State_Monad.return (Some e)
            | Inr _ \<Rightarrow> State_Monad.return None)
         })"

definition discovery_updateStatus :: "env \<Rightarrow> error option prog" where
  "discovery_updateStatus E = do {
     g \<leftarrow> query E (\<lambda>t w. e_get_result E t (e_getenv E ''WATCH_NAMESPACE'', truncateNodeName resultCRName (e_nodename E)));
     (case g of
        Inl e \<Rightarrow>
          State_Monad.return (if IsNotFound e then None
             else Some (Wrapf ''failed to retrieve LocalVolumeDiscoveryResult resource to update status: '' e))
      | Inr resultCR \<Rightarrow> do {
          disks \<leftarrow> gets w_disks;
          t \<leftarrow> now E;
          r \<leftarrow> api E (UpdateDiscoveryResultStatus
                 (resultCR\<lparr>dr_DiscoveredDevices := disks, dr_DiscoveredTimeStamp := e_timestamp E t\<rparr>));
          State_Monad.return (map_option
             (Wrapf ''failed to update the device status in the LocalVolumeDiscoveryResult resource: '') r)
        })
   }"

section \<open>Devices\<close>

definition supportedDeviceTypes :: "string list" where
  "supportedDeviceTypes = [''disk'', ''part'', ''lvm'', ''mpath'']"

definition discovery_ignoreDevices :: "env \<Rightarrow> block_device \<Rightarrow> bool prog" where
  "discovery_ignoreDevices E dev =
     (if (case GetReadOnly dev of Inl _ \<Rightarrow> True | Inr readOnly \<Rightarrow> readOnly) then State_Monad.return True
      else do {
        c \<leftarrow> host_query E (\<lambda>h. HasChildren h dev);
        State_Monad.return
          (if (case c of Inl _ \<Rightarrow> True | Inr hasChildren \<Rightarrow> hasChildren) then True
           else if bd_State dev = StateSuspended then True
           else bd_Type dev \<notin> set supportedDeviceTypes)
      })"

fun validLoop :: "env \<Rightarrow> block_device list \<Rightarrow> block_device list prog" where
  "validLoop E [] = State_Monad.return []"
| "validLoop E (blockDevice # blockDevices) = do {
     ignored \<leftarrow> discovery_ignoreDevices E blockDevice;
     rest \<leftarrow> validLoop E blockDevices;
     State_Monad.return (if ignored then rest else blockDevice # rest)
   }"

definition getValidBlockDevices :: "env \<Rightarrow> block_device list result prog" where
  "getValidBlockDevices E = do {
     l \<leftarrow> host_query E (\<lambda>h. ListBlockDevices h []);
     (case l of
        ((blockDevices, output), Some e) \<Rightarrow>
          State_Monad.return (Inl (Wrapf (''failed to list all the block devices in the node, stderr=['' @ join_str '' '' output @ '']: '') e))
      | ((blockDevices, output), None) \<Rightarrow> do {
          validDevices \<leftarrow> validLoop E blockDevices;
          State_Monad.return (Inr validDevices)
        })
   }"

text \<open>A filter is looked up by name; both names used are keys of the map.\<close>

definition defaultFilter :: "env \<Rightarrow> string \<Rightarrow> block_device \<Rightarrow> bool result prog" where
  "defaultFilter E name dev =
     (case map_of DefaultFilterMap name of
        Some f \<Rightarrow> host_query E (\<lambda>h. f h dev)
      | None \<Rightarrow> State_Monad.return (Inl (Panic ''nil function'')))"

definition getDeviceStatus :: "env \<Rightarrow> block_device \<Rightarrow> device_state prog" where
  "getDeviceStatus E dev =
     (if bd_FSType dev \<noteq> '''' then State_Monad.return DeviceNotAvailable
      else do {
        l \<leftarrow> defaultFilter E ''noBiosBootInPartLabel'' dev;
        (case l of
           Inl _ \<Rightarrow> State_Monad.return DeviceUnknown
         | Inr noBoot \<Rightarrow>
             if \<not> noBoot then State_Monad.return DeviceNotAvailable
             else do {
               c \<leftarrow> defaultFilter E ''canOpenExclusively'' dev;
               (case c of
                  Inl _ \<Rightarrow> State_Monad.return DeviceUnknown
                | Inr canOpen \<Rightarrow>
                    if \<not> canOpen then State_Monad.return DeviceNotAvailable
                    else do {
                      m \<leftarrow> host_query E (\<lambda>h. HasBindMounts h dev);
                      State_Monad.return (case m of
                          Inl _ \<Rightarrow> DeviceUnknown
                        | Inr (hasBindMounts, mountPoint) \<Rightarrow> if hasBindMounts then DeviceNotAvailable else DeviceAvailable)
                    })
             })
      })"

definition parseDeviceProperty :: "string \<Rightarrow> mechanical_property option" where
  "parseDeviceProperty property =
     (if property = ''1'' then Some Rotational else if property = ''0'' then Some NonRotational else None)"

definition parseDeviceType :: "string \<Rightarrow> string" where
  "parseDeviceType deviceType =
     (if deviceType = ''disk'' then ''disk'' else if deviceType = ''part'' then ''part''
      else if deviceType = ''lvm'' then ''lvm'' else if deviceType = ''mpath'' then ''mpath'' else '''')"

text \<open>The index map of \<^verbatim>\<open>uniqueDevices\<close> has each key once, so its order does not matter.\<close>

definition deviceKey :: "discovered_device \<Rightarrow> string \<times> string" where
  "deviceKey v = (dd_DeviceID v, dd_Path v)"

fun uniqueLoop :: "((string \<times> string) \<times> nat) list \<Rightarrow> discovered_device list \<Rightarrow> discovered_device list \<Rightarrow> discovered_device list" where
  "uniqueLoop m unique [] = unique"
| "uniqueLoop m unique (v # sample) =
     (case map_of m (deviceKey v) of
        Some i \<Rightarrow> uniqueLoop m (unique[i := v]) sample
      | None \<Rightarrow> uniqueLoop ((deviceKey v, length unique) # m) (unique @ [v]) sample)"

definition uniqueDevices :: "discovered_device list \<Rightarrow> discovered_device list" where
  "uniqueDevices sample = uniqueLoop [] [] sample"

definition discoveredDevice :: "env \<Rightarrow> block_device \<Rightarrow> discovered_device prog" where
  "discoveredDevice E blockDevice = do {
     p \<leftarrow> host_query E (\<lambda>h. GetPathByID h blockDevice);
     (case p of
        (pathByID, err, dev) \<Rightarrow> do {
          status \<leftarrow> getDeviceStatus E dev;
          State_Monad.return
            \<lparr>dd_DeviceID = (if err = None then pathByID else ''''), dd_Path = fst (GetDevPath dev), dd_Model = bd_Model dev,
             dd_Type = parseDeviceType (bd_Type dev), dd_Vendor = bd_Vendor dev, dd_Serial = bd_Serial dev,
             dd_Size = parse_int64_value (bd_Size dev), dd_Property = parseDeviceProperty (bd_Rotational dev),
             dd_FSType = bd_FSType dev, dd_State = status\<rparr>
        })
   }"

fun discoverLoop :: "env \<Rightarrow> block_device list \<Rightarrow> discovered_device list prog" where
  "discoverLoop E [] = State_Monad.return []"
| "discoverLoop E (blockDevice # blockDevices) = do {
     d \<leftarrow> discoveredDevice E blockDevice;
     rest \<leftarrow> discoverLoop E blockDevices;
     State_Monad.return (d # rest)
   }"

definition getDiscoverdDevices :: "env \<Rightarrow> block_device list \<Rightarrow> discovered_device list prog" where
  "getDiscoverdDevices E blockDevices = do {
     discoveredDevices \<leftarrow> discoverLoop E blockDevices;
     State_Monad.return (uniqueDevices discoveredDevices)
   }"

section \<open>A probe\<close>

text \<open>
  The stored list is nil or comes from \<^verbatim>\<open>uniqueDevices\<close>, which returns nil for an empty list, so that
  \<^verbatim>\<open>reflect.DeepEqual\<close> is equality of the lists. The text of an event leaves out the stack trace.
\<close>

definition publishDisks :: "env \<Rightarrow> string \<Rightarrow> discovered_device list \<Rightarrow> error option prog" where
  "publishDisks E obj discoveredDisks = do {
     disks \<leftarrow> gets w_disks;
     (if disks = discoveredDisks then State_Monad.return None
      else do {
        _ \<leftarrow> modify (\<lambda>w. w\<lparr>w_disks := discoveredDisks\<rparr>);
        r \<leftarrow> discovery_updateStatus E;
        (case r of
           Some e \<Rightarrow> do {
             _ \<leftarrow> discovery_report E obj (NewEvent ''ErrorUpdatingDiscoveryResultObject''
                    (''failed to update LocalVolumeDiscoveryResult status. Error: '' @ err_text e) '''');
             State_Monad.return (Some (Wrapf ''failed to update LocalVolumeDiscoveryResult status: '' e))
           }
         | None \<Rightarrow> do {
             _ \<leftarrow> discovery_report E obj (NewSuccessEvent ''UpdatedDiscoveredDeviceList''
                    ''successfully updated discovered device details in the LocalVolumeDiscoveryResult resource'' '''');
             State_Monad.return None
           })
      })
   }"

definition discoverDevices :: "env \<Rightarrow> string \<Rightarrow> error option prog" where
  "discoverDevices E obj = do {
     l \<leftarrow> getValidBlockDevices E;
     (case l of
        Inl e \<Rightarrow> do {
          _ \<leftarrow> discovery_report E obj (NewEvent ''ErrorListingBlockDevices'' (''failed to discover devices. Error: '' @ err_text e) '''');
          State_Monad.return (Some (Wrapf ''failed to discover devices: '' e))
        }
      | Inr validDevices \<Rightarrow> do {
          discoveredDisks \<leftarrow> getDiscoverdDevices E validDevices;
          _ \<leftarrow> set_metric (SetDiscoveredDevicesMetrics (e_nodename E) (int (length discoveredDisks)));
          publishDisks E obj discoveredDisks
        })
   }"

section \<open>The main loop\<close>

text \<open>A new daemon has no stored devices and has reported nothing; the API client itself is the environment.\<close>

definition localVolumeDiscoveryComponent :: string where "localVolumeDiscoveryComponent = ''auto-discover-devices''"

definition NewDeviceDiscovery :: "env \<Rightarrow> local_volume_discovery result prog" where
  "NewDeviceDiscovery E = do {
     _ \<leftarrow> modify (\<lambda>w. w\<lparr>w_disks := [], w_reported := []\<rparr>);
     query E (\<lambda>t w. e_get_lvd E t (e_getenv E ''WATCH_NAMESPACE'', localVolumeDiscoveryComponent))
   }"

text \<open>
  What the \<^verbatim>\<open>select\<close> of \<^verbatim>\<open>Start\<close> wakes up for. \<open>UdevClosed\<close> is the receive from the closed channel, after
  which the channel variable is nil and no further udev event arrives.
\<close>

datatype wakeup = ShutdownSignal | ProbeInterval | UdevEvent | UdevClosed

text \<open>The result is \<open>True\<close> when the shutdown signal ended the loop, \<open>False\<close> while it still waits.\<close>

fun probeLoop :: "env \<Rightarrow> string \<Rightarrow> bool \<Rightarrow> wakeup list \<Rightarrow> bool prog" where
  "probeLoop E obj udevOpen [] = State_Monad.return False"
| "probeLoop E obj udevOpen (ev # evs) =
     (case ev of
        ShutdownSignal \<Rightarrow> State_Monad.return True
      | ProbeInterval \<Rightarrow> do { _ \<leftarrow> discoverDevices E obj; probeLoop E obj udevOpen evs }
      | UdevEvent \<Rightarrow> if udevOpen then do { _ \<leftarrow> discoverDevices E obj; probeLoop E obj True evs } else probeLoop E obj False evs
      | UdevClosed \<Rightarrow> probeLoop E obj False evs)"

definition discovery_Start :: "env \<Rightarrow> string \<Rightarrow> wakeup list \<Rightarrow> bool result prog" where
  "discovery_Start E obj evs = do {
     r \<leftarrow> ensureDiscoveryResultCR E obj;
     (case r of
        Some e \<Rightarrow> do {
          _ \<leftarrow> discovery_report E obj (NewEvent ''ErrorCreatingDiscoveryResultObject''
                 (''failed to start device discovery. Error: '' @ err_text e) '''');
          State_Monad.return (Inl (Wrapf ''failed to start device discovery: '' e))
        }
      | None \<Rightarrow> do {
          _ \<leftarrow> discoverDevices E obj;
          stopped \<leftarrow> probeLoop E obj True evs;
          State_Monad.return (Inr stopped)
        })
   }"

section \<open>Names of results\<close>

lemma length_hash: "length (hash s) = 32"
  by (simp add: hash_def)

text \<open>
  The name of a node's discovery result always fits the 253 characters of a Kubernetes object
  name, and is the plain concatenation whenever that fits; only longer node names are replaced by 32
  hexadecimal digits, so two nodes with short names never share a result.
\<close>

theorem discovery_result_name_bounds:
  "length (truncateNodeName resultCRName nodeName) \<le> 253
   \<and> truncateNodeName resultCRName nodeName =
       ''discovery-result-'' @ (if length nodeName \<le> 236 then nodeName else hash nodeName)
   \<and> om_Name (dr_meta (newDiscoveryResultInstance nodeName ns p u)) = truncateNodeName resultCRName nodeName"
  by (simp add: truncateNodeName_def resultCRName_def DNS1123SubdomainMaxLength_def length_hash newDiscoveryResultInstance_def)

section \<open>Duplicates\<close>

text \<open>The reference: the keys in the order of their first occurrence, each with its last device.\<close>

definition first_keys :: "discovered_device list \<Rightarrow> (string \<times> string) list" where
  "first_keys s = rev (remdups (rev (map deviceKey s)))"

definition last_with :: "discovered_device list \<Rightarrow> string \<times> string \<Rightarrow> discovered_device" where
  "last_with s k = last (filter (\<lambda>v. deviceKey v = k) s)"

lemma first_keys_snoc: "first_keys (s @ [v]) = (if deviceKey v \<in> deviceKey ` set s then first_keys s else first_keys s @ [deviceKey v])"
  by (simp add: first_keys_def)

lemma set_first_keys [simp]: "set (first_keys s) = deviceKey ` set s"
  by (simp add: first_keys_def)

lemma distinct_first_keys: "distinct (first_keys s)"
  by (simp add: first_keys_def)

lemma last_with_snoc: "last_with (s @ [v]) k = (if deviceKey v = k then v else last_with s k)"
  by (simp add: last_with_def)

lemma map_update_at:
  assumes "distinct ks" "i < length ks" "ks ! i = k"
  shows "(map f ks)[i := v] = map (\<lambda>x. if x = k then v else f x) ks"
  using assms by (auto simp: list_eq_iff_nth_eq nth_list_update nth_eq_iff_index_eq)

text \<open>The loop invariant: the list so far is the reference, and the map is its index.\<close>

lemma uniqueLoop_inv:
  assumes "\<And>k i. map_of m k = Some i \<longleftrightarrow> i < length (first_keys done) \<and> first_keys done ! i = k"
  shows "uniqueLoop m (map (last_with done) (first_keys done)) sample = map (last_with (done @ sample)) (first_keys (done @ sample))"
  using assms
proof (induction sample arbitrary: m "done")
  case (Cons v sample)
  let ?k = "deviceKey v"
  show ?case
  proof (cases "map_of m ?k")
    case None
    then have new: "?k \<notin> deviceKey ` set done"
      using Cons.prems [of ?k] by (metis in_set_conv_nth option.simps(3) set_first_keys)
    then have fk: "first_keys (done @ [v]) = first_keys done @ [?k]" by (simp add: first_keys_snoc)
    have eq: "map (last_with done) (first_keys done) @ [v] = map (last_with (done @ [v])) (first_keys (done @ [v]))"
      unfolding fk using new by (auto simp: last_with_snoc)
    have "\<And>k i. map_of ((?k, length (first_keys done)) # m) k = Some i \<longleftrightarrow> i < length (first_keys (done @ [v])) \<and> first_keys (done @ [v]) ! i = k"
      unfolding fk using Cons.prems new None
      by (auto simp: nth_append less_Suc_eq) (metis in_set_conv_nth set_first_keys)+
    from Cons.IH [OF this] show ?thesis using None by (simp add: eq)
  next
    case (Some i)
    then have i: "i < length (first_keys done)" "first_keys done ! i = ?k" using Cons.prems by auto
    then have mem: "?k \<in> deviceKey ` set done" by (metis nth_mem set_first_keys)
    have fk: "first_keys (done @ [v]) = first_keys done" using mem by (simp add: first_keys_snoc)
    have eq: "(map (last_with done) (first_keys done))[i := v] = map (last_with (done @ [v])) (first_keys (done @ [v]))"
      unfolding fk map_update_at [OF distinct_first_keys i] by (intro map_cong refl) (simp add: last_with_snoc)
    have "uniqueLoop m (map (last_with (done @ [v])) (first_keys (done @ [v]))) sample
        = map (last_with ((done @ [v]) @ sample)) (first_keys ((done @ [v]) @ sample))"
      by (rule Cons.IH) (use Cons.prems in \<open>simp add: fk\<close>)
    then show ?thesis using Some by (simp only: uniqueLoop.simps option.case eq append_assoc append.simps)
  qed
qed simp

lemma uniqueDevices_eq: "uniqueDevices sample = map (last_with sample) (first_keys sample)"
  using uniqueLoop_inv [of "[]" "[]" sample] by (simp add: uniqueDevices_def first_keys_def)

lemma last_with_in:
  "k \<in> deviceKey ` set sample \<Longrightarrow> last_with sample k \<in> set sample \<and> deviceKey (last_with sample k) = k"
  using last_in_set [of "filter (\<lambda>v. deviceKey v = k) sample"] by (auto simp: last_with_def filter_empty_conv)

lemma unique_subset: "set (uniqueDevices s) \<subseteq> set s"
  using last_with_in [of _ s] by (auto simp: uniqueDevices_eq simp del: split_paired_All)

lemma unique_keys: "map deviceKey (uniqueDevices sample) = first_keys sample"
  unfolding uniqueDevices_eq map_map by (intro map_idI) (simp add: last_with_in)

text \<open>
  \<^verbatim>\<open>uniqueDevices\<close> keeps one device for each pair of id and path: the last one listed, at the
  position where the pair occurred first.
\<close>

theorem unique_devices_exact:
  "uniqueDevices sample = map (last_with sample) (first_keys sample) \<and> distinct (map deviceKey (uniqueDevices sample))"
  by (simp add: uniqueDevices_eq unique_keys [unfolded uniqueDevices_eq] distinct_first_keys del: map_map)

section \<open>Available devices\<close>

lemma defaultFilter_eqs:
  "defaultFilter E ''noBiosBootInPartLabel'' dev = host_query E (\<lambda>h. noBiosBootInPartLabel h dev)"
  "defaultFilter E ''canOpenExclusively'' dev = host_query E (\<lambda>h. canOpenExclusively h dev)"
  by (simp_all add: defaultFilter_def DefaultFilterMap_def)

text \<open>What a device has to pass at the three reads of \<^verbatim>\<open>getDeviceStatus\<close>, which starts at time \<open>t\<close>.\<close>

definition free_at :: "env \<Rightarrow> nat \<Rightarrow> block_device \<Rightarrow> bool" where
  "free_at E t dev \<longleftrightarrow> bd_FSType dev = ''''
     \<and> \<not> contains_str (to_lower (bd_PartLabel dev)) ''bios'' \<and> \<not> contains_str (to_lower (bd_PartLabel dev)) ''boot''
     \<and> (bd_KName dev \<noteq> '''' \<and> (\<exists>fd. e_open E (Suc t) (path_join [''/dev/'', bd_KName dev]) = Inr fd))
     \<and> (\<exists>mounts. e_mountinfo E (Suc (Suc t)) = Inr mounts
          \<and> (\<forall>l \<in> set (split_char newline mounts). \<not> mountLineMatches (bd_KName dev) l))"

lemma noBios_eq:
  "noBiosBootInPartLabel h dev =
    Inr (\<not> contains_str (to_lower (bd_PartLabel dev)) ''bios'' \<and> \<not> contains_str (to_lower (bd_PartLabel dev)) ''boot'')"
proof -
  have low: "to_lower ''bios'' = ''bios''" "to_lower ''boot'' = ''boot''" by code_simp+
  show ?thesis by (auto simp: noBiosBootInPartLabel_def Let_def low)
qed

lemma noBindMounts_read:
  "HasBindMounts h dev = Inr (False, p) \<longleftrightarrow>
    p = '''' \<and> (\<exists>mounts. mountFile h = Inr mounts \<and> (\<forall>l \<in> set (split_char newline mounts). \<not> mountLineMatches (bd_KName dev) l))"
proof (cases "mountFile h")
  case (Inr mounts)
  then show ?thesis
    using find_None_iff [of "mountLineMatches (bd_KName dev)" "split_char newline mounts"]
    by (cases "List.find (mountLineMatches (bd_KName dev)) (split_char newline mounts)")
       (auto simp: HasBindMounts_def dest!: find_Some_D)
qed (simp add: HasBindMounts_def)

lemma status_available:
  "wp (getDeviceStatus E dev) (\<lambda>s w'. (s = DeviceAvailable \<longleftrightarrow> free_at E (w_clock w) dev) \<and> (s = DeviceAvailable \<longrightarrow> w_clock w < w_clock w')) w"
proof -
  have open_iff: "canOpenExclusively (host_at E t v) dev = Inr True \<longleftrightarrow>
      bd_KName dev \<noteq> '''' \<and> (\<exists>fd. e_open E t (path_join [''/dev/'', bd_KName dev]) = Inr fd)" for t v
    by (simp add: canOpenExclusively_iff host_at_def)
  have mounts_iff: "(case HasBindMounts (host_at E t v) dev of Inl _ \<Rightarrow> DeviceUnknown
        | Inr (has, p) \<Rightarrow> if has then DeviceNotAvailable else DeviceAvailable) = DeviceAvailable \<longleftrightarrow>
      (\<exists>mounts. e_mountinfo E t = Inr mounts \<and> (\<forall>l \<in> set (split_char newline mounts). \<not> mountLineMatches (bd_KName dev) l))" for t v
    using noBindMounts_read [of "host_at E t v" dev] by (auto simp: host_at_def split: sum.splits)
  show ?thesis
    unfolding getDeviceStatus_def defaultFilter_eqs free_at_def
      open_iff [of "Suc (w_clock w)" "tick E (tick E w)", symmetric] mounts_iff [of "Suc (Suc (w_clock w))" "tick E (tick E (tick E w))", symmetric]
    by (auto simp: wp_simps query_defs noBios_eq mounts_iff split: sum.splits)
qed


text \<open>Looking at the host writes nothing.\<close>

definition silent :: "world \<Rightarrow> world \<Rightarrow> bool" where
  "silent w w' \<longleftrightarrow> w_clock w \<le> w_clock w' \<and> w_log w' = w_log w \<and> w_disks w' = w_disks w"

interpretation silent: step_order silent
  by unfold_locales (auto simp: silent_def)

lemma silent_host [simp, intro]: "always silent (host_query E f)"
  by (simp add: always_def host_query_def query_def silent_def Let_def)

lemma silent_devices:
  "always silent (discovery_ignoreDevices E dev)" "always silent (validLoop E devs)" "always silent (getValidBlockDevices E)"
  "always silent (getDeviceStatus E dev)" "always silent (discoveredDevice E dev)" "always silent (discoverLoop E devs)"
proof -
  show ign: "always silent (discovery_ignoreDevices E dev)" for dev
    unfolding discovery_ignoreDevices_def by (intro silent.rules silent_host)
  show loop: "always silent (validLoop E devs)" for devs
    by (induction devs) (auto intro!: silent.rules ign)
  show "always silent (getValidBlockDevices E)"
    unfolding getValidBlockDevices_def by (intro silent.rules silent_host loop)
  show status: "always silent (getDeviceStatus E dev)" for dev
    unfolding getDeviceStatus_def defaultFilter_eqs by (intro silent.rules silent_host)
  show dev: "always silent (discoveredDevice E dev)" for dev
    unfolding discoveredDevice_def by (intro silent.rules silent_host status)
  show "always silent (discoverLoop E devs)"
    by (induction devs) (auto intro!: silent.rules dev)
qed

lemma GetPathByID_caches: "GetPathByID h b = (p, e, b1) \<Longrightarrow> \<exists>x. b1 = b\<lparr>bd_PathByID := x\<rparr>"
  by (auto simp: GetPathByID_def Let_def GetDevPath_def split: if_splits sum.splits intro: exI [of _ "bd_PathByID b"])

lemma free_at_cached [simp]: "free_at E t (b\<lparr>bd_PathByID := x\<rparr>) = free_at E t b"
  by (simp add: free_at_def)

text \<open>The properties of a listed device that do not depend on the time.\<close>

definition eligible :: "block_device \<Rightarrow> bool" where
  "eligible dev \<longleftrightarrow> GetReadOnly dev = Inr False \<and> bd_State dev \<noteq> StateSuspended \<and> bd_Type dev \<in> set supportedDeviceTypes"

text \<open>A device published between \<open>t0\<close> and \<open>t1\<close> as available was eligible and free at some time in between.\<close>

definition checked :: "env \<Rightarrow> nat \<Rightarrow> nat \<Rightarrow> discovered_device \<Rightarrow> bool" where
  "checked E t0 t1 d \<longleftrightarrow> (dd_State d = DeviceAvailable \<longrightarrow>
     (\<exists>t dev. t0 \<le> t \<and> t < t1 \<and> eligible dev \<and> dd_Path d = path_join [''/dev/'', bd_KName dev] \<and> free_at E t dev))"

lemma checked_mono: "checked E t0 t1 d \<Longrightarrow> s0 \<le> t0 \<Longrightarrow> t1 \<le> s1 \<Longrightarrow> checked E s0 s1 d"
  unfolding checked_def by (meson order_trans less_le_trans)

lemma validLoop_eligible: "wp (validLoop E devs) (\<lambda>vs w'. \<forall>v \<in> set vs. eligible v) w"
proof (induction devs arbitrary: w)
  case (Cons dev devs)
  have "wp (discovery_ignoreDevices E dev) (\<lambda>i w'. \<not> i \<longrightarrow> eligible dev) w"
    unfolding discovery_ignoreDevices_def eligible_def
    by (auto simp: wp_simps query_defs split: sum.splits if_splits)
  then show ?case
    by (auto simp: wp_simps intro!: wp_mono [OF Cons.IH] elim!: wp_mono split: if_splits)
qed (simp add: wp_simps)

lemma discoveredDevice_checked:
  assumes "eligible dev"
  shows "wp (discoveredDevice E dev) (\<lambda>d w'. checked E (w_clock w) (w_clock w') d) w"
proof -
  let ?v = "tick E w"
  obtain p e b1 where g: "GetPathByID (host_at E (w_clock w) ?v) dev = (p, e, b1)" by (metis prod_cases3)
  obtain x where b1: "b1 = dev\<lparr>bd_PathByID := x\<rparr>" using GetPathByID_caches [OF g] by blast
  have "wp (getDeviceStatus E b1) (\<lambda>s w'. (s = DeviceAvailable \<longleftrightarrow> free_at E (Suc (w_clock w)) dev) \<and> (s = DeviceAvailable \<longrightarrow> Suc (w_clock w) < w_clock w')) ?v"
    using status_available [of E b1 ?v] by (simp add: b1)
  then show ?thesis
    unfolding discoveredDevice_def checked_def
    by (auto simp: wp_simps query_defs g b1 GetDevPath_def elim!: wp_mono intro!: exI [of _ "Suc (w_clock w)"] exI [of _ dev] assms)
qed

lemma discoverLoop_checked:
  "list_all eligible devs \<Longrightarrow> wp (discoverLoop E devs) (\<lambda>ds w'. list_all (checked E (w_clock w) (w_clock w')) ds) w"
proof (induction devs arbitrary: w)
  case (Cons dev devs)
  show ?case
    unfolding discoverLoop.simps wp_bind wp_return
  proof (rule wp_runI, rule wp_runI)
    fix d w1 ds w2
    assume d: "run_state (discoveredDevice E dev) w = (d, w1)" and ds: "run_state (discoverLoop E devs) w1 = (ds, w2)"
    have le: "w_clock w \<le> w_clock w1" "w_clock w1 \<le> w_clock w2"
      using always_run [OF silent_devices(5) d] always_run [OF silent_devices(6) ds] by (auto simp: silent_def)
    have "checked E (w_clock w) (w_clock w1) d" using wp_runD [OF discoveredDevice_checked d] Cons.prems by simp
    moreover have "list_all (checked E (w_clock w1) (w_clock w2)) ds" using wp_runD [OF Cons.IH ds] Cons.prems by simp
    ultimately show "list_all (checked E (w_clock w) (w_clock w2)) (d # ds)"
      using le by (auto simp: list_all_iff intro: checked_mono)
  qed
qed (simp add: wp_simps)

section \<open>A probe\<close>

text \<open>
  The daemon's writes at a probe: events, the gauge, and the status of the node's result as read, with
  a list of checked devices.
\<close>

definition probe_action :: "env \<Rightarrow> nat \<Rightarrow> nat \<Rightarrow> action \<Rightarrow> bool" where
  "probe_action E t0 t1 b \<longleftrightarrow>
     (\<exists>o' ty reason msg. b = Event o' ty reason msg) \<or> (\<exists>n. b = Metric (SetDiscoveredDevicesMetrics (e_nodename E) n))
     \<or> (\<exists>cr t r. b = Api (UpdateDiscoveryResultStatus cr) r \<and> t0 \<le> t \<and> t < t1
         \<and> (\<exists>old. e_get_result E t (e_getenv E ''WATCH_NAMESPACE'', truncateNodeName resultCRName (e_nodename E)) = Inr old
              \<and> dr_meta cr = dr_meta old \<and> dr_NodeName cr = dr_NodeName old)
         \<and> list_all (checked E t0 t1) (dr_DiscoveredDevices cr) \<and> distinct (map deviceKey (dr_DiscoveredDevices cr)))"

lemma wp_discovery_report [wp_simps]:
  "wp (discovery_report E obj e) Q = (\<lambda>w.
     if eventKey e \<in> set (w_reported w) then Q () (w\<lparr>w_reported := w_reported w\<rparr>)
     else Q () (act (recordEvent (e_nodename E) obj e) (w\<lparr>w_reported := List.insert (eventKey e) (w_reported w)\<rparr>)))"
  by (rule ext) (simp add: report_def EventReporter_Report_def wp_simps)

lemma probe_event: "probe_action E t0 t1 (recordEvent n obj e)"
  by (simp add: probe_action_def recordEvent_def Let_def)

lemma publish_log:
  assumes "list_all (checked E t0 (w_clock w)) disks" "distinct (map deviceKey disks)" "t0 \<le> w_clock w"
  shows "wp (publishDisks E obj disks) (\<lambda>r w'. log_ext (probe_action E t0 (w_clock w')) w w') w"
proof -
  let ?t = "w_clock w"
  have chk: "list_all (checked E t0 t1) disks" if "?t \<le> t1" for t1
    using assms(1) that by (auto simp: list_all_iff intro: checked_mono)
  have upd: "probe_action E t0 (Suc (Suc (Suc ?t))) (Api (UpdateDiscoveryResultStatus (cr\<lparr>dr_DiscoveredDevices := disks, dr_DiscoveredTimeStamp := s\<rparr>)) r)"
    if "e_get_result E ?t (e_getenv E ''WATCH_NAMESPACE'', truncateNodeName resultCRName (e_nodename E)) = Inr cr" for cr s r
    unfolding probe_action_def action.inject api_write.inject using that assms(2,3) chk [of "Suc (Suc (Suc ?t))"]
    by (intro disjI2 exI [of _ "cr\<lparr>dr_DiscoveredDevices := disks, dr_DiscoveredTimeStamp := s\<rparr>"] exI [of _ ?t] exI [of _ r] exI [of _ cr] conjI) simp_all
  show ?thesis
    unfolding publishDisks_def discovery_updateStatus_def
    by (auto simp: wp_simps query_defs log_ext_def probe_event upd split: sum.split option.split)
qed

lemma valid_eligible: "wp (getValidBlockDevices E) (\<lambda>l w'. \<forall>valid. l = Inr valid \<longrightarrow> list_all eligible valid) w"
  unfolding getValidBlockDevices_def
  by (auto simp: wp_simps query_defs list_all_iff intro!: wp_mono [OF validLoop_eligible] split: prod.split option.split)

lemma publish_valid_log:
  assumes "list_all eligible valid" "silent w w1"
  shows "wp (do { disks \<leftarrow> getDiscoverdDevices E valid;
                  _ \<leftarrow> set_metric (SetDiscoveredDevicesMetrics (e_nodename E) (int (length disks)));
                  publishDisks E obj disks })
           (\<lambda>r w'. log_ext (probe_action E (w_clock w) (w_clock w')) w w') w1"
  unfolding getDiscoverdDevices_def wp_bind wp_return
proof (rule wp_runI)
  fix ds w2 assume ds: "run_state (discoverLoop E valid) w1 = (ds, w2)"
  let ?disks = "uniqueDevices ds"
  let ?v = "act (Metric (SetDiscoveredDevicesMetrics (e_nodename E) (int (length ?disks)))) w2"
  have s2: "silent w1 w2" using always_run [OF silent_devices(6) ds] .
  have "list_all (checked E (w_clock w1) (w_clock w2)) ds"
    using wp_runD [OF discoverLoop_checked [OF assms(1)] ds] .
  then have "list_all (checked E (w_clock w) (w_clock ?v)) ?disks"
    using assms(2) s2 unique_subset [of ds] by (auto simp: list_all_iff silent_def intro: checked_mono)
  then have "wp (publishDisks E obj ?disks) (\<lambda>r w'. log_ext (probe_action E (w_clock w) (w_clock w')) ?v w') ?v"
    using assms(2) s2 by (intro publish_log) (auto simp: unique_keys distinct_first_keys silent_def)
  then show "wp (set_metric (SetDiscoveredDevicesMetrics (e_nodename E) (int (length ?disks))))
      (\<lambda>r. wp (publishDisks E obj ?disks) (\<lambda>r w'. log_ext (probe_action E (w_clock w) (w_clock w')) w w')) w2"
    unfolding set_metric_def wp_modify
    by (rule wp_mono) (use assms(2) s2 in \<open>auto simp: log_ext_def silent_def probe_action_def\<close>)
qed

lemma probe_log: "wp (discoverDevices E obj) (\<lambda>r w'. log_ext (probe_action E (w_clock w) (w_clock w')) w w') w"
  unfolding discoverDevices_def
proof (rule wp_bindI, rule wp_runI)
  fix l w1 assume l: "run_state (getValidBlockDevices E) w = (l, w1)"
  have s1: "silent w w1" using always_run [OF silent_devices(3) l] .
  have el: "list_all eligible valid" if "l = Inr valid" for valid using wp_runD [OF valid_eligible l] that by simp
  show "wp (case l of
       Inl e \<Rightarrow> do { _ \<leftarrow> discovery_report E obj (NewEvent ''ErrorListingBlockDevices'' (''failed to discover devices. Error: '' @ err_text e) '''');
                    State_Monad.return (Some (Wrapf ''failed to discover devices: '' e)) }
     | Inr validDevices \<Rightarrow> do { disks \<leftarrow> getDiscoverdDevices E validDevices;
         _ \<leftarrow> set_metric (SetDiscoveredDevicesMetrics (e_nodename E) (int (length disks)));
         publishDisks E obj disks })
     (\<lambda>r w'. log_ext (probe_action E (w_clock w) (w_clock w')) w w') w1"
    using s1 by (intro wp_sumI publish_valid_log el) (auto simp: wp_simps log_ext_def silent_def probe_event)
qed



section \<open>Lost updates\<close>

lemma publish_stores: "wp (publishDisks E obj disks) (\<lambda>r w'. w_disks w' = disks) w"
  unfolding publishDisks_def discovery_updateStatus_def
  by (auto simp: wp_simps query_defs recordEvent_def Let_def split: sum.split option.split)

text \<open>
  C39: the device list is remembered before it is written. When writing the result fails, the next probe
  that finds the same devices believes it published already: it writes nothing and reports no error, so
  the result in the cluster stays out of date until the devices change again.
\<close>

theorem failed_update_not_retried:
  assumes "run_state (publishDisks E obj disks) w = (Some e, w1)" "w_disks w2 = w_disks w1"
  shows "run_state (publishDisks E' obj disks) w2 = (None, w2)"
  using wp_runD [OF publish_stores assms(1)] assms(2) by (simp add: publishDisks_def)

definition demo_disk :: discovered_device where
  "demo_disk = \<lparr>dd_DeviceID = ''/dev/disk/by-id/wwn-1'', dd_Path = ''/dev/sda'', dd_Model = '''', dd_Type = ''disk'', dd_Vendor = '''',
     dd_Serial = '''', dd_Size = 10737418240, dd_Property = Some NonRotational, dd_FSType = '''', dd_State = DeviceAvailable\<rparr>"

definition failing_env :: env where
  "failing_env = demo_env\<lparr>e_get_result := (\<lambda>t n. Inr (newDiscoveryResultInstance ''node1'' ''ns'' ''p'' ''u'')),
     e_write := (\<lambda>t c. Some (Errorf ''conflict''))\<rparr>"

theorem failed_update_not_retried_witness:
  "\<exists>e w1. run_state (publishDisks failing_env ''lvd'' [demo_disk]) demo_world = (Some e, w1)
    \<and> run_state (publishDisks demo_env ''lvd'' [demo_disk]) w1 = (None, w1)"
proof -
  obtain r w1 where run: "run_state (publishDisks failing_env ''lvd'' [demo_disk]) demo_world = (r, w1)" by fastforce
  have "wp (publishDisks failing_env ''lvd'' [demo_disk]) (\<lambda>r w'. \<exists>e. r = Some e) demo_world"
    unfolding publishDisks_def discovery_updateStatus_def
    by (simp add: wp_simps query_defs failing_env_def demo_env_def demo_world_def del: wp_discovery_report)
       (simp add: report_def wp_simps)
  then obtain e where "r = Some e" using wp_runD [OF _ run] by blast
  then show ?thesis using run failed_update_not_retried [OF run [unfolded \<open>r = Some e\<close>] refl] by blast
qed

section \<open>The daemon\<close>

definition discovery_action :: "env \<Rightarrow> action \<Rightarrow> bool" where
  "discovery_action E b \<longleftrightarrow> (\<exists>t0 t1. probe_action E t0 t1 b)
     \<or> (\<exists>r. b = Api (CreateDiscoveryResult (newDiscoveryResultInstance (e_nodename E) (e_getenv E ''WATCH_NAMESPACE'')
          (e_getenv E ''DISCOVERY_OBJECT_NAME'') (e_getenv E ''DISCOVERY_OBJECT_UID''))) r)"

lemma log_probe: "always (log_ext (discovery_action E)) (discoverDevices E obj)"
  unfolding always_def
proof
  fix w
  obtain r w' where run: "run_state (discoverDevices E obj) w = (r, w')" by fastforce
  have "log_ext (discovery_action E) w w'"
    by (rule log_ext_mono [OF wp_runD [OF probe_log run]]) (auto simp: discovery_action_def)
  then show "log_ext (discovery_action E) w (snd (run_state (discoverDevices E obj) w))" by (simp add: run)
qed

lemma log_probeLoop: "always (log_ext (discovery_action E)) (probeLoop E obj o' evs)"
proof (induction evs arbitrary: o')
  case (Cons ev evs)
  then show ?case by (cases ev) (auto intro!: log.rules log_probe)
qed (auto intro: log.rules)

lemma log_discovery_report: "always (log_ext (discovery_action E)) (discovery_report E obj e)"
  by (rule log_report) (auto simp: EventReporter_Report_def discovery_action_def probe_event split: if_splits)

text \<open>
  Over its whole life the daemon writes only to the one result named after its node: it creates it
  when it does not exist, labelled with the node and owned by the LocalVolumeDiscovery, and updates its status.
\<close>

lemma discovery_start_effects: "always (log_ext (discovery_action E)) (discovery_Start E obj evs)"
proof -
  have "always (log_ext (discovery_action E)) (ensureDiscoveryResultCR E obj)"
    unfolding ensureDiscoveryResultCR_def
    by (intro log.rules log_query log_api log_discovery_report) (auto simp: discovery_action_def)
  then show ?thesis unfolding discovery_Start_def by (intro log.rules log_probe log_probeLoop log_discovery_report)
qed

text \<open>The daemon runs until it is told to stop, and stops then.\<close>

lemma stops_on_signal: "fst (run_state (probeLoop E obj o' evs) w) \<longleftrightarrow> ShutdownSignal \<in> set evs"
proof (induction evs arbitrary: w o')
  case (Cons ev evs)
  then show ?case by (cases ev) (auto split: prod.splits)
qed simp

end
