(* ===== verification/DiscoveryController.thy ===== *)
theory DiscoveryController
  imports NodeDaemon Discovery
begin

text \<open>
  The operator's controller of LocalVolumeDiscovery objects,
  \<^verbatim>\<open>pkg/controllers/localvolumediscovery/localvolumediscovery_controller.go\<close>: it deploys the discovery DaemonSet with the
  node daemon's functions, reflects the number of ready daemons in the status, and deletes the results
  of nodes that are no longer selected.
\<close>

definition DiskMakerDiscovery :: string where "DiskMakerDiscovery = ''diskmaker-discovery''"

definition waitForRequeueIfDaemonsNotReady :: int where
  "waitForRequeueIfDaemonsNotReady = 10 * 1000000000"

definition getEnvVars :: "string \<Rightarrow> string \<Rightarrow> smap" where
  "getEnvVars objName uid = [(''DISCOVERY_OBJECT_UID'', uid), (''DISCOVERY_OBJECT_NAME'', objName)]"

definition lvd_getOwnerRefs :: "local_volume_discovery \<Rightarrow> owner_ref list" where
  "lvd_getOwnerRefs cr = [discoveryOwnerRef (om_Name (lvd_meta cr)) (om_UID (lvd_meta cr)) (Some True)]"

section \<open>The DaemonSet\<close>

definition discoveryPairs :: "env \<Rightarrow> string \<Rightarrow> string \<Rightarrow> string \<Rightarrow> smap" where
  "discoveryPairs E namespace tlsMinVersion tlsCipherSuites =
     [(''${OBJECT_NAMESPACE}'', namespace), (''${CONTAINER_IMAGE}'', GetDiskMakerImage (e_getenv E)),
      (''${RBAC_PROXY_IMAGE}'', GetKubeRBACProxyImage (e_getenv E)),
      (''${TLS_MIN_VERSION}'', tlsMinVersion), (''${TLS_CIPHER_SUITES}'', tlsCipherSuites)]"

text \<open>Indexing the first container of a template without containers panics.\<close>

definition withEnv :: "smap \<Rightarrow> daemonset \<Rightarrow> daemonset result" where
  "withEnv envVars ds =
     (case pt_Containers (ds_Template ds) of
        [] \<Rightarrow> Inl (Panic ''index out of range'')
      | c # cs \<Rightarrow> Inr (ds\<lparr>ds_Template := (ds_Template ds)\<lparr>pt_Containers := c\<lparr>ct_Env := ct_Env c @ envVars\<rparr> # cs\<rparr>\<rparr>))"

definition getDiskMakerDiscoveryDSMutateFn ::
  "env \<Rightarrow> namespaced_name \<Rightarrow> toleration list \<Rightarrow> smap \<Rightarrow> owner_ref list \<Rightarrow> node_selector option \<Rightarrow> string \<Rightarrow> string \<Rightarrow> daemonset \<Rightarrow> daemonset result" where
  "getDiskMakerDiscoveryDSMutateFn E request tolerations envVars ownerRefs nodeSelector tlsMinVersion tlsCipherSuites ds =
     (case readManifest E (e_read_ds E) DiskMakerDiscoveryDaemonSetTemplate (discoveryPairs E (fst request) tlsMinVersion tlsCipherSuites) of
        Inl e \<Rightarrow> Inl e
      | Inr tmpl \<Rightarrow>
          withEnv envVars (MutateAggregatedSpec (e_getenv E ''PRIORITY_CLASS_NAME'') tolerations ownerRefs nodeSelector tmpl ds))"

definition getDaemonSetStatus :: "env \<Rightarrow> string \<Rightarrow> (int \<times> int) result prog" where
  "getDaemonSetStatus E namespace = do {
     g \<leftarrow> query E (\<lambda>t w. e_get_ds E t (namespace, DiskMakerDiscovery));
     State_Monad.return (case g of Inl e \<Rightarrow> Inl e | Inr ds \<Rightarrow> Inr (ds_DesiredNumberScheduled ds, ds_NumberReady ds))
   }"

section \<open>Status\<close>

text \<open>The instance is changed in place, so the result carries it: error, instance.\<close>

definition withDiscoveryStatus :: "string \<Rightarrow> string \<Rightarrow> cond_status \<Rightarrow> discovery_phase \<Rightarrow> time \<Rightarrow> local_volume_discovery \<Rightarrow> local_volume_discovery" where
  "withDiscoveryStatus conditionType message status phase t inst =
     inst\<lparr>lvd_Status := \<lparr>lvds_Phase = phase,
       lvds_Conditions = [\<lparr>oc_Type = conditionType, oc_Status = status, oc_Reason = '''', oc_Message = message, oc_LastTransitionTime = Some t\<rparr>],
       lvds_ObservedGeneration = om_Generation (lvd_meta inst)\<rparr>\<rparr>"

definition hasMessage :: "string \<Rightarrow> local_volume_discovery \<Rightarrow> bool" where
  "hasMessage message inst \<longleftrightarrow>
     \<not> (length (lvds_Conditions (lvd_Status inst)) < 1 \<or> oc_Message (lvds_Conditions (lvd_Status inst) ! 0) \<noteq> message)"

definition updateDiscoveryStatus ::
  "env \<Rightarrow> local_volume_discovery \<Rightarrow> string \<Rightarrow> string \<Rightarrow> cond_status \<Rightarrow> discovery_phase \<Rightarrow> (error option \<times> local_volume_discovery) prog" where
  "updateDiscoveryStatus E inst conditionType message status phase =
     (if hasMessage message inst then State_Monad.return (None, inst)
      else do {
        t \<leftarrow> now E;
        let inst1 = withDiscoveryStatus conditionType message status phase t inst;
        r \<leftarrow> api E (UpdateLocalVolumeDiscoveryStatus inst1);
        State_Monad.return (r, inst1)
      })"

section \<open>Orphaned results\<close>

definition dr_key :: "discovery_result \<Rightarrow> namespaced_name" where
  "dr_key d = (om_Namespace (dr_meta d), om_Name (dr_meta d))"

definition quoted :: "string \<Rightarrow> string" where
  "quoted s = quote # s @ [quote]"

definition deleteOrphan :: "env \<Rightarrow> node_selector \<Rightarrow> discovery_result \<Rightarrow> error option prog" where
  "deleteOrphan E sel d = do {
     n \<leftarrow> query E (\<lambda>t w. e_get_node E t (dr_NodeName d));
     (case n of
        Inl e \<Rightarrow> State_Monad.return (Some (Errorf (''failed to get instance of node '' @ quoted (dr_NodeName d))))
      | Inr node \<Rightarrow>
          (case e_nodesel E (n_Labels node) sel of
             Inl e \<Rightarrow> State_Monad.return (Some e)
           | Inr matches \<Rightarrow>
               if \<not> matches then do {
                 r \<leftarrow> api E (DeleteDiscoveryResult (dr_key d));
                 State_Monad.return (map_option (\<lambda>e. Errorf (''failed to delete orphan discovery result '' @ quoted (om_Name (dr_meta d))
                   @ '' in node '' @ quoted (dr_NodeName d))) r)
               }
               else State_Monad.return None))
   }"

definition deleteOrphanDiscoveryResults :: "env \<Rightarrow> local_volume_discovery \<Rightarrow> error option prog" where
  "deleteOrphanDiscoveryResults E inst =
     (case lvd_NodeSelector inst of
        None \<Rightarrow> State_Monad.return None
      | Some sel \<Rightarrow>
          if length sel = 0 then State_Monad.return None
          else do {
            l \<leftarrow> query E (\<lambda>t w. e_list_results E t (om_Namespace (lvd_meta inst)));
            (case l of
               Inl e \<Rightarrow> State_Monad.return (Some (Errorf (''failed to list LocalVolumeDiscoveryResult instances in namespace ''
                 @ quoted (om_Namespace (lvd_meta inst)))))
             | Inr items \<Rightarrow> forM items (deleteOrphan E sel))
          })"

section \<open>Reconciling\<close>

definition discoveryExporter :: "local_volume_discovery \<Rightarrow> exporter" where
  "discoveryExporter inst = NewExporter ''local-storage-discovery-metrics'' (om_Namespace (lvd_meta inst)) ''discovery-metric-serving-cert''
     (lvd_getOwnerRefs inst) DiskMakerDiscovery"

text \<open>From the number of daemons to the end of \<^verbatim>\<open>Reconcile\<close>.\<close>

definition reflectDaemons :: "env \<Rightarrow> local_volume_discovery \<Rightarrow> int \<Rightarrow> int \<Rightarrow> outcome prog" where
  "reflectDaemons E inst desiredDaemons readyDaemons =
     (if desiredDaemons = 0 then do {
        r \<leftarrow> updateDiscoveryStatus E inst ''Degraded'' ''no discovery daemons are scheduled for running'' ConditionFalse DiscoveryFailed;
        (case fst r of
           Some e \<Rightarrow> stop_with e
         | None \<Rightarrow> State_Monad.return (\<lparr>rq_Requeue = True, rq_After = waitForRequeueIfDaemonsNotReady\<rparr>,
                      Some (Errorf ''no discovery daemons are scheduled for running'')))
      }
      else if \<not> (desiredDaemons = readyDaemons) then do {
        r \<leftarrow> updateDiscoveryStatus E inst ''Progressing''
               (''running '' @ show_int readyDaemons @ '' out of '' @ show_int desiredDaemons @ '' discovery daemons'') ConditionFalse Discovering;
        (case fst r of
           Some e \<Rightarrow> stop_with e
         | None \<Rightarrow> State_Monad.return (\<lparr>rq_Requeue = True, rq_After = waitForRequeueIfDaemonsNotReady\<rparr>, None))
      }
      else do {
        r \<leftarrow> updateDiscoveryStatus E inst ''Available''
               (''successfully running '' @ show_int desiredDaemons @ '' out of '' @ show_int readyDaemons @ '' discovery daemons'') ConditionTrue Discovering;
        (case fst r of
           Some e \<Rightarrow> stop_with e
         | None \<Rightarrow> do {
             d \<leftarrow> deleteOrphanDiscoveryResults E (snd r);
             State_Monad.return (no_requeue, d)
           })
      })"

text \<open>
  A failure to write the DaemonSet is put into the status, then the reconcile goes on: the error variable
  assigned there is a new one of the inner block.
\<close>

definition deployDiscovery :: "env \<Rightarrow> namespaced_name \<Rightarrow> local_volume_discovery \<Rightarrow> outcome prog" where
  "deployDiscovery E request inst = do {
     tls \<leftarrow> observeTLS E;
     d \<leftarrow> CreateOrUpdateDaemonset E (getDiskMakerDiscoveryDSMutateFn E request (lvd_Tolerations inst)
            (getEnvVars (om_Name (lvd_meta inst)) (om_UID (lvd_meta inst))) (lvd_getOwnerRefs inst) (lvd_NodeSelector inst) (fst tls) (snd tls));
     r \<leftarrow> (case d of
             Some e \<Rightarrow> updateDiscoveryStatus E inst ''Degraded'' (''failed to create discovery daemonset. Error '' @ err_text e) ConditionFalse DiscoveryFailed
           | None \<Rightarrow> State_Monad.return (None, inst));
     (case r of
        (Some e, _) \<Rightarrow> stop_with e
      | (None, inst1) \<Rightarrow> do {
          n \<leftarrow> getDaemonSetStatus E (om_Namespace (lvd_meta inst1));
          (case n of
             Inl e \<Rightarrow> stop_with e
           | Inr (desiredDaemons, readyDaemons) \<Rightarrow> reflectDaemons E inst1 desiredDaemons readyDaemons)
        })
   }"

definition discovery_Reconcile :: "env \<Rightarrow> namespaced_name \<Rightarrow> outcome prog" where
  "discovery_Reconcile E request = do {
     g \<leftarrow> query E (\<lambda>t w. e_get_lvd E t request);
     (case g of
        Inl e \<Rightarrow> if IsNotFound e then State_Monad.return (no_requeue, None) else stop_with e
      | Inr inst \<Rightarrow> do {
          m \<leftarrow> EnableMetricsExporter E (discoveryExporter inst);
          (case m of
             Some e \<Rightarrow> stop_with e
           | None \<Rightarrow> deployDiscovery E request inst)
        })
   }"

section \<open>What a reconcile may do\<close>

text \<open>
  An orphaned result: listed in the namespace, and its node was read during the run and is not
  selected by the instance.
\<close>

definition orphan_deletion :: "env \<Rightarrow> local_volume_discovery \<Rightarrow> action \<Rightarrow> bool" where
  "orphan_deletion E inst b \<longleftrightarrow> (\<exists>t items d t' node sel r.
     e_list_results E t (om_Namespace (lvd_meta inst)) = Inr items \<and> d \<in> set items
     \<and> e_get_node E t' (dr_NodeName d) = Inr node \<and> lvd_NodeSelector inst = Some sel \<and> sel \<noteq> []
     \<and> e_nodesel E (n_Labels node) sel = Inr False \<and> b = Api (DeleteDiscoveryResult (dr_key d)) r)"

definition discovery_controller_action :: "env \<Rightarrow> namespaced_name \<Rightarrow> action \<Rightarrow> bool" where
  "discovery_controller_action E request b \<longleftrightarrow>
     monitor_write b \<or> (\<exists>ds r. b = Api (CreateDaemonSet ds) r \<or> b = Api (UpdateDaemonSet ds) r)
     \<or> (\<exists>t inst. e_get_lvd E t request = Inr inst
         \<and> ((\<exists>ct msg st ph t' r inst1. lvd_meta inst1 = lvd_meta inst \<and> b = Api (UpdateLocalVolumeDiscoveryStatus (withDiscoveryStatus ct msg st ph t' inst1)) r)
            \<or> orphan_deletion E inst b))"

lemma withDiscoveryStatus_keeps [simp]:
  "lvd_meta (withDiscoveryStatus ct msg st ph t inst) = lvd_meta inst"
  "lvd_NodeSelector (withDiscoveryStatus ct msg st ph t inst) = lvd_NodeSelector inst"
  by (simp_all add: withDiscoveryStatus_def)

lemma timed_deleteOrphan:
  "(\<And>t node r. e_get_node E t (dr_NodeName d) = Inr node \<Longrightarrow> e_nodesel E (n_Labels node) sel = Inr False \<Longrightarrow>
      P (Api (DeleteDiscoveryResult (dr_key d)) r)) \<Longrightarrow> always (timed P) (deleteOrphan E sel d)"
  unfolding deleteOrphan_def by (rule timed_lookup, intro operator_rules) auto

lemma timed_orphans: "always (timed (orphan_deletion E inst)) (deleteOrphanDiscoveryResults E inst)"
  unfolding deleteOrphanDiscoveryResults_def
  by (intro timed.option_case timed.cond timed.ret, rule timed_lookup,
      intro timed.sum_case timed.ret timed.forM timed_deleteOrphan) (unfold orphan_deletion_def, blast+)

text \<open>The instance that is passed on differs from the one that was read in its status only.\<close>

definition same_spec :: "local_volume_discovery \<Rightarrow> local_volume_discovery \<Rightarrow> bool" where
  "same_spec a b \<longleftrightarrow> lvd_meta a = lvd_meta b \<and> lvd_NodeSelector a = lvd_NodeSelector b"

lemma orphan_same: "same_spec a b \<Longrightarrow> orphan_deletion E a = orphan_deletion E b"
  by (simp add: same_spec_def orphan_deletion_def fun_eq_iff)

lemma timed_update_status:
  assumes "same_spec inst0 inst"
    and upd: "\<And>t r. P (Api (UpdateLocalVolumeDiscoveryStatus (withDiscoveryStatus ct msg st ph t inst0)) r)"
    and k: "\<And>r. same_spec (snd r) inst \<Longrightarrow> always (timed P) (k r)"
  shows "always (timed P) (State_Monad.bind (updateDiscoveryStatus E inst0 ct msg st ph) k)"
proof -
  have "always (timed P) (updateDiscoveryStatus E inst0 ct msg st ph)"
    unfolding updateDiscoveryStatus_def by (intro operator_rules) (simp add: upd)
  moreover have "wp (updateDiscoveryStatus E inst0 ct msg st ph) (\<lambda>r w'. same_spec (snd r) inst) w" for w
    using assms(1) unfolding updateDiscoveryStatus_def same_spec_def by (simp add: wp_simps query_defs)
  ultimately have "wp (updateDiscoveryStatus E inst0 ct msg st ph) (\<lambda>r. wp (k r) (\<lambda>x w'. timed P w w')) w" for w
    by (rule wp_mono [OF wp_conj [OF always_wp]]) (auto intro: timed.wp_last k)
  then show ?thesis by (simp add: always_def wp_def wp_bind [symmetric] case_prod_unfold)
qed

lemma timed_status_step:
  assumes "e_get_lvd E t request = Inr inst" "same_spec inst0 inst"
    and "\<And>r. same_spec (snd r) inst \<Longrightarrow> always (timed (discovery_controller_action E request)) (k r)"
  shows "always (timed (discovery_controller_action E request)) (State_Monad.bind (updateDiscoveryStatus E inst0 ct msg st ph) k)"
proof (rule timed_update_status [OF assms(2) _ assms(3)])
  fix t' r
  have "lvd_meta inst0 = lvd_meta inst" using assms(2) by (simp add: same_spec_def)
  then show "discovery_controller_action E request (Api (UpdateLocalVolumeDiscoveryStatus (withDiscoveryStatus ct msg st ph t' inst0)) r)"
    unfolding discovery_controller_action_def using assms(1) by blast
qed

lemma timed_reflect:
  assumes lvd: "e_get_lvd E t request = Inr inst" and same: "same_spec inst0 inst"
  shows "always (timed (discovery_controller_action E request)) (reflectDaemons E inst0 desired ready)"
proof -
  have "always (timed (discovery_controller_action E request)) (deleteOrphanDiscoveryResults E i)" if "same_spec i inst" for i
    by (rule always_timed_mono [OF timed_orphans])
       (use lvd orphan_same [OF that] in \<open>auto simp: discovery_controller_action_def\<close>)
  then show ?thesis
    unfolding reflectDaemons_def
    by (intro timed.cond timed_status_step [OF lvd same]) (intro operator_rules timed_stop; simp)+
qed

lemma timed_deployDiscovery:
  assumes lvd: "e_get_lvd E t request = Inr inst"
  shows "always (timed (discovery_controller_action E request)) (deployDiscovery E request inst)"
proof -
  let ?A = "discovery_controller_action E request"
  have same: "same_spec inst inst" by (simp add: same_spec_def)
  have ds: "always (timed ?A) (CreateOrUpdateDaemonset E f)" for f
    unfolding CreateOrUpdateDaemonset_def by (intro operator_rules) (auto simp: discovery_controller_action_def)
  have rest: "always (timed ?A) (case r of (Some e, _) \<Rightarrow> stop_with e
      | (None, inst1) \<Rightarrow> State_Monad.bind (getDaemonSetStatus E (om_Namespace (lvd_meta inst1))) (\<lambda>n.
          case n of Inl e \<Rightarrow> stop_with e | Inr (desired, ready) \<Rightarrow> reflectDaemons E inst1 desired ready))"
    if "same_spec (snd r) inst" for r
    using that unfolding getDaemonSetStatus_def
    by (cases r) (auto intro!: operator_rules timed_stop timed_reflect [OF lvd] split: option.split)
  have "always (timed ?A) (State_Monad.bind (case d of
        Some e \<Rightarrow> updateDiscoveryStatus E inst ct (msg e) st ph | None \<Rightarrow> State_Monad.return (None, inst)) k)"
    if "\<And>r. same_spec (snd r) inst \<Longrightarrow> always (timed ?A) (k r)" for d ct msg st ph k
    using that same by (cases d) (auto intro!: timed_status_step [OF lvd same])
  note status = this [OF rest]
  show ?thesis
    unfolding deployDiscovery_def
    by (intro timed.bind ds status) (intro operator_rules timed_observeTLS; simp)+
qed

text \<open>
  C23: what a reconcile of a LocalVolumeDiscovery may do: write the monitoring objects and the DaemonSet, write
  the status of the object it read, and delete a discovery result only when it was listed in the
  object's namespace and its node was found not to match the object's node selector. Without a
  selector no result is deleted.
\<close>

theorem discovery_controller_effects:
  "log_ext (discovery_controller_action E request) w (snd (run_state (discovery_Reconcile E request) w))"
proof -
  have monitor: "monitor_write b \<Longrightarrow> discovery_controller_action E request b" for b
    by (simp add: discovery_controller_action_def)
  have "always (timed (discovery_controller_action E request)) (discovery_Reconcile E request)"
    unfolding discovery_Reconcile_def
    by (rule timed_lookup, intro timed.sum_case timed.cond timed.ret timed_stop timed.bind timed.option_case
        always_timed_mono [OF timed_monitoring(1) monitor] timed_deployDiscovery)
  then show ?thesis by (simp add: always_def timed_def)
qed

section \<open>A hidden failure\<close>

abbreviation discoveryMutateFn :: "env \<Rightarrow> namespaced_name \<Rightarrow> local_volume_discovery \<Rightarrow> string \<times> string \<Rightarrow> daemonset \<Rightarrow> daemonset result" where
  "discoveryMutateFn E request inst tls \<equiv> getDiskMakerDiscoveryDSMutateFn E request (lvd_Tolerations inst)
     (getEnvVars (om_Name (lvd_meta inst)) (om_UID (lvd_meta inst))) (lvd_getOwnerRefs inst) (lvd_NodeSelector inst) (fst tls) (snd tls)"

lemma wp_update_status_ok:
  assumes "\<And>t i. e_write E t (UpdateLocalVolumeDiscoveryStatus i) = None"
  shows "wp (updateDiscoveryStatus E inst ct msg st ph) Q w =
    (if hasMessage msg inst then Q (None, inst) w
     else let i = withDiscoveryStatus ct msg st ph (e_now E (w_clock w)) inst
          in Q (None, i) (act (Api (UpdateLocalVolumeDiscoveryStatus i) None) (tick E (tick E w))))"
  unfolding updateDiscoveryStatus_def by (simp add: wp_simps query_defs assms Let_def)

lemma hasMessage_with [simp]: "hasMessage m (withDiscoveryStatus ct msg st ph t inst) \<longleftrightarrow> msg = m"
  by (simp add: hasMessage_def withDiscoveryStatus_def)

lemma hasMessage_unique: "hasMessage a inst \<Longrightarrow> hasMessage b inst \<longleftrightarrow> a = b"
  by (auto simp: hasMessage_def)

text \<open>
  A reconcile that could not create or update the discovery DaemonSet ends without an error and
  leaves the status Available, when the daemons that run already are all ready: the error variable is
  shadowed, the Degraded condition is overwritten in the same reconcile, and nothing is retried.
\<close>

theorem daemonset_failure_hidden:
  assumes failed: "\<And>tls v. \<exists>v'. run_state (CreateOrUpdateDaemonset E (discoveryMutateFn E request inst tls)) v = (Some e, v')"
    and writes: "\<And>t i. e_write E t (UpdateLocalVolumeDiscoveryStatus i) = None"
    and daemons: "\<And>t. e_get_ds E t (om_Namespace (lvd_meta inst), DiskMakerDiscovery) = Inr ds"
    and ready: "ds_DesiredNumberScheduled ds = ds_NumberReady ds" "ds_NumberReady ds \<noteq> 0"
    and all_nodes: "lvd_NodeSelector inst = None"
  shows "\<exists>i t w'. run_state (deployDiscovery E request inst) w = ((no_requeue, None), w')
    \<and> hd (w_log w') = Api (UpdateLocalVolumeDiscoveryStatus (withDiscoveryStatus ''Available''
         (''successfully running '' @ show_int (ds_NumberReady ds) @ '' out of '' @ show_int (ds_NumberReady ds) @ '' discovery daemons'')
         ConditionTrue Discovering t i)) None"
proof -
  let ?Q = "\<lambda>r w'. r = (no_requeue, None) \<and> (\<exists>i t. hd (w_log w') = Api (UpdateLocalVolumeDiscoveryStatus (withDiscoveryStatus ''Available''
         (''successfully running '' @ show_int (ds_NumberReady ds) @ '' out of '' @ show_int (ds_NumberReady ds) @ '' discovery daemons'')
         ConditionTrue Discovering t i)) None)"
  have reflect: "wp (reflectDaemons E i (ds_NumberReady ds) (ds_NumberReady ds)) ?Q v"
    if "hasMessage (''failed to create discovery daemonset. Error '' @ m) i" "lvd_NodeSelector i = None" for i m v
    using that ready hasMessage_unique [OF that(1)]
    by (auto simp: reflectDaemons_def wp_simps wp_update_status_ok [OF writes] deleteOrphanDiscoveryResults_def Let_def)
  have cont: "wp (getDaemonSetStatus E (om_Namespace (lvd_meta i))) (\<lambda>n. wp (case n of
        Inl e \<Rightarrow> stop_with e | Inr (desired, ready) \<Rightarrow> reflectDaemons E i desired ready) ?Q) v"
    if "hasMessage (''failed to create discovery daemonset. Error '' @ m) i" "lvd_NodeSelector i = None" "lvd_meta i = lvd_meta inst" for i m v
    using that ready daemons reflect [OF that(1,2)] by (simp add: getDaemonSetStatus_def wp_simps)
  have "wp (deployDiscovery E request inst) ?Q w"
    unfolding deployDiscovery_def
  proof (rule wp_bindI, rule wp_runI, rule wp_bindI)
    fix tls v
    obtain v' where v': "run_state (CreateOrUpdateDaemonset E (discoveryMutateFn E request inst tls)) v = (Some e, v')" using failed by blast
    let ?m = "''failed to create discovery daemonset. Error '' @ err_text e"
    show "wp (CreateOrUpdateDaemonset E (discoveryMutateFn E request inst tls)) (\<lambda>d. wp (State_Monad.bind (case d of
             Some e \<Rightarrow> updateDiscoveryStatus E inst ''Degraded'' (''failed to create discovery daemonset. Error '' @ err_text e) ConditionFalse DiscoveryFailed
           | None \<Rightarrow> State_Monad.return (None, inst)) (\<lambda>r. case r of
               (Some e, _) \<Rightarrow> stop_with e
             | (None, i) \<Rightarrow> State_Monad.bind (getDaemonSetStatus E (om_Namespace (lvd_meta i))) (\<lambda>n. case n of
                 Inl e \<Rightarrow> stop_with e | Inr (desired, ready) \<Rightarrow> reflectDaemons E i desired ready))) ?Q) v"
      unfolding wp_def [of "CreateOrUpdateDaemonset _ _"] v' prod.case option.case wp_bind wp_update_status_ok [OF writes]
    proof (cases "hasMessage ?m inst", goal_cases)
      case 1
      then show ?case unfolding if_P [OF 1] by (rule cont [OF _ all_nodes refl])
    next
      case 2
      then show ?case unfolding if_not_P [OF 2] Let_def by (intro cont) (simp_all add: all_nodes)
    qed
  qed
  then show ?thesis unfolding wp_def by (auto split: prod.splits)
qed

definition demo_lvd :: local_volume_discovery where
  "demo_lvd = \<lparr>lvd_meta = empty_meta\<lparr>om_Name := ''auto-discover-devices'', om_Namespace := ''ns'', om_UID := ''u''\<rparr>, lvd_NodeSelector = None,
     lvd_Tolerations = [], lvd_Status = \<lparr>lvds_Phase = PhaseUnset, lvds_Conditions = [], lvds_ObservedGeneration = 0\<rparr>\<rparr>"

definition running_ds :: daemonset where
  "running_ds = demo_ds\<lparr>ds_meta := empty_meta, ds_Template := (ds_Template demo_ds)\<lparr>pt_Containers := [\<lparr>ct_Env = [], ct_Rest = ''''\<rparr>]\<rparr>,
     ds_DesiredNumberScheduled := 3, ds_NumberReady := 3\<rparr>"

definition conflict_env :: env where
  "conflict_env = demo_env\<lparr>e_get_ds := (\<lambda>t n. Inr running_ds), e_read_ds := (\<lambda>b. Some running_ds),
     e_write := (\<lambda>t c. case c of UpdateDaemonSet _ \<Rightarrow> Some (Errorf ''conflict'') | _ \<Rightarrow> None)\<rparr>"

lemma conflict_mutate: "\<exists>ds. discoveryMutateFn conflict_env r demo_lvd tls ds0 = Inr ds \<and> om_OwnerReferences (ds_meta ds) \<noteq> []"
  by (simp add: manifest_defs demo_env_def getDiskMakerDiscoveryDSMutateFn_def conflict_env_def withEnv_def MutateAggregatedSpec_def running_ds_def lvd_getOwnerRefs_def Let_def)

lemma conflict_fails:
  "\<exists>v'. run_state (CreateOrUpdateDaemonset conflict_env (discoveryMutateFn conflict_env r demo_lvd tls)) v = (Some (Errorf ''conflict''), v')"
proof -
  obtain ds ds1 where ds: "discoveryMutateFn conflict_env r demo_lvd tls emptyDS = Inr ds"
    "discoveryMutateFn conflict_env r demo_lvd tls running_ds = Inr ds1" "om_OwnerReferences (ds_meta ds1) \<noteq> []"
    using conflict_mutate [of r tls emptyDS] conflict_mutate [of r tls running_ds] by blast
  have "ds1 \<noteq> running_ds" using ds(3) by (auto simp: running_ds_def empty_meta_def)
  moreover have "e_get_ds conflict_env = (\<lambda>t n. Inr running_ds)" "e_write conflict_env t (UpdateDaemonSet d) = Some (Errorf ''conflict'')" for t d
    by (simp_all add: conflict_env_def)
  ultimately show ?thesis using ds(1,2) by (simp add: CreateOrUpdateDaemonset_def query_def api_def Let_def)
qed

theorem daemonset_failure_hidden_witness:
  "\<exists>w'. run_state (deployDiscovery conflict_env (''ns'', ''auto-discover-devices'') demo_lvd) demo_world = ((no_requeue, None), w')
    \<and> run_state (CreateOrUpdateDaemonset conflict_env (discoveryMutateFn conflict_env (''ns'', ''auto-discover-devices'') demo_lvd ('''', ''''))) demo_world
        \<noteq> (None, w')"
  using daemonset_failure_hidden [of conflict_env "(''ns'', ''auto-discover-devices'')" demo_lvd "Errorf ''conflict''" running_ds demo_world]
    conflict_fails [of "(''ns'', ''auto-discover-devices'')" "('''', '''')" demo_world] conflict_fails
  by (force simp: conflict_env_def running_ds_def demo_lvd_def)

end
