(* ===== verification/Watches.thy ===== *)
theory Watches
  imports LvsetController DiscoveryController
begin

text \<open>
  Which objects a change in the cluster wakes up: the watches the controllers register in their
  \<^verbatim>\<open>SetupWithManager\<close> and \<^verbatim>\<open>WithManager\<close> functions, each as the function from an event to the requests it puts on the
  controller's queue. The handlers of the controller runtime are modelled (requests for the object itself, for its owners, and from a mapping
  function); the queue itself belongs to the runtime. The two mapping functions for PVs are \<open>requestsByClass\<close> and
  \<open>requestsByOwner\<close> of theory LvController, \<open>HandlePVChange\<close> and \<open>appLabelIn\<close> are in theory Naming.
\<close>

section \<open>Events\<close>

datatype 'a event =
    GenericEvent 'a
  | CreateEvent 'a
  | UpdateEvent 'a 'a  \<comment> \<open>before and after\<close>
  | DeleteEvent 'a

fun event_objects :: "'a event \<Rightarrow> 'a list" where
  "event_objects (GenericEvent x) = [x]"
| "event_objects (CreateEvent x) = [x]"
| "event_objects (UpdateEvent x y) = [x, y]"
| "event_objects (DeleteEvent x) = [x]"

fun event_latest :: "'a event \<Rightarrow> 'a" where
  "event_latest (GenericEvent x) = x"
| "event_latest (CreateEvent x) = x"
| "event_latest (UpdateEvent x y) = y"
| "event_latest (DeleteEvent x) = x"

datatype cluster_event =
    LocalVolumeEvent "obj_meta event"
  | LocalVolumeSetEvent "obj_meta event"
  | LocalVolumeDiscoveryEvent "obj_meta event"
  | DaemonSetEvent "obj_meta event"
  | ConfigMapEvent "obj_meta event"
  | PVEvent "pv event"
  | APIServerEvent "obj_meta event"

section \<open>Handlers\<close>

text \<open>\<^verbatim>\<open>For\<close>: the object itself.\<close>

definition enqueueObject :: "obj_meta event \<Rightarrow> namespaced_name list" where
  "enqueueObject e = [(om_Namespace (event_latest e), om_Name (event_latest e))]"

text \<open>\<^verbatim>\<open>EnqueueRequestsFromMapFunc\<close>: each request once.\<close>

definition mapAndEnqueue :: "('a \<Rightarrow> namespaced_name list) \<Rightarrow> 'a event \<Rightarrow> namespaced_name list" where
  "mapAndEnqueue f e = remdups (concat (map f (event_objects e)))"

text \<open>The group of an API version; nothing when it has more than one slash.\<close>

definition apiGroup :: "string \<Rightarrow> string option" where
  "apiGroup gv =
     (if gv = '''' \<or> gv = ''/'' then Some ''''
      else if count_list gv CHR ''/'' = 0 then Some ''''
      else if count_list gv CHR ''/'' = 1 then Some (takeWhile (\<lambda>c. c \<noteq> CHR ''/'') gv)
      else None)"

text \<open>
  \<^verbatim>\<open>EnqueueRequestForOwner\<close>, for an owner type whose objects are namespaced: the owners of that group and kind, up to the first
  reference whose version cannot be parsed.
\<close>

fun ownerRequests :: "string \<Rightarrow> string \<Rightarrow> string \<Rightarrow> owner_ref list \<Rightarrow> namespaced_name list" where
  "ownerRequests grp kind ns [] = []"
| "ownerRequests grp kind ns (ref # refs) =
     (case apiGroup (or_APIVersion ref) of
        None \<Rightarrow> []
      | Some g \<Rightarrow> (if or_Kind ref = kind \<and> g = grp then [(ns, or_Name ref)] else []) @ ownerRequests grp kind ns refs)"

definition GroupName :: string where "GroupName = ''local.storage.openshift.io''"

definition EnqueueRequestForOwner :: "string \<Rightarrow> obj_meta event \<Rightarrow> namespaced_name list" where
  "EnqueueRequestForOwner kind e =
     mapAndEnqueue (\<lambda>m. ownerRequests GroupName kind (om_Namespace m) (om_OwnerReferences m)) e"

text \<open>\<^verbatim>\<open>EnqueueOnlyLabeledSubcomponents\<close>: a predicate on the app label.\<close>

definition EnqueueOnlyLabeledSubcomponents :: "string list \<Rightarrow> obj_meta event \<Rightarrow> bool" where
  "EnqueueOnlyLabeledSubcomponents components e =
     (case e of
        GenericEvent m \<Rightarrow> appLabelIn (om_Labels m) components
      | CreateEvent m \<Rightarrow> appLabelIn (om_Labels m) components
      | UpdateEvent m m' \<Rightarrow> appLabelIn (om_Labels m) components \<or> appLabelIn (om_Labels m') components
      | DeleteEvent m \<Rightarrow> appLabelIn (om_Labels m) components)"

section \<open>The operator's controllers\<close>

definition lv_SetupWithManager :: "owner_map \<Rightarrow> cluster_event \<Rightarrow> namespaced_name list" where
  "lv_SetupWithManager lvMap ev =
     (case ev of
        LocalVolumeEvent e \<Rightarrow> enqueueObject e
      | DaemonSetEvent e \<Rightarrow> EnqueueRequestForOwner LocalVolumeKind e
      | PVEvent e \<Rightarrow> mapAndEnqueue (requestsByClass lvMap) e @ mapAndEnqueue (requestsByOwner LocalVolumeKind) e
      | _ \<Rightarrow> [])"

definition lvset_SetupWithManager :: "owner_map \<Rightarrow> cluster_event \<Rightarrow> namespaced_name list" where
  "lvset_SetupWithManager lvSetMap ev =
     (case ev of
        LocalVolumeSetEvent e \<Rightarrow> enqueueObject e
      | DaemonSetEvent e \<Rightarrow>
          if EnqueueOnlyLabeledSubcomponents [DiskMakerName, ''local-provisioner''] e then EnqueueRequestForOwner LocalVolumeSetKind e else []
      | PVEvent e \<Rightarrow> mapAndEnqueue (requestsByClass lvSetMap) e @ mapAndEnqueue (requestsByOwner LocalVolumeSetKind) e
      | _ \<Rightarrow> [])"

text \<open>The field index of PVs by storage class.\<close>

definition pvStorageClassIndex :: "pv \<Rightarrow> string list" where
  "pvStorageClassIndex p = (if length (pv_StorageClassName p) > 0 then [pv_StorageClassName p] else [])"

text \<open>The daemon controller only uses the namespace of a request.\<close>

definition enqueueOnlyNamespace :: "obj_meta \<Rightarrow> namespaced_name list" where
  "enqueueOnlyNamespace obj = [(om_Namespace obj, '''')]"

definition enqueueAllLocalVolumeNamespaces :: "string \<Rightarrow> obj_meta \<Rightarrow> namespaced_name list" where
  "enqueueAllLocalVolumeNamespaces watchNamespace obj = [(watchNamespace, '''')]"

definition daemon_SetupWithManager :: "string \<Rightarrow> cluster_event \<Rightarrow> namespaced_name list" where
  "daemon_SetupWithManager watchNamespace ev =
     (case ev of
        LocalVolumeEvent e \<Rightarrow> enqueueObject e @ mapAndEnqueue enqueueOnlyNamespace e
      | LocalVolumeSetEvent e \<Rightarrow> mapAndEnqueue enqueueOnlyNamespace e
      | DaemonSetEvent e \<Rightarrow>
          if EnqueueOnlyLabeledSubcomponents [DiskMakerName, ''local-provisioner''] e then mapAndEnqueue enqueueOnlyNamespace e else []
      | ConfigMapEvent e \<Rightarrow>
          if EnqueueOnlyLabeledSubcomponents [ProvisionerConfigMapName] e then mapAndEnqueue enqueueOnlyNamespace e else []
      | APIServerEvent e \<Rightarrow> mapAndEnqueue (enqueueAllLocalVolumeNamespaces watchNamespace) e
      | _ \<Rightarrow> [])"

text \<open>A change of the cluster's TLS profile wakes every listed LocalVolumeDiscovery.\<close>

definition enqueueAllDiscoveries :: "local_volume_discovery list result \<Rightarrow> obj_meta \<Rightarrow> namespaced_name list" where
  "enqueueAllDiscoveries l obj =
     (case l of
        Inl e \<Rightarrow> []
      | Inr items \<Rightarrow> map (\<lambda>lvd. (om_Namespace (lvd_meta lvd), om_Name (lvd_meta lvd))) items)"

definition discovery_SetupWithManager :: "local_volume_discovery list result \<Rightarrow> cluster_event \<Rightarrow> namespaced_name list" where
  "discovery_SetupWithManager l ev =
     (case ev of
        LocalVolumeDiscoveryEvent e \<Rightarrow> enqueueObject e
      | DaemonSetEvent e \<Rightarrow> EnqueueRequestForOwner ''LocalVolumeDiscovery'' e
      | APIServerEvent e \<Rightarrow> mapAndEnqueue (enqueueAllDiscoveries l) e
      | _ \<Rightarrow> [])"

section \<open>The diskmaker's controllers\<close>

text \<open>The handlers of PV events of both controllers, for PVs that pass a test of the owner's kind; they also keep the cache of PVs.\<close>

definition handlePVEvent :: "(pv \<Rightarrow> bool) \<Rightarrow> string \<Rightarrow> string \<Rightarrow> pv event \<Rightarrow> pv_cache \<Rightarrow> pv_cache \<times> namespaced_name list" where
  "handlePVEvent isOwned rcName watchNamespace e c =
     (case e of
        GenericEvent p \<Rightarrow> if isOwned p then HandlePVChange rcName watchNamespace False p c else (c, [])
      | CreateEvent p \<Rightarrow> if isOwned p then HandlePVChange rcName watchNamespace False p c else (c, [])
      | UpdateEvent old p \<Rightarrow> if isOwned p then HandlePVChange rcName watchNamespace False p c else (c, [])
      | DeleteEvent p \<Rightarrow> if isOwned p then HandlePVChange rcName watchNamespace True p c else (c, []))"

definition lv_WithManager :: "string \<Rightarrow> string \<Rightarrow> cluster_event \<Rightarrow> pv_cache \<Rightarrow> pv_cache \<times> namespaced_name list" where
  "lv_WithManager rcName watchNamespace ev c =
     (case ev of
        LocalVolumeEvent e \<Rightarrow> (c, enqueueObject e)
      | ConfigMapEvent e \<Rightarrow> (c, EnqueueRequestForOwner LocalVolumeKind e)
      | PVEvent e \<Rightarrow> handlePVEvent IsLocalVolumePV rcName watchNamespace e c
      | _ \<Rightarrow> (c, []))"

definition lvset_WithManager :: "string \<Rightarrow> string \<Rightarrow> cluster_event \<Rightarrow> pv_cache \<Rightarrow> pv_cache \<times> namespaced_name list" where
  "lvset_WithManager rcName watchNamespace ev c =
     (case ev of
        LocalVolumeSetEvent e \<Rightarrow> (c, enqueueObject e)
      | ConfigMapEvent e \<Rightarrow> (c, EnqueueRequestForOwner LocalVolumeKind e)
      | PVEvent e \<Rightarrow> handlePVEvent IsLocalVolumeSetPV rcName watchNamespace e c
      | _ \<Rightarrow> (c, []))"


section \<open>A changed PV wakes its owner\<close>

lemma requestsByOwner_labelled:
  assumes "map_of (pv_Labels p) PVOwnerKindLabel = Some kind" "map_of (pv_Labels p) PVOwnerNamespaceLabel = Some ns"
    and "map_of (pv_Labels p) PVOwnerNameLabel = Some name"
  shows "requestsByOwner k p = (if kind = k then [(ns, name)] else [])"
  using assms by (simp add: requestsByOwner_def)

lemma latest_object: "event_latest e \<in> set (event_objects e)"
  by (cases e) auto

lemma set_mapAndEnqueue [simp]: "set (mapAndEnqueue f e) = (\<Union>x \<in> set (event_objects e). set (f x))"
  by (simp add: mapAndEnqueue_def)

lemma handlePVEvent_latest:
  "handlePVEvent isOwned rcName ns e c =
    (if isOwned (event_latest e) then HandlePVChange rcName ns (\<exists>p. e = DeleteEvent p) (event_latest e) c else (c, []))"
  by (cases e) (simp_all add: handlePVEvent_def)

lemma watched_kinds [simp]: "LocalVolumeKind \<noteq> LocalVolumeSetKind" "LocalVolumeSetKind \<noteq> LocalVolumeKind"
  by (simp_all add: LocalVolumeKind_def LocalVolumeSetKind_def)

text \<open>The cache of PVs after an event: the PV as it is now, or nothing after its deletion.\<close>

definition cached_after :: "pv event \<Rightarrow> pv_cache \<Rightarrow> bool" where
  "cached_after e c \<longleftrightarrow> map_of c (pv_Name (event_latest e)) = (if \<exists>p. e = DeleteEvent p then None else Some (event_latest e))"


section \<open>The provisioner's configuration\<close>

lemma ownerRequests_append:
  "list_all (\<lambda>r. apiGroup (or_APIVersion r) \<noteq> None) refs \<Longrightarrow>
    ownerRequests g k ns (refs @ refs') = ownerRequests g k ns refs @ ownerRequests g k ns refs'"
  by (induction refs) (auto split: option.split)

lemma ownerRequests_map:
  assumes "\<And>x. x \<in> set xs \<Longrightarrow> or_APIVersion (f x) = GroupName @ ''/'' @ version \<and> or_Kind (f x) = kind" "apiGroup (GroupName @ ''/'' @ version) = Some GroupName"
  shows "ownerRequests GroupName k ns (map f xs) = (if kind = k then map (\<lambda>x. (ns, or_Name (f x))) xs else [])"
  using assms by (induction xs) auto

text \<open>
  C37: whom a change of the provisioner's ConfigMap wakes. Its owners are all LocalVolumes and
  LocalVolumeSets, as the daemon controller writes them; a change wakes the diskmaker's controller for exactly the LocalVolumes, and the
  controller of LocalVolumeSets too gets the names of the LocalVolumes, and no LocalVolumeSet for its own sake.
\<close>

theorem configmap_change_requests:
  assumes "\<forall>m \<in> set (event_objects e). om_Namespace m = ns \<and> om_OwnerReferences m = di_OwnerRefs (aggregate lvsets lvs)"
    and "\<forall>v \<in> set lvs. lv_Kind v = LocalVolumeKind \<and> lv_APIVersion v = ''local.storage.openshift.io/v1''"
    and "\<forall>s \<in> set lvsets. lvset_Kind s = LocalVolumeSetKind \<and> lvset_APIVersion s = ''local.storage.openshift.io/v1alpha1''"
  shows "set (snd (lv_WithManager rcName watchNamespace (ConfigMapEvent e) c)) = (\<lambda>v. (ns, lv_Name v)) ` set lvs
    \<and> set (snd (lvset_WithManager rcName watchNamespace (ConfigMapEvent e) c)) = (\<lambda>v. (ns, lv_Name v)) ` set lvs"
proof -
  let ?refs = "di_OwnerRefs (aggregate lvsets lvs)"
  let ?s = "\<lambda>s. daemonOwnerRef (lvset_meta s) (lvset_APIVersion s) (lvset_Kind s)"
  let ?v = "\<lambda>v. daemonOwnerRef (lv_meta v) (lv_APIVersion v) (lv_Kind v)"
  obtain ss vs where refs: "?refs = map ?s ss @ map ?v vs" "set ss = set lvsets" "set vs = set lvs"
    using aggregate_eq [of lvsets lvs] that [of "sort_key lvsetSortKey lvsets" "sort_key lvSortKey lvs"] by (simp add: Let_def)
  have s: "or_APIVersion (?s x) = GroupName @ ''/v1alpha1'' \<and> or_Kind (?s x) = LocalVolumeSetKind" if "x \<in> set ss" for x
    using assms(3) that by (simp add: refs(2) daemonOwnerRef_def GroupName_def)
  have v: "or_APIVersion (?v x) = GroupName @ ''/v1'' \<and> or_Kind (?v x) = LocalVolumeKind" if "x \<in> set vs" for x
    using assms(2) that by (simp add: refs(3) daemonOwnerRef_def GroupName_def)
  have groups: "apiGroup (GroupName @ ''/v1alpha1'') = Some GroupName" "apiGroup (GroupName @ ''/v1'') = Some GroupName" by code_simp+
  have "list_all (\<lambda>r. apiGroup (or_APIVersion r) \<noteq> None) (map ?s ss)"
    unfolding list_all_iff set_map using s groups(1) by (metis (no_types, lifting) imageE option.distinct(1))
  then have "ownerRequests GroupName LocalVolumeKind ns ?refs
      = ownerRequests GroupName LocalVolumeKind ns (map ?s ss) @ ownerRequests GroupName LocalVolumeKind ns (map ?v vs)"
    unfolding refs(1) by (rule ownerRequests_append)
  also have "\<dots> = map (\<lambda>x. (ns, or_Name (?v x))) vs"
    using ownerRequests_map [of ss ?s "''v1alpha1''" LocalVolumeSetKind LocalVolumeKind ns] s groups(1)
      ownerRequests_map [of vs ?v "''v1''" LocalVolumeKind LocalVolumeKind ns] v groups(2) by simp
  finally have "set (ownerRequests GroupName LocalVolumeKind ns ?refs) = (\<lambda>v. (ns, lv_Name v)) ` set lvs"
    by (simp add: daemonOwnerRef_def refs(3))
  with assms(1) have "set (EnqueueRequestForOwner LocalVolumeKind e) = (\<lambda>v. (ns, lv_Name v)) ` set lvs"
    using latest_object [of e] by (auto simp: EnqueueRequestForOwner_def)
  then show ?thesis by (simp add: lv_WithManager_def lvset_WithManager_def)
qed


definition watched_pv :: pv where
  "watched_pv = (annotated_pv (GetProvisionedByValue ''node1''))\<lparr>pv_meta := demo_meta\<lparr>om_Labels :=
       [(PVOwnerKindLabel, LocalVolumeSetKind), (PVOwnerNamespaceLabel, ''ns''), (PVOwnerNameLabel, ''set'')],
     om_Annotations := om_Annotations (pv_meta (annotated_pv (GetProvisionedByValue ''node1'')))\<rparr>\<rparr>"


text \<open>One LocalVolume and one LocalVolumeSet own the ConfigMap.\<close>

definition config_meta :: obj_meta where
  "config_meta = demo_meta\<lparr>om_OwnerReferences := di_OwnerRefs (aggregate [demo_set] [demo_lv])\<rparr>"

theorem configmap_change_requests_witness:
  "set (snd (lv_WithManager ''rc'' ''ns'' (ConfigMapEvent (CreateEvent config_meta)) [])) = {(om_Namespace demo_meta, ''lv'')}
   \<and> set (snd (lvset_WithManager ''rc'' ''ns'' (ConfigMapEvent (CreateEvent config_meta)) [])) = {(om_Namespace demo_meta, ''lv'')}"
proof -
  have refs: "\<forall>m \<in> set (event_objects (CreateEvent config_meta)).
      om_Namespace m = om_Namespace demo_meta \<and> om_OwnerReferences m = di_OwnerRefs (aggregate [demo_set] [demo_lv])"
    by (simp add: config_meta_def)
  have lv: "\<forall>v \<in> set [demo_lv]. lv_Kind v = LocalVolumeKind \<and> lv_APIVersion v = ''local.storage.openshift.io/v1''"
    by (simp add: demo_lv_def LocalVolumeKind_def)
  have lvset: "\<forall>s \<in> set [demo_set]. lvset_Kind s = LocalVolumeSetKind \<and> lvset_APIVersion s = ''local.storage.openshift.io/v1alpha1''"
    by (simp add: demo_set_def LocalVolumeSetKind_def)
  have "lv_Name demo_lv = ''lv''" by (simp add: demo_lv_def)
  with configmap_change_requests [OF refs lv lvset, of "''rc''" "''ns''" "[]"] show ?thesis by simp
qed

end
