(* ===== verification/Gauges.thy ===== *)
theory Gauges
  imports PvOwnership
begin

text \<open>
  The gauges of a running diskmaker: its log of calls determines the value of each series. Every call of
  the controllers fits its vector, so no call panics, and the time of deletion that is shown for a LocalVolumeSet is the one the
  controller read last; nothing takes that series away when the object is gone.
\<close>

section \<open>The gauges after a log of calls\<close>

fun gauges_of :: "action list \<Rightarrow> gauges result" where  \<comment> \<open>the last call comes first\<close>
  "gauges_of [] = Inr (\<lambda>gv vs. None)"
| "gauges_of (b # log) =
     (case gauges_of log of
        Inl e \<Rightarrow> Inl e
      | Inr g \<Rightarrow> (case b of Metric op \<Rightarrow> apply_metric op g | _ \<Rightarrow> Inr g))"

definition deletion_gauge :: string where
  "deletion_gauge = gv_Name metricLocalVolumeSetDeletionTimestamp"

text \<open>The alert of \<^verbatim>\<open>templates/localmetrics/prometheus-rule.yaml\<close> on that gauge, at a time in seconds.\<close>

definition LvSetDeletionAlert :: "gauges \<Rightarrow> string \<Rightarrow> int \<Rightarrow> bool" where
  "LvSetDeletionAlert g lvSetName time =
     (case g deletion_gauge [lvSetName] of
        None \<Rightarrow> False
      | Some v \<Rightarrow> v > 0 \<and> time - v > 72 * 3600)"

text \<open>Reconciles of the two controllers of a diskmaker, one after the other.\<close>

datatype diskmaker_run = LvRun string namespaced_name | LvsetRun namespaced_name

fun reconciles :: "env \<Rightarrow> diskmaker_run list \<Rightarrow> world \<Rightarrow> world" where
  "reconciles E [] w = w"
| "reconciles E (LvRun symlinkLocation request # runs) w = reconciles E runs (snd (run_state (lv_Reconcile E symlinkLocation request) w))"
| "reconciles E (LvsetRun request # runs) w = reconciles E runs (snd (run_state (lvset_Reconcile E request) w))"

section \<open>The calls of a reconcile\<close>

definition metrics_of :: "env \<Rightarrow> owner \<Rightarrow> action \<Rightarrow> bool" where
  "metrics_of E obj b \<longleftrightarrow> (\<forall>op. b = Metric op \<longrightarrow> owner_metric E obj op)"

lemma sync_metrics: "always (log_ext (metrics_of E obj)) (SyncPVAndLVDL E rc a)"
  by (rule always_log_mono [OF log_Sync_actions]) (auto simp: metrics_of_def)

interpretation lv_metrics: pv_writers E "metrics_of E (OwnerLV lv)" "OwnerLV lv" "lv_ownerLabels lv" for E lv
  by unfold_locales (auto simp: metrics_of_def plain_action_def intro: sync_metrics)

interpretation lvset_metrics: pv_writers E "metrics_of E (OwnerLVSet s)" "OwnerLVSet s" "lvset_ownerLabels s" for E s
  by unfold_locales (auto simp: metrics_of_def plain_action_def intro: sync_metrics)

text \<open>The names that end up in labels are valid strings.\<close>

definition valid_names :: "env \<Rightarrow> owner \<Rightarrow> bool" where
  "valid_names E obj \<longleftrightarrow> ValidString (e_nodename E)
     \<and> (case obj of
          OwnerLV lv \<Rightarrow> list_all (\<lambda>(sc, d). ValidString sc) (dc_Disks (generateConfig lv))
        | OwnerLVSet s \<Rightarrow> ValidString (lvset_Name s) \<and> ValidString (lvset_StorageClassName s))"


lemma owner_metric_well:
  assumes "owner_metric E obj op"
  shows "well_labelled op" "op_gauge op \<in> set LVMetricsList"
  using assms by (auto simp: owner_metric_def metric_calls well_labelled_def gauge_defs LVMetricsList_def split: owner.splits option.splits)

lemma owner_metric_valid:
  "owner_metric E obj op \<Longrightarrow> valid_names E obj \<Longrightarrow> list_all (\<lambda>(n, v). ValidString v) (op_labels op)"
  by (auto simp: owner_metric_def valid_names_def metric_calls list_all_iff split: owner.splits option.splits)

text \<open>What the calls for an object make of the time of deletion of a LocalVolumeSet, if anything.\<close>

definition shown :: "owner \<Rightarrow> string \<Rightarrow> int option option" where
  "shown obj n =
     (case obj of
        OwnerLV lv \<Rightarrow> None
      | OwnerLVSet s \<Rightarrow> if n = lvset_Name s then Some (map_option (\<lambda>ts. ts div 1000000000) (om_DeletionTimestamp (lvset_meta s))) else None)"

lemma effect_shown:
  "owner_metric E obj op \<Longrightarrow>
    metric_effect op g deletion_gauge [n] = g deletion_gauge [n] \<or> shown obj n = Some (metric_effect op g deletion_gauge [n])"
  by (auto simp: owner_metric_def metric_effect_def shown_def metric_calls gauge_defs deletion_gauge_def split: owner.splits option.splits)

lemma gauges_ext:
  assumes "gauges_of log = Inr g" "list_all (metrics_of E obj) new" "valid_names E obj"
  shows "\<exists>g'. gauges_of (new @ log) = Inr g' \<and> (\<forall>n. g' deletion_gauge [n] = g deletion_gauge [n] \<or> shown obj n = Some (g' deletion_gauge [n]))"
  using assms(2)
proof (induction new)
  case (Cons b new)
  then obtain g' where g': "gauges_of (new @ log) = Inr g'"
    "\<And>n. g' deletion_gauge [n] = g deletion_gauge [n] \<or> shown obj n = Some (g' deletion_gauge [n])" by auto
  show ?case
  proof (cases "\<exists>op. b = Metric op")
    case True
    then obtain op where b: "b = Metric op" by blast
    then have op: "owner_metric E obj op" using Cons.prems by (simp add: metrics_of_def)
    have "apply_metric op g' = Inr (metric_effect op g')"
      by (rule apply_well [OF owner_metric_well(1) [OF op] owner_metric_valid [OF op assms(3)]])
    moreover have "metric_effect op g' deletion_gauge [n] = g deletion_gauge [n] \<or> shown obj n = Some (metric_effect op g' deletion_gauge [n])" for n
      using effect_shown [OF op, of g' n] g'(2) [of n] by metis
    ultimately show ?thesis using g'(1) by (simp add: b)
  next
    case False
    with g' show ?thesis by (auto split: action.split)
  qed
qed (simp add: assms(1))

text \<open>\<open>log_ext\<close> with the gauges.\<close>

lemma gauges_log:
  assumes "log_ext (metrics_of E obj) w w'" "gauges_of (w_log w) = Inr g" "valid_names E obj"
  obtains g' where "gauges_of (w_log w') = Inr g'"
    "\<And>n. g' deletion_gauge [n] = g deletion_gauge [n] \<or> shown obj n = Some (g' deletion_gauge [n])"
  using assms gauges_ext [of "w_log w" g E obj] unfolding log_ext_def by metis

section \<open>The calls fit their vectors\<close>

definition fitting :: "gauge_vec list \<Rightarrow> action \<Rightarrow> bool" where
  "fitting registered b \<longleftrightarrow> (\<forall>op. b = Metric op \<longrightarrow> well_labelled op \<and> op_gauge op \<in> set registered)"

text \<open>
  Every gauge that a reconcile of either controller of the diskmaker touches is one of those the
  process registers, and it is called with exactly the labels of its vector: \<^verbatim>\<open>With\<close> does not panic for their sake.
\<close>

theorem gauge_calls_fit:
  "log_ext (fitting LVMetricsList) w (snd (run_state (lv_Reconcile E symlinkLocation request) w))
   \<and> log_ext (fitting LVMetricsList) w (snd (run_state (lvset_Reconcile E request) w))"
proof -
  have fits: "metrics_of E obj b \<Longrightarrow> fitting LVMetricsList b" for obj b
    using owner_metric_well by (auto simp: metrics_of_def fitting_def)
  have lv: "always (log_ext (fitting LVMetricsList)) (lv_cleanup_and_provision E symlinkLocation lv)" for lv
    by (rule always_log_mono [OF lv_metrics.lv_run [OF refl refl] fits])
  have lvset: "always (log_ext (fitting LVMetricsList)) (lvset_cleanup_and_provision E s)" for s
    by (rule always_log_mono [OF lvset_metrics.set_run [OF refl refl] fits])
  have "log_ext (fitting LVMetricsList) w w'" if "w_log w' = w_log w" for w' using that by (simp add: log_ext_def)
  with lv_Reconcile_log [OF lv, where w = w and request = request] lvset_Reconcile_log [OF lvset, where w = w and request = request] show ?thesis
    by (auto split: sum.splits)
qed

section \<open>The time of deletion\<close>


definition deletion_call :: "local_volume_set \<Rightarrow> metric_op" where
  "deletion_call s =
     (case om_DeletionTimestamp (lvset_meta s) of
        Some ts \<Rightarrow> SetLVSDeletionTimestampMetric (lvset_Name s) (ts div 1000000000)
      | None \<Rightarrow> RemoveLVSDeletionTimestampMetric (lvset_Name s))"

lemma deletion_call_owner: "owner_metric E (OwnerLVSet s) (deletion_call s)"
  by (simp add: deletion_call_def split: option.split)

lemma deletion_call_shown:
  "shown (OwnerLVSet s) (lvset_Name s) = Some (metric_effect (deletion_call s) g deletion_gauge [lvset_Name s])"
  by (simp add: deletion_call_def shown_def metric_effect_def metric_calls gauge_defs deletion_gauge_def split: option.split)

lemma any_log: "always (log_ext P) m \<Longrightarrow> always (log_ext (\<lambda>b. True)) m"
  by (rule always_log_mono) auto

lemma metric_newly:
  assumes "log_ext (\<lambda>b. True) w0 w" "always (log_ext (\<lambda>b. True)) m"
  shows "wp (do { _ \<leftarrow> set_metric op; m }) (\<lambda>r w'. newly w0 w' (Metric op)) w"
proof (rule wp_runI)
  fix r w' assume run: "run_state (do { _ \<leftarrow> set_metric op; m }) w = (r, w')"
  then have "run_state m (act (Metric op) w) = (r, w')" by (simp add: set_metric_def)
  then have "log_ext (\<lambda>b. True) (act (Metric op) w) w'" by (rule always_run [OF assms(2)])
  moreover have "newly w (act (Metric op) w) (Metric op)" by (rule newlyI1) simp
  ultimately have "newly w w' (Metric op)" by (rule newly_later [rotated])
  then show "newly w0 w' (Metric op)" by (rule newly_earlier [OF assms(1)])
qed

lemma cleanup_calls:
  assumes "log_ext (\<lambda>b. True) w0 w"
  shows "wp (lvset_cleanup_and_provision E s) (\<lambda>r w'. snd r = None \<longrightarrow> newly w0 w' (Metric (deletion_call s))) w"
  unfolding lvset_cleanup_and_provision_def
proof (rule log.wp_seq [OF assms], rule log_delete_pvs, simp, rule log.wp_seq)
  show "always (log_ext (\<lambda>b. True)) (CleanupSymlinks E (lvset_ownerLabels s) (Some (om_DeletionTimestamp (lvset_meta s) \<noteq> None)))"
    by (rule log_Cleanup_within) simp
  fix cl w1 assume w1: "log_ext (\<lambda>b. True) w0 w1"
  have prov: "always (log_ext (\<lambda>b. True)) (lvset_provision E s)" by (rule any_log [OF log_provision])
  have del: "always (log_ext (\<lambda>b. True)) (do { pvs \<leftarrow> gets w_pvs;
      done_after (if OwnerHasReleasedPVs pvs (lvset_ownerLabels s) then fastRequeueTime else defaultRequeueTime) })"
    by (intro controller_log)
  show "wp (case cl of
        Some e \<Rightarrow> do {
          _ \<leftarrow> lvset_report E (lvset_Name s) (newDiskEvent ''ErrorRemovingSymLink'' (''failed to cleanup symlinks: '' @ err_text e) '''' ''Warning'');
          stop_with e
        }
      | None \<Rightarrow>
          (case om_DeletionTimestamp (lvset_meta s) of
             Some ts \<Rightarrow> lvset_deletion E s ts
           | None \<Rightarrow> do {
               _ \<leftarrow> set_metric (RemoveLVSDeletionTimestampMetric (lvset_Name s));
               lvset_provision E s
             })) (\<lambda>r w'. snd r = None \<longrightarrow> newly w0 w' (Metric (deletion_call s))) w1"
    using wp_mono [OF metric_newly [OF w1 prov]] wp_mono [OF metric_newly [OF w1 del]]
    by (auto simp: lvset_deletion_def deletion_call_def stop_with_def wp_bind wp_return split: option.split intro!: wp_runI)
qed


lemma reconcile_calls:
  assumes "e_get_lvset E (w_clock w) request = Inr s"
  shows "wp (lvset_Reconcile E request) (\<lambda>r w'. rq_Requeue (fst r) \<and> snd r = None \<longrightarrow> newly w w' (Metric (deletion_call s))) w"
proof -
  let ?T = "log_ext (\<lambda>b. True)"
  have start: "?T w (tick E w)" by (simp add: log_ext_def)
  have run: "wp (lvset_cleanup_and_provision E s) (\<lambda>r w'. rq_Requeue (fst r) \<and> snd r = None \<longrightarrow> newly w w' (Metric (deletion_call s))) w1"
    if "?T w w1" for w1
    by (rule wp_mono [OF cleanup_calls [OF that]]) simp
  show ?thesis
    unfolding lvset_Reconcile_def get_lvset_def
    apply (rule wp_bindI)
    apply (simp only: wp_query assms sum.case wp_bind wp_gets)
    apply (rule wp_condI)
    subgoal by (simp add: wp_return)
    apply (rule log.wp_seq [OF start log_Reload])
    apply (rule wp_optionI)
    subgoal for err w1
      apply (simp only: wp_bind wp_gets)
      apply (rule log.wp_seq [unfolded wp_bind, of _ w w1], assumption)
      subgoal by (intro controller_log log_syncCaches)
      subgoal for serr w2
        by (rule wp_optionI) (auto simp: wp_bind wp_gets wp_return stop_with_def no_requeue_def intro!: wp_sumI wp_condI run)
      done
    subgoal by (simp add: stop_with_def wp_return)
    done
qed


lemma newly_gauges:
  assumes "newly w w' (Metric (deletion_call s))" "log_ext (metrics_of E (OwnerLVSet s)) w w'"
    and "gauges_of (w_log w) = Inr g" "valid_names E (OwnerLVSet s)" "gauges_of (w_log w') = Inr g'"
  shows "Some (g' deletion_gauge [lvset_Name s]) = shown (OwnerLVSet s) (lvset_Name s)"
proof -
  let ?P = "metrics_of E (OwnerLVSet s)" and ?op = "deletion_call s"
  from assms(1) obtain xs ys where log: "w_log w' = xs @ Metric ?op # ys @ w_log w" by (auto simp: newly_def)
  with assms(2) have P: "list_all ?P xs" "list_all ?P ys" by (auto simp: log_ext_def)
  obtain g1 where g1: "gauges_of (ys @ w_log w) = Inr g1" using gauges_ext [OF assms(3) P(2) assms(4)] by blast
  have "apply_metric ?op g1 = Inr (metric_effect ?op g1)"
    by (rule apply_well [OF owner_metric_well(1) [OF deletion_call_owner] owner_metric_valid [OF deletion_call_owner assms(4)]])
  with g1 have "gauges_of (Metric ?op # ys @ w_log w) = Inr (metric_effect ?op g1)" by simp
  from gauges_ext [OF this P(1) assms(4)] assms(5) log deletion_call_shown [of s g1] show ?thesis by force
qed

text \<open>A reconcile reads its object and touches only the gauges of that object.\<close>

definition readable :: "env \<Rightarrow> owner \<Rightarrow> bool" where
  "readable E obj \<longleftrightarrow>
     (case obj of
        OwnerLV lv \<Rightarrow> \<exists>t r. e_get_lv E t r = Inr lv
      | OwnerLVSet s \<Rightarrow> \<exists>t r. e_get_lvset E t r = Inr s)"

lemma readableI:
  "e_get_lv E t r = Inr lv \<Longrightarrow> readable E (OwnerLV lv)" "e_get_lvset E t r = Inr s \<Longrightarrow> readable E (OwnerLVSet s)"
  unfolding readable_def owner.case by blast+

lemmas lv_calls = lv_Reconcile_log [where P = "\<lambda>lv. metrics_of E (OwnerLV lv)" for E, OF lv_metrics.lv_run [OF refl refl]]
lemmas lvset_calls = lvset_Reconcile_log [where P = "\<lambda>s. metrics_of E (OwnerLVSet s)" for E, OF lvset_metrics.set_run [OF refl refl]]

lemma run_calls:
  "w_log (reconciles E [run] w) = w_log w \<or> (\<exists>obj. readable E obj \<and> log_ext (metrics_of E obj) w (reconciles E [run] w))"
proof (cases run)
  case (LvRun symlinkLocation request)
  show ?thesis
    using lv_calls [where E = E and symlinkLocation = symlinkLocation and w = w and request = request]
    by (cases "e_get_lv E (w_clock w) request") (auto simp: LvRun dest: readableI)
next
  case (LvsetRun request)
  show ?thesis
    using lvset_calls [where E = E and w = w and request = request]
    by (cases "e_get_lvset E (w_clock w) request") (auto simp: LvsetRun dest: readableI)
qed

text \<open>
  C26: the time of deletion that the diskmaker shows. A reconcile of a LocalVolumeSet leaves the series
  of all other LocalVolumeSets as they are; its own series stays or becomes the time of deletion that was just read, and it does
  become that, or vanishes if there is none, whenever the reconcile ends without an error and asks to be repeated.
\<close>

theorem deletion_gauge_truthful:
  assumes "e_get_lvset E (w_clock w) request = Inr s" "run_state (lvset_Reconcile E request) w = (out, w')"
    and "gauges_of (w_log w) = Inr g" "valid_names E (OwnerLVSet s)"
  shows "\<exists>g'. gauges_of (w_log w') = Inr g'
    \<and> (\<forall>n. n \<noteq> lvset_Name s \<longrightarrow> g' deletion_gauge [n] = g deletion_gauge [n])
    \<and> g' deletion_gauge [lvset_Name s] \<in> {g deletion_gauge [lvset_Name s], map_option (\<lambda>ts. ts div 1000000000) (om_DeletionTimestamp (lvset_meta s))}
    \<and> (rq_Requeue (fst out) \<and> snd out = None \<longrightarrow>
         g' deletion_gauge [lvset_Name s] = map_option (\<lambda>ts. ts div 1000000000) (om_DeletionTimestamp (lvset_meta s)))"
proof -
  have log: "log_ext (metrics_of E (OwnerLVSet s)) w w'"
    using lvset_calls [where E = E and w = w and request = request] assms(1,2) by simp
  obtain g' where g': "gauges_of (w_log w') = Inr g'"
    "\<And>n. g' deletion_gauge [n] = g deletion_gauge [n] \<or> shown (OwnerLVSet s) n = Some (g' deletion_gauge [n])"
    using gauges_log [OF log assms(3,4)] by blast
  have "Some (g' deletion_gauge [lvset_Name s]) = shown (OwnerLVSet s) (lvset_Name s)" if "rq_Requeue (fst out) \<and> snd out = None"
    using wp_runD [OF reconcile_calls [OF assms(1)] assms(2)] that newly_gauges [OF _ log assms(3,4) g'(1)] by blast
  moreover have "g' deletion_gauge [n] = g deletion_gauge [n]" if "n \<noteq> lvset_Name s" for n
    using g'(2) [of n] that by (simp add: shown_def)
  ultimately show ?thesis using g'(1) g'(2) [of "lvset_Name s"] by (auto simp: shown_def)
qed

lemma reconcile_other:
  assumes "gauges_of (w_log w) = Inr g" "\<And>obj. readable E obj \<Longrightarrow> valid_names E obj" "\<And>s. readable E (OwnerLVSet s) \<Longrightarrow> lvset_Name s \<noteq> n"
  shows "\<exists>g'. gauges_of (w_log (reconciles E [run] w)) = Inr g' \<and> g' deletion_gauge [n] = g deletion_gauge [n]"
  using run_calls [of E run w]
proof
  assume "\<exists>obj. readable E obj \<and> log_ext (metrics_of E obj) w (reconciles E [run] w)"
  then obtain obj where obj: "readable E obj" "log_ext (metrics_of E obj) w (reconciles E [run] w)" by blast
  have "shown obj n = None" using obj(1) assms(3) by (auto simp: shown_def split: owner.split)
  then show ?thesis using gauges_log [OF obj(2) assms(1,2)] obj(1) by (metis option.distinct(1))
qed (simp add: assms(1))

text \<open>
  C36: nothing removes the series when the object is gone: as long as no later reconcile reads a LocalVolumeSet of that name, whatever
  the two controllers do, the time of deletion stays, and 72 hours after it the alert for a LocalVolumeSet that cannot
  be deleted holds for one that does not exist any more.
\<close>

theorem deletion_gauge_stays:
  assumes "gauges_of (w_log w) = Inr g" "g deletion_gauge [n] = Some v" "v > 0" "time - v > 72 * 3600"
    and "\<And>obj. readable E obj \<Longrightarrow> valid_names E obj" "\<And>s. readable E (OwnerLVSet s) \<Longrightarrow> lvset_Name s \<noteq> n"
  shows "\<exists>g'. gauges_of (w_log (reconciles E runs w)) = Inr g' \<and> g' deletion_gauge [n] = Some v \<and> LvSetDeletionAlert g' n time"
  using assms(1,2)
proof (induction runs arbitrary: w g)
  case Nil
  with assms(3,4) show ?case by (simp add: LvSetDeletionAlert_def)
next
  case (Cons run runs)
  obtain g' where "gauges_of (w_log (reconciles E [run] w)) = Inr g'" "g' deletion_gauge [n] = g deletion_gauge [n]"
    using reconcile_other [OF Cons.prems(1) assms(5,6)] by blast
  moreover have "reconciles E (run # runs) w = reconciles E runs (reconciles E [run] w)" by (cases run) simp_all
  ultimately show ?case using Cons.IH [of "reconciles E [run] w" g'] Cons.prems(2) by simp
qed


text \<open>A LocalVolumeSet that is deleted at second 1700000000; later it is gone.\<close>

definition dying_lvset :: local_volume_set where
  "dying_lvset = demo_lvset\<lparr>lvset_meta := (lvset_meta demo_lvset)\<lparr>om_DeletionTimestamp := Some 1700000000000000000\<rparr>\<rparr>"

definition dying_env :: env where
  "dying_env = demo_env\<lparr>e_get_lvset := (\<lambda>t n. Inr dying_lvset)\<rparr>"

definition gauge_world :: world where
  "gauge_world = demo_world\<lparr>w_links := (w_links demo_world)\<lparr>lc_synced := True\<rparr>\<rparr>"

abbreviation dying_run :: "outcome \<times> world" where
  "dying_run \<equiv> run_state (lvset_Reconcile dying_env (''ns'', ''set'')) gauge_world"

lemma dying_facts:
  "e_get_lvset dying_env (w_clock gauge_world) (''ns'', ''set'') = Inr dying_lvset" "w_log gauge_world = []"
  "rq_Requeue (fst (fst dying_run)) \<and> snd (fst dying_run) = None" "valid_names dying_env (OwnerLVSet dying_lvset)"
  "lvset_Name dying_lvset = ''set''" "om_DeletionTimestamp (lvset_meta dying_lvset) = Some 1700000000000000000"
  by code_simp+

theorem deletion_gauge_truthful_witness:
  "\<exists>g. gauges_of (w_log (snd dying_run)) = Inr g \<and> g deletion_gauge [''set''] = Some 1700000000"
proof -
  have start: "gauges_of (w_log gauge_world) = Inr (\<lambda>gv vs. None)" by (simp add: dying_facts(2))
  have "dying_run = (fst dying_run, snd dying_run)" by (rule prod.collapse [symmetric])
  from deletion_gauge_truthful [OF dying_facts(1) this start dying_facts(4)] dying_facts(3,5,6) show ?thesis by auto
qed

theorem deletion_gauge_stays_witness:
  "\<exists>g. gauges_of (w_log (reconciles demo_env [LvsetRun (''ns'', ''set''), LvRun ''/mnt/local-storage'' (''ns'', ''lv'')]
        (act (Metric (SetLVSDeletionTimestampMetric ''set'' 1700000000)) demo_world))) = Inr g
     \<and> LvSetDeletionAlert g ''set'' 1700259201"
proof -
  let ?op = "SetLVSDeletionTimestampMetric ''set'' 1700000000"
  let ?g = "metric_effect ?op (\<lambda>gv vs. None)"
  have "well_labelled ?op" "list_all (\<lambda>(n, v). ValidString v) (op_labels ?op)" by code_simp+
  then have "gauges_of (w_log (act (Metric ?op) demo_world)) = Inr ?g" by (simp add: demo_world_def apply_well)
  moreover have "?g deletion_gauge [''set''] = Some 1700000000" by code_simp
  moreover have "\<not> readable demo_env obj" for obj by (simp add: readable_def demo_env_def split: owner.split)
  ultimately show ?thesis
    using deletion_gauge_stays [of "act (Metric ?op) demo_world" ?g "''set''" 1700000000 1700259201 demo_env
        "[LvsetRun (''ns'', ''set''), LvRun ''/mnt/local-storage'' (''ns'', ''lv'')]"] by auto
qed

end
