(* ===== verification/Startup.thy ===== *)
theory Startup
  imports Gauges Discovery
begin

text \<open>
  How the processes start: \<^verbatim>\<open>cmd\<close>, the metrics server of \<^verbatim>\<open>pkg/localmetrics/config.go\<close>, the leader election of \<^verbatim>\<open>pkg/utils\<close> and
  the API client of the diskmaker. The environment variables, the answers of the libraries and of the operating system are the fields of
  \<open>process\<close>; what has been set up so far is a list of steps. Flags, logging and the version banner are left out.
\<close>

section \<open>A starting process\<close>

datatype collector = GaugeCollector gauge_vec | DeviceLinkCollector string string  \<comment> \<open>namespace, node\<close>

datatype topology = SingleReplicaTopologyMode | OtherTopology

record leader_election =
  le_Disable :: bool
  le_LeaseDuration :: int
  le_RenewDeadline :: int
  le_RetryPeriod :: int

datatype startup_step =
    ManagerCreated string "leader_election option"  \<comment> \<open>the namespace of its cache\<close>
  | LinkCacheAdded string                           \<comment> \<open>node\<close>
  | FieldIndexed
  | ControllerAdded string
  | Registered collector
  | Serving string
  | CheckAdded string
  | ManagerStarted

record process =
  ps_LookupEnv :: "string \<Rightarrow> string option"
  ps_GetConfig :: "error option"
  ps_NewForConfig :: "error option"
  ps_NewClient :: "error option"
  ps_SetupClient :: "error option"
  ps_NewManager :: "error option"
  ps_Add :: "error option"
  ps_IndexField :: "error option"
  ps_Complete :: "string \<Rightarrow> error option"
  ps_Register :: "collector list \<Rightarrow> collector \<Rightarrow> error option"  \<comment> \<open>collectors registered before\<close>
  ps_Instrument :: "error option"
  ps_Listen :: "string \<Rightarrow> error option"
  ps_AddCheck :: "string \<Rightarrow> error option"
  ps_Start :: "error option"
  ps_InfraStatus :: "topology result"

type_synonym 'a boot = "(startup_step list, 'a) state"

text \<open>A step that is made unless the call fails, and steps up to the first error.\<close>

definition attempt :: "startup_step \<Rightarrow> error option \<Rightarrow> error option boot" where
  "attempt s r = State (\<lambda>steps. (r, case r of None \<Rightarrow> steps @ [s] | Some e \<Rightarrow> steps))"

fun stepwise :: "error option boot list \<Rightarrow> error option boot" where
  "stepwise [] = State_Monad.return None"
| "stepwise (m # ms) = do { r \<leftarrow> m; (case r of Some e \<Rightarrow> State_Monad.return (Some e) | None \<Rightarrow> stepwise ms) }"

definition check :: "error option \<Rightarrow> error option boot" where
  "check r = State_Monad.return r"

definition wrapping :: "string \<Rightarrow> error option boot \<Rightarrow> error option boot" where
  "wrapping message m = do { r \<leftarrow> m; State_Monad.return (map_option (Wrapf message) r) }"

text \<open>The manager runs until it is stopped or fails.\<close>

definition runManager :: "process \<Rightarrow> error option boot" where
  "runManager P = State (\<lambda>steps. (ps_Start P, steps @ [ManagerStarted]))"

section \<open>The environment\<close>

definition GetNodeNameEnvVar :: "process \<Rightarrow> string" where
  "GetNodeNameEnvVar P = (case ps_LookupEnv P ''MY_NODE_NAME'' of None \<Rightarrow> '''' | Some n \<Rightarrow> n)"

definition GetWatchNamespace :: "process \<Rightarrow> string result" where
  "GetWatchNamespace P =
     (case ps_LookupEnv P ''WATCH_NAMESPACE'' of
        None \<Rightarrow> Inl (Errorf ''WATCH_NAMESPACE must be set'')
      | Some ns \<Rightarrow> Inr ns)"

text \<open>\<^verbatim>\<open>ctrl.GetConfigOrDie\<close> and \<^verbatim>\<open>SetupClient\<close> of the provisioner library end the process.\<close>

definition GetConfigOrDie :: "process \<Rightarrow> error option boot" where
  "GetConfigOrDie P = check (map_option (\<lambda>e. Errorf (''exit: '' @ err_text e)) (ps_GetConfig P))"

definition getRuntimeConfig :: "process \<Rightarrow> error option boot" where
  "getRuntimeConfig P = check (map_option (\<lambda>e. Errorf (''exit: '' @ err_text e)) (ps_SetupClient P))"

section \<open>The metrics server\<close>

record metrics_config =
  cf_metricsPath :: string
  cf_metricsPort :: string
  cf_collectorList :: "collector list"

definition NewConfigBuilder :: metrics_config where
  "NewConfigBuilder = \<lparr>cf_metricsPath = ''/metrics'', cf_metricsPort = ''8383'', cf_collectorList = []\<rparr>"

definition WithPort :: "string \<Rightarrow> metrics_config \<Rightarrow> metrics_config" where
  "WithPort port b = b\<lparr>cf_metricsPort := port\<rparr>"

definition WithPath :: "string \<Rightarrow> metrics_config \<Rightarrow> metrics_config" where
  "WithPath path b = b\<lparr>cf_metricsPath := (if has_prefix path ''/'' then path else ''/'' @ path)\<rparr>"

definition WithCollectors :: "collector list \<Rightarrow> metrics_config \<Rightarrow> metrics_config" where
  "WithCollectors collectors b = b\<lparr>cf_collectorList := collectors\<rparr>"

fun registerMetrics :: "process \<Rightarrow> collector list \<Rightarrow> collector list \<Rightarrow> error option boot" where
  "registerMetrics P before [] = State_Monad.return None"
| "registerMetrics P before (metric # list) = do {
     r \<leftarrow> attempt (Registered metric) (ps_Register P before metric);
     (case r of Some e \<Rightarrow> State_Monad.return (Some e) | None \<Rightarrow> registerMetrics P (before @ [metric]) list)
   }"

definition isPortFree :: "process \<Rightarrow> string \<Rightarrow> bool" where
  "isPortFree P port = (ps_Listen P port = None)"

text \<open>The server is started in the background; its later errors are not looked at.\<close>

definition Build :: "process \<Rightarrow> metrics_config \<Rightarrow> error option boot" where
  "Build P b = stepwise
     [wrapping ''failed to register local metrics: '' (registerMetrics P [] (cf_collectorList b)),
      check (map_option (\<lambda>e. Panic (err_text e)) (ps_Instrument P)),
      attempt (Serving ('':'' @ cf_metricsPort b))
        (if isPortFree P ('':'' @ cf_metricsPort b) then None else Some (Errorf (''port '' @ cf_metricsPort b @ '' is not free'')))]"

section \<open>Leader election\<close>

definition seconds :: "int \<Rightarrow> int" where
  "seconds n = n * 1000000000"

definition LeaderElectionDefaulting :: "leader_election \<Rightarrow> leader_election" where
  "LeaderElectionDefaulting c =
     c\<lparr>le_LeaseDuration := (if le_LeaseDuration c = 0 then seconds 137 else le_LeaseDuration c),
       le_RenewDeadline := (if le_RenewDeadline c = 0 then seconds 107 else le_RenewDeadline c),
       le_RetryPeriod := (if le_RetryPeriod c = 0 then seconds 26 else le_RetryPeriod c)\<rparr>"

definition LeaderElectionSNOConfig :: "leader_election \<Rightarrow> leader_election" where
  "LeaderElectionSNOConfig c = c\<lparr>le_LeaseDuration := seconds 270, le_RenewDeadline := seconds 240, le_RetryPeriod := seconds 60\<rparr>"

definition GetLeaderElectionConfig :: "process \<Rightarrow> bool \<Rightarrow> leader_election" where
  "GetLeaderElectionConfig P enabled =
     (let defaultLeaderElection = LeaderElectionDefaulting
            \<lparr>le_Disable = \<not> enabled, le_LeaseDuration = 0, le_RenewDeadline = 0, le_RetryPeriod = 0\<rparr>
      in if enabled
         then (case ps_InfraStatus P of
                 Inr controlPlaneTopology \<Rightarrow>
                   if controlPlaneTopology = SingleReplicaTopologyMode then LeaderElectionSNOConfig defaultLeaderElection
                   else defaultLeaderElection
               | Inl err \<Rightarrow> defaultLeaderElection)
         else defaultLeaderElection)"

section \<open>The diskmaker\<close>

text \<open>Both reconcilers are records of their arguments; only the handler of device links can refuse.\<close>

definition NewLocalVolumeReconciler :: "process \<Rightarrow> error option boot" where
  "NewLocalVolumeReconciler P = stepwise
     [getRuntimeConfig P, check (case NewDeviceLinkHandler (GetNodeNameEnvVar P) of Inl e \<Rightarrow> Some e | Inr _ \<Rightarrow> None)]"

definition NewLocalVolumeSetReconciler :: "process \<Rightarrow> error option boot" where
  "NewLocalVolumeSetReconciler P = stepwise
     [getRuntimeConfig P, check (case NewDeviceLinkHandler (GetNodeNameEnvVar P) of Inl e \<Rightarrow> Some e | Inr _ \<Rightarrow> None)]"

definition startManager :: "process \<Rightarrow> error option boot" where
  "startManager P =
     (case GetWatchNamespace P of
        Inl err \<Rightarrow> State_Monad.return (Some err)
      | Inr namespace \<Rightarrow>
          let localNodeName = GetNodeNameEnvVar P
          in if localNodeName = ''''
             then State_Monad.return (Some (Errorf ''MY_NODE_NAME must be set for diskmaker-manager to scope LocalVolumeDeviceLink cache to the local node''))
             else stepwise
               [GetConfigOrDie P,
                attempt (ManagerCreated namespace None) (ps_NewManager P),
                attempt (LinkCacheAdded localNodeName) (ps_Add P),
                NewLocalVolumeReconciler P,
                attempt (ControllerAdded ''localvolume'') (ps_Complete P ''localvolume''),
                NewLocalVolumeSetReconciler P,
                attempt (ControllerAdded ''localvolumeset'') (ps_Complete P ''localvolumeset''),
                wrapping ''failed to configure local metrics: ''
                  (Build P (WithCollectors (map GaugeCollector LVMetricsList @ [DeviceLinkCollector namespace localNodeName]) NewConfigBuilder)),
                runManager P])"

text \<open>
  The client of the discovery daemon. When no clientset can be made, the error is only logged, and the event sink is taken
  from a nil pointer.
\<close>

definition getEventRecorder :: "process \<Rightarrow> error option" where
  "getEventRecorder P =
     (case ps_GetConfig P of
        Some e \<Rightarrow> Some e
      | None \<Rightarrow> (case ps_NewForConfig P of Some e \<Rightarrow> Some (Panic ''nil pointer dereference'') | None \<Rightarrow> None))"

definition NewAPIUpdater :: "process \<Rightarrow> error option" where
  "NewAPIUpdater P =
     (case getEventRecorder P of
        Some e \<Rightarrow> Some e
      | None \<Rightarrow> (case ps_GetConfig P of Some e \<Rightarrow> Some e | None \<Rightarrow> ps_NewClient P))"

definition startDeviceDiscovery :: "process \<Rightarrow> env \<Rightarrow> wakeup list \<Rightarrow> bool result prog" where
  "startDeviceDiscovery P E evs =
     (case fst (run_state (Build P (WithCollectors (map GaugeCollector LVDMetricsList) NewConfigBuilder)) []) of
        Some e \<Rightarrow> State_Monad.return (Inl (Wrapf ''failed to discover devices: '' e))
      | None \<Rightarrow>
          (case NewAPIUpdater P of
             Some e \<Rightarrow> State_Monad.return (Inl (Wrapf ''failed to discover devices: '' e))
           | None \<Rightarrow> do {
               d \<leftarrow> NewDeviceDiscovery E;
               (case d of
                  Inl e \<Rightarrow> State_Monad.return (Inl (Wrapf ''failed to discover devices: '' e))
                | Inr lvd \<Rightarrow> do {
                    r \<leftarrow> discovery_Start E (om_Name (lvd_meta lvd)) evs;
                    State_Monad.return (case r of Inl e \<Rightarrow> Inl (Wrapf ''failed to discover devices: '' e) | Inr stopped \<Rightarrow> Inr stopped)
                  })
             }))"

section \<open>The operator\<close>

definition newAPIUpdater :: "process \<Rightarrow> error option boot" where
  "newAPIUpdater P = check (map_option (\<lambda>e. Panic (err_text e)) (ps_NewForConfig P))"

definition lv_setup :: "process \<Rightarrow> error option boot" where
  "lv_setup P = stepwise [newAPIUpdater P, attempt (ControllerAdded ''local-storage-operator'') (ps_Complete P ''local-storage-operator'')]"

definition lvset_setup :: "process \<Rightarrow> error option boot" where
  "lvset_setup P = stepwise [newAPIUpdater P, attempt FieldIndexed (ps_IndexField P), attempt (ControllerAdded ''localvolumeset'') (ps_Complete P ''localvolumeset'')]"

text \<open>The discovery and daemon controllers read the namespace again.\<close>

definition namespaced_setup :: "process \<Rightarrow> string \<Rightarrow> error option boot" where
  "namespaced_setup P name = stepwise
     [check (case GetWatchNamespace P of Inl e \<Rightarrow> Some e | Inr _ \<Rightarrow> None), attempt (ControllerAdded name) (ps_Complete P name)]"

definition operator_boot :: "process \<Rightarrow> bool \<Rightarrow> error option boot" where
  "operator_boot P enableLeaderElection =
     (case GetWatchNamespace P of
        Inl err \<Rightarrow> State_Monad.return (Some err)
      | Inr namespace \<Rightarrow> stepwise
          [GetConfigOrDie P,
           attempt (ManagerCreated namespace (Some (GetLeaderElectionConfig P enableLeaderElection))) (ps_NewManager P),
           lv_setup P,
           namespaced_setup P ''localvolumediscovery'',
           lvset_setup P,
           namespaced_setup P ''localvolumesetdaemon-controller'',
           attempt (CheckAdded ''healthz'') (ps_AddCheck P ''healthz''),
           attempt (CheckAdded ''readyz'') (ps_AddCheck P ''readyz''),
           runManager P])"

text \<open>The exit status: every error ends the process with status 1, a panic with 2.\<close>

definition operator_main :: "process \<Rightarrow> bool \<Rightarrow> int boot" where
  "operator_main P enableLeaderElection = do {
     r \<leftarrow> operator_boot P enableLeaderElection;
     State_Monad.return (case r of None \<Rightarrow> 0 | Some (Panic m) \<Rightarrow> 2 | Some e \<Rightarrow> 1)
   }"


section \<open>Nothing runs before everything is set up\<close>

lemma run_attempt [simp]: "run_state (attempt s r) steps = (r, case r of None \<Rightarrow> steps @ [s] | Some e \<Rightarrow> steps)"
  by (simp add: attempt_def)

lemma run_check [simp]: "run_state (check r) steps = (r, steps)"
  by (simp add: check_def)

lemma run_runManager [simp]: "run_state (runManager P) steps = (ps_Start P, steps @ [ManagerStarted])"
  by (simp add: runManager_def)

lemma run_stepwise [simp]:
  "run_state (stepwise []) steps = (None, steps)"
  "run_state (stepwise (m # ms)) steps =
    (case run_state m steps of (Some e, steps') \<Rightarrow> (Some e, steps') | (None, steps') \<Rightarrow> run_state (stepwise ms) steps')"
  by (auto split: prod.split option.split)

declare stepwise.simps [simp del]

text \<open>What a run of steps adds before the manager is started; it succeeds only with all of them.\<close>

definition adds :: "startup_step list \<Rightarrow> error option boot \<Rightarrow> bool" where
  "adds expected m \<longleftrightarrow> (\<forall>steps. \<exists>r made. run_state m steps = (r, steps @ made)
     \<and> ManagerStarted \<notin> set made \<and> (r = None \<longrightarrow> made = expected))"

lemma adds_attempt: "s \<noteq> ManagerStarted \<Longrightarrow> adds [s] (attempt s r)"
  unfolding adds_def by (cases r) auto

lemma adds_check: "adds [] (check r)" "adds [] (GetConfigOrDie P)" "adds [] (getRuntimeConfig P)" "adds [] (newAPIUpdater P)"
  by (simp_all add: adds_def GetConfigOrDie_def getRuntimeConfig_def newAPIUpdater_def)

lemma adds_Nil: "adds [] (stepwise [])"
  by (simp add: adds_def)

lemma adds_Cons: "adds xs m \<Longrightarrow> adds ys (stepwise ms) \<Longrightarrow> adds (xs @ ys) (stepwise (m # ms))"
  unfolding adds_def
proof
  fix steps
  assume m: "\<forall>steps. \<exists>r made. run_state m steps = (r, steps @ made) \<and> ManagerStarted \<notin> set made \<and> (r = None \<longrightarrow> made = xs)"
    and ms: "\<forall>steps. \<exists>r made. run_state (stepwise ms) steps = (r, steps @ made) \<and> ManagerStarted \<notin> set made \<and> (r = None \<longrightarrow> made = ys)"
  obtain r made where r: "run_state m steps = (r, steps @ made)" "ManagerStarted \<notin> set made" "r = None \<Longrightarrow> made = xs" using m by blast
  obtain r' made' where r': "run_state (stepwise ms) (steps @ made) = (r', (steps @ made) @ made')" "ManagerStarted \<notin> set made'"
    "r' = None \<Longrightarrow> made' = ys" using ms by blast
  show "\<exists>r made. run_state (stepwise (m # ms)) steps = (r, steps @ made) \<and> ManagerStarted \<notin> set made \<and> (r = None \<longrightarrow> made = xs @ ys)"
    using r r' by (cases r) auto
qed

lemma adds_reconcilers: "adds [] (NewLocalVolumeReconciler P)" "adds [] (NewLocalVolumeSetReconciler P)"
  unfolding NewLocalVolumeReconciler_def NewLocalVolumeSetReconciler_def
  using adds_Cons [OF adds_check(3) adds_Cons [OF adds_check(1) adds_Nil]] by simp_all

lemma adds_wrapping: "adds xs m \<Longrightarrow> adds xs (wrapping s m)"
  unfolding adds_def
proof
  fix steps
  assume "\<forall>steps. \<exists>r made. run_state m steps = (r, steps @ made) \<and> ManagerStarted \<notin> set made \<and> (r = None \<longrightarrow> made = xs)"
  then obtain r made where "run_state m steps = (r, steps @ made)" "ManagerStarted \<notin> set made" "r = None \<Longrightarrow> made = xs" by blast
  then show "\<exists>r made. run_state (wrapping s m) steps = (r, steps @ made) \<and> ManagerStarted \<notin> set made \<and> (r = None \<longrightarrow> made = xs)"
    by (cases r) (auto simp: wrapping_def)
qed

lemma adds_register: "adds (map Registered list) (registerMetrics P before list)"
proof (induction list arbitrary: before)
  case (Cons c list)
  have "registerMetrics P before (c # list) = stepwise [attempt (Registered c) (ps_Register P before c), registerMetrics P (before @ [c]) list]"
    by (rule state.expand) (auto simp: fun_eq_iff split: option.split prod.split)
  with adds_Cons [OF adds_attempt adds_Cons [OF Cons.IH adds_Nil]] show ?case by simp
qed (simp add: adds_def)


lemma adds_Build: "adds (map Registered (cf_collectorList b) @ [Serving ('':'' @ cf_metricsPort b)]) (Build P b)"
  unfolding Build_def
  using adds_Cons [OF adds_wrapping [OF adds_register] adds_Cons [OF adds_check(1) adds_Cons [OF adds_attempt adds_Nil]]] by simp

lemma stepwise_snoc:
  assumes "adds xs (stepwise ms)"
  shows "run_state (stepwise (ms @ [runManager P])) [] =
     (case run_state (stepwise ms) [] of (None, steps) \<Rightarrow> (ps_Start P, steps @ [ManagerStarted]) | (Some e, steps) \<Rightarrow> (Some e, steps))"
proof -
  have "run_state (stepwise (ms @ [runManager P])) steps =
     (case run_state (stepwise ms) steps of (None, steps) \<Rightarrow> (ps_Start P, steps @ [ManagerStarted]) | (Some e, steps) \<Rightarrow> (Some e, steps))" for steps
    by (induction ms arbitrary: steps) (auto split: prod.split option.split)
  then show ?thesis .
qed

text \<open>The manager is started last: after all steps, or not at all and with an error.\<close>

lemma started_last:
  assumes "adds xs (stepwise ms)" "run_state (stepwise (ms @ [runManager P])) [] = (r, steps)"
  shows "if ManagerStarted \<in> set steps then steps = xs @ [ManagerStarted] \<and> r = ps_Start P else r \<noteq> None"
proof -
  obtain r' made where r': "run_state (stepwise ms) [] = (r', made)" "ManagerStarted \<notin> set made" "r' = None \<Longrightarrow> made = xs"
    using assms(1) unfolding adds_def by (metis append_Nil)
  with assms(2) stepwise_snoc [OF assms(1), of P] show ?thesis by (cases r') auto
qed

text \<open>
  C27: the diskmaker's controllers run only in a process that is completely set up: its namespace and its
  node are known, the cache of device links is scoped to that node, both controllers are added, all gauges and the collector of device links
  are registered and served. In every other case nothing runs and the process ends with an error.
\<close>

theorem diskmaker_starts_complete:
  assumes "run_state (startManager P) [] = (r, steps)"
  shows "if ManagerStarted \<in> set steps
    then \<exists>ns node. ps_LookupEnv P ''WATCH_NAMESPACE'' = Some ns \<and> ps_LookupEnv P ''MY_NODE_NAME'' = Some node \<and> node \<noteq> ''''
      \<and> steps = [ManagerCreated ns None, LinkCacheAdded node, ControllerAdded ''localvolume'', ControllerAdded ''localvolumeset'']
          @ map (\<lambda>gv. Registered (GaugeCollector gv)) LVMetricsList
          @ [Registered (DeviceLinkCollector ns node), Serving '':8383'', ManagerStarted]
      \<and> r = ps_Start P
    else r \<noteq> None"
proof (cases "ps_LookupEnv P ''WATCH_NAMESPACE''")
  case None
  with assms show ?thesis by (auto simp: startManager_def GetWatchNamespace_def)
next
  case (Some ns)
  let ?node = "GetNodeNameEnvVar P"
  let ?b = "WithCollectors (map GaugeCollector LVMetricsList @ [DeviceLinkCollector ns ?node]) NewConfigBuilder"
  let ?ms = "[GetConfigOrDie P, attempt (ManagerCreated ns None) (ps_NewManager P), attempt (LinkCacheAdded ?node) (ps_Add P),
    NewLocalVolumeReconciler P, attempt (ControllerAdded ''localvolume'') (ps_Complete P ''localvolume''),
    NewLocalVolumeSetReconciler P, attempt (ControllerAdded ''localvolumeset'') (ps_Complete P ''localvolumeset''),
    wrapping ''failed to configure local metrics: '' (Build P ?b)]"
  have steps: "adds ([] @ [ManagerCreated ns None] @ [LinkCacheAdded ?node] @ [] @ [ControllerAdded ''localvolume''] @ []
      @ [ControllerAdded ''localvolumeset''] @ (map Registered (cf_collectorList ?b) @ [Serving ('':'' @ cf_metricsPort ?b)]) @ []) (stepwise ?ms)"
    by (intro adds_Cons adds_Nil adds_check adds_reconcilers adds_attempt adds_wrapping adds_Build) simp_all
  show ?thesis
  proof (cases "?node = ''''")
    case True
    with assms Some show ?thesis by (auto simp: startManager_def GetWatchNamespace_def)
  next
    case False
    then have node: "ps_LookupEnv P ''MY_NODE_NAME'' = Some ?node" by (auto simp: GetNodeNameEnvVar_def split: option.splits)
    have "run_state (stepwise (?ms @ [runManager P])) [] = (r, steps)"
      using assms Some False by (simp only: startManager_def GetWatchNamespace_def option.case sum.case Let_def if_False append_Cons append_Nil)
    from started_last [OF steps this] node False Some show ?thesis
      by (auto simp: WithCollectors_def NewConfigBuilder_def split: if_splits)
  qed
qed


definition demo_process :: process where
  "demo_process = \<lparr>ps_LookupEnv = (\<lambda>v. if v = ''MY_NODE_NAME'' then Some ''node1'' else if v = ''WATCH_NAMESPACE'' then Some ''ns'' else None),
     ps_GetConfig = None, ps_NewForConfig = None, ps_NewClient = None, ps_SetupClient = None, ps_NewManager = None, ps_Add = None, ps_IndexField = None,
     ps_Complete = (\<lambda>n. None), ps_Register = (\<lambda>cs c. if c \<in> set cs then Some (Errorf ''already registered'') else None), ps_Instrument = None,
     ps_Listen = (\<lambda>p. None), ps_AddCheck = (\<lambda>n. None), ps_Start = None, ps_InfraStatus = Inr SingleReplicaTopologyMode\<rparr>"

theorem diskmaker_starts_complete_witness:
  "\<exists>steps. run_state (startManager demo_process) [] = (None, steps) \<and> last steps = ManagerStarted
     \<and> (\<forall>gv \<in> set LVMetricsList. Registered (GaugeCollector gv) \<in> set steps)"
proof -
  obtain r steps where run: "run_state (startManager demo_process) [] = (r, steps)" by fastforce
  have "fst (run_state (startManager demo_process) []) = None" by code_simp
  then have "r = None" using run by simp
  with diskmaker_starts_complete [OF run] run show ?thesis by (auto split: if_splits)
qed

text \<open>The same for the operator, whose exit status tells whenever its manager was not started.\<close>

theorem operator_starts_complete:
  assumes "run_state (operator_main P leader) [] = (status, steps)"
  shows "if ManagerStarted \<in> set steps
    then \<exists>ns. ps_LookupEnv P ''WATCH_NAMESPACE'' = Some ns
      \<and> steps = [ManagerCreated ns (Some (GetLeaderElectionConfig P leader)), ControllerAdded ''local-storage-operator'', ControllerAdded ''localvolumediscovery'',
            FieldIndexed, ControllerAdded ''localvolumeset'', ControllerAdded ''localvolumesetdaemon-controller'', CheckAdded ''healthz'', CheckAdded ''readyz'', ManagerStarted]
      \<and> (status = 0 \<longleftrightarrow> ps_Start P = None)
    else status \<noteq> 0"
proof (cases "ps_LookupEnv P ''WATCH_NAMESPACE''")
  case None
  with assms show ?thesis by (auto simp: operator_main_def operator_boot_def GetWatchNamespace_def)
next
  case (Some ns)
  let ?le = "GetLeaderElectionConfig P leader"
  let ?ms = "[GetConfigOrDie P, attempt (ManagerCreated ns (Some ?le)) (ps_NewManager P),
    lv_setup P, namespaced_setup P ''localvolumediscovery'', lvset_setup P,
    namespaced_setup P ''localvolumesetdaemon-controller'', attempt (CheckAdded ''healthz'') (ps_AddCheck P ''healthz''), attempt (CheckAdded ''readyz'') (ps_AddCheck P ''readyz'')]"
  have setups: "adds ([] @ [ControllerAdded n] @ []) (namespaced_setup P n)" "adds ([] @ [FieldIndexed] @ [ControllerAdded ''localvolumeset''] @ []) (lvset_setup P)"
    "adds ([] @ [ControllerAdded ''local-storage-operator''] @ []) (lv_setup P)" for n
    unfolding namespaced_setup_def lvset_setup_def lv_setup_def by (intro adds_Cons adds_Nil adds_check adds_attempt; simp)+
  have steps: "adds ([] @ [ManagerCreated ns (Some ?le)] @ ([] @ [ControllerAdded ''local-storage-operator''] @ []) @ ([] @ [ControllerAdded ''localvolumediscovery''] @ [])
      @ ([] @ [FieldIndexed] @ [ControllerAdded ''localvolumeset''] @ []) @ ([] @ [ControllerAdded ''localvolumesetdaemon-controller''] @ []) @ [CheckAdded ''healthz''] @ [CheckAdded ''readyz''] @ [])
      (stepwise ?ms)"
    by (intro adds_Cons [OF adds_check(2)] adds_Cons [OF adds_attempt] adds_Cons [OF setups(1)] adds_Cons [OF setups(2)] adds_Cons [OF setups(3)] adds_Nil) simp_all
  obtain r where run: "run_state (operator_boot P leader) [] = (r, steps)" and status: "status = (case r of None \<Rightarrow> 0 | Some (Panic m) \<Rightarrow> 2 | Some e \<Rightarrow> 1)"
    using assms by (auto simp: operator_main_def split: prod.splits)
  have "run_state (stepwise (?ms @ [runManager P])) [] = (r, steps)"
    using run Some by (simp only: operator_boot_def GetWatchNamespace_def option.case sum.case append_Cons append_Nil)
  from started_last [OF steps this] Some status show ?thesis by (auto split: if_splits option.splits error.splits)
qed

theorem operator_starts_complete_witness:
  "\<exists>steps. run_state (operator_main demo_process True) [] = (0, steps) \<and> ManagerStarted \<in> set steps \<and> ControllerAdded ''localvolumesetdaemon-controller'' \<in> set steps"
proof -
  obtain status steps where run: "run_state (operator_main demo_process True) [] = (status, steps)" by fastforce
  have "fst (run_state (operator_main demo_process True) []) = 0" by code_simp
  then have "status = 0" using run by simp
  with operator_starts_complete [OF run] run show ?thesis by (auto split: if_splits)
qed

section \<open>Leader election\<close>

text \<open>
  Whatever the cluster answers, the timing is one that the elector accepts: the lease outlasts the
  renew deadline, by 30 seconds of clock skew, and the deadline leaves room for more than three retries with their jitter of 20 percent.
\<close>

theorem leader_election_valid:
  "let le = GetLeaderElectionConfig P enabled
   in le_LeaseDuration le - le_RenewDeadline le = seconds 30 \<and> 10 * le_RenewDeadline le > 3 * 12 * le_RetryPeriod le
    \<and> le_RetryPeriod le \<ge> seconds 1 \<and> le_Disable le = (\<not> enabled)"
  by (simp add: GetLeaderElectionConfig_def LeaderElectionDefaulting_def LeaderElectionSNOConfig_def seconds_def Let_def split: sum.split)

end
