(* ===== verification/UdevMonitor.thy ===== *)
theory UdevMonitor
  imports ApiTypes "HOL-Library.Sublist"
begin

text \<open>
  The udev monitor of the discovery daemon, \<^verbatim>\<open>pkg/diskmaker/discovery/monitor.go\<close>: which lines of
  \<^verbatim>\<open>udevadm monitor\<close> count as an event, how the command is started and its output read, and how a burst of
  events is collapsed into one. How starting the command ends and which lines it prints is a record of outcomes.
\<close>

section \<open>Regular expressions\<close>

text \<open>
  The fragment of Go's regular expressions the file uses: an optional \<^verbatim>\<open>(?i)\<close> in front, then characters
  and the class \<^verbatim>\<open>[0-9]\<close>, each possibly followed by \<^verbatim>\<open>+\<close>. Other patterns are an error here. Without the
  letters k and s in the patterns, folding the case of ASCII letters is all that \<^verbatim>\<open>(?i)\<close> does.
\<close>

datatype re_atom = ReChar char | ReDigit

type_synonym re_items = "(re_atom \<times> bool) list"

definition re_special :: "string" where
  "re_special = ''.*?()[]{}|^$+'' @ [CHR 0x5C]"

definition re_atom_at :: "string \<Rightarrow> (re_atom \<times> string) option" where
  "re_atom_at s =
     (if has_prefix s ''[0-9]'' then Some (ReDigit, drop 5 s)
      else case s of [] \<Rightarrow> None | c # r \<Rightarrow> if c \<in> set re_special then None else Some (ReChar c, r))"

lemma re_atom_at_shorter: "re_atom_at s = Some (a, r) \<Longrightarrow> length r < length s"
  by (auto simp: re_atom_at_def has_prefix_iff split: list.splits if_splits)

function re_parse :: "string \<Rightarrow> re_items option" where
  "re_parse s =
     (if s = [] then Some []
      else case re_atom_at s of
        None \<Rightarrow> None
      | Some (a, r) \<Rightarrow>
          if has_prefix r ''+'' then map_option (Cons (a, True)) (re_parse (tl r))
          else map_option (Cons (a, False)) (re_parse r))"
  by auto
termination
  by (relation "measure length") (auto dest!: re_atom_at_shorter sym [where t = "re_atom_at _"])

declare re_parse.simps [simp del]

definition re_flags :: "string \<Rightarrow> bool \<times> string" where
  "re_flags p = (if has_prefix p ''(?i)'' then (True, drop 4 p) else (False, p))"

definition atom_matches :: "bool \<Rightarrow> re_atom \<Rightarrow> char \<Rightarrow> bool" where
  "atom_matches ci a c =
     (case a of
        ReChar x \<Rightarrow> c = x \<or> ci \<and> lower_char c = lower_char x
      | ReDigit \<Rightarrow> is_digit c)"

fun match_here :: "bool \<Rightarrow> re_items \<Rightarrow> string \<Rightarrow> bool" where
  "match_here ci [] s = True"
| "match_here ci ((a, rep) # r) [] = False"
| "match_here ci ((a, rep) # r) (c # s) =
     (atom_matches ci a c \<and> (match_here ci r s \<or> rep \<and> match_here ci ((a, rep) # r) s))"

fun re_search :: "bool \<Rightarrow> re_items \<Rightarrow> string \<Rightarrow> bool" where
  "re_search ci r [] = match_here ci r []"
| "re_search ci r (c # s) = (match_here ci r (c # s) \<or> re_search ci r s)"

definition MatchString :: "string \<Rightarrow> string \<Rightarrow> bool result" where
  "MatchString pattern text =
     (case re_flags pattern of (ci, p) \<Rightarrow>
        case re_parse p of
          None \<Rightarrow> Inl (Errorf ''error parsing regexp'')
        | Some r \<Rightarrow> Inr (re_search ci r text))"

section \<open>Which lines count\<close>

definition udevExclusionFilter :: "string list" where
  "udevExclusionFilter = [''(?i)dm-[0-9]+'', ''(?i)rbd[0-9]'', ''(?i)nbd[0-9]+'']"

definition udevEventMatch :: "string list" where
  "udevEventMatch = [''(?i)add'', ''(?i)remove'']"

definition searchFailed :: "error \<Rightarrow> error" where
  "searchFailed e = Errorf (''failed to search string: '' @ err_text e)"

fun anyExclusion :: "string \<Rightarrow> string list \<Rightarrow> bool result" where
  "anyExclusion text [] = Inr False"
| "anyExclusion text (exclusion # exclusions) =
     (case MatchString exclusion text of
        Inl e \<Rightarrow> Inl (searchFailed e)
      | Inr matched \<Rightarrow> if matched then Inr True else anyExclusion text exclusions)"

fun matchUdevEvent :: "string \<Rightarrow> string list \<Rightarrow> string list \<Rightarrow> bool result" where
  "matchUdevEvent text [] exclusions = Inr False"
| "matchUdevEvent text (m # matches) exclusions =
     (case MatchString m text of
        Inl e \<Rightarrow> Inl (searchFailed e)
      | Inr matched \<Rightarrow>
          if matched then
            (case anyExclusion text exclusions of
               Inl e \<Rightarrow> Inl e
             | Inr hasExclusion \<Rightarrow> if \<not> hasExclusion then Inr True else matchUdevEvent text matches exclusions)
          else matchUdevEvent text matches exclusions)"

section \<open>Reading the monitor's output\<close>

text \<open>
  What happens outside: whether a binary is found, whether the pipes and the process can be set up, the
  lines the scanner reads from the output until it ends, and the error it ends with. Lines on the error output are only logged.
\<close>

record udev_process =
  up_lookPath :: "string \<Rightarrow> bool"
  up_stdoutErr :: "error option"
  up_stderrErr :: "error option"
  up_startErr :: "error option"
  up_lines :: "string list"
  up_scanErr :: "error option"

definition newUdevMonitorCommand :: "udev_process \<Rightarrow> string list option" where
  "newUdevMonitorCommand u =
     (if up_lookPath u ''nsenter''
      then Some [''nsenter'', ''--mount=/proc/1/ns/mnt'', ''--'', ''udevadm'', ''monitor'', ''-u'', ''-k'', ''-s'', ''block'']
      else None)"

text \<open>The loop over the lines: what is sent to the channel before it is closed. An error of the filter ends it.\<close>

fun scanLoop :: "string list \<Rightarrow> string list \<Rightarrow> string list \<Rightarrow> string list" where
  "scanLoop matches exclusions [] = []"
| "scanLoop matches exclusions (text # lines) =
     (case matchUdevEvent text matches exclusions of
        Inl e \<Rightarrow> []
      | Inr m \<Rightarrow> (if m then [text] else []) @ scanLoop matches exclusions lines)"

definition rawUdevBlockMonitor :: "udev_process \<Rightarrow> string list \<Rightarrow> string list \<Rightarrow> string list" where
  "rawUdevBlockMonitor u matches exclusions =
     (case newUdevMonitorCommand u of
        None \<Rightarrow> []
      | Some cmd \<Rightarrow>
          if up_stdoutErr u \<noteq> None then []
          else if up_stderrErr u \<noteq> None then []
          else if up_startErr u \<noteq> None then []
          else scanLoop matches exclusions (up_lines u))"

section \<open>Collapsing bursts\<close>

text \<open>
  \<^verbatim>\<open>udevBlockMonitor\<close> waits for an event, then swallows further ones until its timer fires, and only
  then passes the first one on. The inputs in the order the \<^verbatim>\<open>select\<close> takes them: a raw event, the timer,
  the end of the raw channel. \<open>Stopped\<close> is after the return, which closes the channel.
\<close>

datatype monitor_state = Waiting | Collecting string | Stopped

datatype monitor_input = RawEvent string | TimerFired | RawClosed

inductive monitor_step :: "monitor_state \<Rightarrow> monitor_input \<Rightarrow> string list \<Rightarrow> monitor_state \<Rightarrow> bool" where
  first: "monitor_step Waiting (RawEvent e) [] (Collecting e)"
| idle_end: "monitor_step Waiting RawClosed [] Stopped"
| swallow: "monitor_step (Collecting e) (RawEvent e') [] (Collecting e)"
| emit: "monitor_step (Collecting e) TimerFired [e] Waiting"
| burst_end: "monitor_step (Collecting e) RawClosed [] Stopped"

code_pred monitor_step .

inductive monitor_run :: "monitor_state \<Rightarrow> monitor_input list \<Rightarrow> string list \<Rightarrow> monitor_state \<Rightarrow> bool" where
  run_nil: "monitor_run s [] [] s"
| run_step: "monitor_step s i out s1 \<Longrightarrow> monitor_run s1 is outs s2 \<Longrightarrow> monitor_run s (i # is) (out @ outs) s2"

code_pred monitor_run .

inductive_cases monitor_stepE: "monitor_step s i out s1"
inductive_simps monitor_step_simps:
  "monitor_step Waiting i out s1" "monitor_step (Collecting e) i out s1" "monitor_step Stopped i out s1"
inductive_simps monitor_run_simps: "monitor_run s [] outs s2" "monitor_run s (i # is) outs s2"

section \<open>Lemmas on matching\<close>

lemma re_search_iff: "re_search ci r s \<longleftrightarrow> (\<exists>a b. s = a @ b \<and> match_here ci r b)"
proof (induction s)
  case (Cons c s)
  show ?case unfolding re_search.simps Cons
    by (auto simp: Cons_eq_append_conv)
qed simp

lemma match_literal:
  "match_here True (map (\<lambda>c. (ReChar c, False)) p @ r) s \<longleftrightarrow>
    (\<exists>u v. s = u @ v \<and> to_lower u = to_lower p \<and> match_here True r v)"
proof (induction p arbitrary: s)
  case (Cons x p)
  show ?case
    by (cases s) (auto simp: Cons atom_matches_def to_lower_def Cons_eq_append_conv map_eq_Cons_conv)
qed (simp add: to_lower_def)

lemma match_digits: "match_here ci [(ReDigit, rep)] v \<longleftrightarrow> (\<exists>d v'. v = d # v' \<and> is_digit d)"
  by (cases v) (auto simp: atom_matches_def)

lemma lower_digit [simp]: "is_digit (lower_char c) \<longleftrightarrow> is_digit c" "is_digit c \<Longrightarrow> lower_char c = c"
  by (auto simp: is_digit_def lower_char_def less_eq_char_def Let_def)

lemma lower_append: "to_lower s = a @ b \<longleftrightarrow> (\<exists>u v. s = u @ v \<and> to_lower u = a \<and> to_lower v = b)"
  unfolding to_lower_def by (auto simp: map_eq_append_conv)

text \<open>Searching for a lower-case literal, alone or before a digit.\<close>

lemma search_literal:
  assumes "to_lower p = p"
  shows "re_search True (map (\<lambda>c. (ReChar c, False)) p) s \<longleftrightarrow> contains_str (to_lower s) p"
  using match_literal [of p "[]"] assms
  by (auto simp: re_search_iff contains_str_iff lower_append) blast

lemma search_literal_digit:
  assumes "to_lower p = p"
  shows "re_search True (map (\<lambda>c. (ReChar c, False)) p @ [(ReDigit, rep)]) s \<longleftrightarrow>
    (\<exists>d. is_digit d \<and> contains_str (to_lower s) (p @ [d]))"
proof
  assume "re_search True (map (\<lambda>c. (ReChar c, False)) p @ [(ReDigit, rep)]) s"
  then obtain a u d v where "s = a @ u @ d # v" "to_lower u = p" "is_digit d"
    using assms by (auto simp: re_search_iff match_literal match_digits)
  then have "to_lower s = to_lower a @ (p @ [d]) @ to_lower v" by (simp add: to_lower_def)
  then show "\<exists>d. is_digit d \<and> contains_str (to_lower s) (p @ [d])"
    unfolding contains_str_iff using \<open>is_digit d\<close> by blast
next
  assume "\<exists>d. is_digit d \<and> contains_str (to_lower s) (p @ [d])"
  then obtain d a b where "is_digit d" "to_lower s = a @ p @ [d] @ b" by (auto simp: contains_str_iff)
  then obtain a u x v where "is_digit d" "s = a @ u @ x # v" "to_lower u = p" "lower_char x = d"
    unfolding lower_append by (auto simp: to_lower_def map_eq_Cons_conv)
  then show "re_search True (map (\<lambda>c. (ReChar c, False)) p @ [(ReDigit, rep)]) s"
    using assms unfolding re_search_iff match_literal match_digits by fastforce
qed

lemma udev_patterns:
  "MatchString ''(?i)add'' s = Inr (contains_str (to_lower s) ''add'')"
  "MatchString ''(?i)remove'' s = Inr (contains_str (to_lower s) ''remove'')"
  "MatchString ''(?i)dm-[0-9]+'' s = Inr (\<exists>d. is_digit d \<and> contains_str (to_lower s) (''dm-'' @ [d]))"
  "MatchString ''(?i)rbd[0-9]'' s = Inr (\<exists>d. is_digit d \<and> contains_str (to_lower s) (''rbd'' @ [d]))"
  "MatchString ''(?i)nbd[0-9]+'' s = Inr (\<exists>d. is_digit d \<and> contains_str (to_lower s) (''nbd'' @ [d]))"
proof -
  have low: "to_lower ''add'' = ''add''" "to_lower ''remove'' = ''remove''" "to_lower ''dm-'' = ''dm-''"
    "to_lower ''rbd'' = ''rbd''" "to_lower ''nbd'' = ''nbd''" by code_simp+
  have flags: "re_flags (''(?i)'' @ p) = (True, p)" for p by (simp add: re_flags_def)
  note flags = flags [of "''add''"] flags [of "''remove''"] flags [of "''dm-[0-9]+''"] flags [of "''rbd[0-9]''"] flags [of "''nbd[0-9]+''"]
  have parse:
    "re_parse ''add'' = Some (map (\<lambda>c. (ReChar c, False)) ''add'')"
    "re_parse ''remove'' = Some (map (\<lambda>c. (ReChar c, False)) ''remove'')"
    "re_parse ''dm-[0-9]+'' = Some (map (\<lambda>c. (ReChar c, False)) ''dm-'' @ [(ReDigit, True)])"
    "re_parse ''rbd[0-9]'' = Some (map (\<lambda>c. (ReChar c, False)) ''rbd'' @ [(ReDigit, False)])"
    "re_parse ''nbd[0-9]+'' = Some (map (\<lambda>c. (ReChar c, False)) ''nbd'' @ [(ReDigit, True)])"
    by code_simp+
  show
    "MatchString ''(?i)add'' s = Inr (contains_str (to_lower s) ''add'')"
    "MatchString ''(?i)remove'' s = Inr (contains_str (to_lower s) ''remove'')"
    "MatchString ''(?i)dm-[0-9]+'' s = Inr (\<exists>d. is_digit d \<and> contains_str (to_lower s) (''dm-'' @ [d]))"
    "MatchString ''(?i)rbd[0-9]'' s = Inr (\<exists>d. is_digit d \<and> contains_str (to_lower s) (''rbd'' @ [d]))"
    "MatchString ''(?i)nbd[0-9]+'' s = Inr (\<exists>d. is_digit d \<and> contains_str (to_lower s) (''nbd'' @ [d]))"
    using flags parse search_literal [OF low(1), of s] search_literal [OF low(2), of s] search_literal_digit [OF low(3), of True s]
      search_literal_digit [OF low(4), of False s] search_literal_digit [OF low(5), of True s]
    by (simp_all add: MatchString_def)
qed

lemma match_udev_value:
  "matchUdevEvent text udevEventMatch udevExclusionFilter =
    Inr ((contains_str (to_lower text) ''add'' \<or> contains_str (to_lower text) ''remove'')
      \<and> \<not> (\<exists>p d. p \<in> {''dm-'', ''rbd'', ''nbd''} \<and> is_digit d \<and> contains_str (to_lower text) (p @ [d])))"
proof -
  define x where "x p \<longleftrightarrow> (\<exists>d. is_digit d \<and> contains_str (to_lower text) (p @ [d]))" for p
  have "(\<exists>p d. p \<in> {''dm-'', ''rbd'', ''nbd''} \<and> is_digit d \<and> contains_str (to_lower text) (p @ [d]))
      \<longleftrightarrow> x ''dm-'' \<or> x ''rbd'' \<or> x ''nbd''" unfolding x_def by blast
  then show ?thesis
    unfolding udevEventMatch_def udevExclusionFilter_def
    by (simp add: udev_patterns x_def [symmetric] del: append.simps)
qed

text \<open>
  A line of \<^verbatim>\<open>udevadm monitor\<close> triggers a probe exactly when it contains add or remove, in any case of letters, and
  names no device-mapper, rbd or nbd device: none of \<^verbatim>\<open>dm-\<close>, \<^verbatim>\<open>rbd\<close>, \<^verbatim>\<open>nbd\<close> is followed by a digit in it. The search
  itself never fails.
\<close>

theorem match_udev_event_exact:
  "matchUdevEvent text udevEventMatch udevExclusionFilter =
    Inr ((contains_str (to_lower text) ''add'' \<or> contains_str (to_lower text) ''remove'')
      \<and> \<not> (\<exists>p d. p \<in> {''dm-'', ''rbd'', ''nbd''} \<and> is_digit d \<and> contains_str (to_lower text) (p @ [d])))"
  by (rule match_udev_value)

section \<open>Lemmas on bursts\<close>

definition raw_events :: "monitor_input list \<Rightarrow> string list" where
  "raw_events is = concat (map (\<lambda>i. case i of RawEvent e \<Rightarrow> [e] | _ \<Rightarrow> []) is)"

definition pending :: "monitor_state \<Rightarrow> string list" where
  "pending s = (case s of Collecting e \<Rightarrow> [e] | _ \<Rightarrow> [])"

lemma monitor_run_inv:
  "monitor_run s is outs s' \<Longrightarrow>
    length outs = count_list is TimerFired \<and> subseq (outs @ pending s') (pending s @ raw_events is)"
proof (induction rule: monitor_run.induct)
  case (run_step s i out s1 "is" outs s2)
  then show ?case
    by (elim monitor_stepE) (auto simp: raw_events_def pending_def intro: subseq_order.trans [OF _ subseq_Cons2])
qed (simp add: raw_events_def)

text \<open>
  In every run of the monitor, whatever the interleaving of raw events and timer expiries, it passes on
  exactly one event for each expiry; the events passed on, and the one still held back, are raw events in
  the order they arrived.
\<close>

theorem udev_bursts_collapse:
  assumes "monitor_run Waiting inputs outs s"
  shows "length outs = count_list inputs TimerFired \<and> subseq (outs @ pending s) (raw_events inputs)"
  using monitor_run_inv [OF assms] by (simp add: pending_def)

theorem udev_bursts_collapse_witness:
  "monitor_run Waiting [RawEvent ''add sda'', RawEvent ''add sdb'', TimerFired] [''add sda''] Waiting
   \<and> length [''add sda''] = count_list [RawEvent ''add sda'', RawEvent ''add sdb'', TimerFired] TimerFired"
proof -
  have run: "monitor_run Waiting [RawEvent ''add sda'', RawEvent ''add sdb'', TimerFired] [''add sda''] Waiting"
    by (simp add: monitor_run_simps monitor_step_simps)
  show ?thesis using run udev_bursts_collapse [OF run] by blast
qed


section \<open>From the process to the probes\<close>

text \<open>The raw monitor feeds the collapsing one: its events in order, then the end of the channel; the timer may fire at any time.\<close>

definition fed_by :: "string list \<Rightarrow> monitor_input list \<Rightarrow> bool" where
  "fed_by events inputs \<longleftrightarrow> filter (\<lambda>i. i \<noteq> TimerFired) inputs = map RawEvent events @ [RawClosed]"

lemma fed_raw: "fed_by events inputs \<Longrightarrow> raw_events inputs = events"
proof -
  have "raw_events inputs = raw_events (filter (\<lambda>i. i \<noteq> TimerFired) inputs)"
    by (induction inputs) (auto simp: raw_events_def split: monitor_input.split)
  moreover have "raw_events (map RawEvent events @ [RawClosed]) = events"
    by (induction events) (auto simp: raw_events_def)
  ultimately show "fed_by events inputs \<Longrightarrow> raw_events inputs = events" by (simp add: fed_by_def)
qed

lemma stopped_run: "monitor_run Stopped inputs outs s \<longleftrightarrow> inputs = [] \<and> outs = [] \<and> s = Stopped"
  by (cases inputs) (auto simp: monitor_run_simps monitor_step_simps)

lemma closed_stops: "monitor_run s inputs outs s' \<Longrightarrow> RawClosed \<in> set inputs \<Longrightarrow> s' = Stopped"
proof (induction rule: monitor_run.induct)
  case (run_step s i out s1 inputs outs s2)
  show ?case
  proof (cases "i = RawClosed")
    case True
    with run_step.hyps(1) have "s1 = Stopped" by (auto elim: monitor_stepE)
    with run_step.hyps(2) show ?thesis by (simp add: stopped_run)
  qed (use run_step in auto)
qed simp

text \<open>A line that counts as an event: an add or remove, in any case of letters, that names no device-mapper, rbd or nbd device.\<close>

definition udev_event :: "string \<Rightarrow> bool" where
  "udev_event line \<longleftrightarrow> (contains_str (to_lower line) ''add'' \<or> contains_str (to_lower line) ''remove'')
     \<and> \<not> (\<exists>p d. p \<in> {''dm-'', ''rbd'', ''nbd''} \<and> is_digit d \<and> contains_str (to_lower line) (p @ [d]))"

lemma scanLoop_events: "scanLoop udevEventMatch udevExclusionFilter lines = filter udev_event lines"
proof -
  have "matchUdevEvent line udevEventMatch udevExclusionFilter = Inr (udev_event line)" for line
    by (simp only: match_udev_value udev_event_def)
  then show ?thesis by (induction lines) simp_all
qed

text \<open>
  C28: from the udev process to the probes. Whatever the process prints and whenever the timer fires, the events
  passed on are lines of its output that contain add or remove and name no device-mapper, rbd or nbd device, in their order and one for each expiry of the timer; when the
  process ends, or could not be started, the channel is closed, and an event still held back is not passed on.
\<close>

theorem udev_monitor_end_to_end:
  assumes "fed_by (rawUdevBlockMonitor u udevEventMatch udevExclusionFilter) inputs" "monitor_run Waiting inputs outs s"
  shows "s = Stopped \<and> length outs = count_list inputs TimerFired
    \<and> subseq outs (filter udev_event (up_lines u))
    \<and> ((newUdevMonitorCommand u = None \<or> up_startErr u \<noteq> None) \<longrightarrow> outs = [])"
proof -
  let ?raw = "rawUdevBlockMonitor u udevEventMatch udevExclusionFilter"
  have "RawClosed \<in> set (filter (\<lambda>i. i \<noteq> TimerFired) inputs)" using assms(1) by (simp add: fed_by_def)
  then have stop: "s = Stopped" by (intro closed_stops [OF assms(2)]) simp
  have run: "length outs = count_list inputs TimerFired" "subseq outs ?raw"
    using monitor_run_inv [OF assms(2)] fed_raw [OF assms(1)] by (simp_all add: stop pending_def)
  have raw: "?raw = [] \<or> ?raw = filter udev_event (up_lines u)"
    by (simp add: rawUdevBlockMonitor_def scanLoop_events split: option.split)
  then have "subseq ?raw (filter udev_event (up_lines u))" by auto
  then have sub: "subseq outs (filter udev_event (up_lines u))"
    by (rule subseq_order.trans [OF run(2)])
  have none: "outs = []" if "newUdevMonitorCommand u = None \<or> up_startErr u \<noteq> None"
  proof -
    have "?raw = []" using that by (auto simp: rawUdevBlockMonitor_def split: option.split)
    with run(2) have "subseq outs []" by simp
    then show ?thesis by (rule list_emb_Nil2)
  qed
  from stop run(1) sub none show ?thesis by blast
qed

definition demo_udev :: udev_process where
  "demo_udev = \<lparr>up_lookPath = (\<lambda>n. True), up_stdoutErr = None, up_stderrErr = None, up_startErr = None,
     up_lines = [''KERNEL add /sda'', ''KERNEL change /sda'', ''KERNEL add /dm-1'', ''UDEV remove /sdb''], up_scanErr = None\<rparr>"

theorem udev_monitor_end_to_end_witness:
  "monitor_run Waiting [RawEvent ''KERNEL add /sda'', TimerFired, RawEvent ''UDEV remove /sdb'', RawClosed] [''KERNEL add /sda''] Stopped
   \<and> subseq [''KERNEL add /sda''] (filter udev_event (up_lines demo_udev))"
proof -
  let ?is = "[RawEvent ''KERNEL add /sda'', TimerFired, RawEvent ''UDEV remove /sdb'', RawClosed]"
  have run: "monitor_run Waiting ?is [''KERNEL add /sda''] Stopped"
    by (simp add: monitor_run_simps monitor_step_simps)
  have "rawUdevBlockMonitor demo_udev udevEventMatch udevExclusionFilter = [''KERNEL add /sda'', ''UDEV remove /sdb'']" by code_simp
  then have fed: "fed_by (rawUdevBlockMonitor demo_udev udevEventMatch udevExclusionFilter) ?is" by (simp add: fed_by_def)
  from udev_monitor_end_to_end [OF fed run] run show ?thesis by blast
qed

end
