(* ===== verification/DiskTable.thy ===== *)
theory DiskTable
  imports DiskUtil
begin

text \<open>
  The text format of \<^verbatim>\<open>lsblk --pairs\<close>. The first part models \<^verbatim>\<open>pkg/diskmaker/controllers/lv/disktable.go\<close>, the table of disks by
  kernel name and parent. The second part relates the parsers to the printer: what lsblk prints for a
  list of devices is read back as these devices.
\<close>

section \<open>The disk table\<close>

type_synonym disk_table = "smap list"

definition parsePairs :: "string list \<Rightarrow> smap \<Rightarrow> smap" where
  "parsePairs props propMap =
     fold (\<lambda>kvpRaw m. case split_char (CHR ''='') kvpRaw of
             [k, v] \<Rightarrow> AList.update k (remove_char quote v) m
           | _ \<Rightarrow> m) props propMap"

definition parseKeyValuePairString :: "string \<Rightarrow> smap" where
  "parseKeyValuePairString propsRaw = parsePairs (split_char (CHR '' '') propsRaw) []"

definition parse :: "string \<Rightarrow> disk_table \<Rightarrow> disk_table" where
  "parse output disks =
     disks @ filter (\<lambda>props. length props > 0) (map parseKeyValuePairString (split_char newline output))"

definition prop_of :: "smap \<Rightarrow> string \<Rightarrow> string" where
  "prop_of disk k = (case map_of disk k of Some v \<Rightarrow> v | None \<Rightarrow> '''')"

definition filterUsableDisks :: "disk_table \<Rightarrow> disk_table" where
  "filterUsableDisks disks =
     filter (\<lambda>disk. \<not> length (prop_of disk ''MOUNTPOINT'') > 0
        \<and> \<not> list_ex (\<lambda>disk2. prop_of disk2 ''PKNAME'' = prop_of disk ''KNAME'') disks) disks"

section \<open>The printer\<close>

definition print_pair :: "string \<times> string \<Rightarrow> string" where
  "print_pair kv = fst kv @ ''='' @ [quote] @ snd kv @ [quote]"

definition print_row :: "smap \<Rightarrow> string" where
  "print_row kvs = join_str '' '' (map print_pair kvs)"

text \<open>The columns in the order the program asks for.\<close>

definition lsblk_columns :: "block_device \<Rightarrow> smap" where
  "lsblk_columns d =
     [(''NAME'', bd_Name d), (''ROTA'', bd_Rotational d), (''TYPE'', bd_Type d), (''SIZE'', bd_Size d), (''MODEL'', bd_Model d),
      (''VENDOR'', bd_Vendor d), (''RO'', bd_ReadOnly d), (''RM'', bd_Removable d), (''STATE'', bd_State d), (''KNAME'', bd_KName d),
      (''SERIAL'', bd_Serial d), (''PARTLABEL'', bd_PartLabel d)]"

definition lsblk_output :: "block_device list \<Rightarrow> string" where
  "lsblk_output ds = concat (map (\<lambda>d. print_row (lsblk_columns d) @ [newline]) ds)"

text \<open>Values that survive: without equals sign, quote or line break, and without surrounding space.\<close>

definition printable :: "string \<Rightarrow> bool" where
  "printable v \<longleftrightarrow> CHR ''='' \<notin> set v \<and> quote \<notin> set v \<and> newline \<notin> set v \<and> trim_space v = v"

definition plain_key :: "string \<Rightarrow> bool" where
  "plain_key k \<longleftrightarrow> CHR ''='' \<notin> set k \<and> quote \<notin> set k \<and> newline \<notin> set k"

definition printable_device :: "block_device \<Rightarrow> bool" where
  "printable_device d \<longleftrightarrow> list_all (\<lambda>kv. printable (snd kv)) (lsblk_columns d) \<and> bd_Name d \<noteq> [] \<and> bd_PathByID d = []"

text \<open>What the program adds to the columns: the file system blkid reported for the device's name.\<close>

definition with_fs :: "smap \<Rightarrow> block_device \<Rightarrow> block_device" where
  "with_fs m d = d\<lparr>bd_FSType := (case map_of m (''/dev/'' @ bd_Name d) of Some fs \<Rightarrow> fs | None \<Rightarrow> '''')\<rparr>"

section \<open>Lemmas on splitting\<close>

lemma split_pair_ne [simp]: "split_pair a b s \<noteq> []"
  by (induction a b s rule: split_pair.induct) (auto split: list.splits)

lemma split_pair_free: "a \<notin> set s \<Longrightarrow> split_pair a b s = [s]"
  by (induction a b s rule: split_pair.induct) auto

text \<open>A separator is found behind text in which none starts.\<close>

lemma split_pair_Cons:
  "\<not> (c = a \<and> s \<noteq> [] \<and> hd s = b) \<Longrightarrow>
    split_pair a b (c # s) = (c # hd (split_pair a b s)) # tl (split_pair a b s)"
  by (cases s) (auto split: list.splits)

lemma split_pair_prefix:
  "a \<notin> set p \<Longrightarrow> split_pair a b (p @ s) = (p @ hd (split_pair a b s)) # tl (split_pair a b s)"
  by (induction p) (auto simp: split_pair_Cons)

lemma trimmed_head: "trim_set cs (c # l) = c # l \<Longrightarrow> c \<notin> set cs"
proof
  assume eq: "trim_set cs (c # l) = c # l" and c: "c \<in> set cs"
  have "length (trim_set cs (c # l)) \<le> length l"
    unfolding trim_set_def trim_left_set_def using c
    by (simp add: le_trans [OF length_dropWhile_le] length_dropWhile_le)
  then show False unfolding eq by simp
qed

lemma printable_head: "printable v \<Longrightarrow> v \<noteq> [] \<Longrightarrow> hd v \<noteq> CHR '' ''"
  by (cases v) (auto simp: printable_def trim_space_def space_chars_def dest: trimmed_head)

text \<open>Splitting at the separator quote-space takes the first printed pair off.\<close>

lemma split_printed:
  assumes "plain_key k" "printable v"
  shows "split_pair quote (CHR '' '') (print_pair (k, v) @ '' '' @ s) = (k @ ''='' @ [quote] @ v) # split_pair quote (CHR '' '') s"
    and "split_pair quote (CHR '' '') (print_pair (k, v)) = [print_pair (k, v)]"
proof -
  have k: "quote \<notin> set (k @ ''='')" and v: "quote \<notin> set v" using assms by (auto simp: plain_key_def printable_def)
  have q: "split_pair quote (CHR '' '') (quote # v @ t) = (quote # hd (split_pair quote (CHR '' '') (v @ t))) # tl (split_pair quote (CHR '' '') (v @ t))"
    if "v = [] \<longrightarrow> t \<noteq> [] \<and> hd t \<noteq> CHR '' ''" for t
    by (rule split_pair_Cons) (use that printable_head [OF assms(2)] in \<open>cases v; auto\<close>)
  show "split_pair quote (CHR '' '') (print_pair (k, v) @ '' '' @ s) = (k @ ''='' @ [quote] @ v) # split_pair quote (CHR '' '') s"
    using split_pair_prefix [OF k, of "CHR '' ''" "quote # v @ quote # CHR '' '' # s"] q [of "quote # CHR '' '' # s"]
      split_pair_prefix [OF v, of "CHR '' ''" "quote # CHR '' '' # s"]
    by (simp add: print_pair_def)
  show "split_pair quote (CHR '' '') (print_pair (k, v)) = [print_pair (k, v)]"
    using split_pair_prefix [OF k, of "CHR '' ''" "quote # v @ [quote]"] q [of "[quote]"] split_pair_prefix [OF v, of "CHR '' ''" "[quote]"]
    by (simp add: print_pair_def)
qed

text \<open>Both forms of a piece, with and without the closing quote, parse to the pair.\<close>

lemma parsePair_piece:
  assumes "plain_key k" "printable v" "set q \<subseteq> {quote}"
  shows "parsePair (k @ ''='' @ [quote] @ v @ q) m = AList.update (to_lower k) v m"
proof -
  have "CHR ''='' \<notin> set k" "CHR ''='' \<notin> set ([quote] @ v @ q)" using assms by (auto simp: plain_key_def printable_def)
  then have "split_char (CHR ''='') (k @ [CHR ''=''] @ ([quote] @ v @ q)) = [k, [quote] @ v @ q]"
    unfolding split_char_append by (simp add: split_char_no_sep)
  moreover have "filter (\<lambda>x. x \<noteq> quote) v = v" "filter (\<lambda>x. x \<noteq> quote) q = []"
    using assms by (auto simp: printable_def filter_id_conv filter_empty_conv)
  ultimately show ?thesis using assms(2) by (simp add: parsePair_def remove_char_def printable_def)
qed

lemma parse_row_pairs:
  assumes "list_all (\<lambda>(k, v). plain_key k \<and> printable v) kvs" "kvs \<noteq> []"
  shows "fold parsePair (split_pair quote (CHR '' '') (print_row kvs)) m = fold (\<lambda>(k, v). AList.update (to_lower k) v) kvs m"
  using assms
proof (induction kvs arbitrary: m rule: induct_list012)
  case (2 kv)
  then show ?case
    using split_printed(2) [of "fst kv" "snd kv"] parsePair_piece [of "fst kv" "snd kv" "[quote]" m]
    by (simp add: print_row_def print_pair_def case_prod_unfold)
next
  case (3 kv kv' kvs)
  have row: "print_row (kv # kv' # kvs) = print_pair (fst kv, snd kv) @ '' '' @ print_row (kv' # kvs)" by (simp add: print_row_def)
  show ?case
    unfolding row split_printed(1) [of "fst kv" "snd kv"]
    using 3 split_printed(1) [of "fst kv" "snd kv" "print_row (kv' # kvs)"] parsePair_piece [of "fst kv" "snd kv" "[]" m]
    by (simp add: case_prod_unfold)
qed simp

section \<open>Reading back what lsblk printed\<close>

lemma column_keys:
  "to_lower ''NAME'' = ''name''" "to_lower ''ROTA'' = ''rota''" "to_lower ''TYPE'' = ''type''" "to_lower ''SIZE'' = ''size''"
  "to_lower ''MODEL'' = ''model''" "to_lower ''VENDOR'' = ''vendor''" "to_lower ''RO'' = ''ro''" "to_lower ''RM'' = ''rm''"
  "to_lower ''STATE'' = ''state''" "to_lower ''KNAME'' = ''kname''" "to_lower ''SERIAL'' = ''serial''" "to_lower ''PARTLABEL'' = ''partlabel''"
  by code_simp+

lemma field_keys:
  "to_lower ''name'' = ''name''" "to_lower ''rota'' = ''rota''" "to_lower ''type'' = ''type''" "to_lower ''size'' = ''size''"
  "to_lower ''model'' = ''model''" "to_lower ''vendor'' = ''vendor''" "to_lower ''ro'' = ''ro''" "to_lower ''rm'' = ''rm''"
  "to_lower ''state'' = ''state''" "to_lower ''kname'' = ''kname''" "to_lower ''serial'' = ''serial''" "to_lower ''partLabel'' = ''partlabel''"
  "to_lower ''fsType'' = ''fstype''" "to_lower ''pathByID'' = ''pathbyid''"
  by code_simp+

definition column_map :: "block_device \<Rightarrow> smap" where
  "column_map d = map (\<lambda>(k, v). (to_lower k, v)) (lsblk_columns d)"

lemma fold_update_columns: "fold (\<lambda>(k, v). AList.update (to_lower k) v) (lsblk_columns d) [] = column_map d"
  unfolding column_map_def lsblk_columns_def by (simp add: column_keys)

lemma columns_plain: "printable_device d \<Longrightarrow> list_all (\<lambda>(k, v). plain_key k \<and> printable v) (lsblk_columns d)"
  by (simp add: printable_device_def lsblk_columns_def plain_key_def)

lemma trim_nonempty:
  assumes "v \<noteq> []" "hd v \<notin> set cs"
  shows "trim_set cs v \<noteq> []"
proof -
  have "trim_left_set cs v = v" using assms by (cases v) (auto simp: trim_left_set_def)
  moreover have "\<exists>x \<in> set v. x \<notin> set cs" using assms hd_in_set by blast
  ultimately show ?thesis by (auto simp: trim_set_def trim_left_set_def)
qed

lemma row_parsed:
  assumes "printable_device d"
  shows "parseLSBLKRow (print_row (lsblk_columns d)) m =
    Some (case map_of m (''/dev/'' @ bd_Name d) of Some fs \<Rightarrow> AList.update ''fsType'' fs (column_map d) | None \<Rightarrow> column_map d)"
proof -
  have name: "bd_Name d \<noteq> []" "printable (bd_Name d)" using assms by (auto simp: printable_device_def lsblk_columns_def)
  have "fold parsePair (split_pair quote (CHR '' '') (print_row (lsblk_columns d))) [] = column_map d"
    using parse_row_pairs [OF columns_plain [OF assms]] fold_update_columns [of d] by (simp add: lsblk_columns_def)
  moreover have "map_of (column_map d) ''name'' = Some (bd_Name d)" by (simp add: column_map_def lsblk_columns_def column_keys)
  moreover have "trim_set [CHR '' ''] (bd_Name d) \<noteq> []"
    using printable_head [OF name(2,1)] name(1) by (intro trim_nonempty) auto
  ultimately show ?thesis unfolding parseLSBLKRow_def Let_def by (simp split: option.split)
qed

lemma row_device:
  assumes "printable_device d"
  shows "rowDevice (parseLSBLKRow (print_row (lsblk_columns d)) m) = with_fs m d"
proof -
  have "bd_PathByID d = []" using assms by (simp add: printable_device_def)
  then show ?thesis
    unfolding row_parsed [OF assms]
    by (cases "map_of m (''/dev/'' @ bd_Name d)")
       (simp_all add: rowDevice_def with_fs_def column_map_def lsblk_columns_def json_field_def field_keys column_keys)
qed

lemma printed_row: "\<exists>s. print_row (lsblk_columns d) = CHR ''N'' # s"
  by (simp add: print_row_def lsblk_columns_def print_pair_def)

lemma row_no_newline: "printable_device d \<Longrightarrow> newline \<notin> set (print_row (lsblk_columns d))"
  by (auto simp: printable_device_def printable_def lsblk_columns_def print_row_def print_pair_def)

abbreviation printed_rows :: "block_device list \<Rightarrow> string list" where
  "printed_rows ds \<equiv> map (\<lambda>d. print_row (lsblk_columns d)) ds"

lemma trim_trailing:
  assumes "s \<noteq> []" "hd s \<notin> set cs" "last s \<notin> set cs" "set t \<subseteq> set cs"
  shows "trim_set cs (s @ t) = s"
proof -
  have "dropWhile (\<lambda>c. c \<in> set cs) (s @ t) = s @ t" using assms(1,2) by (cases s) auto
  moreover have "dropWhile (\<lambda>c. c \<in> set cs) (rev t @ rev s) = rev s"
    using assms by (subst dropWhile_append2) (auto simp: dropWhile_eq_self_iff hd_rev)
  ultimately show ?thesis by (simp add: trim_set_def trim_left_set_def)
qed

lemma row_ends: "last (print_row (lsblk_columns d)) = quote"
  by (simp add: print_row_def lsblk_columns_def print_pair_def)

lemma output_joined: "ds \<noteq> [] \<Longrightarrow> lsblk_output ds = join_str [newline] (printed_rows ds) @ [newline]"
  by (induction ds rule: induct_list012) (auto simp: lsblk_output_def)

lemma joined_ends:
  "ds \<noteq> [] \<Longrightarrow> (\<exists>s. join_str [newline] (printed_rows ds) = CHR ''N'' # s) \<and> last (join_str [newline] (printed_rows ds)) = quote"
proof (induction ds rule: induct_list012)
  case (2 d)
  then show ?case using printed_row [of d] row_ends [of d] by simp
next
  case (3 d d' ds)
  obtain s where s: "print_row (lsblk_columns d) = CHR ''N'' # s" using printed_row by blast
  have "join_str [newline] (printed_rows (d' # ds)) \<noteq> []" using 3 by auto
  then show ?case using 3 s by (auto simp: last_append)
qed simp

lemma split_output:
  assumes "list_all printable_device ds" "ds \<noteq> []"
  shows "split_char newline (join_str [newline] (printed_rows ds)) = printed_rows ds"
  using assms
proof (induction ds rule: induct_list012)
  case (3 d d' ds)
  then show ?case
    using split_char_append [of newline "print_row (lsblk_columns d)" "join_str [newline] (printed_rows (d' # ds))"]
      split_char_no_sep [OF row_no_newline [of d]] by simp
qed (auto simp: split_char_no_sep row_no_newline)

text \<open>The command's output is trimmed before it is split.\<close>

lemma rows_of_output:
  assumes "list_all printable_device ds"
  shows "\<exists>rest. split_char newline (trim_space (lsblk_output ds)) = printed_rows ds @ rest
    \<and> lsblkRows (split_char newline (trim_space (lsblk_output ds))) = printed_rows ds \<and> printed_rows ds @ rest \<noteq> []"
proof (cases "ds = []")
  case True
  then show ?thesis by (simp add: lsblk_output_def trim_space_def trim_set_def trim_left_set_def lsblkRows_def)
next
  case False
  have "trim_space (lsblk_output ds) = join_str [newline] (printed_rows ds)"
    unfolding output_joined [OF False] trim_space_def
    using joined_ends [OF False] by (intro trim_trailing) (auto simp: space_chars_def)
  then have split: "split_char newline (trim_space (lsblk_output ds)) = printed_rows ds"
    using split_output [OF assms False] by simp
  have "trim_set [CHR '' ''] (print_row (lsblk_columns d)) \<noteq> []" for d
    using printed_row [of d] by (intro trim_nonempty) auto
  then show ?thesis unfolding split lsblkRows_def using False by (auto simp: takeWhile_eq_all_conv)
qed

text \<open>
  C29: listing the block devices reads back what \<^verbatim>\<open>lsblk --pairs\<close> printed: every printed device, in order, field by
  field, and nothing else, each with the file system that blkid reported for its name. It holds for
  field values without equals sign, quote, line break and surrounding space; inner spaces, as in model and
  vendor names, survive.
\<close>

theorem list_block_devices_roundtrip:
  assumes "CmdExecutor h ''lsblk''
      [''--pairs'', ''-b'', ''-o'', ''NAME,ROTA,TYPE,SIZE,MODEL,VENDOR,RO,RM,STATE,KNAME,SERIAL,PARTLABEL''] = (lsblk_output ds, None)"
    and "GetDeviceFSMap h devices = Inr m" and "list_all printable_device ds"
  shows "ListBlockDevices h devices = ((map (with_fs m) ds, []), None)"
proof -
  obtain rest where rest: "split_char newline (trim_space (lsblk_output ds)) = printed_rows ds @ rest" "printed_rows ds @ rest \<noteq> []"
    and rows: "lsblkRows (split_char newline (trim_space (lsblk_output ds))) = printed_rows ds"
    using rows_of_output [OF assms(3)] by blast
  have bad: "filter (\<lambda>row. parseLSBLKRow row m = None) (printed_rows ds) = []"
    using assms(3) by (auto simp: filter_empty_conv list_all_iff row_parsed)
  have "map (\<lambda>d. rowDevice (parseLSBLKRow (print_row (lsblk_columns d)) m)) ds = map (with_fs m) ds"
    using assms(3) by (auto simp: list_all_iff row_device)
  then have devs: "map rowDevice (map (\<lambda>row. parseLSBLKRow row m) (printed_rows ds)) = map (with_fs m) ds" by (simp add: comp_def)
  have exec: "executeCmdWithCombinedOutput h ''lsblk''
      [''--pairs'', ''-b'', ''-o'', ''NAME,ROTA,TYPE,SIZE,MODEL,VENDOR,RO,RM,STATE,KNAME,SERIAL,PARTLABEL''] = (trim_space (lsblk_output ds), None)"
    unfolding executeCmdWithCombinedOutput_def assms(1) by simp
  have "length ([] :: string list) \<noteq> length (printed_rows ds @ rest)" using rest(2) by simp
  then show ?thesis
    unfolding ListBlockDevices_def exec assms(2) sum.case prod.case option.case Let_def rest(1) rows [unfolded rest(1)] bad devs by simp
qed

definition blank_disk :: block_device where
  "blank_disk = empty_block_device\<lparr>bd_Name := ''sda'', bd_KName := ''sda'', bd_Type := ''disk'', bd_Model := ''Fast SSD'', bd_Size := ''10'', bd_ReadOnly := ''0''\<rparr>"

definition lsblk_host :: host where
  "lsblk_host = \<lparr>FilePathGlob = (\<lambda>p. Inr []), FilePathEvalSymLinks = (\<lambda>p. Inr p), Readlink = (\<lambda>p. Inr p), mountFile = Inr '''',
     CmdExecutor = (\<lambda>c a. if c = ''lsblk'' then (lsblk_output [blank_disk], None) else ('''', None)), OpenExclusive = (\<lambda>p. Inr 3)\<rparr>"

theorem list_block_devices_roundtrip_witness: "ListBlockDevices lsblk_host [] = (([blank_disk], []), None)"
proof -
  have p: "list_all printable_device [blank_disk]" by code_simp
  have l: "CmdExecutor lsblk_host ''lsblk''
      [''--pairs'', ''-b'', ''-o'', ''NAME,ROTA,TYPE,SIZE,MODEL,VENDOR,RO,RM,STATE,KNAME,SERIAL,PARTLABEL''] = (lsblk_output [blank_disk], None)"
    by (simp add: lsblk_host_def)
  have m: "GetDeviceFSMap lsblk_host [] = Inr []"
    by (simp add: GetDeviceFSMap_def executeCmdWithCombinedOutput_def lsblk_host_def parseBlkidLine_def trim_space_def trim_set_def trim_left_set_def)
  show ?thesis using list_block_devices_roundtrip [OF l m p] by (simp add: with_fs_def blank_disk_def empty_block_device_def)
qed

end
