(* ===== verification/GoHeap.thy ===== *)
theory GoHeap
  imports Prelude
begin

text \<open>
  Memory of a Go program, as far as a deep copy needs it. The other theories pass objects as
  immutable values; here a pointer, a slice and a map are references into a store, so that two
  values can share what they refer to. The theory has the store, a description of Go types, what a
  value of a type shows to its reader (\<open>contents\<close>), the addresses it refers to (\<open>reach\<close>) and the
  statements from which the generated copy functions are made: assignment, \<open>new\<close>, \<open>make\<close>, the
  loop over a slice, the loop over a map and the field-wise copy of a struct. The contract of a
  copy function is the locale \<open>deep_copier\<close>; each statement keeps it.
\<close>

section \<open>Values, types and the store\<close>

type_synonym addr = nat

text \<open>
  A struct lists its fields by name. A slice is the address of its array, the index of its first
  element and its length; \<open>None\<close> is nil. A map refers to its entries.
\<close>

datatype gval =
    StrV string
  | IntV int
  | BoolV bool
  | StructV "(string \<times> gval) list"
  | PtrV "addr option"
  | SliceV "(addr \<times> nat \<times> nat) option"
  | MapV "addr option"
  | EntriesV "(string \<times> string) list"

datatype gty =
    TString
  | TInt
  | TBool
  | TStruct "(string \<times> gty) list"
  | TPtr gty
  | TSlice gty
  | TMap

text \<open>An address holds an array; what a pointer or a map refers to is an array of one element.\<close>

record mem =
  cells :: "addr \<rightharpoonup> gval list"
  next_addr :: addr

definition wf_mem :: "mem \<Rightarrow> bool" where
  "wf_mem m \<longleftrightarrow> (\<forall>a \<in> dom (cells m). a < next_addr m)"

definition alloc :: "gval list \<Rightarrow> mem \<Rightarrow> addr \<times> mem" where
  "alloc vs m = (next_addr m, m\<lparr>cells := (cells m)(next_addr m \<mapsto> vs), next_addr := Suc (next_addr m)\<rparr>)"

definition put_array :: "addr \<Rightarrow> gval list \<Rightarrow> mem \<Rightarrow> mem" where
  "put_array a vs m = m\<lparr>cells := (cells m)(a \<mapsto> vs)\<rparr>"

definition store_elem :: "addr \<Rightarrow> nat \<Rightarrow> gval \<Rightarrow> mem \<Rightarrow> mem" where
  "store_elem a i v m = (case cells m a of None \<Rightarrow> m | Some xs \<Rightarrow> put_array a (xs[i := v]) m)"

text \<open>The zero value of a type, as \<open>new\<close> and \<open>make\<close> leave it.\<close>

fun zero_value :: "gty \<Rightarrow> gval" where
  "zero_value TString = StrV ''''"
| "zero_value TInt = IntV 0"
| "zero_value TBool = BoolV False"
| "zero_value (TStruct fs) = StructV (map (\<lambda>(f, t). (f, zero_value t)) fs)"
| "zero_value (TPtr t) = PtrV None"
| "zero_value (TSlice t) = SliceV None"
| "zero_value TMap = MapV None"

definition window :: "nat \<Rightarrow> nat \<Rightarrow> 'a list \<Rightarrow> 'a list" where
  "window off n xs = take n (drop off xs)"

text \<open>
  \<open>has_type t v m\<close>: \<open>v\<close> is a value of type \<open>t\<close> and every reference in it leads to an allocated
  value of the right type. All elements of an array have one type, also those outside the slice.
\<close>

fun has_type :: "gty \<Rightarrow> gval \<Rightarrow> mem \<Rightarrow> bool"
  and fields_typed :: "(string \<times> gty) list \<Rightarrow> (string \<times> gval) list \<Rightarrow> mem \<Rightarrow> bool" where
  "has_type TString v m = (case v of StrV _ \<Rightarrow> True | _ \<Rightarrow> False)"
| "has_type TInt v m = (case v of IntV _ \<Rightarrow> True | _ \<Rightarrow> False)"
| "has_type TBool v m = (case v of BoolV _ \<Rightarrow> True | _ \<Rightarrow> False)"
| "has_type (TStruct fs) v m = (case v of StructV vs \<Rightarrow> map fst vs = map fst fs \<and> fields_typed fs vs m | _ \<Rightarrow> False)"
| "has_type (TPtr t) v m = (case v of PtrV None \<Rightarrow> True
     | PtrV (Some a) \<Rightarrow> (case cells m a of Some [x] \<Rightarrow> has_type t x m | _ \<Rightarrow> False) | _ \<Rightarrow> False)"
| "has_type (TSlice t) v m = (case v of SliceV None \<Rightarrow> True
     | SliceV (Some (a, off, n)) \<Rightarrow> (case cells m a of
          Some xs \<Rightarrow> off + n \<le> length xs \<and> (\<forall>x \<in> set xs. has_type t x m) | None \<Rightarrow> False)
     | _ \<Rightarrow> False)"
| "has_type TMap v m = (case v of MapV None \<Rightarrow> True
     | MapV (Some a) \<Rightarrow> (case cells m a of Some [EntriesV es] \<Rightarrow> distinct (map fst es) | _ \<Rightarrow> False) | _ \<Rightarrow> False)"
| "fields_typed [] vs m = True"
| "fields_typed ((f, t) # fs) vs m = ((case map_of vs f of Some v \<Rightarrow> has_type t v m | None \<Rightarrow> False) \<and> fields_typed fs vs m)"

text \<open>What a reader sees: the value with every reference followed.\<close>

datatype tree =
    Leaf gval
  | Fields "(string \<times> tree) list"
  | Target "tree option"
  | Elements "tree list option"
  | Entries "(string \<times> string) list option"

fun contents :: "gty \<Rightarrow> gval \<Rightarrow> mem \<Rightarrow> tree"
  and field_contents :: "(string \<times> gty) list \<Rightarrow> (string \<times> gval) list \<Rightarrow> mem \<Rightarrow> (string \<times> tree) list" where
  "contents TString v m = Leaf v"
| "contents TInt v m = Leaf v"
| "contents TBool v m = Leaf v"
| "contents (TStruct fs) v m = (case v of StructV vs \<Rightarrow> Fields (field_contents fs vs m) | _ \<Rightarrow> Leaf v)"
| "contents (TPtr t) v m = (case v of
     PtrV (Some a) \<Rightarrow> (case cells m a of Some [x] \<Rightarrow> Target (Some (contents t x m)) | _ \<Rightarrow> Leaf v)
   | _ \<Rightarrow> Target None)"
| "contents (TSlice t) v m = (case v of
     SliceV (Some (a, off, n)) \<Rightarrow> (case cells m a of
        Some xs \<Rightarrow> Elements (Some (map (\<lambda>x. contents t x m) (window off n xs))) | None \<Rightarrow> Leaf v)
   | _ \<Rightarrow> Elements None)"
| "contents TMap v m = (case v of
     MapV (Some a) \<Rightarrow> (case cells m a of Some [EntriesV es] \<Rightarrow> Entries (Some es) | _ \<Rightarrow> Leaf v)
   | _ \<Rightarrow> Entries None)"
| "field_contents [] vs m = []"
| "field_contents ((f, t) # fs) vs m =
     (case map_of vs f of Some v \<Rightarrow> [(f, contents t v m)] | None \<Rightarrow> []) @ field_contents fs vs m"

text \<open>The addresses that hold a part of the value, the whole array behind a slice included.\<close>

fun reach :: "gty \<Rightarrow> gval \<Rightarrow> mem \<Rightarrow> addr set"
  and field_reach :: "(string \<times> gty) list \<Rightarrow> (string \<times> gval) list \<Rightarrow> mem \<Rightarrow> addr set" where
  "reach TString v m = {}"
| "reach TInt v m = {}"
| "reach TBool v m = {}"
| "reach (TStruct fs) v m = (case v of StructV vs \<Rightarrow> field_reach fs vs m | _ \<Rightarrow> {})"
| "reach (TPtr t) v m = (case v of
     PtrV (Some a) \<Rightarrow> insert a (case cells m a of Some [x] \<Rightarrow> reach t x m | _ \<Rightarrow> {}) | _ \<Rightarrow> {})"
| "reach (TSlice t) v m = (case v of
     SliceV (Some (a, off, n)) \<Rightarrow> insert a (case cells m a of
        Some xs \<Rightarrow> \<Union> (set (map (\<lambda>x. reach t x m) xs)) | None \<Rightarrow> {})
   | _ \<Rightarrow> {})"
| "reach TMap v m = (case v of MapV (Some a) \<Rightarrow> {a} | _ \<Rightarrow> {})"
| "field_reach [] vs m = {}"
| "field_reach ((f, t) # fs) vs m = (case map_of vs f of Some v \<Rightarrow> reach t v m | None \<Rightarrow> {}) \<union> field_reach fs vs m"

text \<open>A type without references: assigning a value of it copies everything.\<close>

fun flat :: "gty \<Rightarrow> bool"
  and flat_fields :: "(string \<times> gty) list \<Rightarrow> bool" where
  "flat TString = True"
| "flat TInt = True"
| "flat TBool = True"
| "flat (TStruct fs) = flat_fields fs"
| "flat (TPtr t) = False"
| "flat (TSlice t) = False"
| "flat TMap = False"
| "flat_fields [] = True"
| "flat_fields ((f, t) # fs) = (flat t \<and> flat_fields fs)"

section \<open>The statements of a copy function\<close>

text \<open>
  A copier takes what \<open>*in\<close> holds and gives what it writes to \<open>*out\<close>, with the memory after it;
  \<open>None\<close> is a panic (a reference that leads nowhere).
\<close>

type_synonym copier = "gval \<Rightarrow> mem \<Rightarrow> (gval \<times> mem) option"

definition assign :: copier where
  "assign v m = Some (v, m)"

text \<open>\<open>for i := range *in { ... (*out)[i] ... }\<close> on the array \<open>b\<close> that \<open>make\<close> returned.\<close>

fun copy_elems :: "copier \<Rightarrow> addr \<Rightarrow> nat \<Rightarrow> gval list \<Rightarrow> mem \<Rightarrow> mem option" where
  "copy_elems c b i [] m = Some m"
| "copy_elems c b i (v # vs) m =
     (case c v m of None \<Rightarrow> None | Some (v', m') \<Rightarrow> copy_elems c b (Suc i) vs (store_elem b i v' m'))"

definition copy_slice :: "gty \<Rightarrow> copier \<Rightarrow> copier" where
  "copy_slice t c v m = (case v of
     SliceV None \<Rightarrow> Some (SliceV None, m)
   | SliceV (Some (a, off, n)) \<Rightarrow> (case cells m a of
        None \<Rightarrow> None
      | Some xs \<Rightarrow> if length xs < off + n then None else
          (case alloc (replicate n (zero_value t)) m of (b, m1) \<Rightarrow>
             map_option (\<lambda>m'. (SliceV (Some (b, 0, n)), m')) (copy_elems c b 0 (window off n xs) m1)))
   | _ \<Rightarrow> None)"

text \<open>\<open>*out = new(T)\<close>, then the copy into it; a nil pointer stays nil.\<close>

definition copy_pointer :: "gty \<Rightarrow> copier \<Rightarrow> copier" where
  "copy_pointer t c v m = (case v of
     PtrV None \<Rightarrow> Some (PtrV None, m)
   | PtrV (Some a) \<Rightarrow> (case cells m a of
        Some [x] \<Rightarrow> (case alloc [zero_value t] m of (b, m1) \<Rightarrow>
           (case c x m1 of None \<Rightarrow> None | Some (x', m2) \<Rightarrow> Some (PtrV (Some b), store_elem b 0 x' m2)))
      | _ \<Rightarrow> None)
   | _ \<Rightarrow> None)"

text \<open>\<open>make(map[string]string, len(*in))\<close> and \<open>for key, val := range *in { (*out)[key] = val }\<close>.\<close>

fun copy_entries :: "(string \<times> string) list \<Rightarrow> (string \<times> string) list \<Rightarrow> (string \<times> string) list" where
  "copy_entries [] out = out"
| "copy_entries ((k, x) # es) out = copy_entries es (AList.update k x out)"

definition copy_map :: copier where
  "copy_map v m = (case v of
     MapV None \<Rightarrow> Some (MapV None, m)
   | MapV (Some a) \<Rightarrow> (case cells m a of
        Some [EntriesV es] \<Rightarrow> (case alloc [EntriesV []] m of (b, m1) \<Rightarrow>
           Some (MapV (Some b), store_elem b 0 (EntriesV (copy_entries es [])) m1))
      | _ \<Rightarrow> None)
   | _ \<Rightarrow> None)"

text \<open>\<open>*out = *in\<close>, then the statements for single fields in their order; each reads the field of \<open>in\<close>.\<close>

fun copy_fields :: "(string \<times> copier) list \<Rightarrow> (string \<times> gval) list \<Rightarrow> (string \<times> gval) list \<Rightarrow> mem
    \<Rightarrow> ((string \<times> gval) list \<times> mem) option" where
  "copy_fields [] inn out m = Some (out, m)"
| "copy_fields ((f, c) # cs) inn out m = (case map_of inn f of
     None \<Rightarrow> None
   | Some v \<Rightarrow> (case c v m of None \<Rightarrow> None | Some (v', m') \<Rightarrow> copy_fields cs inn (AList.update f v' out) m'))"

definition copy_struct :: "(string \<times> copier) list \<Rightarrow> copier" where
  "copy_struct cs v m = (case v of
     StructV vs \<Rightarrow> map_option (\<lambda>(out, m'). (StructV out, m')) (copy_fields cs vs vs m)
   | _ \<Rightarrow> None)"

section \<open>What depends on which part of the memory\<close>

lemma set_window: "set (window off n xs) \<subseteq> set xs"
  by (auto simp: window_def dest: in_set_takeD in_set_dropD)

definition agree :: "addr set \<Rightarrow> mem \<Rightarrow> mem \<Rightarrow> bool" where
  "agree A m m' \<longleftrightarrow> (\<forall>a \<in> A. cells m' a = cells m a)"

lemma agree_mono: "agree B m m' \<Longrightarrow> A \<subseteq> B \<Longrightarrow> agree A m m'"
  by (auto simp: agree_def)

lemma fields_typed_iff:
  "fields_typed fs vs m \<longleftrightarrow> (\<forall>f t. (f, t) \<in> set fs \<longrightarrow> (\<exists>v. map_of vs f = Some v \<and> has_type t v m))"
proof (induction fs)
  case (Cons p fs)
  then show ?case
    by (cases p; cases "map_of vs (fst p)") auto
qed simp

lemma field_contents_eqI:
  assumes "\<And>f t. (f, t) \<in> set fs \<Longrightarrow> \<exists>v v'. map_of vs f = Some v \<and> map_of vs' f = Some v' \<and> contents t v' m' = contents t v m"
  shows "field_contents fs vs' m' = field_contents fs vs m"
  using assms
proof (induction fs)
  case (Cons p fs)
  obtain f t where p: "p = (f, t)" by (cases p)
  from Cons.prems[of f t] p have "\<exists>v v'. map_of vs f = Some v \<and> map_of vs' f = Some v' \<and> contents t v' m' = contents t v m"
    by simp
  moreover have "field_contents fs vs' m' = field_contents fs vs m"
    using Cons.prems by (intro Cons.IH) simp
  ultimately show ?case by (auto simp: p)
qed simp

lemma field_reach_eq:
  "field_reach fs vs m = (\<Union>(f, t) \<in> set fs. case map_of vs f of Some v \<Rightarrow> reach t v m | None \<Rightarrow> {})"
  by (induction fs) auto

text \<open>Memories that agree on the addresses a value reaches show the same value there.\<close>

lemma frame:
  "agree (reach t v m) m m' \<Longrightarrow> has_type t v m' = has_type t v m \<and> contents t v m' = contents t v m \<and> reach t v m' = reach t v m"
  "agree (field_reach fs vs m) m m' \<Longrightarrow> fields_typed fs vs m' = fields_typed fs vs m
     \<and> field_contents fs vs m' = field_contents fs vs m \<and> field_reach fs vs m' = field_reach fs vs m"
proof (induction t v m and fs vs m rule: reach_field_reach.induct)
  case (6 t v m)
  show ?case
  proof (cases "\<exists>a off n xs. v = SliceV (Some (a, off, n)) \<and> cells m a = Some xs")
    case True
    then obtain a off n xs where v: "v = SliceV (Some (a, off, n))" "cells m a = Some xs" by blast
    with 6 have "has_type t x m' = has_type t x m \<and> contents t x m' = contents t x m \<and> reach t x m' = reach t x m"
      if "x \<in> set xs" for x
      using that by (auto simp: agree_def)
    moreover have "cells m' a = Some xs" using 6 v by (auto simp: agree_def)
    ultimately show ?thesis
      using v set_window[of off n xs] by (auto simp: subset_iff)
  next
    case False
    with 6 show ?thesis by (auto simp: agree_def split: gval.splits option.splits)
  qed
next
  case (9 f t fs vs m)
  then show ?case
    by (cases "map_of vs f") (auto simp: agree_def)
qed (auto simp: agree_def split: gval.splits option.splits list.splits)

lemma reach_allocated:
  "has_type t v m \<Longrightarrow> reach t v m \<subseteq> dom (cells m)"
  "fields_typed fs vs m \<Longrightarrow> field_reach fs vs m \<subseteq> dom (cells m)"
  by (induction t v m and fs vs m rule: has_type_fields_typed.induct)
    (fastforce split: gval.splits option.splits list.splits)+

lemma reach_below: "has_type t v m \<Longrightarrow> wf_mem m \<Longrightarrow> reach t v m \<subseteq> {..<next_addr m}"
  using reach_allocated(1)[of t v m] by (auto simp: wf_mem_def)

lemma flat_reach:
  "flat t \<Longrightarrow> reach t v m = {}"
  "flat_fields fs \<Longrightarrow> field_reach fs vs m = {}"
  by (induction t v m and fs vs m rule: reach_field_reach.induct) (auto split: gval.splits option.splits)

section \<open>The contract of a copy function\<close>

text \<open>
  What a copy function for type \<open>t\<close> promises on every well-typed value: it returns, the memory
  allocated before is as it was, the copy has the type and shows the same contents, and every
  address the copy reaches was allocated by the call.
\<close>

definition copy_result :: "gty \<Rightarrow> gval \<Rightarrow> mem \<Rightarrow> addr \<Rightarrow> gval \<Rightarrow> mem \<Rightarrow> bool" where
  "copy_result t v m lo v' m' \<longleftrightarrow> has_type t v' m' \<and> contents t v' m' = contents t v m \<and> reach t v' m' \<subseteq> {lo..<next_addr m'}"

definition extends :: "mem \<Rightarrow> mem \<Rightarrow> bool" where
  "extends m m' \<longleftrightarrow> wf_mem m' \<and> next_addr m \<le> next_addr m' \<and> agree {..<next_addr m} m m'"

definition deep :: "gty \<Rightarrow> copier \<Rightarrow> bool" where
  "deep t c \<longleftrightarrow> (\<forall>v m. wf_mem m \<and> has_type t v m \<longrightarrow>
     (\<exists>v' m'. c v m = Some (v', m') \<and> extends m m' \<and> copy_result t v m (next_addr m) v' m'))"

lemma deepE:
  assumes "deep t c" "wf_mem m" "has_type t v m"
  obtains v' m' where "c v m = Some (v', m')" "extends m m'" "copy_result t v m (next_addr m) v' m'"
  using assms unfolding deep_def by blast

lemma extends_refl: "wf_mem m \<Longrightarrow> extends m m"
  by (simp add: extends_def agree_def)

lemma extends_trans: "extends m m1 \<Longrightarrow> extends m1 m2 \<Longrightarrow> extends m m2"
  by (auto simp: extends_def agree_def)

lemma extends_frame:
  assumes "extends m m'" "wf_mem m" "has_type t v m"
  shows "has_type t v m'" "contents t v m' = contents t v m" "reach t v m' = reach t v m"
  using frame(1)[of t v m m'] reach_below[OF assms(3,2)] assms(1,3)
  by (auto simp: extends_def intro: agree_mono)

lemma wf_alloc: "wf_mem m \<Longrightarrow> alloc vs m = (b, m1) \<Longrightarrow> wf_mem m1"
  by (auto simp: wf_mem_def alloc_def dom_def less_Suc_eq)

lemma extends_alloc: "wf_mem m \<Longrightarrow> alloc vs m = (b, m1) \<Longrightarrow> extends m m1"
  using wf_alloc[of m vs b m1] by (auto simp: extends_def agree_def alloc_def)

lemma cells_alloc: "alloc vs m = (b, m1) \<Longrightarrow> b = next_addr m \<and> next_addr m1 = Suc b \<and> cells m1 b = Some vs"
  by (auto simp: alloc_def)

lemma wf_put_array: "wf_mem m \<Longrightarrow> a < next_addr m \<Longrightarrow> wf_mem (put_array a vs m)"
  by (auto simp: wf_mem_def put_array_def)

lemma next_put_array [simp]: "next_addr (put_array a vs m) = next_addr m"
  by (simp add: put_array_def)

lemma cells_put_array [simp]: "cells (put_array a vs m) = (cells m)(a \<mapsto> vs)"
  by (simp add: put_array_def)

lemma put_array_outside: "a \<notin> A \<Longrightarrow> agree A m (put_array a vs m)"
  by (auto simp: agree_def)

lemma copy_result_put_array:
  assumes "copy_result t v m lo v' m'" "a < lo"
  shows "copy_result t v m lo v' (put_array a vs m')"
proof -
  have "agree (reach t v' m') m' (put_array a vs m')"
    using assms by (intro put_array_outside) (auto simp: copy_result_def)
  from frame(1)[OF this] assms show ?thesis
    by (simp add: copy_result_def)
qed

lemma copy_result_agree:
  assumes r: "copy_result t v m lo v' m1" and a: "agree {lo..<next_addr m1} m1 m2"
    and n: "next_addr m1 \<le> next_addr m2"
  shows "copy_result t v m lo v' m2"
proof -
  have "agree (reach t v' m1) m1 m2"
    using r by (intro agree_mono[OF a]) (simp add: copy_result_def)
  from frame(1)[OF this] r n show ?thesis
    by (auto simp: copy_result_def)
qed

subsection \<open>Each statement keeps the contract\<close>

lemma deep_assign: "flat t \<Longrightarrow> deep t assign"
  by (auto simp: deep_def assign_def copy_result_def extends_refl flat_reach)

text \<open>
  The loop over a slice: the array at \<open>b\<close>, which no copied value reaches, is filled from index
  \<open>i\<close> on; every other address allocated before the loop keeps its array.
\<close>

lemma copy_elems_result:
  assumes "deep t c" "wf_mem m" "cells m b = Some ys" "length ys = i + length vs"
    "\<forall>v \<in> set vs. has_type t v m \<and> b \<notin> reach t v m"
  shows "\<exists>m' zs. copy_elems c b i vs m = Some m' \<and> wf_mem m' \<and> next_addr m \<le> next_addr m'
     \<and> agree ({..<next_addr m} - {b}) m m' \<and> cells m' b = Some (take i ys @ zs)
     \<and> list_all2 (\<lambda>v v'. copy_result t v m (next_addr m) v' m') vs zs"
  using assms
proof (induction vs arbitrary: i m ys)
  case Nil
  then show ?case by (auto simp: agree_def)
next
  case (Cons v vs)
  have b: "b < next_addr m" using Cons.prems(2,3) by (auto simp: wf_mem_def)
  obtain v' m1 where c: "c v m = Some (v', m1)" "extends m m1" "copy_result t v m (next_addr m) v' m1"
    using deepE[OF Cons.prems(1,2)] Cons.prems(5) by (metis list.set_intros(1))
  define m2 where "m2 = put_array b (ys[i := v']) m1"
  have yb: "cells m1 b = Some ys" using c(2) Cons.prems(3) b by (auto simp: extends_def agree_def)
  then have st: "store_elem b i v' m1 = m2" by (simp add: store_elem_def m2_def)
  have b1: "b < next_addr m1" using b c(2) by (simp add: extends_def)
  have wf2: "wf_mem m2" using c(2) b1 by (simp add: m2_def wf_put_array extends_def)
  have n2: "next_addr m \<le> next_addr m2" using c(2) by (simp add: m2_def extends_def)
  have ag2: "agree ({..<next_addr m} - {b}) m m2" using c(2) by (auto simp: m2_def extends_def agree_def)
  have fr: "has_type t x m2 \<and> contents t x m2 = contents t x m \<and> b \<notin> reach t x m2" if "x \<in> set vs" for x
  proof -
    have x: "has_type t x m" "b \<notin> reach t x m" using Cons.prems(5) that by auto
    have "agree (reach t x m) m m2"
      using reach_below[OF x(1) Cons.prems(2)] x(2) by (intro agree_mono[OF ag2]) auto
    from frame(1)[OF this] x show ?thesis by simp
  qed
  from Cons.IH[OF Cons.prems(1) wf2, of "ys[i := v']" "Suc i"] fr Cons.prems(4)
  obtain m' zs where IH: "copy_elems c b (Suc i) vs m2 = Some m'" "wf_mem m'" "next_addr m2 \<le> next_addr m'"
      "agree ({..<next_addr m2} - {b}) m2 m'" "cells m' b = Some (take (Suc i) (ys[i := v']) @ zs)"
      "list_all2 (\<lambda>v v'. copy_result t v m2 (next_addr m2) v' m') vs zs"
    by (auto simp: m2_def)
  have v2: "copy_result t v m (next_addr m) v' m2"
    unfolding m2_def by (rule copy_result_put_array[OF c(3) b])
  have "copy_result t v m (next_addr m) v' m'"
    using b by (intro copy_result_agree[OF v2 _ IH(3)] agree_mono[OF IH(4)]) auto
  moreover have "list_all2 (\<lambda>v v'. copy_result t v m (next_addr m) v' m') vs zs"
    by (rule list.rel_mono_strong[OF IH(6)]) (use fr n2 in \<open>auto simp: copy_result_def\<close>)
  moreover have "take (Suc i) (ys[i := v']) = take i ys @ [v']"
    using Cons.prems(4) by (simp add: take_Suc_conv_app_nth)
  moreover have "agree ({..<next_addr m} - {b}) m m'"
    using ag2 IH(4) n2 by (auto simp: agree_def)
  ultimately show ?case
    using c(1) st IH n2 by auto
qed

lemma copy_into_fresh:
  assumes d: "deep t c" and wf: "wf_mem m" and al: "alloc ys m = (b, m1)" and len: "length ys = length vs"
    and ty: "\<forall>v \<in> set vs. has_type t v m"
  shows "\<exists>m' zs. copy_elems c b 0 vs m1 = Some m' \<and> extends m m' \<and> b = next_addr m \<and> b < next_addr m'
     \<and> cells m' b = Some zs \<and> list_all2 (\<lambda>v v'. copy_result t v m (next_addr m) v' m') vs zs"
proof -
  note b = cells_alloc[OF al] and ex = extends_alloc[OF wf al]
  have fr: "has_type t v m1 \<and> contents t v m1 = contents t v m \<and> b \<notin> reach t v m1" if "v \<in> set vs" for v
    using extends_frame[OF ex wf, of t v] reach_below[of t v m] ty that wf b by fastforce
  from copy_elems_result[OF d wf_alloc[OF wf al], of b ys 0 vs] fr b len
  obtain m' zs where r: "copy_elems c b 0 vs m1 = Some m'" "wf_mem m'" "next_addr m1 \<le> next_addr m'"
      "agree ({..<next_addr m1} - {b}) m1 m'" "cells m' b = Some zs"
      "list_all2 (\<lambda>v v'. copy_result t v m1 (next_addr m1) v' m') vs zs"
    by auto
  have "list_all2 (\<lambda>v v'. copy_result t v m (next_addr m) v' m') vs zs"
    by (rule list.rel_mono_strong[OF r(6)]) (use fr b in \<open>auto simp: copy_result_def\<close>)
  moreover have "extends m m'"
    using ex r b by (auto simp: extends_def agree_def)
  ultimately show ?thesis
    using r b by auto
qed

lemma copied_elements:
  assumes "list_all2 (\<lambda>v v'. copy_result t v m lo v' m') vs zs"
  shows "\<forall>x \<in> set zs. has_type t x m' \<and> reach t x m' \<subseteq> {lo..<next_addr m'}"
    and "map (\<lambda>x. contents t x m') zs = map (\<lambda>x. contents t x m) vs"
    and "length zs = length vs"
  using assms by (induction rule: list_all2_induct) (auto simp: copy_result_def)

lemma window_all [simp]: "window 0 (length xs) xs = xs"
  by (simp add: window_def)

lemma length_window: "off + n \<le> length xs \<Longrightarrow> length (window off n xs) = n"
  by (simp add: window_def)

lemma has_type_sliceE:
  assumes "has_type (TSlice t) v m" "v \<noteq> SliceV None"
  obtains a off n xs where "v = SliceV (Some (a, off, n))" "cells m a = Some xs" "off + n \<le> length xs"
    "\<forall>x \<in> set xs. has_type t x m"
proof -
  from assms obtain a off n where v: "v = SliceV (Some (a, off, n))" by (auto split: gval.splits option.splits)
  with assms that show thesis by (cases "cells m a") auto
qed

lemma deep_slice:
  assumes "deep t c"
  shows "deep (TSlice t) (copy_slice t c)"
  unfolding deep_def
proof (intro allI impI, elim conjE)
  fix v m
  assume wf: "wf_mem m" and ty: "has_type (TSlice t) v m"
  show "\<exists>v' m'. copy_slice t c v m = Some (v', m') \<and> extends m m' \<and> copy_result (TSlice t) v m (next_addr m) v' m'"
  proof (cases "v = SliceV None")
    case True
    then show ?thesis by (simp add: copy_slice_def extends_refl wf copy_result_def)
  next
    case False
    from has_type_sliceE[OF ty this] obtain a off n xs where v: "v = SliceV (Some (a, off, n))"
      and xs: "cells m a = Some xs" "off + n \<le> length xs" "\<forall>x \<in> set xs. has_type t x m"
      by blast
    have win: "\<forall>x \<in> set (window off n xs). has_type t x m"
      using xs(3) subsetD[OF set_window[of off n xs]] by simp
    obtain b m1 where al: "alloc (replicate n (zero_value t)) m = (b, m1)" by fastforce
    from copy_into_fresh[OF assms wf al _ win] length_window[OF xs(2)]
    obtain m' zs where r: "copy_elems c b 0 (window off n xs) m1 = Some m'" "extends m m'" "b = next_addr m"
      "b < next_addr m'" "cells m' b = Some zs"
      "list_all2 (\<lambda>v v'. copy_result t v m (next_addr m) v' m') (window off n xs) zs" by auto
    note z = copied_elements[OF r(6)]
    have n: "length zs = n" using z(3) length_window[OF xs(2)] by simp
    then have w: "window 0 n zs = zs" by (simp add: window_def)
    have "copy_result (TSlice t) v m (next_addr m) (SliceV (Some (b, 0, n))) m'"
      unfolding copy_result_def
    proof (intro conjI)
      show "has_type (TSlice t) (SliceV (Some (b, 0, n))) m'" using z(1) r(5) n by simp
      show "contents (TSlice t) (SliceV (Some (b, 0, n))) m' = contents (TSlice t) v m"
        using z(2) r(5) w v xs(1) by simp
      show "reach (TSlice t) (SliceV (Some (b, 0, n))) m' \<subseteq> {next_addr m..<next_addr m'}"
        using z(1) r(3-5) by (auto simp: UN_least)
    qed
    then show ?thesis
      using v xs al r by (auto simp: copy_slice_def)
  qed
qed

lemma deep_pointer:
  assumes "deep t c"
  shows "deep (TPtr t) (copy_pointer t c)"
  unfolding deep_def
proof (intro allI impI, elim conjE)
  fix v m
  assume wf: "wf_mem m" and ty: "has_type (TPtr t) v m"
  show "\<exists>v' m'. copy_pointer t c v m = Some (v', m') \<and> extends m m' \<and> copy_result (TPtr t) v m (next_addr m) v' m'"
  proof (cases "v = PtrV None")
    case True
    then show ?thesis by (simp add: copy_pointer_def extends_refl wf copy_result_def)
  next
    case False
    with ty obtain a x where v: "v = PtrV (Some a)" and x: "cells m a = Some [x]" "has_type t x m"
      by (auto split: gval.splits option.splits list.splits)
    obtain b m1 where al: "alloc [zero_value t] m = (b, m1)" by fastforce
    from copy_into_fresh[OF assms wf al, of "[x]"] x(2)
    obtain m' z where r: "copy_elems c b 0 [x] m1 = Some m'" "extends m m'" "b = next_addr m"
      "b < next_addr m'" "cells m' b = Some [z]" "copy_result t x m (next_addr m) z m'"
      by (auto simp: list_all2_Cons1)
    have "copy_result (TPtr t) v m (next_addr m) (PtrV (Some b)) m'"
      using v x r by (auto simp: copy_result_def)
    then show ?thesis
      using v x al r by (auto simp: copy_pointer_def split: option.splits)
  qed
qed

lemma update_new_key: "k \<notin> set (map fst xs) \<Longrightarrow> AList.update k v xs = xs @ [(k, v)]"
  by (induction xs) auto

lemma copy_entries_append: "distinct (map fst (out @ es)) \<Longrightarrow> copy_entries es out = out @ es"
proof (induction es out rule: copy_entries.induct)
  case (2 k x es out)
  then have "AList.update k x out = out @ [(k, x)]" by (intro update_new_key) auto
  with 2 show ?case by simp
qed simp

lemma has_type_mapE:
  assumes "has_type TMap v m" "v \<noteq> MapV None"
  obtains a es where "v = MapV (Some a)" "cells m a = Some [EntriesV es]" "distinct (map fst es)"
proof -
  from assms obtain a where v: "v = MapV (Some a)" by (auto split: gval.splits option.splits)
  with assms obtain x xs where c: "cells m a = Some (x # xs)" by (auto split: option.splits list.splits)
  with assms v obtain es where "x = EntriesV es" by (cases x) auto
  with assms v c that show thesis by (cases xs) auto
qed

lemma deep_map: "deep TMap copy_map"
  unfolding deep_def
proof (intro allI impI, elim conjE)
  fix v m
  assume wf: "wf_mem m" and ty: "has_type TMap v m"
  show "\<exists>v' m'. copy_map v m = Some (v', m') \<and> extends m m' \<and> copy_result TMap v m (next_addr m) v' m'"
  proof (cases "v = MapV None")
    case True
    then show ?thesis by (simp add: copy_map_def extends_refl wf copy_result_def)
  next
    case False
    with ty obtain a es where v: "v = MapV (Some a)" and es: "cells m a = Some [EntriesV es]" "distinct (map fst es)"
      by (rule has_type_mapE) blast+
    obtain b m1 where al: "alloc [EntriesV []] m = (b, m1)" by fastforce
    let ?m = "put_array b [EntriesV es] m1"
    note b = cells_alloc[OF al]
    have "extends m ?m"
      using extends_alloc[OF wf al] b by (auto simp: extends_def agree_def wf_put_array)
    then show ?thesis
      using v es al b copy_entries_append[of "[]" es]
      by (auto simp: copy_map_def store_elem_def copy_result_def)
  qed
qed

text \<open>
  The field-wise copy. A field is settled once its value in \<open>out\<close> is a copy; the fields without a
  statement are settled by \<open>*out = *in\<close>, which needs a type without references.
\<close>

definition settled :: "(string \<times> gty) list \<Rightarrow> (string \<times> gval) list \<Rightarrow> mem \<Rightarrow> addr \<Rightarrow> (string \<times> gval) list \<Rightarrow> mem \<Rightarrow> string \<Rightarrow> bool" where
  "settled fs inn m lo out m' f \<longleftrightarrow> (\<forall>t. (f, t) \<in> set fs \<longrightarrow>
     (\<exists>v v'. map_of inn f = Some v \<and> map_of out f = Some v' \<and> copy_result t v m lo v' m'))"

lemma settled_step:
  assumes s: "settled fs inn m lo out m1 g" and ex: "extends m1 m2" and g: "g \<noteq> f"
  shows "settled fs inn m lo (AList.update f x out) m2 g"
  unfolding settled_def
proof (intro allI impI)
  fix t
  assume "(g, t) \<in> set fs"
  with s obtain v v' where v: "map_of inn g = Some v" "map_of out g = Some v'" "copy_result t v m lo v' m1"
    by (auto simp: settled_def)
  have "copy_result t v m lo v' m2"
    using ex by (intro copy_result_agree[OF v(3)]) (auto simp: extends_def agree_def)
  then show "\<exists>v v'. map_of inn g = Some v \<and> map_of (AList.update f x out) g = Some v' \<and> copy_result t v m lo v' m2"
    using v g by (auto simp: update_conv')
qed

lemma settled_copied:
  assumes d: "distinct (map fst fs)" "(f, t) \<in> set fs" and v: "map_of inn f = Some v" "has_type t v m" "wf_mem m"
    and ex: "extends m m1" and r: "copy_result t v m1 (next_addr m1) v' m2"
  shows "settled fs inn m (next_addr m) (AList.update f v' out) m2 f"
proof -
  have "t' = t" if "(f, t') \<in> set fs" for t' using d that by (simp add: eq_key_imp_eq_value)
  moreover have "copy_result t v m (next_addr m) v' m2"
    using r ex extends_frame[OF ex v(3,2)] by (auto simp: copy_result_def extends_def)
  ultimately show ?thesis
    using v(1) by (auto simp: settled_def update_conv')
qed

lemma copy_fields_result:
  assumes "distinct (map fst fs)" "wf_mem m" "fields_typed fs inn m" "extends m m1"
    "\<forall>(f, c) \<in> set cs. \<exists>t. (f, t) \<in> set fs \<and> deep t c"
    "\<forall>f \<in> fst ` set fs - fst ` set cs. settled fs inn m (next_addr m) out m1 f"
    "fst ` set fs \<subseteq> fst ` set out"
  shows "\<exists>out' m'. copy_fields cs inn out m1 = Some (out', m') \<and> extends m m' \<and> map fst out' = map fst out
     \<and> (\<forall>f \<in> fst ` set fs. settled fs inn m (next_addr m) out' m' f)"
  using assms
proof (induction cs arbitrary: out m1)
  case (Cons p cs)
  obtain f c where p: "p = (f, c)" by (cases p)
  with Cons.prems(5) obtain t where t: "(f, t) \<in> set fs" "deep t c" by auto
  with Cons.prems(3) obtain v where v: "map_of inn f = Some v" "has_type t v m"
    by (auto simp: fields_typed_iff)
  have wf1: "wf_mem m1" using Cons.prems(4) by (simp add: extends_def)
  obtain v' m2 where c: "c v m1 = Some (v', m2)" "extends m1 m2" "copy_result t v m1 (next_addr m1) v' m2"
    using deepE[OF t(2) wf1] extends_frame(1)[OF Cons.prems(4,2) v(2)] by blast
  have keys: "map fst (AList.update f v' out) = map fst out"
    using t(1) Cons.prems(7) by (force simp: update_keys)
  have sd: "\<forall>g \<in> fst ` set fs - fst ` set cs. settled fs inn m (next_addr m) (AList.update f v' out) m2 g"
  proof
    fix g
    assume that: "g \<in> fst ` set fs - fst ` set cs"
    show "settled fs inn m (next_addr m) (AList.update f v' out) m2 g"
    proof (cases "g = f")
      case True
      then show ?thesis
        using settled_copied[OF Cons.prems(1) t(1) v Cons.prems(2,4) c(3)] by simp
    next
      case False
      then show ?thesis
        using Cons.prems(6) that p by (intro settled_step[OF _ c(2)]) auto
    qed
  qed
  have "fst ` set (AList.update f v' out) = fst ` set out"
    using arg_cong[OF keys, of set] by simp
  then have dom: "fst ` set fs \<subseteq> fst ` set (AList.update f v' out)"
    using Cons.prems(7) by simp
  have rest: "\<forall>(f, c) \<in> set cs. \<exists>t. (f, t) \<in> set fs \<and> deep t c"
    using Cons.prems(5) by simp
  from Cons.IH[OF Cons.prems(1,2,3) extends_trans[OF Cons.prems(4) c(2)] rest sd dom]
  obtain out' m' where "copy_fields cs inn (AList.update f v' out) m2 = Some (out', m')" "extends m m'"
      "map fst out' = map fst (AList.update f v' out)" "\<forall>f \<in> fst ` set fs. settled fs inn m (next_addr m) out' m' f"
    by blast
  then show ?case
    using c(1) v(1) keys by (auto simp: p)
qed auto

lemma deep_struct:
  assumes d: "distinct (map fst fs)"
    and cs: "\<forall>(f, c) \<in> set cs. \<exists>t. (f, t) \<in> set fs \<and> deep t c"
    and fl: "\<forall>(f, t) \<in> set fs. f \<in> fst ` set cs \<or> flat t"
  shows "deep (TStruct fs) (copy_struct cs)"
  unfolding deep_def
proof (intro allI impI, elim conjE)
  fix v m
  assume wf: "wf_mem m" and ty: "has_type (TStruct fs) v m"
  then obtain vs where v: "v = StructV vs" "map fst vs = map fst fs" "fields_typed fs vs m"
    by (auto split: gval.splits)
  have sd: "\<forall>f \<in> fst ` set fs - fst ` set cs. settled fs vs m (next_addr m) vs m f"
    unfolding settled_def
  proof (intro ballI allI impI)
    fix f t
    assume that: "f \<in> fst ` set fs - fst ` set cs" and t: "(f, t) \<in> set fs"
    with v(3) obtain x where "map_of vs f = Some x" "has_type t x m"
      unfolding fields_typed_iff by blast
    moreover from t fl that have "flat t" by auto
    ultimately show "\<exists>v v'. map_of vs f = Some v \<and> map_of vs f = Some v' \<and> copy_result t v m (next_addr m) v' m"
      by (simp add: copy_result_def flat_reach)
  qed
  have "fst ` set fs \<subseteq> fst ` set vs" using arg_cong[OF v(2), of set] by simp
  from copy_fields_result[OF d wf v(3) extends_refl[OF wf] cs sd this]
  obtain out m' where r: "copy_fields cs vs vs m = Some (out, m')" "extends m m'" "map fst out = map fst vs"
      "\<forall>f \<in> fst ` set fs. settled fs vs m (next_addr m) out m' f"
    by blast
  have s: "\<exists>x x'. map_of vs f = Some x \<and> map_of out f = Some x' \<and> copy_result t x m (next_addr m) x' m'"
    if "(f, t) \<in> set fs" for f t
    using bspec[OF r(4), of f] that by (auto simp: settled_def rev_image_eqI)
  have "field_contents fs out m' = field_contents fs vs m"
    by (rule field_contents_eqI) (use s in \<open>unfold copy_result_def, blast\<close>)
  moreover have "fields_typed fs out m'"
    using s unfolding fields_typed_iff copy_result_def by blast
  moreover have "field_reach fs out m' \<subseteq> {next_addr m..<next_addr m'}"
    unfolding field_reach_eq
  proof (rule UN_least, clarify)
    fix f t a
    assume "(f, t) \<in> set fs" and a: "a \<in> (case map_of out f of None \<Rightarrow> {} | Some v \<Rightarrow> reach t v m')"
    with s[of f t] show "a \<in> {next_addr m..<next_addr m'}"
      unfolding copy_result_def by auto
  qed
  ultimately have "copy_result (TStruct fs) v m (next_addr m) (StructV out) m'"
    using v r(3) by (simp add: copy_result_def)
  then show "\<exists>v' m'. copy_struct cs v m = Some (v', m') \<and> extends m m' \<and> copy_result (TStruct fs) v m (next_addr m) v' m'"
    using v(1) r by (auto simp: copy_struct_def)
qed

section \<open>The methods of a type\<close>

text \<open>
  \<open>DeepCopy\<close>: nil for nil, else \<open>new(T)\<close> and \<open>DeepCopyInto\<close>, the same statements as for a pointer
  field. \<open>DeepCopyObject\<close> gives an interface value: \<open>None\<close> is the nil interface, otherwise it holds
  the dynamic type and the pointer.
\<close>

type_synonym object_copier = "gval \<Rightarrow> mem \<Rightarrow> ((string \<times> gval) option \<times> mem) option"

definition deep_copy :: "gty \<Rightarrow> copier \<Rightarrow> copier" where
  "deep_copy t DeepCopyInto inn m = (if inn = PtrV None then Some (PtrV None, m) else copy_pointer t DeepCopyInto inn m)"

definition deep_copy_object :: "string \<Rightarrow> copier \<Rightarrow> object_copier" where
  "deep_copy_object kind DeepCopy inn m = (case DeepCopy inn m of
     None \<Rightarrow> None
   | Some (c, m') \<Rightarrow> Some (if c \<noteq> PtrV None then Some (kind, c) else None, m'))"

text \<open>
  What the controllers rely on when they change a copy of an object from a shared cache: the copy
  shows what the original shows; whatever is written through the copy, or to memory allocated
  later, the original does not change; nor does the copy when the original is written to.
\<close>

definition isolated :: "gty \<Rightarrow> gval \<Rightarrow> mem \<Rightarrow> gval \<Rightarrow> mem \<Rightarrow> bool" where
  "isolated t p m p' m' \<longleftrightarrow>
     has_type t p' m' \<and> contents t p' m' = contents t p m \<and> contents t p m' = contents t p m
   \<and> reach t p' m' \<inter> reach t p m' = {}
   \<and> (\<forall>m''. agree (- (reach t p' m' \<union> {next_addr m'..})) m' m'' \<longrightarrow>
        has_type t p m'' \<and> contents t p m'' = contents t p m)
   \<and> (\<forall>m''. agree (- (reach t p m' \<union> {next_addr m'..})) m' m'' \<longrightarrow>
        has_type t p' m'' \<and> contents t p' m'' = contents t p' m')"

locale deep_copier =
  fixes ty :: gty and into :: copier
  assumes returns: "wf_mem m \<Longrightarrow> has_type ty v m \<Longrightarrow> \<exists>v' m'. into v m = Some (v', m')"
    and keeps_memory: "wf_mem m \<Longrightarrow> has_type ty v m \<Longrightarrow> into v m = Some (v', m') \<Longrightarrow> extends m m'"
    and copies: "wf_mem m \<Longrightarrow> has_type ty v m \<Longrightarrow> into v m = Some (v', m') \<Longrightarrow> copy_result ty v m (next_addr m) v' m'"
begin

lemma is_deep: "deep ty into"
  unfolding deep_def using returns keeps_memory copies by blast

lemma deep_copy_is_deep: "deep (TPtr ty) (deep_copy ty into)"
proof -
  have "deep_copy ty into = copy_pointer ty into"
    by (intro ext) (simp add: deep_copy_def copy_pointer_def)
  then show ?thesis using deep_pointer[OF is_deep] by simp
qed

lemma deep_copy_isolated:
  assumes wf: "wf_mem m" and ty: "has_type (TPtr ty) p m"
  shows "\<exists>p' m'. deep_copy ty into p m = Some (p', m') \<and> extends m m' \<and> isolated (TPtr ty) p m p' m' \<and> (p' = PtrV None \<longleftrightarrow> p = PtrV None)"
proof -
  let ?t = "TPtr ty"
  obtain p' m' where c: "deep_copy ty into p m = Some (p', m')" "extends m m'" "copy_result ?t p m (next_addr m) p' m'"
    by (rule deepE[OF deep_copy_is_deep wf ty])
  note fr = extends_frame[OF c(2) wf ty]
  have old: "reach ?t p m' \<subseteq> {..<next_addr m}" using reach_below[OF ty wf] fr(3) by simp
  have new: "reach ?t p' m' \<subseteq> {next_addr m..<next_addr m'}" using c(3) by (simp add: copy_result_def)
  have le: "next_addr m \<le> next_addr m'" using c(2) by (simp add: extends_def)
  have "has_type ?t p m'' \<and> contents ?t p m'' = contents ?t p m" if "agree (- (reach ?t p' m' \<union> {next_addr m'..})) m' m''" for m''
  proof -
    have "agree (reach ?t p m') m' m''" by (rule agree_mono[OF that]) (use old new le in fastforce)
    from frame(1)[OF this] fr show ?thesis by simp
  qed
  moreover have "has_type ?t p' m'' \<and> contents ?t p' m'' = contents ?t p' m'" if "agree (- (reach ?t p m' \<union> {next_addr m'..})) m' m''" for m''
  proof -
    have "agree (reach ?t p' m') m' m''" by (rule agree_mono[OF that]) (use old new le in fastforce)
    from frame(1)[OF this] c(3) show ?thesis by (simp add: copy_result_def)
  qed
  moreover have "reach ?t p' m' \<inter> reach ?t p m' = {}" using old new by fastforce
  ultimately have "isolated ?t p m p' m'"
    using c(3) fr unfolding isolated_def copy_result_def by blast
  moreover have "p' = PtrV None \<longleftrightarrow> p = PtrV None"
    using c(1) by (auto simp: deep_copy_def copy_pointer_def split: if_splits gval.splits option.splits list.splits prod.splits)
  ultimately show ?thesis using c by blast
qed

text \<open>Nothing the new object refers to leads back to it.\<close>

lemma deep_copy_root:
  assumes wf: "wf_mem m" and ty: "has_type (TPtr ty) p m" and p: "p \<noteq> PtrV None"
    and c: "deep_copy ty into p m = Some (q, m')"
  shows "\<exists>b x'. q = PtrV (Some b) \<and> cells m' b = Some [x'] \<and> has_type ty x' m' \<and> b \<notin> reach ty x' m'"
proof -
  obtain a x where pa: "p = PtrV (Some a)" "cells m a = Some [x]" "has_type ty x m"
    using ty p by (auto split: gval.splits option.splits list.splits)
  obtain b m1 where al: "alloc [zero_value ty] m = (b, m1)" by fastforce
  note b = cells_alloc[OF al] and ex = extends_alloc[OF wf al]
  from deepE[OF is_deep wf_alloc[OF wf al] extends_frame(1)[OF ex wf pa(3)]]
  obtain x' m2 where i: "into x m1 = Some (x', m2)" "extends m1 m2" "copy_result ty x m1 (next_addr m1) x' m2" .
  have "cells m2 b = Some [zero_value ty]" using i(2) b by (auto simp: extends_def agree_def)
  then have st: "store_elem b 0 x' m2 = put_array b [x'] m2" by (simp add: store_elem_def)
  have r: "copy_result ty x m1 (next_addr m1) x' (put_array b [x'] m2)"
    using b by (intro copy_result_put_array[OF i(3)]) simp
  have "q = PtrV (Some b)" "m' = put_array b [x'] m2"
    using c pa al i(1) st by (simp_all add: deep_copy_def copy_pointer_def)
  with r b show ?thesis by (auto simp: copy_result_def)
qed

lemma deep_copy_object_isolated:
  assumes "wf_mem m" "has_type (TPtr ty) p m" "p \<noteq> PtrV None"
  shows "\<exists>p' m'. deep_copy_object kind (deep_copy ty into) p m = Some (Some (kind, p'), m') \<and> extends m m' \<and> isolated (TPtr ty) p m p' m'"
  using deep_copy_isolated[OF assms(1,2)] assms(3) by (auto simp: deep_copy_object_def)

lemma deep_copy_object_nil: "deep_copy_object kind (deep_copy ty into) (PtrV None) m = Some (None, m)"
  by (simp add: deep_copy_object_def deep_copy_def)

end

lemma deep_copierI: "deep t c \<Longrightarrow> deep_copier t c"
  by unfold_locales (auto simp: deep_def, (metis option.inject prod.inject)+)

end
