(* ===== verification/DeepCopy.thy ===== *)
theory DeepCopy
  imports GoHeap ApiTypes
begin

text \<open>
  The copy functions generated for the API types (api/v1/zz_generated.deepcopy.go and
  api/v1alpha1/zz_generated.deepcopy.go), with the vendored ones they call, on the memory of theory
  GoHeap, and the registration of the object types with a scheme. \<open>T_type\<close> has the fields of the
  struct \<open>T\<close>; \<open>T_DeepCopyInto\<close> lists the statements of the generated function after \<open>*out = *in\<close>,
  in their order. Every copy function is an instance of the locale \<open>deep_copier\<close>. A
  \<open>metav1.Time\<close> is one number here: its pointer to a time zone is never written through. The
  digits of an \<open>inf.Dec\<close> are a number as well (\<open>math/big\<close> is the standard library).
\<close>

named_theorems deep_copies "copy functions that keep the contract"
named_theorems flat_types "types without references"

declare deep_slice [deep_copies] deep_pointer [deep_copies] deep_map [deep_copies] deep_assign [deep_copies]

section \<open>Vendored types\<close>

definition Time_type :: gty where
  "Time_type = TInt"

definition Time_DeepCopyInto :: copier where
  "Time_DeepCopyInto = assign"

definition TypeMeta_type :: gty where
  "TypeMeta_type = TStruct [
     (''Kind'', TString), (''APIVersion'', TString)]"

definition OwnerReference_type :: gty where
  "OwnerReference_type = TStruct [
     (''APIVersion'', TString), (''Kind'', TString), (''Name'', TString), (''UID'', TString),
     (''Controller'', TPtr TBool), (''BlockOwnerDeletion'', TPtr TBool)]"

definition OwnerReference_DeepCopyInto :: copier where
  "OwnerReference_DeepCopyInto = copy_struct [
     (''Controller'', copy_pointer TBool assign), (''BlockOwnerDeletion'', copy_pointer TBool assign)]"

definition FieldsV1_type :: gty where
  "FieldsV1_type = TStruct [
     (''Raw'', TSlice TInt)]"

definition FieldsV1_DeepCopyInto :: copier where
  "FieldsV1_DeepCopyInto = copy_struct [
     (''Raw'', copy_slice TInt assign)]"

definition ManagedFieldsEntry_type :: gty where
  "ManagedFieldsEntry_type = TStruct [
     (''Manager'', TString), (''Operation'', TString), (''APIVersion'', TString),
     (''Time'', TPtr Time_type), (''FieldsType'', TString), (''FieldsV1'', TPtr FieldsV1_type),
     (''Subresource'', TString)]"

definition ManagedFieldsEntry_DeepCopyInto :: copier where
  "ManagedFieldsEntry_DeepCopyInto = copy_struct [
     (''Time'', copy_pointer Time_type Time_DeepCopyInto),
     (''FieldsV1'', copy_pointer FieldsV1_type FieldsV1_DeepCopyInto)]"

definition ObjectMeta_type :: gty where
  "ObjectMeta_type = TStruct [
     (''Name'', TString), (''GenerateName'', TString), (''Namespace'', TString), (''SelfLink'', TString),
     (''UID'', TString), (''ResourceVersion'', TString), (''Generation'', TInt),
     (''CreationTimestamp'', Time_type), (''DeletionTimestamp'', TPtr Time_type),
     (''DeletionGracePeriodSeconds'', TPtr TInt), (''Labels'', TMap), (''Annotations'', TMap),
     (''OwnerReferences'', TSlice OwnerReference_type), (''Finalizers'', TSlice TString),
     (''ManagedFields'', TSlice ManagedFieldsEntry_type)]"

definition ObjectMeta_DeepCopyInto :: copier where
  "ObjectMeta_DeepCopyInto = copy_struct [
     (''CreationTimestamp'', Time_DeepCopyInto),
     (''DeletionTimestamp'', copy_pointer Time_type Time_DeepCopyInto),
     (''DeletionGracePeriodSeconds'', copy_pointer TInt assign), (''Labels'', copy_map),
     (''Annotations'', copy_map),
     (''OwnerReferences'', copy_slice OwnerReference_type OwnerReference_DeepCopyInto),
     (''Finalizers'', copy_slice TString assign),
     (''ManagedFields'', copy_slice ManagedFieldsEntry_type ManagedFieldsEntry_DeepCopyInto)]"

definition ListMeta_type :: gty where
  "ListMeta_type = TStruct [
     (''SelfLink'', TString), (''ResourceVersion'', TString), (''Continue'', TString),
     (''RemainingItemCount'', TPtr TInt)]"

definition ListMeta_DeepCopyInto :: copier where
  "ListMeta_DeepCopyInto = copy_struct [
     (''RemainingItemCount'', copy_pointer TInt assign)]"

definition NodeSelectorRequirement_type :: gty where
  "NodeSelectorRequirement_type = TStruct [
     (''Key'', TString), (''Operator'', TString), (''Values'', TSlice TString)]"

definition NodeSelectorRequirement_DeepCopyInto :: copier where
  "NodeSelectorRequirement_DeepCopyInto = copy_struct [
     (''Values'', copy_slice TString assign)]"

definition NodeSelectorTerm_type :: gty where
  "NodeSelectorTerm_type = TStruct [
     (''MatchExpressions'', TSlice NodeSelectorRequirement_type),
     (''MatchFields'', TSlice NodeSelectorRequirement_type)]"

definition NodeSelectorTerm_DeepCopyInto :: copier where
  "NodeSelectorTerm_DeepCopyInto = copy_struct [
     (''MatchExpressions'', copy_slice NodeSelectorRequirement_type NodeSelectorRequirement_DeepCopyInto),
     (''MatchFields'', copy_slice NodeSelectorRequirement_type NodeSelectorRequirement_DeepCopyInto)]"

definition NodeSelector_type :: gty where
  "NodeSelector_type = TStruct [
     (''NodeSelectorTerms'', TSlice NodeSelectorTerm_type)]"

definition NodeSelector_DeepCopyInto :: copier where
  "NodeSelector_DeepCopyInto = copy_struct [
     (''NodeSelectorTerms'', copy_slice NodeSelectorTerm_type NodeSelectorTerm_DeepCopyInto)]"

definition Toleration_type :: gty where
  "Toleration_type = TStruct [
     (''Key'', TString), (''Operator'', TString), (''Value'', TString), (''Effect'', TString),
     (''TolerationSeconds'', TPtr TInt)]"

definition Toleration_DeepCopyInto :: copier where
  "Toleration_DeepCopyInto = copy_struct [
     (''TolerationSeconds'', copy_pointer TInt assign)]"

definition OperatorCondition_type :: gty where
  "OperatorCondition_type = TStruct [
     (''Type'', TString), (''Status'', TString), (''LastTransitionTime'', Time_type),
     (''Reason'', TString), (''Message'', TString)]"

definition OperatorCondition_DeepCopyInto :: copier where
  "OperatorCondition_DeepCopyInto = copy_struct [
     (''LastTransitionTime'', Time_DeepCopyInto)]"

definition GenerationStatus_type :: gty where
  "GenerationStatus_type = TStruct [
     (''Group'', TString), (''Resource'', TString), (''Namespace'', TString), (''Name'', TString),
     (''LastGeneration'', TInt), (''Hash'', TString)]"

text \<open>
  \<open>Quantity.DeepCopy\<close> works on its receiver, a copy of the quantity, and replaces the pointer
  to the decimal form by one to a new \<open>inf.Dec\<close> with the same value.
\<close>

definition Dec_type :: gty where
  "Dec_type = TStruct [(''unscaled'', TInt), (''scale'', TInt)]"

definition Dec_Set :: copier where
  "Dec_Set = copy_struct [(''unscaled'', assign), (''scale'', assign)]"

definition int64Amount_type :: gty where
  "int64Amount_type = TStruct [(''value'', TInt), (''scale'', TInt)]"

definition infDecAmount_type :: gty where
  "infDecAmount_type = TStruct [(''Dec'', TPtr Dec_type)]"

definition Quantity_type :: gty where
  "Quantity_type = TStruct [(''i'', int64Amount_type), (''d'', infDecAmount_type), (''s'', TString), (''Format'', TString)]"

definition Quantity_DeepCopy :: copier where
  "Quantity_DeepCopy = copy_struct [(''d'', copy_struct [(''Dec'', copy_pointer Dec_type Dec_Set)])]"

section \<open>Types of api/v1\<close>

definition StorageClassDevice_type :: gty where
  "StorageClassDevice_type = TStruct [
     (''StorageClassName'', TString), (''VolumeMode'', TString), (''FSType'', TString),
     (''DevicePaths'', TSlice TString), (''ForceWipeDevicesAndDestroyAllData'', TBool)]"

definition StorageClassDevice_DeepCopyInto :: copier where
  "StorageClassDevice_DeepCopyInto = copy_struct [
     (''DevicePaths'', copy_slice TString assign)]"

definition StorageClassDevice_DeepCopy :: copier where
  "StorageClassDevice_DeepCopy = deep_copy StorageClassDevice_type StorageClassDevice_DeepCopyInto"

definition LocalVolumeSpec_type :: gty where
  "LocalVolumeSpec_type = TStruct [
     (''ManagementState'', TString), (''LogLevel'', TString), (''NodeSelector'', TPtr NodeSelector_type),
     (''StorageClassDevices'', TSlice StorageClassDevice_type), (''Tolerations'', TSlice Toleration_type)]"

definition LocalVolumeSpec_DeepCopyInto :: copier where
  "LocalVolumeSpec_DeepCopyInto = copy_struct [
     (''NodeSelector'', copy_pointer NodeSelector_type NodeSelector_DeepCopyInto),
     (''StorageClassDevices'', copy_slice StorageClassDevice_type StorageClassDevice_DeepCopyInto),
     (''Tolerations'', copy_slice Toleration_type Toleration_DeepCopyInto)]"

definition LocalVolumeSpec_DeepCopy :: copier where
  "LocalVolumeSpec_DeepCopy = deep_copy LocalVolumeSpec_type LocalVolumeSpec_DeepCopyInto"

definition LocalVolumeStatus_type :: gty where
  "LocalVolumeStatus_type = TStruct [
     (''ObservedGeneration'', TPtr TInt), (''State'', TString),
     (''Conditions'', TSlice OperatorCondition_type), (''ReadyReplicas'', TInt),
     (''Generations'', TSlice GenerationStatus_type)]"

definition LocalVolumeStatus_DeepCopyInto :: copier where
  "LocalVolumeStatus_DeepCopyInto = copy_struct [
     (''ObservedGeneration'', copy_pointer TInt assign),
     (''Conditions'', copy_slice OperatorCondition_type OperatorCondition_DeepCopyInto),
     (''Generations'', copy_slice GenerationStatus_type assign)]"

definition LocalVolumeStatus_DeepCopy :: copier where
  "LocalVolumeStatus_DeepCopy = deep_copy LocalVolumeStatus_type LocalVolumeStatus_DeepCopyInto"

definition LocalVolume_type :: gty where
  "LocalVolume_type = TStruct [
     (''TypeMeta'', TypeMeta_type), (''ObjectMeta'', ObjectMeta_type), (''Spec'', LocalVolumeSpec_type),
     (''Status'', LocalVolumeStatus_type)]"

definition LocalVolume_DeepCopyInto :: copier where
  "LocalVolume_DeepCopyInto = copy_struct [
     (''TypeMeta'', assign), (''ObjectMeta'', ObjectMeta_DeepCopyInto),
     (''Spec'', LocalVolumeSpec_DeepCopyInto), (''Status'', LocalVolumeStatus_DeepCopyInto)]"

definition LocalVolume_DeepCopy :: copier where
  "LocalVolume_DeepCopy = deep_copy LocalVolume_type LocalVolume_DeepCopyInto"

definition LocalVolume_DeepCopyObject :: object_copier where
  "LocalVolume_DeepCopyObject = deep_copy_object ''LocalVolume'' LocalVolume_DeepCopy"

definition LocalVolumeList_type :: gty where
  "LocalVolumeList_type = TStruct [
     (''TypeMeta'', TypeMeta_type), (''ListMeta'', ListMeta_type), (''Items'', TSlice LocalVolume_type)]"

definition LocalVolumeList_DeepCopyInto :: copier where
  "LocalVolumeList_DeepCopyInto = copy_struct [
     (''TypeMeta'', assign), (''ListMeta'', ListMeta_DeepCopyInto),
     (''Items'', copy_slice LocalVolume_type LocalVolume_DeepCopyInto)]"

definition LocalVolumeList_DeepCopy :: copier where
  "LocalVolumeList_DeepCopy = deep_copy LocalVolumeList_type LocalVolumeList_DeepCopyInto"

definition LocalVolumeList_DeepCopyObject :: object_copier where
  "LocalVolumeList_DeepCopyObject = deep_copy_object ''LocalVolumeList'' LocalVolumeList_DeepCopy"

definition LocalVolumeDeviceLinkSpec_type :: gty where
  "LocalVolumeDeviceLinkSpec_type = TStruct [
     (''PersistentVolumeName'', TString), (''NodeName'', TString), (''Policy'', TString)]"

definition LocalVolumeDeviceLinkSpec_DeepCopyInto :: copier where
  "LocalVolumeDeviceLinkSpec_DeepCopyInto = copy_struct []"

definition LocalVolumeDeviceLinkSpec_DeepCopy :: copier where
  "LocalVolumeDeviceLinkSpec_DeepCopy = deep_copy LocalVolumeDeviceLinkSpec_type LocalVolumeDeviceLinkSpec_DeepCopyInto"

definition LocalVolumeDeviceLinkStatus_type :: gty where
  "LocalVolumeDeviceLinkStatus_type = TStruct [
     (''CurrentLinkTarget'', TString), (''PreferredLinkTarget'', TString),
     (''ValidLinkTargets'', TSlice TString), (''PersistentVolumeSymlinkPath'', TString),
     (''FilesystemUUID'', TString), (''Conditions'', TSlice OperatorCondition_type)]"

definition LocalVolumeDeviceLinkStatus_DeepCopyInto :: copier where
  "LocalVolumeDeviceLinkStatus_DeepCopyInto = copy_struct [
     (''ValidLinkTargets'', copy_slice TString assign),
     (''Conditions'', copy_slice OperatorCondition_type OperatorCondition_DeepCopyInto)]"

definition LocalVolumeDeviceLinkStatus_DeepCopy :: copier where
  "LocalVolumeDeviceLinkStatus_DeepCopy = deep_copy LocalVolumeDeviceLinkStatus_type LocalVolumeDeviceLinkStatus_DeepCopyInto"

definition LocalVolumeDeviceLink_type :: gty where
  "LocalVolumeDeviceLink_type = TStruct [
     (''TypeMeta'', TypeMeta_type), (''ObjectMeta'', ObjectMeta_type),
     (''Spec'', LocalVolumeDeviceLinkSpec_type), (''Status'', LocalVolumeDeviceLinkStatus_type)]"

definition LocalVolumeDeviceLink_DeepCopyInto :: copier where
  "LocalVolumeDeviceLink_DeepCopyInto = copy_struct [
     (''TypeMeta'', assign), (''ObjectMeta'', ObjectMeta_DeepCopyInto), (''Spec'', assign),
     (''Status'', LocalVolumeDeviceLinkStatus_DeepCopyInto)]"

definition LocalVolumeDeviceLink_DeepCopy :: copier where
  "LocalVolumeDeviceLink_DeepCopy = deep_copy LocalVolumeDeviceLink_type LocalVolumeDeviceLink_DeepCopyInto"

definition LocalVolumeDeviceLink_DeepCopyObject :: object_copier where
  "LocalVolumeDeviceLink_DeepCopyObject = deep_copy_object ''LocalVolumeDeviceLink'' LocalVolumeDeviceLink_DeepCopy"

definition LocalVolumeDeviceLinkList_type :: gty where
  "LocalVolumeDeviceLinkList_type = TStruct [
     (''TypeMeta'', TypeMeta_type), (''ListMeta'', ListMeta_type),
     (''Items'', TSlice LocalVolumeDeviceLink_type)]"

definition LocalVolumeDeviceLinkList_DeepCopyInto :: copier where
  "LocalVolumeDeviceLinkList_DeepCopyInto = copy_struct [
     (''TypeMeta'', assign), (''ListMeta'', ListMeta_DeepCopyInto),
     (''Items'', copy_slice LocalVolumeDeviceLink_type LocalVolumeDeviceLink_DeepCopyInto)]"

definition LocalVolumeDeviceLinkList_DeepCopy :: copier where
  "LocalVolumeDeviceLinkList_DeepCopy = deep_copy LocalVolumeDeviceLinkList_type LocalVolumeDeviceLinkList_DeepCopyInto"

definition LocalVolumeDeviceLinkList_DeepCopyObject :: object_copier where
  "LocalVolumeDeviceLinkList_DeepCopyObject = deep_copy_object ''LocalVolumeDeviceLinkList'' LocalVolumeDeviceLinkList_DeepCopy"

section \<open>Types of api/v1alpha1\<close>

definition DeviceExclusionSpec_type :: gty where
  "DeviceExclusionSpec_type = TStruct [
     (''DeviceNameFilter'', TSlice TString)]"

definition DeviceExclusionSpec_DeepCopyInto :: copier where
  "DeviceExclusionSpec_DeepCopyInto = copy_struct [
     (''DeviceNameFilter'', copy_slice TString assign)]"

definition DeviceExclusionSpec_DeepCopy :: copier where
  "DeviceExclusionSpec_DeepCopy = deep_copy DeviceExclusionSpec_type DeviceExclusionSpec_DeepCopyInto"

definition DeviceInclusionSpec_type :: gty where
  "DeviceInclusionSpec_type = TStruct [
     (''DeviceTypes'', TSlice TString), (''DeviceMechanicalProperties'', TSlice TString),
     (''MinSize'', TPtr Quantity_type), (''MaxSize'', TPtr Quantity_type), (''Models'', TSlice TString),
     (''Vendors'', TSlice TString)]"

definition DeviceInclusionSpec_DeepCopyInto :: copier where
  "DeviceInclusionSpec_DeepCopyInto = copy_struct [
     (''DeviceTypes'', copy_slice TString assign),
     (''DeviceMechanicalProperties'', copy_slice TString assign),
     (''MinSize'', copy_pointer Quantity_type Quantity_DeepCopy),
     (''MaxSize'', copy_pointer Quantity_type Quantity_DeepCopy),
     (''Models'', copy_slice TString assign), (''Vendors'', copy_slice TString assign)]"

definition DeviceInclusionSpec_DeepCopy :: copier where
  "DeviceInclusionSpec_DeepCopy = deep_copy DeviceInclusionSpec_type DeviceInclusionSpec_DeepCopyInto"

definition DeviceStatus_type :: gty where
  "DeviceStatus_type = TStruct [
     (''State'', TString)]"

definition DeviceStatus_DeepCopyInto :: copier where
  "DeviceStatus_DeepCopyInto = copy_struct []"

definition DeviceStatus_DeepCopy :: copier where
  "DeviceStatus_DeepCopy = deep_copy DeviceStatus_type DeviceStatus_DeepCopyInto"

definition DiscoveredDevice_type :: gty where
  "DiscoveredDevice_type = TStruct [
     (''DeviceID'', TString), (''Path'', TString), (''Model'', TString), (''Type'', TString),
     (''Vendor'', TString), (''Serial'', TString), (''Size'', TInt), (''Property'', TString),
     (''FSType'', TString), (''Status'', DeviceStatus_type)]"

definition DiscoveredDevice_DeepCopyInto :: copier where
  "DiscoveredDevice_DeepCopyInto = copy_struct [
     (''Status'', assign)]"

definition DiscoveredDevice_DeepCopy :: copier where
  "DiscoveredDevice_DeepCopy = deep_copy DiscoveredDevice_type DiscoveredDevice_DeepCopyInto"

definition LocalVolumeDiscoverySpec_type :: gty where
  "LocalVolumeDiscoverySpec_type = TStruct [
     (''NodeSelector'', TPtr NodeSelector_type), (''Tolerations'', TSlice Toleration_type)]"

definition LocalVolumeDiscoverySpec_DeepCopyInto :: copier where
  "LocalVolumeDiscoverySpec_DeepCopyInto = copy_struct [
     (''NodeSelector'', copy_pointer NodeSelector_type NodeSelector_DeepCopyInto),
     (''Tolerations'', copy_slice Toleration_type Toleration_DeepCopyInto)]"

definition LocalVolumeDiscoverySpec_DeepCopy :: copier where
  "LocalVolumeDiscoverySpec_DeepCopy = deep_copy LocalVolumeDiscoverySpec_type LocalVolumeDiscoverySpec_DeepCopyInto"

definition LocalVolumeDiscoveryStatus_type :: gty where
  "LocalVolumeDiscoveryStatus_type = TStruct [
     (''Phase'', TString), (''Conditions'', TSlice OperatorCondition_type),
     (''ObservedGeneration'', TInt)]"

definition LocalVolumeDiscoveryStatus_DeepCopyInto :: copier where
  "LocalVolumeDiscoveryStatus_DeepCopyInto = copy_struct [
     (''Conditions'', copy_slice OperatorCondition_type OperatorCondition_DeepCopyInto)]"

definition LocalVolumeDiscoveryStatus_DeepCopy :: copier where
  "LocalVolumeDiscoveryStatus_DeepCopy = deep_copy LocalVolumeDiscoveryStatus_type LocalVolumeDiscoveryStatus_DeepCopyInto"

definition LocalVolumeDiscovery_type :: gty where
  "LocalVolumeDiscovery_type = TStruct [
     (''TypeMeta'', TypeMeta_type), (''ObjectMeta'', ObjectMeta_type),
     (''Spec'', LocalVolumeDiscoverySpec_type), (''Status'', LocalVolumeDiscoveryStatus_type)]"

definition LocalVolumeDiscovery_DeepCopyInto :: copier where
  "LocalVolumeDiscovery_DeepCopyInto = copy_struct [
     (''TypeMeta'', assign), (''ObjectMeta'', ObjectMeta_DeepCopyInto),
     (''Spec'', LocalVolumeDiscoverySpec_DeepCopyInto),
     (''Status'', LocalVolumeDiscoveryStatus_DeepCopyInto)]"

definition LocalVolumeDiscovery_DeepCopy :: copier where
  "LocalVolumeDiscovery_DeepCopy = deep_copy LocalVolumeDiscovery_type LocalVolumeDiscovery_DeepCopyInto"

definition LocalVolumeDiscovery_DeepCopyObject :: object_copier where
  "LocalVolumeDiscovery_DeepCopyObject = deep_copy_object ''LocalVolumeDiscovery'' LocalVolumeDiscovery_DeepCopy"

definition LocalVolumeDiscoveryList_type :: gty where
  "LocalVolumeDiscoveryList_type = TStruct [
     (''TypeMeta'', TypeMeta_type), (''ListMeta'', ListMeta_type),
     (''Items'', TSlice LocalVolumeDiscovery_type)]"

definition LocalVolumeDiscoveryList_DeepCopyInto :: copier where
  "LocalVolumeDiscoveryList_DeepCopyInto = copy_struct [
     (''TypeMeta'', assign), (''ListMeta'', ListMeta_DeepCopyInto),
     (''Items'', copy_slice LocalVolumeDiscovery_type LocalVolumeDiscovery_DeepCopyInto)]"

definition LocalVolumeDiscoveryList_DeepCopy :: copier where
  "LocalVolumeDiscoveryList_DeepCopy = deep_copy LocalVolumeDiscoveryList_type LocalVolumeDiscoveryList_DeepCopyInto"

definition LocalVolumeDiscoveryList_DeepCopyObject :: object_copier where
  "LocalVolumeDiscoveryList_DeepCopyObject = deep_copy_object ''LocalVolumeDiscoveryList'' LocalVolumeDiscoveryList_DeepCopy"

definition LocalVolumeDiscoveryResultSpec_type :: gty where
  "LocalVolumeDiscoveryResultSpec_type = TStruct [
     (''NodeName'', TString)]"

definition LocalVolumeDiscoveryResultSpec_DeepCopyInto :: copier where
  "LocalVolumeDiscoveryResultSpec_DeepCopyInto = copy_struct []"

definition LocalVolumeDiscoveryResultSpec_DeepCopy :: copier where
  "LocalVolumeDiscoveryResultSpec_DeepCopy = deep_copy LocalVolumeDiscoveryResultSpec_type LocalVolumeDiscoveryResultSpec_DeepCopyInto"

definition LocalVolumeDiscoveryResultStatus_type :: gty where
  "LocalVolumeDiscoveryResultStatus_type = TStruct [
     (''DiscoveredTimeStamp'', TString), (''DiscoveredDevices'', TSlice DiscoveredDevice_type)]"

definition LocalVolumeDiscoveryResultStatus_DeepCopyInto :: copier where
  "LocalVolumeDiscoveryResultStatus_DeepCopyInto = copy_struct [
     (''DiscoveredDevices'', copy_slice DiscoveredDevice_type assign)]"

definition LocalVolumeDiscoveryResultStatus_DeepCopy :: copier where
  "LocalVolumeDiscoveryResultStatus_DeepCopy = deep_copy LocalVolumeDiscoveryResultStatus_type LocalVolumeDiscoveryResultStatus_DeepCopyInto"

definition LocalVolumeDiscoveryResult_type :: gty where
  "LocalVolumeDiscoveryResult_type = TStruct [
     (''TypeMeta'', TypeMeta_type), (''ObjectMeta'', ObjectMeta_type),
     (''Spec'', LocalVolumeDiscoveryResultSpec_type), (''Status'', LocalVolumeDiscoveryResultStatus_type)]"

definition LocalVolumeDiscoveryResult_DeepCopyInto :: copier where
  "LocalVolumeDiscoveryResult_DeepCopyInto = copy_struct [
     (''TypeMeta'', assign), (''ObjectMeta'', ObjectMeta_DeepCopyInto), (''Spec'', assign),
     (''Status'', LocalVolumeDiscoveryResultStatus_DeepCopyInto)]"

definition LocalVolumeDiscoveryResult_DeepCopy :: copier where
  "LocalVolumeDiscoveryResult_DeepCopy = deep_copy LocalVolumeDiscoveryResult_type LocalVolumeDiscoveryResult_DeepCopyInto"

definition LocalVolumeDiscoveryResult_DeepCopyObject :: object_copier where
  "LocalVolumeDiscoveryResult_DeepCopyObject = deep_copy_object ''LocalVolumeDiscoveryResult'' LocalVolumeDiscoveryResult_DeepCopy"

definition LocalVolumeDiscoveryResultList_type :: gty where
  "LocalVolumeDiscoveryResultList_type = TStruct [
     (''TypeMeta'', TypeMeta_type), (''ListMeta'', ListMeta_type),
     (''Items'', TSlice LocalVolumeDiscoveryResult_type)]"

definition LocalVolumeDiscoveryResultList_DeepCopyInto :: copier where
  "LocalVolumeDiscoveryResultList_DeepCopyInto = copy_struct [
     (''TypeMeta'', assign), (''ListMeta'', ListMeta_DeepCopyInto),
     (''Items'', copy_slice LocalVolumeDiscoveryResult_type LocalVolumeDiscoveryResult_DeepCopyInto)]"

definition LocalVolumeDiscoveryResultList_DeepCopy :: copier where
  "LocalVolumeDiscoveryResultList_DeepCopy = deep_copy LocalVolumeDiscoveryResultList_type LocalVolumeDiscoveryResultList_DeepCopyInto"

definition LocalVolumeDiscoveryResultList_DeepCopyObject :: object_copier where
  "LocalVolumeDiscoveryResultList_DeepCopyObject = deep_copy_object ''LocalVolumeDiscoveryResultList'' LocalVolumeDiscoveryResultList_DeepCopy"

definition LocalVolumeSetSpec_type :: gty where
  "LocalVolumeSetSpec_type = TStruct [
     (''NodeSelector'', TPtr NodeSelector_type), (''StorageClassName'', TString),
     (''MaxDeviceCount'', TPtr TInt), (''VolumeMode'', TString), (''FSType'', TString),
     (''Tolerations'', TSlice Toleration_type), (''DeviceInclusionSpec'', TPtr DeviceInclusionSpec_type),
     (''DeviceExclusionSpec'', TPtr DeviceExclusionSpec_type)]"

definition LocalVolumeSetSpec_DeepCopyInto :: copier where
  "LocalVolumeSetSpec_DeepCopyInto = copy_struct [
     (''NodeSelector'', copy_pointer NodeSelector_type NodeSelector_DeepCopyInto),
     (''MaxDeviceCount'', copy_pointer TInt assign),
     (''Tolerations'', copy_slice Toleration_type Toleration_DeepCopyInto),
     (''DeviceInclusionSpec'', copy_pointer DeviceInclusionSpec_type DeviceInclusionSpec_DeepCopyInto),
     (''DeviceExclusionSpec'', copy_pointer DeviceExclusionSpec_type DeviceExclusionSpec_DeepCopyInto)]"

definition LocalVolumeSetSpec_DeepCopy :: copier where
  "LocalVolumeSetSpec_DeepCopy = deep_copy LocalVolumeSetSpec_type LocalVolumeSetSpec_DeepCopyInto"

definition LocalVolumeSetStatus_type :: gty where
  "LocalVolumeSetStatus_type = TStruct [
     (''Conditions'', TSlice OperatorCondition_type), (''TotalProvisionedDeviceCount'', TPtr TInt),
     (''ObservedGeneration'', TInt)]"

definition LocalVolumeSetStatus_DeepCopyInto :: copier where
  "LocalVolumeSetStatus_DeepCopyInto = copy_struct [
     (''Conditions'', copy_slice OperatorCondition_type OperatorCondition_DeepCopyInto),
     (''TotalProvisionedDeviceCount'', copy_pointer TInt assign)]"

definition LocalVolumeSetStatus_DeepCopy :: copier where
  "LocalVolumeSetStatus_DeepCopy = deep_copy LocalVolumeSetStatus_type LocalVolumeSetStatus_DeepCopyInto"

definition LocalVolumeSet_type :: gty where
  "LocalVolumeSet_type = TStruct [
     (''TypeMeta'', TypeMeta_type), (''ObjectMeta'', ObjectMeta_type),
     (''Spec'', LocalVolumeSetSpec_type), (''Status'', LocalVolumeSetStatus_type)]"

definition LocalVolumeSet_DeepCopyInto :: copier where
  "LocalVolumeSet_DeepCopyInto = copy_struct [
     (''TypeMeta'', assign), (''ObjectMeta'', ObjectMeta_DeepCopyInto),
     (''Spec'', LocalVolumeSetSpec_DeepCopyInto), (''Status'', LocalVolumeSetStatus_DeepCopyInto)]"

definition LocalVolumeSet_DeepCopy :: copier where
  "LocalVolumeSet_DeepCopy = deep_copy LocalVolumeSet_type LocalVolumeSet_DeepCopyInto"

definition LocalVolumeSet_DeepCopyObject :: object_copier where
  "LocalVolumeSet_DeepCopyObject = deep_copy_object ''LocalVolumeSet'' LocalVolumeSet_DeepCopy"

definition LocalVolumeSetList_type :: gty where
  "LocalVolumeSetList_type = TStruct [
     (''TypeMeta'', TypeMeta_type), (''ListMeta'', ListMeta_type),
     (''Items'', TSlice LocalVolumeSet_type)]"

definition LocalVolumeSetList_DeepCopyInto :: copier where
  "LocalVolumeSetList_DeepCopyInto = copy_struct [
     (''TypeMeta'', assign), (''ListMeta'', ListMeta_DeepCopyInto),
     (''Items'', copy_slice LocalVolumeSet_type LocalVolumeSet_DeepCopyInto)]"

definition LocalVolumeSetList_DeepCopy :: copier where
  "LocalVolumeSetList_DeepCopy = deep_copy LocalVolumeSetList_type LocalVolumeSetList_DeepCopyInto"

definition LocalVolumeSetList_DeepCopyObject :: object_copier where
  "LocalVolumeSetList_DeepCopyObject = deep_copy_object ''LocalVolumeSetList'' LocalVolumeSetList_DeepCopy"

section \<open>Every copy function keeps the contract\<close>

lemma flat_leaf [flat_types]: "flat Time_type" "flat TString" "flat TInt" "flat TBool"
  by (simp_all add: Time_type_def)

lemma flat_int64Amount [flat_types]: "flat int64Amount_type"
  by (simp add: int64Amount_type_def flat_types)

lemma flat_Dec [flat_types]: "flat Dec_type"
  by (simp add: Dec_type_def flat_types)

lemma flat_TypeMeta [flat_types]: "flat TypeMeta_type"
  by (simp add: TypeMeta_type_def flat_types)

lemma flat_OperatorCondition [flat_types]: "flat OperatorCondition_type"
  by (simp add: OperatorCondition_type_def flat_types)

lemma flat_GenerationStatus [flat_types]: "flat GenerationStatus_type"
  by (simp add: GenerationStatus_type_def flat_types)

lemma flat_LocalVolumeDeviceLinkSpec [flat_types]: "flat LocalVolumeDeviceLinkSpec_type"
  by (simp add: LocalVolumeDeviceLinkSpec_type_def flat_types)

lemma flat_DeviceStatus [flat_types]: "flat DeviceStatus_type"
  by (simp add: DeviceStatus_type_def flat_types)

lemma flat_DiscoveredDevice [flat_types]: "flat DiscoveredDevice_type"
  by (simp add: DiscoveredDevice_type_def flat_types)

lemma flat_LocalVolumeDiscoveryResultSpec [flat_types]: "flat LocalVolumeDiscoveryResultSpec_type"
  by (simp add: LocalVolumeDiscoveryResultSpec_type_def flat_types)

lemma deep_Time [deep_copies]: "deep Time_type Time_DeepCopyInto"
  by (simp add: Time_DeepCopyInto_def deep_copies flat_types)

lemma deep_Dec [deep_copies]: "deep Dec_type Dec_Set"
  unfolding Dec_type_def Dec_Set_def by (rule deep_struct) (simp_all add: deep_copies flat_types)

lemma deep_infDecAmount [deep_copies]: "deep infDecAmount_type (copy_struct [(''Dec'', copy_pointer Dec_type Dec_Set)])"
  unfolding infDecAmount_type_def by (rule deep_struct) (simp_all add: deep_copies)

lemma deep_Quantity [deep_copies]: "deep Quantity_type Quantity_DeepCopy"
  unfolding Quantity_type_def Quantity_DeepCopy_def by (rule deep_struct) (simp_all add: deep_copies flat_types)

lemma deep_OwnerReference [deep_copies]: "deep OwnerReference_type OwnerReference_DeepCopyInto"
  unfolding OwnerReference_type_def OwnerReference_DeepCopyInto_def by (rule deep_struct) (simp_all add: deep_copies flat_types)

lemma deep_FieldsV1 [deep_copies]: "deep FieldsV1_type FieldsV1_DeepCopyInto"
  unfolding FieldsV1_type_def FieldsV1_DeepCopyInto_def by (rule deep_struct) (simp_all add: deep_copies flat_types)

lemma deep_ManagedFieldsEntry [deep_copies]: "deep ManagedFieldsEntry_type ManagedFieldsEntry_DeepCopyInto"
  unfolding ManagedFieldsEntry_type_def ManagedFieldsEntry_DeepCopyInto_def by (rule deep_struct) (simp_all add: deep_copies flat_types)

lemma deep_ObjectMeta [deep_copies]: "deep ObjectMeta_type ObjectMeta_DeepCopyInto"
  unfolding ObjectMeta_type_def ObjectMeta_DeepCopyInto_def by (rule deep_struct) (simp_all add: deep_copies flat_types)

lemma deep_ListMeta [deep_copies]: "deep ListMeta_type ListMeta_DeepCopyInto"
  unfolding ListMeta_type_def ListMeta_DeepCopyInto_def by (rule deep_struct) (simp_all add: deep_copies flat_types)

lemma deep_NodeSelectorRequirement [deep_copies]: "deep NodeSelectorRequirement_type NodeSelectorRequirement_DeepCopyInto"
  unfolding NodeSelectorRequirement_type_def NodeSelectorRequirement_DeepCopyInto_def by (rule deep_struct) (simp_all add: deep_copies flat_types)

lemma deep_NodeSelectorTerm [deep_copies]: "deep NodeSelectorTerm_type NodeSelectorTerm_DeepCopyInto"
  unfolding NodeSelectorTerm_type_def NodeSelectorTerm_DeepCopyInto_def by (rule deep_struct) (simp_all add: deep_copies flat_types)

lemma deep_NodeSelector [deep_copies]: "deep NodeSelector_type NodeSelector_DeepCopyInto"
  unfolding NodeSelector_type_def NodeSelector_DeepCopyInto_def by (rule deep_struct) (simp_all add: deep_copies flat_types)

lemma deep_Toleration [deep_copies]: "deep Toleration_type Toleration_DeepCopyInto"
  unfolding Toleration_type_def Toleration_DeepCopyInto_def by (rule deep_struct) (simp_all add: deep_copies flat_types)

lemma deep_OperatorCondition [deep_copies]: "deep OperatorCondition_type OperatorCondition_DeepCopyInto"
  unfolding OperatorCondition_type_def OperatorCondition_DeepCopyInto_def by (rule deep_struct) (simp_all add: deep_copies flat_types)

lemma deep_StorageClassDevice [deep_copies]: "deep StorageClassDevice_type StorageClassDevice_DeepCopyInto"
  unfolding StorageClassDevice_type_def StorageClassDevice_DeepCopyInto_def by (rule deep_struct) (simp_all add: deep_copies flat_types)

lemma deep_LocalVolumeSpec [deep_copies]: "deep LocalVolumeSpec_type LocalVolumeSpec_DeepCopyInto"
  unfolding LocalVolumeSpec_type_def LocalVolumeSpec_DeepCopyInto_def by (rule deep_struct) (simp_all add: deep_copies flat_types)

lemma deep_LocalVolumeStatus [deep_copies]: "deep LocalVolumeStatus_type LocalVolumeStatus_DeepCopyInto"
  unfolding LocalVolumeStatus_type_def LocalVolumeStatus_DeepCopyInto_def by (rule deep_struct) (simp_all add: deep_copies flat_types)

lemma deep_LocalVolume [deep_copies]: "deep LocalVolume_type LocalVolume_DeepCopyInto"
  unfolding LocalVolume_type_def LocalVolume_DeepCopyInto_def by (rule deep_struct) (simp_all add: deep_copies flat_types)

lemma deep_LocalVolumeList [deep_copies]: "deep LocalVolumeList_type LocalVolumeList_DeepCopyInto"
  unfolding LocalVolumeList_type_def LocalVolumeList_DeepCopyInto_def by (rule deep_struct) (simp_all add: deep_copies flat_types)

lemma deep_LocalVolumeDeviceLinkSpec [deep_copies]: "deep LocalVolumeDeviceLinkSpec_type LocalVolumeDeviceLinkSpec_DeepCopyInto"
  unfolding LocalVolumeDeviceLinkSpec_type_def LocalVolumeDeviceLinkSpec_DeepCopyInto_def by (rule deep_struct) (simp_all add: deep_copies flat_types)

lemma deep_LocalVolumeDeviceLinkStatus [deep_copies]: "deep LocalVolumeDeviceLinkStatus_type LocalVolumeDeviceLinkStatus_DeepCopyInto"
  unfolding LocalVolumeDeviceLinkStatus_type_def LocalVolumeDeviceLinkStatus_DeepCopyInto_def by (rule deep_struct) (simp_all add: deep_copies flat_types)

lemma deep_LocalVolumeDeviceLink [deep_copies]: "deep LocalVolumeDeviceLink_type LocalVolumeDeviceLink_DeepCopyInto"
  unfolding LocalVolumeDeviceLink_type_def LocalVolumeDeviceLink_DeepCopyInto_def by (rule deep_struct) (simp_all add: deep_copies flat_types)

lemma deep_LocalVolumeDeviceLinkList [deep_copies]: "deep LocalVolumeDeviceLinkList_type LocalVolumeDeviceLinkList_DeepCopyInto"
  unfolding LocalVolumeDeviceLinkList_type_def LocalVolumeDeviceLinkList_DeepCopyInto_def by (rule deep_struct) (simp_all add: deep_copies flat_types)

lemma deep_DeviceExclusionSpec [deep_copies]: "deep DeviceExclusionSpec_type DeviceExclusionSpec_DeepCopyInto"
  unfolding DeviceExclusionSpec_type_def DeviceExclusionSpec_DeepCopyInto_def by (rule deep_struct) (simp_all add: deep_copies flat_types)

lemma deep_DeviceInclusionSpec [deep_copies]: "deep DeviceInclusionSpec_type DeviceInclusionSpec_DeepCopyInto"
  unfolding DeviceInclusionSpec_type_def DeviceInclusionSpec_DeepCopyInto_def by (rule deep_struct) (simp_all add: deep_copies flat_types)

lemma deep_DeviceStatus [deep_copies]: "deep DeviceStatus_type DeviceStatus_DeepCopyInto"
  unfolding DeviceStatus_type_def DeviceStatus_DeepCopyInto_def by (rule deep_struct) (simp_all add: deep_copies flat_types)

lemma deep_DiscoveredDevice [deep_copies]: "deep DiscoveredDevice_type DiscoveredDevice_DeepCopyInto"
  unfolding DiscoveredDevice_type_def DiscoveredDevice_DeepCopyInto_def by (rule deep_struct) (simp_all add: deep_copies flat_types)

lemma deep_LocalVolumeDiscoverySpec [deep_copies]: "deep LocalVolumeDiscoverySpec_type LocalVolumeDiscoverySpec_DeepCopyInto"
  unfolding LocalVolumeDiscoverySpec_type_def LocalVolumeDiscoverySpec_DeepCopyInto_def by (rule deep_struct) (simp_all add: deep_copies flat_types)

lemma deep_LocalVolumeDiscoveryStatus [deep_copies]: "deep LocalVolumeDiscoveryStatus_type LocalVolumeDiscoveryStatus_DeepCopyInto"
  unfolding LocalVolumeDiscoveryStatus_type_def LocalVolumeDiscoveryStatus_DeepCopyInto_def by (rule deep_struct) (simp_all add: deep_copies flat_types)

lemma deep_LocalVolumeDiscovery [deep_copies]: "deep LocalVolumeDiscovery_type LocalVolumeDiscovery_DeepCopyInto"
  unfolding LocalVolumeDiscovery_type_def LocalVolumeDiscovery_DeepCopyInto_def by (rule deep_struct) (simp_all add: deep_copies flat_types)

lemma deep_LocalVolumeDiscoveryList [deep_copies]: "deep LocalVolumeDiscoveryList_type LocalVolumeDiscoveryList_DeepCopyInto"
  unfolding LocalVolumeDiscoveryList_type_def LocalVolumeDiscoveryList_DeepCopyInto_def by (rule deep_struct) (simp_all add: deep_copies flat_types)

lemma deep_LocalVolumeDiscoveryResultSpec [deep_copies]: "deep LocalVolumeDiscoveryResultSpec_type LocalVolumeDiscoveryResultSpec_DeepCopyInto"
  unfolding LocalVolumeDiscoveryResultSpec_type_def LocalVolumeDiscoveryResultSpec_DeepCopyInto_def by (rule deep_struct) (simp_all add: deep_copies flat_types)

lemma deep_LocalVolumeDiscoveryResultStatus [deep_copies]: "deep LocalVolumeDiscoveryResultStatus_type LocalVolumeDiscoveryResultStatus_DeepCopyInto"
  unfolding LocalVolumeDiscoveryResultStatus_type_def LocalVolumeDiscoveryResultStatus_DeepCopyInto_def by (rule deep_struct) (simp_all add: deep_copies flat_types)

lemma deep_LocalVolumeDiscoveryResult [deep_copies]: "deep LocalVolumeDiscoveryResult_type LocalVolumeDiscoveryResult_DeepCopyInto"
  unfolding LocalVolumeDiscoveryResult_type_def LocalVolumeDiscoveryResult_DeepCopyInto_def by (rule deep_struct) (simp_all add: deep_copies flat_types)

lemma deep_LocalVolumeDiscoveryResultList [deep_copies]: "deep LocalVolumeDiscoveryResultList_type LocalVolumeDiscoveryResultList_DeepCopyInto"
  unfolding LocalVolumeDiscoveryResultList_type_def LocalVolumeDiscoveryResultList_DeepCopyInto_def by (rule deep_struct) (simp_all add: deep_copies flat_types)

lemma deep_LocalVolumeSetSpec [deep_copies]: "deep LocalVolumeSetSpec_type LocalVolumeSetSpec_DeepCopyInto"
  unfolding LocalVolumeSetSpec_type_def LocalVolumeSetSpec_DeepCopyInto_def by (rule deep_struct) (simp_all add: deep_copies flat_types)

lemma deep_LocalVolumeSetStatus [deep_copies]: "deep LocalVolumeSetStatus_type LocalVolumeSetStatus_DeepCopyInto"
  unfolding LocalVolumeSetStatus_type_def LocalVolumeSetStatus_DeepCopyInto_def by (rule deep_struct) (simp_all add: deep_copies flat_types)

lemma deep_LocalVolumeSet [deep_copies]: "deep LocalVolumeSet_type LocalVolumeSet_DeepCopyInto"
  unfolding LocalVolumeSet_type_def LocalVolumeSet_DeepCopyInto_def by (rule deep_struct) (simp_all add: deep_copies flat_types)

lemma deep_LocalVolumeSetList [deep_copies]: "deep LocalVolumeSetList_type LocalVolumeSetList_DeepCopyInto"
  unfolding LocalVolumeSetList_type_def LocalVolumeSetList_DeepCopyInto_def by (rule deep_struct) (simp_all add: deep_copies flat_types)

interpretation StorageClassDevice: deep_copier StorageClassDevice_type StorageClassDevice_DeepCopyInto
  by (rule deep_copierI) (rule deep_StorageClassDevice)

interpretation LocalVolumeSpec: deep_copier LocalVolumeSpec_type LocalVolumeSpec_DeepCopyInto
  by (rule deep_copierI) (rule deep_LocalVolumeSpec)

interpretation LocalVolumeStatus: deep_copier LocalVolumeStatus_type LocalVolumeStatus_DeepCopyInto
  by (rule deep_copierI) (rule deep_LocalVolumeStatus)

interpretation LocalVolume: deep_copier LocalVolume_type LocalVolume_DeepCopyInto
  by (rule deep_copierI) (rule deep_LocalVolume)

interpretation LocalVolumeList: deep_copier LocalVolumeList_type LocalVolumeList_DeepCopyInto
  by (rule deep_copierI) (rule deep_LocalVolumeList)

interpretation LocalVolumeDeviceLinkSpec: deep_copier LocalVolumeDeviceLinkSpec_type LocalVolumeDeviceLinkSpec_DeepCopyInto
  by (rule deep_copierI) (rule deep_LocalVolumeDeviceLinkSpec)

interpretation LocalVolumeDeviceLinkStatus: deep_copier LocalVolumeDeviceLinkStatus_type LocalVolumeDeviceLinkStatus_DeepCopyInto
  by (rule deep_copierI) (rule deep_LocalVolumeDeviceLinkStatus)

interpretation LocalVolumeDeviceLink: deep_copier LocalVolumeDeviceLink_type LocalVolumeDeviceLink_DeepCopyInto
  by (rule deep_copierI) (rule deep_LocalVolumeDeviceLink)

interpretation LocalVolumeDeviceLinkList: deep_copier LocalVolumeDeviceLinkList_type LocalVolumeDeviceLinkList_DeepCopyInto
  by (rule deep_copierI) (rule deep_LocalVolumeDeviceLinkList)

interpretation DeviceExclusionSpec: deep_copier DeviceExclusionSpec_type DeviceExclusionSpec_DeepCopyInto
  by (rule deep_copierI) (rule deep_DeviceExclusionSpec)

interpretation DeviceInclusionSpec: deep_copier DeviceInclusionSpec_type DeviceInclusionSpec_DeepCopyInto
  by (rule deep_copierI) (rule deep_DeviceInclusionSpec)

interpretation DeviceStatus: deep_copier DeviceStatus_type DeviceStatus_DeepCopyInto
  by (rule deep_copierI) (rule deep_DeviceStatus)

interpretation DiscoveredDevice: deep_copier DiscoveredDevice_type DiscoveredDevice_DeepCopyInto
  by (rule deep_copierI) (rule deep_DiscoveredDevice)

interpretation LocalVolumeDiscoverySpec: deep_copier LocalVolumeDiscoverySpec_type LocalVolumeDiscoverySpec_DeepCopyInto
  by (rule deep_copierI) (rule deep_LocalVolumeDiscoverySpec)

interpretation LocalVolumeDiscoveryStatus: deep_copier LocalVolumeDiscoveryStatus_type LocalVolumeDiscoveryStatus_DeepCopyInto
  by (rule deep_copierI) (rule deep_LocalVolumeDiscoveryStatus)

interpretation LocalVolumeDiscovery: deep_copier LocalVolumeDiscovery_type LocalVolumeDiscovery_DeepCopyInto
  by (rule deep_copierI) (rule deep_LocalVolumeDiscovery)

interpretation LocalVolumeDiscoveryList: deep_copier LocalVolumeDiscoveryList_type LocalVolumeDiscoveryList_DeepCopyInto
  by (rule deep_copierI) (rule deep_LocalVolumeDiscoveryList)

interpretation LocalVolumeDiscoveryResultSpec: deep_copier LocalVolumeDiscoveryResultSpec_type LocalVolumeDiscoveryResultSpec_DeepCopyInto
  by (rule deep_copierI) (rule deep_LocalVolumeDiscoveryResultSpec)

interpretation LocalVolumeDiscoveryResultStatus: deep_copier LocalVolumeDiscoveryResultStatus_type LocalVolumeDiscoveryResultStatus_DeepCopyInto
  by (rule deep_copierI) (rule deep_LocalVolumeDiscoveryResultStatus)

interpretation LocalVolumeDiscoveryResult: deep_copier LocalVolumeDiscoveryResult_type LocalVolumeDiscoveryResult_DeepCopyInto
  by (rule deep_copierI) (rule deep_LocalVolumeDiscoveryResult)

interpretation LocalVolumeDiscoveryResultList: deep_copier LocalVolumeDiscoveryResultList_type LocalVolumeDiscoveryResultList_DeepCopyInto
  by (rule deep_copierI) (rule deep_LocalVolumeDiscoveryResultList)

interpretation LocalVolumeSetSpec: deep_copier LocalVolumeSetSpec_type LocalVolumeSetSpec_DeepCopyInto
  by (rule deep_copierI) (rule deep_LocalVolumeSetSpec)

interpretation LocalVolumeSetStatus: deep_copier LocalVolumeSetStatus_type LocalVolumeSetStatus_DeepCopyInto
  by (rule deep_copierI) (rule deep_LocalVolumeSetStatus)

interpretation LocalVolumeSet: deep_copier LocalVolumeSet_type LocalVolumeSet_DeepCopyInto
  by (rule deep_copierI) (rule deep_LocalVolumeSet)

interpretation LocalVolumeSetList: deep_copier LocalVolumeSetList_type LocalVolumeSetList_DeepCopyInto
  by (rule deep_copierI) (rule deep_LocalVolumeSetList)

text \<open>The generated methods \<open>DeepCopy\<close>, with the type each is for.\<close>

definition deep_copy_methods :: "(gty \<times> copier) list" where
  "deep_copy_methods = [
     (StorageClassDevice_type, StorageClassDevice_DeepCopy),
     (LocalVolumeSpec_type, LocalVolumeSpec_DeepCopy),
     (LocalVolumeStatus_type, LocalVolumeStatus_DeepCopy), (LocalVolume_type, LocalVolume_DeepCopy),
     (LocalVolumeList_type, LocalVolumeList_DeepCopy),
     (LocalVolumeDeviceLinkSpec_type, LocalVolumeDeviceLinkSpec_DeepCopy),
     (LocalVolumeDeviceLinkStatus_type, LocalVolumeDeviceLinkStatus_DeepCopy),
     (LocalVolumeDeviceLink_type, LocalVolumeDeviceLink_DeepCopy),
     (LocalVolumeDeviceLinkList_type, LocalVolumeDeviceLinkList_DeepCopy),
     (DeviceExclusionSpec_type, DeviceExclusionSpec_DeepCopy),
     (DeviceInclusionSpec_type, DeviceInclusionSpec_DeepCopy),
     (DeviceStatus_type, DeviceStatus_DeepCopy), (DiscoveredDevice_type, DiscoveredDevice_DeepCopy),
     (LocalVolumeDiscoverySpec_type, LocalVolumeDiscoverySpec_DeepCopy),
     (LocalVolumeDiscoveryStatus_type, LocalVolumeDiscoveryStatus_DeepCopy),
     (LocalVolumeDiscovery_type, LocalVolumeDiscovery_DeepCopy),
     (LocalVolumeDiscoveryList_type, LocalVolumeDiscoveryList_DeepCopy),
     (LocalVolumeDiscoveryResultSpec_type, LocalVolumeDiscoveryResultSpec_DeepCopy),
     (LocalVolumeDiscoveryResultStatus_type, LocalVolumeDiscoveryResultStatus_DeepCopy),
     (LocalVolumeDiscoveryResult_type, LocalVolumeDiscoveryResult_DeepCopy),
     (LocalVolumeDiscoveryResultList_type, LocalVolumeDiscoveryResultList_DeepCopy),
     (LocalVolumeSetSpec_type, LocalVolumeSetSpec_DeepCopy),
     (LocalVolumeSetStatus_type, LocalVolumeSetStatus_DeepCopy),
     (LocalVolumeSet_type, LocalVolumeSet_DeepCopy),
     (LocalVolumeSetList_type, LocalVolumeSetList_DeepCopy)]"

lemmas deep_copy_method_defs =
  StorageClassDevice_DeepCopy_def LocalVolumeSpec_DeepCopy_def LocalVolumeStatus_DeepCopy_def
  LocalVolume_DeepCopy_def LocalVolumeList_DeepCopy_def LocalVolumeDeviceLinkSpec_DeepCopy_def
  LocalVolumeDeviceLinkStatus_DeepCopy_def LocalVolumeDeviceLink_DeepCopy_def
  LocalVolumeDeviceLinkList_DeepCopy_def DeviceExclusionSpec_DeepCopy_def
  DeviceInclusionSpec_DeepCopy_def DeviceStatus_DeepCopy_def DiscoveredDevice_DeepCopy_def
  LocalVolumeDiscoverySpec_DeepCopy_def LocalVolumeDiscoveryStatus_DeepCopy_def
  LocalVolumeDiscovery_DeepCopy_def LocalVolumeDiscoveryList_DeepCopy_def
  LocalVolumeDiscoveryResultSpec_DeepCopy_def LocalVolumeDiscoveryResultStatus_DeepCopy_def
  LocalVolumeDiscoveryResult_DeepCopy_def LocalVolumeDiscoveryResultList_DeepCopy_def
  LocalVolumeSetSpec_DeepCopy_def LocalVolumeSetStatus_DeepCopy_def LocalVolumeSet_DeepCopy_def
  LocalVolumeSetList_DeepCopy_def

lemmas api_deep_copiers =
  StorageClassDevice.deep_copier_axioms LocalVolumeSpec.deep_copier_axioms
  LocalVolumeStatus.deep_copier_axioms LocalVolume.deep_copier_axioms
  LocalVolumeList.deep_copier_axioms LocalVolumeDeviceLinkSpec.deep_copier_axioms
  LocalVolumeDeviceLinkStatus.deep_copier_axioms LocalVolumeDeviceLink.deep_copier_axioms
  LocalVolumeDeviceLinkList.deep_copier_axioms DeviceExclusionSpec.deep_copier_axioms
  DeviceInclusionSpec.deep_copier_axioms DeviceStatus.deep_copier_axioms
  DiscoveredDevice.deep_copier_axioms LocalVolumeDiscoverySpec.deep_copier_axioms
  LocalVolumeDiscoveryStatus.deep_copier_axioms LocalVolumeDiscovery.deep_copier_axioms
  LocalVolumeDiscoveryList.deep_copier_axioms LocalVolumeDiscoveryResultSpec.deep_copier_axioms
  LocalVolumeDiscoveryResultStatus.deep_copier_axioms LocalVolumeDiscoveryResult.deep_copier_axioms
  LocalVolumeDiscoveryResultList.deep_copier_axioms LocalVolumeSetSpec.deep_copier_axioms
  LocalVolumeSetStatus.deep_copier_axioms LocalVolumeSet.deep_copier_axioms
  LocalVolumeSetList.deep_copier_axioms

lemma methods_are_deep:
  assumes "(t, dc) \<in> set deep_copy_methods"
  shows "\<exists>into. deep_copier t into \<and> dc = deep_copy t into"
  using assms unfolding deep_copy_methods_def deep_copy_method_defs
  by (simp only: list.set insert_iff prod.inject empty_iff) (elim disjE conjE; use api_deep_copiers in blast)

text \<open>
  C19: Every generated DeepCopy of an API type, given a pointer to a well-typed value in memory,
  returns; it gives nil exactly for nil, changes nothing that was allocated before, and its result
  shows the same contents as the original while sharing no address with it: no write through the
  copy, or to memory allocated later, changes what the original shows, and no write through the
  original changes what the copy shows.
\<close>
theorem deep_copy_isolates:
  assumes "(t, dc) \<in> set deep_copy_methods" "wf_mem m" "has_type (TPtr t) p m"
  shows "\<exists>p' m'. dc p m = Some (p', m') \<and> extends m m' \<and> isolated (TPtr t) p m p' m' \<and> (p' = PtrV None \<longleftrightarrow> p = PtrV None)"
  using methods_are_deep[OF assms(1)] deep_copier.deep_copy_isolated[OF _ assms(2,3)] by blast

definition example_mem :: mem where
  "example_mem = \<lparr>cells = [0 \<mapsto> [StructV [(''StorageClassName'', StrV ''fast''), (''VolumeMode'', StrV ''Block''),
        (''FSType'', StrV ''''), (''DevicePaths'', SliceV (Some (1, 1, 2))),
        (''ForceWipeDevicesAndDestroyAllData'', BoolV False)]],
      1 \<mapsto> [StrV ''/dev/sda'', StrV ''/dev/sdb'', StrV ''/dev/sdc'', StrV ''/dev/sdd'']], next_addr = 2\<rparr>"

theorem deep_copy_isolates_witness:
  "\<exists>p' m'. StorageClassDevice_DeepCopy (PtrV (Some 0)) example_mem = Some (p', m') \<and> extends example_mem m'
     \<and> isolated (TPtr StorageClassDevice_type) (PtrV (Some 0)) example_mem p' m' \<and> p' \<noteq> PtrV None"
proof -
  have "(StorageClassDevice_type, StorageClassDevice_DeepCopy) \<in> set deep_copy_methods"
    by (simp add: deep_copy_methods_def)
  moreover have "wf_mem example_mem"
    by (auto simp: wf_mem_def example_mem_def)
  moreover have "has_type (TPtr StorageClassDevice_type) (PtrV (Some 0)) example_mem"
    by (simp add: example_mem_def StorageClassDevice_type_def window_def)
  ultimately show ?thesis
    using deep_copy_isolates[of StorageClassDevice_type StorageClassDevice_DeepCopy example_mem "PtrV (Some 0)"] by simp
qed

section \<open>Registration with a scheme\<close>

text \<open>
  A scheme knows kinds by group, version and name and can copy their objects. \<open>AddKnownTypes\<close>
  panics (\<open>None\<close>) for an empty version and when a kind is already known with another type. The options and watch events
  that \<open>metav1.AddToGroupVersion\<close> adds as well are left out.
\<close>

type_synonym api_object = "string \<times> gty \<times> object_copier"
type_synonym api_scheme = "((string \<times> string \<times> string) \<times> gty \<times> object_copier) list"

record scheme_builder =
  sb_GroupVersion :: "string \<times> string"
  sb_objects :: "api_object list list"

definition Register :: "api_object list \<Rightarrow> scheme_builder \<Rightarrow> scheme_builder" where
  "Register objects bld = bld\<lparr>sb_objects := sb_objects bld @ [objects]\<rparr>"

fun AddKnownTypes :: "string \<times> string \<Rightarrow> api_object list \<Rightarrow> api_scheme \<Rightarrow> api_scheme option" where
  "AddKnownTypes gv [] s = Some s"
| "AddKnownTypes gv ((kind, t, dco) # objs) s =
     (let gvk = (fst gv, snd gv, kind) in
      if snd gv = '''' then None
      else case map_of s gvk of
        None \<Rightarrow> AddKnownTypes gv objs (s @ [(gvk, t, dco)])
      | Some (t', _) \<Rightarrow> if t' = t then AddKnownTypes gv objs s else None)"

fun builder_AddToScheme :: "string \<times> string \<Rightarrow> api_object list list \<Rightarrow> api_scheme \<Rightarrow> api_scheme option" where
  "builder_AddToScheme gv [] s = Some s"
| "builder_AddToScheme gv (objs # rest) s =
     (case AddKnownTypes gv objs s of None \<Rightarrow> None | Some s' \<Rightarrow> builder_AddToScheme gv rest s')"

definition GroupVersion_v1 :: "string \<times> string" where
  "GroupVersion_v1 = (''local.storage.openshift.io'', ''v1'')"

definition GroupVersion_v1alpha1 :: "string \<times> string" where
  "GroupVersion_v1alpha1 = (''local.storage.openshift.io'', ''v1alpha1'')"

definition init_localvolume :: "scheme_builder \<Rightarrow> scheme_builder" where
  "init_localvolume = Register [
     (''LocalVolume'', LocalVolume_type, LocalVolume_DeepCopyObject),
     (''LocalVolumeList'', LocalVolumeList_type, LocalVolumeList_DeepCopyObject)]"

definition init_localvolumedevicelink :: "scheme_builder \<Rightarrow> scheme_builder" where
  "init_localvolumedevicelink = Register [
     (''LocalVolumeDeviceLink'', LocalVolumeDeviceLink_type, LocalVolumeDeviceLink_DeepCopyObject),
     (''LocalVolumeDeviceLinkList'', LocalVolumeDeviceLinkList_type, LocalVolumeDeviceLinkList_DeepCopyObject)]"

definition init_localvolumediscovery :: "scheme_builder \<Rightarrow> scheme_builder" where
  "init_localvolumediscovery = Register [
     (''LocalVolumeDiscovery'', LocalVolumeDiscovery_type, LocalVolumeDiscovery_DeepCopyObject),
     (''LocalVolumeDiscoveryList'', LocalVolumeDiscoveryList_type, LocalVolumeDiscoveryList_DeepCopyObject)]"

definition init_localvolumediscoveryresult :: "scheme_builder \<Rightarrow> scheme_builder" where
  "init_localvolumediscoveryresult = Register [
     (''LocalVolumeDiscoveryResult'', LocalVolumeDiscoveryResult_type, LocalVolumeDiscoveryResult_DeepCopyObject),
     (''LocalVolumeDiscoveryResultList'', LocalVolumeDiscoveryResultList_type, LocalVolumeDiscoveryResultList_DeepCopyObject)]"

definition init_localvolumeset :: "scheme_builder \<Rightarrow> scheme_builder" where
  "init_localvolumeset = Register [
     (''LocalVolumeSet'', LocalVolumeSet_type, LocalVolumeSet_DeepCopyObject),
     (''LocalVolumeSetList'', LocalVolumeSetList_type, LocalVolumeSetList_DeepCopyObject)]"

text \<open>The builders after the initialisation of their packages, whose files are initialised in the order of their names.\<close>

definition SchemeBuilder_v1 :: scheme_builder where
  "SchemeBuilder_v1 = init_localvolumedevicelink (init_localvolume \<lparr>sb_GroupVersion = GroupVersion_v1, sb_objects = []\<rparr>)"

definition SchemeBuilder_v1alpha1 :: scheme_builder where
  "SchemeBuilder_v1alpha1 = init_localvolumeset (init_localvolumediscoveryresult (init_localvolumediscovery
     \<lparr>sb_GroupVersion = GroupVersion_v1alpha1, sb_objects = []\<rparr>))"

definition AddToSchemes_v1 :: "scheme_builder list \<Rightarrow> scheme_builder list" where
  "AddToSchemes_v1 bs = bs @ [SchemeBuilder_v1]"

definition AddToSchemes_v1alpha1 :: "scheme_builder list \<Rightarrow> scheme_builder list" where
  "AddToSchemes_v1alpha1 bs = bs @ [SchemeBuilder_v1alpha1]"

fun addAll :: "scheme_builder list \<Rightarrow> api_scheme \<Rightarrow> api_scheme option" where
  "addAll [] s = Some s"
| "addAll (b # bs) s = (case builder_AddToScheme (sb_GroupVersion b) (sb_objects b) s of
     None \<Rightarrow> None | Some s' \<Rightarrow> addAll bs s')"

definition AddToScheme :: "api_scheme \<Rightarrow> api_scheme option" where
  "AddToScheme = addAll (AddToSchemes_v1alpha1 (AddToSchemes_v1 []))"

definition known_objects :: api_scheme where
  "known_objects = concat (map (\<lambda>b. map (\<lambda>(k, ob). ((fst (sb_GroupVersion b), snd (sb_GroupVersion b), k), ob)) (concat (sb_objects b)))
     [SchemeBuilder_v1, SchemeBuilder_v1alpha1])"

lemmas scheme_defs = Register_def SchemeBuilder_v1_def SchemeBuilder_v1alpha1_def GroupVersion_v1_def GroupVersion_v1alpha1_def
  init_localvolume_def init_localvolumedevicelink_def init_localvolumediscovery_def init_localvolumediscoveryresult_def init_localvolumeset_def

lemmas deep_copy_object_defs =
  LocalVolume_DeepCopyObject_def LocalVolumeList_DeepCopyObject_def
  LocalVolumeDeviceLink_DeepCopyObject_def LocalVolumeDeviceLinkList_DeepCopyObject_def
  LocalVolumeDiscovery_DeepCopyObject_def LocalVolumeDiscoveryList_DeepCopyObject_def
  LocalVolumeDiscoveryResult_DeepCopyObject_def LocalVolumeDiscoveryResultList_DeepCopyObject_def
  LocalVolumeSet_DeepCopyObject_def LocalVolumeSetList_DeepCopyObject_def

lemma AddToScheme_empty: "AddToScheme [] = Some known_objects"
  by (simp add: AddToScheme_def AddToSchemes_v1_def AddToSchemes_v1alpha1_def known_objects_def scheme_defs)

lemma known_objects_are_deep:
  assumes "((g, v, k), t, dco) \<in> set known_objects"
  shows "\<exists>into. deep_copier t into \<and> dco = deep_copy_object k (deep_copy t into)"
  using assms unfolding known_objects_def scheme_defs deep_copy_object_defs deep_copy_method_defs
  by (simp add: prod_eq_iff) (elim disjE conjE; use api_deep_copiers in blast)

text \<open>
  Registering the API groups does not panic, and the scheme copies an object of every kind it then
  knows without sharing; a nil pointer to such an object becomes the nil interface, not an
  interface that holds a nil pointer.
\<close>
theorem known_kinds_deep_copy:
  "\<exists>s. AddToScheme [] = Some s \<and> (\<forall>g v k t dco m p. ((g, v, k), t, dco) \<in> set s \<longrightarrow> wf_mem m \<longrightarrow> has_type (TPtr t) p m \<longrightarrow>
     (if p = PtrV None then dco p m = Some (None, m)
      else \<exists>p' m'. dco p m = Some (Some (k, p'), m') \<and> extends m m' \<and> isolated (TPtr t) p m p' m'))"
proof (intro exI conjI allI impI)
  show "AddToScheme [] = Some known_objects" by (rule AddToScheme_empty)
  fix g v k t dco m p
  assume k: "((g, v, k), t, dco) \<in> set known_objects" and wf: "wf_mem m" "has_type (TPtr t) p m"
  then obtain into where i: "deep_copier t into" "dco = deep_copy_object k (deep_copy t into)"
    using known_objects_are_deep by blast
  show "if p = PtrV None then dco p m = Some (None, m)
      else \<exists>p' m'. dco p m = Some (Some (k, p'), m') \<and> extends m m' \<and> isolated (TPtr t) p m p' m'"
    using deep_copier.deep_copy_object_isolated[OF i(1) wf] deep_copier.deep_copy_object_nil[OF i(1)] i(2) by simp
qed

subsection \<open>The schemes of the processes\<close>

text \<open>
  Both managers fill their scheme when the package is initialised: the groups of client-go, the
  project's own ones and, in the operator, those of the cluster configuration and of the
  monitoring. \<open>utilruntime.Must\<close> panics at the first failure. The other groups are parameters.
\<close>

definition AddToScheme_v1 :: "api_scheme \<Rightarrow> api_scheme option" where
  "AddToScheme_v1 = builder_AddToScheme (sb_GroupVersion SchemeBuilder_v1) (sb_objects SchemeBuilder_v1)"

definition AddToScheme_v1alpha1 :: "api_scheme \<Rightarrow> api_scheme option" where
  "AddToScheme_v1alpha1 = builder_AddToScheme (sb_GroupVersion SchemeBuilder_v1alpha1) (sb_objects SchemeBuilder_v1alpha1)"

fun must_all :: "(api_scheme \<Rightarrow> api_scheme option) list \<Rightarrow> api_scheme \<Rightarrow> api_scheme option" where
  "must_all [] s = Some s"
| "must_all (f # fs) s = (case f s of None \<Rightarrow> None | Some s' \<Rightarrow> must_all fs s')"

definition manager_scheme :: "(api_scheme \<Rightarrow> api_scheme option) \<Rightarrow> api_scheme option" where
  "manager_scheme clientgo = must_all [clientgo, AddToScheme_v1, AddToScheme_v1alpha1] []"

definition operator_scheme :: "(api_scheme \<Rightarrow> api_scheme option) \<Rightarrow> (api_scheme \<Rightarrow> api_scheme option)
    \<Rightarrow> (api_scheme \<Rightarrow> api_scheme option) \<Rightarrow> api_scheme option" where
  "operator_scheme clientgo configv1 monitoringv1 = must_all [clientgo, configv1, AddToScheme_v1, AddToScheme_v1alpha1, monitoringv1] []"

text \<open>A group of another project: it extends a scheme, and not by kinds of this group.\<close>

definition own_group :: string where
  "own_group = ''local.storage.openshift.io''"

definition foreign :: "(api_scheme \<Rightarrow> api_scheme option) \<Rightarrow> bool" where
  "foreign f \<longleftrightarrow> (\<forall>s s'. f s = Some s' \<longrightarrow> (\<exists>new. s' = s @ new \<and> (\<forall>((g, v, k), ob) \<in> set new. g \<noteq> own_group)))"

definition no_own_kinds :: "api_scheme \<Rightarrow> bool" where
  "no_own_kinds s \<longleftrightarrow> (\<forall>v k. map_of s (own_group, v, k) = None)"

lemma foreign_keeps:
  assumes "foreign f" "f s = Some s'" "no_own_kinds s"
  shows "no_own_kinds s'" "set s \<subseteq> set s'"
proof -
  obtain new where new: "s' = s @ new" "\<forall>((g, v, k), ob) \<in> set new. g \<noteq> own_group"
    using assms(1,2) by (auto simp: foreign_def)
  have "map_of new (own_group, v, k) = None" for v k
    using new(2) by (fastforce simp: map_of_eq_None_iff)
  with new(1) assms(3) show "no_own_kinds s'" "set s \<subseteq> set s'"
    by (auto simp: no_own_kinds_def map_add_def)
qed

lemma own_groups_added:
  assumes "no_own_kinds s"
  shows "must_all [AddToScheme_v1, AddToScheme_v1alpha1] s = Some (s @ known_objects)"
proof -
  have s: "map_of s (''local.storage.openshift.io'', v, k) = None" for v k
    using assms by (simp add: no_own_kinds_def own_group_def)
  show ?thesis
    by (simp add: AddToScheme_v1_def AddToScheme_v1alpha1_def known_objects_def scheme_defs s map_add_def)
qed

lemma must_all_append: "must_all (fs @ gs) s = (case must_all fs s of None \<Rightarrow> None | Some s' \<Rightarrow> must_all gs s')"
  by (induction fs arbitrary: s) (auto split: option.splits)

text \<open>
  The scheme of the diskmaker's manager knows every kind of the project, and so does that of the
  operator when its initialisation does not panic: the reconcilers can read and copy their objects.
\<close>
theorem managers_know_api_kinds:
  assumes "foreign clientgo" "clientgo [] = Some s0"
  shows "manager_scheme clientgo = Some (s0 @ known_objects)"
    and "foreign configv1 \<Longrightarrow> foreign monitoringv1 \<Longrightarrow> operator_scheme clientgo configv1 monitoringv1 = Some s \<Longrightarrow> set known_objects \<subseteq> set s"
proof -
  have n0: "no_own_kinds s0" using foreign_keeps(1)[OF assms] by (simp add: no_own_kinds_def)
  then show "manager_scheme clientgo = Some (s0 @ known_objects)"
    using own_groups_added assms(2) unfolding manager_scheme_def by (simp only: must_all.simps option.case)
  assume f: "foreign configv1" "foreign monitoringv1" and s: "operator_scheme clientgo configv1 monitoringv1 = Some s"
  have "must_all ([clientgo, configv1] @ [AddToScheme_v1, AddToScheme_v1alpha1] @ [monitoringv1]) [] = Some s"
    using s by (simp add: operator_scheme_def)
  then obtain s1 where s1: "configv1 s0 = Some s1" "must_all ([AddToScheme_v1, AddToScheme_v1alpha1] @ [monitoringv1]) s1 = Some s"
    using assms(2) by (auto simp del: append_Cons simp: must_all_append[of "[clientgo, configv1]"] split: option.splits)
  have "no_own_kinds s1" using foreign_keeps(1)[OF f(1) s1(1) n0] .
  then have "monitoringv1 (s1 @ known_objects) = Some s"
    using s1(2) own_groups_added by (simp add: must_all_append[of "[AddToScheme_v1, AddToScheme_v1alpha1]"] del: append_Cons split: option.splits)
  with f(2) obtain new where "s = (s1 @ known_objects) @ new" unfolding foreign_def by blast
  then show "set known_objects \<subseteq> set s" by auto
qed

end
