(* ===== verification/CopyClients.thy ===== *)
theory CopyClients
  imports DeepCopy LvController DeviceLinkHandler
begin

text \<open>
  What the controllers do with a deep copy. The handlers of the other theories work on values, so
  that changing a copy cannot change the original. Here the updates that the code makes in place,
  on a field behind a pointer and on an element of a slice, are written on the memory of theory
  GoHeap: \<open>setLVDLCondition\<close> of the device link handler, \<open>SetDefaults\<close> and \<open>addFinalizer\<close>
  of the operator. On a copy made by \<open>DeepCopy\<close> they compute what the functions on values compute,
  and the object they were given is as before.
\<close>

section \<open>Fields behind a pointer and elements of a slice\<close>

fun get_path :: "string list \<Rightarrow> gval \<Rightarrow> gval option" where
  "get_path [] v = Some v"
| "get_path (f # fs) v = (case v of
     StructV vs \<Rightarrow> (case map_of vs f of None \<Rightarrow> None | Some w \<Rightarrow> get_path fs w) | _ \<Rightarrow> None)"

fun set_path :: "string list \<Rightarrow> gval \<Rightarrow> gval \<Rightarrow> gval" where
  "set_path [] x v = x"
| "set_path (f # fs) x v = (case v of
     StructV vs \<Rightarrow> (case map_of vs f of None \<Rightarrow> v | Some w \<Rightarrow> StructV (AList.update f (set_path fs x w) vs))
   | _ \<Rightarrow> v)"

fun path_type :: "string list \<Rightarrow> gty \<Rightarrow> gty option" where
  "path_type [] t = Some t"
| "path_type (f # fs) t = (case t of
     TStruct ts \<Rightarrow> if distinct (map fst ts) then (case map_of ts f of None \<Rightarrow> None | Some u \<Rightarrow> path_type fs u) else None
   | _ \<Rightarrow> None)"

definition load_field :: "gval \<Rightarrow> string list \<Rightarrow> mem \<Rightarrow> gval option" where
  "load_field p path m = (case p of
     PtrV (Some a) \<Rightarrow> (case cells m a of Some [v] \<Rightarrow> get_path path v | _ \<Rightarrow> None) | _ \<Rightarrow> None)"

definition store_field :: "gval \<Rightarrow> string list \<Rightarrow> gval \<Rightarrow> mem \<Rightarrow> mem option" where
  "store_field p path x m = (case p of
     PtrV (Some a) \<Rightarrow> (case cells m a of Some [v] \<Rightarrow> Some (put_array a [set_path path x v] m) | _ \<Rightarrow> None)
   | _ \<Rightarrow> None)"

definition slice_elems :: "gval \<Rightarrow> mem \<Rightarrow> gval list option" where
  "slice_elems s m = (case s of
     SliceV None \<Rightarrow> Some []
   | SliceV (Some (a, off, n)) \<Rightarrow> (case cells m a of
        Some xs \<Rightarrow> if off + n \<le> length xs then Some (window off n xs) else None | None \<Rightarrow> None)
   | _ \<Rightarrow> None)"

text \<open>\<open>s[i] = x\<close>; out of range it panics.\<close>

definition slice_set :: "gval \<Rightarrow> nat \<Rightarrow> gval \<Rightarrow> mem \<Rightarrow> mem option" where
  "slice_set s i x m = (case s of
     SliceV (Some (a, off, n)) \<Rightarrow> if i < n then Some (store_elem a (off + i) x m) else None
   | _ \<Rightarrow> None)"

text \<open>\<open>append(s, x)\<close>: in the array of \<open>s\<close> where it has room behind the slice, else in a new one.\<close>

definition slice_append :: "gval \<Rightarrow> gval \<Rightarrow> mem \<Rightarrow> (gval \<times> mem) option" where
  "slice_append s x m = (case s of
     SliceV None \<Rightarrow> (case alloc [x] m of (b, m1) \<Rightarrow> Some (SliceV (Some (b, 0, 1)), m1))
   | SliceV (Some (a, off, n)) \<Rightarrow> (case cells m a of
        None \<Rightarrow> None
      | Some xs \<Rightarrow>
          if off + n < length xs then Some (SliceV (Some (a, off, Suc n)), store_elem a (off + n) x m)
          else (case alloc (window off n xs @ [x]) m of (b, m1) \<Rightarrow> Some (SliceV (Some (b, 0, Suc n)), m1)))
   | _ \<Rightarrow> None)"

section \<open>The updates of the controllers\<close>

text \<open>\<open>setLVDLCondition\<close>, with the loop that keeps the last index of the type.\<close>

definition last_of_type :: "gval \<Rightarrow> gval list \<Rightarrow> nat option" where
  "last_of_type condition cs =
     fold (\<lambda>i acc. if get_path [''Type''] (cs ! i) = get_path [''Type''] condition then Some i else acc) [0..<length cs] None"

definition same_report :: "gval \<Rightarrow> gval \<Rightarrow> bool" where
  "same_report c condition \<longleftrightarrow> get_path [''Message''] c = get_path [''Message''] condition
     \<and> get_path [''Reason''] c = get_path [''Reason''] condition \<and> get_path [''Status''] c = get_path [''Status''] condition"

abbreviation conditions_path :: "string list" where
  "conditions_path \<equiv> [''Status'', ''Conditions'']"

definition setLVDLCondition_at :: "gval \<Rightarrow> gval \<Rightarrow> mem \<Rightarrow> mem option" where
  "setLVDLCondition_at lvdl condition m =
     (case load_field lvdl conditions_path m of
        None \<Rightarrow> None
      | Some existing \<Rightarrow> (case slice_elems existing m of
          None \<Rightarrow> None
        | Some cs \<Rightarrow> (case last_of_type condition cs of
            Some i \<Rightarrow>
              if same_report (cs ! i) condition then Some m
              else (case slice_set existing i condition m of
                None \<Rightarrow> None | Some m1 \<Rightarrow> store_field lvdl conditions_path existing m1)
          | None \<Rightarrow> (case slice_append existing condition m of
                None \<Rightarrow> None | Some (s, m1) \<Rightarrow> store_field lvdl conditions_path s m1))))"

text \<open>\<open>SetDefaults\<close> and \<open>addFinalizer\<close> on the object a pointer leads to.\<close>

definition default_field :: "string list \<Rightarrow> string \<Rightarrow> gval \<Rightarrow> mem \<Rightarrow> mem option" where
  "default_field path d p m = (case load_field p path m of
     Some (StrV x) \<Rightarrow> if x = '''' then store_field p path (StrV d) m else Some m | _ \<Rightarrow> None)"

definition SetDefaults_at :: "gval \<Rightarrow> mem \<Rightarrow> mem option" where
  "SetDefaults_at p m = (case default_field [''Spec'', ''LogLevel''] ''Normal'' p m of
     None \<Rightarrow> None | Some m1 \<Rightarrow> default_field [''Spec'', ''ManagementState''] ''Managed'' p m1)"

abbreviation finalizers_path :: "string list" where
  "finalizers_path \<equiv> [''ObjectMeta'', ''Finalizers'']"

definition addFinalizer_at :: "gval \<Rightarrow> mem \<Rightarrow> (bool \<times> mem) option" where
  "addFinalizer_at p m = (case load_field p finalizers_path m of
     None \<Rightarrow> None
   | Some current \<Rightarrow> (case slice_elems current m of
       None \<Rightarrow> None
     | Some fs \<Rightarrow>
         if StrV localVolumeFinalizer \<in> set fs then Some (False, m)
         else (case slice_append current (StrV localVolumeFinalizer) m of
           None \<Rightarrow> None
         | Some (s, m1) \<Rightarrow> map_option (Pair True) (store_field p finalizers_path s m1))))"

text \<open>The start of \<open>syncLocalVolumeProvider\<close>, for an object that is not being deleted.\<close>

definition prepare_copy :: "gval \<Rightarrow> mem \<Rightarrow> (gval \<times> bool \<times> mem) option" where
  "prepare_copy instance0 m = (case LocalVolume_DeepCopy instance0 m of
     None \<Rightarrow> None
   | Some (o1, m1) \<Rightarrow> (case SetDefaults_at o1 m1 of
       None \<Rightarrow> None | Some m2 \<Rightarrow> map_option (Pair o1) (addFinalizer_at o1 m2)))"

section \<open>Paths and slices of well-typed values\<close>

lemma get_path_typed:
  "path_type path ty = Some t \<Longrightarrow> has_type ty v m \<Longrightarrow> \<exists>w. get_path path v = Some w \<and> has_type t w m \<and> reach t w m \<subseteq> reach ty v m"
proof (induction path arbitrary: ty v)
  case (Cons f path)
  then obtain ts u where ty: "ty = TStruct ts" "map_of ts f = Some u" "path_type path u = Some t"
    by (auto split: gty.splits option.splits if_splits)
  with Cons.prems obtain vs where v: "v = StructV vs" "fields_typed ts vs m"
    by (auto split: gval.splits)
  have mem: "(f, u) \<in> set ts" using ty(2) by (rule map_of_SomeD)
  with v obtain w where w: "map_of vs f = Some w" "has_type u w m"
    unfolding fields_typed_iff by blast
  have "reach u w m \<subseteq> field_reach ts vs m"
    unfolding field_reach_eq using mem w(1) by force
  with Cons.IH[OF ty(3) w(2)] w v ty show ?case by fastforce
qed simp

lemma get_set_path: "get_path path v \<noteq> None \<Longrightarrow> get_path path (set_path path x v) = Some x"
  by (induction path arbitrary: v) (auto simp: update_conv' split: gval.splits option.splits)

lemma get_set_path_other: "f \<noteq> g \<Longrightarrow> get_path (g # gs) (set_path (f # fs) x v) = get_path (g # gs) v"
  by (auto simp: update_conv' split: gval.splits option.splits)

lemma get_set_path_inner:
  "f \<noteq> g \<Longrightarrow> get_path (h # g # gs) (set_path (h # f # fs) x v) = get_path (h # g # gs) v"
  by (cases v) (auto simp: update_conv' get_set_path_other simp del: get_path.simps(2) set_path.simps(2)
      simp add: get_path.simps(2)[of h] set_path.simps(2)[of h] split: option.splits)

text \<open>Field contents determine the values of a type without references.\<close>

lemma field_contents_map:
  "fields_typed fs vs m \<Longrightarrow> field_contents fs vs m = map (\<lambda>(f, t). (f, contents t (the (map_of vs f)) m)) fs"
  by (induction fs) (auto split: option.splits)

lemma contents_path:
  assumes "path_type path ty = Some t" "has_type ty v m" "has_type ty v' m'" "contents ty v' m' = contents ty v m"
  shows "\<exists>w w'. get_path path v = Some w \<and> get_path path v' = Some w' \<and> has_type t w m \<and> has_type t w' m' \<and> contents t w' m' = contents t w m"
  using assms
proof (induction path arbitrary: ty v v')
  case (Cons f path)
  then obtain ts u where ty: "ty = TStruct ts" "map_of ts f = Some u" "path_type path u = Some t"
    by (auto split: gty.splits option.splits if_splits)
  with Cons.prems obtain vs vs' where v: "v = StructV vs" "fields_typed ts vs m" "v' = StructV vs'" "fields_typed ts vs' m'"
    by (auto split: gval.splits)
  have mem: "(f, u) \<in> set ts" using ty(2) by (rule map_of_SomeD)
  with v obtain w w' where w: "map_of vs f = Some w" "has_type u w m" "map_of vs' f = Some w'" "has_type u w' m'"
    unfolding fields_typed_iff by meson
  have "field_contents ts vs' m' = field_contents ts vs m" using Cons.prems(4) ty v by simp
  then have "contents u w' m' = contents u w m"
    using mem w v by (fastforce simp: field_contents_map)
  from Cons.IH[OF ty(3) w(2,4) this] w v show ?case by simp
qed simp

text \<open>The types of the elements that are updated: strings, and structs of such leaves.\<close>

definition leaf_type :: "gty \<Rightarrow> bool" where
  "leaf_type t \<longleftrightarrow> t \<in> {TString, TInt, TBool}"

definition simple_type :: "gty \<Rightarrow> bool" where
  "simple_type t \<longleftrightarrow> leaf_type t \<or> (\<exists>fs. t = TStruct fs \<and> distinct (map fst fs) \<and> (\<forall>(f, u) \<in> set fs. leaf_type u))"

lemma leaf_contents: "leaf_type t \<Longrightarrow> contents t v m = Leaf v"
  by (auto simp: leaf_type_def)

lemma alist_eqI:
  "map fst xs = map fst ys \<Longrightarrow> distinct (map fst xs) \<Longrightarrow> (\<And>k. k \<in> set (map fst xs) \<Longrightarrow> map_of xs k = map_of ys k) \<Longrightarrow> xs = ys"
proof (induction xs arbitrary: ys)
  case (Cons x xs)
  then obtain y ys' where ys: "ys = y # ys'" "fst y = fst x" "map fst ys' = map fst xs" by (cases ys) auto
  with Cons.prems(3)[of "fst x"] have "snd x = snd y" by (cases x; cases y) auto
  moreover have "xs = ys'"
  proof (rule Cons.IH)
    fix k
    assume k: "k \<in> set (map fst xs)"
    with Cons.prems(2) have "k \<noteq> fst x" by (simp only: list.map distinct.simps) blast
    with Cons.prems(3)[of k] k ys show "map_of xs k = map_of ys' k" by (cases x; cases y) simp
  qed (use Cons.prems ys in auto)
  ultimately show ?case using ys by (simp add: prod_eq_iff)
qed simp

lemma simple_contents_inj:
  assumes s: "simple_type t" and v: "has_type t v m" "has_type t v' m'" "contents t v' m' = contents t v m"
  shows "v' = v"
proof (cases "leaf_type t")
  case True
  with v(3) show ?thesis by (simp add: leaf_contents)
next
  case False
  with s obtain fs where t: "t = TStruct fs" "distinct (map fst fs)" "\<forall>(f, u) \<in> set fs. leaf_type u"
    by (auto simp: simple_type_def)
  with v obtain vs vs' where vs: "v = StructV vs" "v' = StructV vs'" "map fst vs = map fst fs" "map fst vs' = map fst fs"
    "fields_typed fs vs m" "fields_typed fs vs' m'" by (auto split: gval.splits)
  have "map_of vs' f = map_of vs f" if "f \<in> set (map fst vs')" for f
  proof -
    from that vs obtain u where "map_of fs f = Some u" by (metis map_of_eq_None_iff not_None_eq set_map)
    then have "path_type [f] t = Some u" "leaf_type u" using t by (auto dest: map_of_SomeD)
    with contents_path[OF _ v, of "[f]" u] vs show ?thesis
      by (auto simp: leaf_contents split: option.splits)
  qed
  with vs t have "vs' = vs" by (intro alist_eqI) auto
  with vs show ?thesis by simp
qed

lemma has_type_slice_elems:
  assumes "has_type (TSlice t) s m"
  obtains ys where "slice_elems s m = Some ys" "\<forall>y \<in> set ys. has_type t y m"
    "contents (TSlice t) s m = Elements (if s = SliceV None then None else Some (map (\<lambda>y. contents t y m) ys))"
proof (cases "s = SliceV None")
  case False
  from has_type_sliceE[OF assms this] obtain a off n xs where s: "s = SliceV (Some (a, off, n))"
    "cells m a = Some xs" "off + n \<le> length xs" "\<forall>x \<in> set xs. has_type t x m" by blast
  with that[of "window off n xs"] subsetD[OF set_window[of off n xs]] show thesis
    by (auto simp: slice_elems_def)
qed (use that in \<open>auto simp: slice_elems_def\<close>)

lemma slice_elems_shown:
  assumes t: "simple_type t" and s: "has_type (TSlice t) s m" and s': "has_type (TSlice t) s' m'"
    and c: "contents (TSlice t) s' m' = contents (TSlice t) s m"
  shows "slice_elems s' m' = slice_elems s m"
proof -
  obtain ys where y: "slice_elems s m = Some ys" "\<forall>y \<in> set ys. has_type t y m"
    "contents (TSlice t) s m = Elements (if s = SliceV None then None else Some (map (\<lambda>y. contents t y m) ys))"
    by (rule has_type_slice_elems[OF s])
  obtain zs where z: "slice_elems s' m' = Some zs" "\<forall>y \<in> set zs. has_type t y m'"
    "contents (TSlice t) s' m' = Elements (if s' = SliceV None then None else Some (map (\<lambda>y. contents t y m') zs))"
    by (rule has_type_slice_elems[OF s'])
  show ?thesis
  proof (cases "s = SliceV None")
    case True
    with y(3) z(3) c have "s' = SliceV None" by (simp split: if_splits)
    with True show ?thesis by (simp add: slice_elems_def)
  next
    case False
    with y(3) z(3) c have eq: "map (\<lambda>y. contents t y m') zs = map (\<lambda>y. contents t y m) ys"
      by (simp split: if_splits)
    have "zs = ys"
    proof (rule nth_equalityI)
      show len: "length zs = length ys" using arg_cong[OF eq, of length] by simp
      fix i
      assume i: "i < length zs"
      with len eq have "contents t (zs ! i) m' = contents t (ys ! i) m" by (metis nth_map)
      with i len y(2) z(2) show "zs ! i = ys ! i" by (intro simple_contents_inj[OF t, of _ m _ m']) auto
    qed
    with y z show ?thesis by simp
  qed
qed

text \<open>The elements of the slice in a field, and what a deep copy shows of them.\<close>

definition elems_at :: "gval \<Rightarrow> string list \<Rightarrow> mem \<Rightarrow> gval list option" where
  "elems_at p path m = (case load_field p path m of None \<Rightarrow> None | Some s \<Rightarrow> slice_elems s m)"

lemma has_type_ptrE:
  assumes "has_type (TPtr t) p m" "p \<noteq> PtrV None"
  obtains a v where "p = PtrV (Some a)" "cells m a = Some [v]" "has_type t v m"
proof -
  from assms obtain a where p: "p = PtrV (Some a)" by (auto split: gval.splits option.splits)
  with assms obtain v vs where c: "cells m a = Some (v # vs)" by (auto split: option.splits list.splits)
  with assms p that show thesis by (cases vs) auto
qed

lemma load_path_shown:
  assumes "path_type path ty = Some t" "has_type (TPtr ty) p m" "has_type (TPtr ty) q m'"
    "contents (TPtr ty) q m' = contents (TPtr ty) p m" "p \<noteq> PtrV None" "q \<noteq> PtrV None"
  shows "\<exists>w w'. load_field p path m = Some w \<and> load_field q path m' = Some w' \<and> has_type t w m \<and> has_type t w' m'
     \<and> contents t w' m' = contents t w m"
proof -
  obtain a v where p: "p = PtrV (Some a)" "cells m a = Some [v]" "has_type ty v m"
    by (rule has_type_ptrE[OF assms(2,5)])
  obtain b u where q: "q = PtrV (Some b)" "cells m' b = Some [u]" "has_type ty u m'"
    by (rule has_type_ptrE[OF assms(3,6)])
  have "contents ty u m' = contents ty v m" using assms(4) p q by simp
  from contents_path[OF assms(1) p(3) q(3) this] p q show ?thesis
    by (simp add: load_field_def)
qed

lemma elems_at_shown:
  assumes "path_type path ty = Some (TSlice t)" "simple_type t" "has_type (TPtr ty) p m" "has_type (TPtr ty) q m'"
    "contents (TPtr ty) q m' = contents (TPtr ty) p m" "p \<noteq> PtrV None" "q \<noteq> PtrV None"
  shows "elems_at q path m' = elems_at p path m"
proof -
  obtain w w' where w: "load_field p path m = Some w" "load_field q path m' = Some w'" "has_type (TSlice t) w m"
      "has_type (TSlice t) w' m'" "contents (TSlice t) w' m' = contents (TSlice t) w m"
    using load_path_shown[OF assms(1,3-7)] by blast
  from slice_elems_shown[OF assms(2) w(3-5)] w(1,2) show ?thesis
    by (simp add: elems_at_def)
qed

section \<open>The effect of the updates\<close>

text \<open>
  What a write through \<open>p\<close> may change: the addresses that hold a part of the object, and new
  ones. No array is at once the object and the array of one of its slices, because the types differ.
\<close>

definition confined :: "gty \<Rightarrow> gval \<Rightarrow> mem \<Rightarrow> mem \<Rightarrow> bool" where
  "confined ty p m m' \<longleftrightarrow> agree (- (reach (TPtr ty) p m \<union> {next_addr m..})) m m'"

definition unlike :: "gty \<Rightarrow> gty \<Rightarrow> bool" where
  "unlike ty t \<longleftrightarrow> (\<forall>v m. \<not> (has_type ty v m \<and> has_type t v m))"

lemma slice_in_object:
  assumes wf: "wf_mem m" and p: "p = PtrV (Some a)" "cells m a = Some [v]" "has_type ty v m"
    and t: "path_type path ty = Some (TSlice t)" "unlike ty t" and l: "load_field p path m = Some (SliceV (Some (b, off, n)))"
  obtains xs where "cells m b = Some xs" "off + n \<le> length xs" "b \<noteq> a" "b \<in> reach (TPtr ty) p m" "b < next_addr m"
proof -
  obtain w where w: "get_path path v = Some w" "has_type (TSlice t) w m" "reach (TSlice t) w m \<subseteq> reach ty v m"
    using get_path_typed[OF t(1) p(3)] by blast
  with l p have weq: "w = SliceV (Some (b, off, n))" by (simp add: load_field_def)
  with w(2) obtain xs where xs: "cells m b = Some xs" "off + n \<le> length xs" "\<forall>x \<in> set xs. has_type t x m"
    using has_type_sliceE[OF w(2)] by blast
  have "b \<noteq> a" using xs p t(2) by (auto simp: unlike_def)
  moreover have "b \<in> reach (TPtr ty) p m" using w(3) weq xs p by auto
  moreover have "b < next_addr m" using wf xs(1) by (auto simp: wf_mem_def)
  ultimately show thesis using that xs by blast
qed

lemma object_addr:
  assumes "wf_mem m" "p = PtrV (Some a)" "cells m a = Some [v]"
  shows "a \<in> reach (TPtr ty) p m" "a < next_addr m"
  using assms by (auto simp: wf_mem_def)

lemma window_update: "off + n \<le> length xs \<Longrightarrow> i < n \<Longrightarrow> window off n (xs[off + i := x]) = (window off n xs)[i := x]"
  by (simp add: window_def drop_update_swap take_update_swap)

lemma window_extend: "off + n < length xs \<Longrightarrow> window off (Suc n) (xs[off + n := x]) = window off n xs @ [x]"
  by (simp add: window_def drop_update_swap take_Suc_conv_app_nth)

lemma load_after_store:
  assumes "store_field (PtrV (Some a)) path x m = Some m'" "load_field (PtrV (Some a)) path m \<noteq> None"
  shows "load_field (PtrV (Some a)) path m' = Some x"
  using assms by (auto simp: store_field_def load_field_def get_set_path split: option.splits list.splits)

lemma slice_set_at:
  assumes wf: "wf_mem m" and p: "p = PtrV (Some a)" "cells m a = Some [v]" "has_type ty v m"
    and t: "path_type path ty = Some (TSlice t)" "unlike ty t"
    and l: "load_field p path m = Some s" "slice_elems s m = Some ys" "i < length ys"
  shows "\<exists>m1 m2. slice_set s i x m = Some m1 \<and> store_field p path s m1 = Some m2
     \<and> elems_at p path m2 = Some (ys[i := x]) \<and> confined ty p m m2"
proof -
  from l(2,3) obtain b off n where s: "s = SliceV (Some (b, off, n))"
    by (auto simp: slice_elems_def split: gval.splits option.splits)
  then obtain xs where xs: "cells m b = Some xs" "off + n \<le> length xs" "b \<noteq> a" "b \<in> reach (TPtr ty) p m"
    using slice_in_object[OF wf p t] l(1) by blast
  note a = object_addr(1)[OF wf p(1,2), of ty]
  have ys: "ys = window off n xs" "length ys = n"
    using l(2) s xs by (auto simp: slice_elems_def length_window)
  let ?m1 = "put_array b (xs[off + i := x]) m" and ?m2 = "put_array a [set_path path s v] (put_array b (xs[off + i := x]) m)"
  have st: "slice_set s i x m = Some ?m1" "store_field p path s ?m1 = Some ?m2"
    using s xs p l(3) ys by (auto simp: slice_set_def store_elem_def store_field_def)
  have "load_field p path ?m2 = Some s"
    using p l(1) by (simp add: load_field_def get_set_path)
  then have "elems_at p path ?m2 = Some (ys[i := x])"
    using s xs ys l(3) window_update[of off n xs i x] by (simp add: elems_at_def slice_elems_def)
  moreover have "confined ty p m ?m2"
    using a xs(4) unfolding confined_def agree_def by auto
  ultimately show ?thesis using st by blast
qed

lemma slice_append_at:
  assumes wf: "wf_mem m" and p: "p = PtrV (Some a)" "cells m a = Some [v]" "has_type ty v m"
    and t: "path_type path ty = Some (TSlice t)" "unlike ty t"
    and l: "load_field p path m = Some s" "slice_elems s m = Some ys"
  shows "\<exists>s' m1 m2. slice_append s x m = Some (s', m1) \<and> store_field p path s' m1 = Some m2
     \<and> elems_at p path m2 = Some (ys @ [x]) \<and> confined ty p m m2 \<and> cells m2 a = Some [set_path path s' v]"
proof -
  note a = object_addr[OF wf p(1,2)]
  have fin: ?thesis if ap: "slice_append s x m = Some (s', m1)" and m1: "cells m1 a = Some [v]"
      and el: "slice_elems s' (put_array a [set_path path s' v] m1) = Some (ys @ [x])" and co: "confined ty p m m1" for s' m1
  proof -
    let ?m2 = "put_array a [set_path path s' v] m1"
    have "store_field p path s' m1 = Some ?m2" "load_field p path ?m2 = Some s'"
      using p m1 l(1) by (simp_all add: store_field_def load_field_def get_set_path)
    moreover have "confined ty p m ?m2" using co a(1)[of ty] unfolding confined_def agree_def by auto
    ultimately show ?thesis using ap el by (auto simp: elems_at_def)
  qed
  have fresh: ?thesis if "slice_append s x m = Some (SliceV (Some (b, 0, Suc (length ys))), m1)" "alloc (ys @ [x]) m = (b, m1)" for b m1
    using fin[OF that(1)] that(2) a(2) p(2)
    by (auto simp: alloc_def slice_elems_def window_def confined_def agree_def)
  show ?thesis
  proof (cases "s = SliceV None")
    case True
    then show ?thesis using fresh l(2) by (auto simp: slice_append_def slice_elems_def alloc_def)
  next
    case False
    with l(2) obtain b off n where s: "s = SliceV (Some (b, off, n))"
      by (auto simp: slice_elems_def split: gval.splits option.splits)
    then obtain xs where xs: "cells m b = Some xs" "off + n \<le> length xs" "b \<noteq> a" "b \<in> reach (TPtr ty) p m"
      using slice_in_object[OF wf p t] l(1) by blast
    have ys: "ys = window off n xs" "length ys = n"
      using l(2) s xs by (auto simp: slice_elems_def length_window)
    show ?thesis
    proof (cases "off + n < length xs")
      case True
      have "slice_append s x m = Some (SliceV (Some (b, off, Suc n)), put_array b (xs[off + n := x]) m)"
        using True s xs(1) by (simp add: slice_append_def store_elem_def)
      then show ?thesis
        using fin p(2) xs True ys window_extend[OF True, of x] by (auto simp: slice_elems_def confined_def agree_def)
    next
      case False
      then show ?thesis using fresh s xs(1) ys by (auto simp: slice_append_def alloc_def)
    qed
  qed
qed

section \<open>Updates of a copy\<close>

text \<open>Conditions of the value model as they lie in memory.\<close>

fun status_text :: "cond_status \<Rightarrow> string" where
  "status_text ConditionTrue = ''True''"
| "status_text ConditionFalse = ''False''"
| "status_text ConditionUnknown = ''Unknown''"

definition cond_val :: "operator_condition \<Rightarrow> gval" where
  "cond_val c = StructV [(''Type'', StrV (oc_Type c)), (''Status'', StrV (status_text (oc_Status c))),
     (''LastTransitionTime'', IntV (case oc_LastTransitionTime c of None \<Rightarrow> 0 | Some t \<Rightarrow> t)),
     (''Reason'', StrV (oc_Reason c)), (''Message'', StrV (oc_Message c))]"

lemma status_text_eq: "status_text a = status_text b \<longleftrightarrow> a = b"
  by (cases a; cases b) auto

lemma last_of_type_cond: "last_of_type (cond_val c) (map cond_val cs) = lastIndex (oc_Type c) cs"
  unfolding last_of_type_def lastIndex_def by (rule fold_cong) (auto simp: cond_val_def)

lemma same_report_cond:
  "same_report (cond_val a) (cond_val b) \<longleftrightarrow> oc_Message a = oc_Message b \<and> oc_Reason a = oc_Reason b \<and> oc_Status a = oc_Status b"
  by (simp add: same_report_def cond_val_def status_text_eq)

lemma lvdl_conditions_path:
  "path_type conditions_path LocalVolumeDeviceLink_type = Some (TSlice OperatorCondition_type)"
  by (simp add: LocalVolumeDeviceLink_type_def LocalVolumeDeviceLinkStatus_type_def)

lemma simple_condition: "simple_type OperatorCondition_type"
  by (simp add: simple_type_def leaf_type_def OperatorCondition_type_def Time_type_def)

lemma lvdl_unlike_condition: "unlike LocalVolumeDeviceLink_type OperatorCondition_type"
  by (auto simp: unlike_def LocalVolumeDeviceLink_type_def OperatorCondition_type_def split: gval.splits)

lemma elems_atD: "elems_at p path m = Some ys \<Longrightarrow> \<exists>s. load_field p path m = Some s \<and> slice_elems s m = Some ys"
  by (auto simp: elems_at_def split: option.splits)

lemma confined_refl: "confined ty p m m"
  by (simp add: confined_def agree_def)

lemma setLVDLCondition_at_refines:
  assumes wf: "wf_mem m" and ty: "has_type (TPtr LocalVolumeDeviceLink_type) p m" "p \<noteq> PtrV None"
    and cs: "elems_at p conditions_path m = Some (map cond_val cs)"
  shows "\<exists>m'. setLVDLCondition_at p (cond_val c) m = Some m' \<and> elems_at p conditions_path m' = Some (map cond_val (setConditions c cs))
     \<and> confined LocalVolumeDeviceLink_type p m m'"
proof -
  obtain a v where p: "p = PtrV (Some a)" "cells m a = Some [v]" "has_type LocalVolumeDeviceLink_type v m"
    by (rule has_type_ptrE[OF ty])
  obtain s where s: "load_field p conditions_path m = Some s" "slice_elems s m = Some (map cond_val cs)"
    using elems_atD[OF cs] by blast
  note at = lvdl_conditions_path lvdl_unlike_condition s
  show ?thesis
  proof (cases "lastIndex (oc_Type c) cs")
    case None
    obtain s' m1 m2 where "slice_append s (cond_val c) m = Some (s', m1)" "store_field p conditions_path s' m1 = Some m2"
        "elems_at p conditions_path m2 = Some (map cond_val cs @ [cond_val c])" "confined LocalVolumeDeviceLink_type p m m2"
      using slice_append_at[OF wf p at, of "cond_val c"] by blast
    with None s show ?thesis
      by (simp add: setLVDLCondition_at_def last_of_type_cond setConditions_def)
  next
    case (Some i)
    then have i: "i < length cs" using lastIndex_Some by blast
    show ?thesis
    proof (cases "same_report (cond_val (cs ! i)) (cond_val c)")
      case True
      then have "setLVDLCondition_at p (cond_val c) m = Some m" "setConditions c cs = cs"
        using Some s i by (auto simp: setLVDLCondition_at_def last_of_type_cond setConditions_def same_report_cond)
      with cs confined_refl show ?thesis by auto
    next
      case False
      have "i < length (map cond_val cs)" using i by simp
      then obtain m1 m2 where "slice_set s i (cond_val c) m = Some m1" "store_field p conditions_path s m1 = Some m2"
          "elems_at p conditions_path m2 = Some ((map cond_val cs)[i := cond_val c])" "confined LocalVolumeDeviceLink_type p m m2"
        using slice_set_at[OF wf p at, of i "cond_val c"] by blast
      moreover have "setConditions c cs = cs[i := c]"
        using Some False by (auto simp: setConditions_def same_report_cond)
      ultimately show ?thesis
        using Some False i s by (simp add: setLVDLCondition_at_def last_of_type_cond map_update)
    qed
  qed
qed

text \<open>
  C20: The device link handler changes the conditions of a device link on a deep copy: an element
  of the slice in place, or an appended one. Whatever conditions the object has, the sequence
  DeepCopy, setLVDLCondition returns; the copy then has exactly the conditions that the function on
  values computes, and the object it was given, which may come from the shared cache, still shows
  the old contents and the old conditions. So the comparison of the two statuses that decides about
  the write sees the old and the new value.
\<close>
theorem condition_set_on_copy:
  assumes wf: "wf_mem m" and ty: "has_type (TPtr LocalVolumeDeviceLink_type) p m" and p: "p \<noteq> PtrV None"
    and cs: "elems_at p conditions_path m = Some (map cond_val cs)"
  shows "\<exists>q m1 m2. LocalVolumeDeviceLink_DeepCopy p m = Some (q, m1) \<and> setLVDLCondition_at q (cond_val c) m1 = Some m2
     \<and> elems_at q conditions_path m2 = Some (map cond_val (setConditions c cs))
     \<and> elems_at p conditions_path m2 = Some (map cond_val cs)
     \<and> contents (TPtr LocalVolumeDeviceLink_type) p m2 = contents (TPtr LocalVolumeDeviceLink_type) p m"
proof -
  let ?T = "TPtr LocalVolumeDeviceLink_type"
  obtain q m1 where q: "LocalVolumeDeviceLink_DeepCopy p m = Some (q, m1)" "extends m m1" "isolated ?T p m q m1" "q \<noteq> PtrV None"
    using LocalVolumeDeviceLink.deep_copy_isolated[OF wf ty] p unfolding LocalVolumeDeviceLink_DeepCopy_def by blast
  have q1: "has_type ?T q m1" "contents ?T q m1 = contents ?T p m" "wf_mem m1"
    using q(2,3) by (simp_all add: isolated_def extends_def)
  note shown = elems_at_shown[OF lvdl_conditions_path simple_condition]
  have "elems_at q conditions_path m1 = Some (map cond_val cs)"
    using shown[OF ty q1(1,2) p q(4)] cs by simp
  from setLVDLCondition_at_refines[OF q1(3,1) q(4) this, of c] obtain m2 where
    m2: "setLVDLCondition_at q (cond_val c) m1 = Some m2" "elems_at q conditions_path m2 = Some (map cond_val (setConditions c cs))"
      "confined LocalVolumeDeviceLink_type q m1 m2" by blast
  have p2: "has_type ?T p m2" "contents ?T p m2 = contents ?T p m"
    using q(3) m2(3) unfolding isolated_def confined_def by blast+
  have "elems_at p conditions_path m2 = Some (map cond_val cs)"
    using shown[OF ty p2 p p] cs by simp
  with q(1) m2 p2(2) show ?thesis by blast
qed

definition example_conditions :: "operator_condition list" where
  "example_conditions = [
     \<lparr>oc_Type = ''Other'', oc_Status = ConditionFalse, oc_Reason = '''', oc_Message = '''', oc_LastTransitionTime = None\<rparr>,
     \<lparr>oc_Type = DeviceSymlinkErrorType, oc_Status = ConditionTrue, oc_Reason = ''RenameSymlinkFailed'', oc_Message = ''old'',
      oc_LastTransitionTime = Some 7\<rparr>]"

definition example_link_mem :: mem where
  "example_link_mem = \<lparr>cells = [0 \<mapsto> [set_path conditions_path (SliceV (Some (1, 0, 2))) (zero_value LocalVolumeDeviceLink_type)],
      1 \<mapsto> map cond_val example_conditions], next_addr = 2\<rparr>"

lemmas object_type_defs = TypeMeta_type_def ObjectMeta_type_def OwnerReference_type_def ManagedFieldsEntry_type_def FieldsV1_type_def
  Time_type_def OperatorCondition_type_def

theorem condition_set_on_copy_witness:
  "\<exists>q m1 m2. LocalVolumeDeviceLink_DeepCopy (PtrV (Some 0)) example_link_mem = Some (q, m1)
     \<and> setLVDLCondition_at q (cond_val (getCondition 9 ''RenameSymlinkFailed'' ''new'' ConditionTrue)) m1 = Some m2
     \<and> elems_at q conditions_path m2 = Some (map cond_val [example_conditions ! 0, getCondition 9 ''RenameSymlinkFailed'' ''new'' ConditionTrue])
     \<and> elems_at (PtrV (Some 0)) conditions_path m2 = Some (map cond_val example_conditions)"
proof -
  let ?m = example_link_mem and ?p = "PtrV (Some 0)" and ?c = "getCondition 9 ''RenameSymlinkFailed'' ''new'' ConditionTrue"
  have wf: "wf_mem ?m" by (auto simp: wf_mem_def example_link_mem_def)
  have ty: "has_type (TPtr LocalVolumeDeviceLink_type) ?p ?m"
    by (simp add: example_link_mem_def example_conditions_def cond_val_def LocalVolumeDeviceLink_type_def
        LocalVolumeDeviceLinkSpec_type_def LocalVolumeDeviceLinkStatus_type_def object_type_defs)
  have el: "elems_at ?p conditions_path ?m = Some (map cond_val example_conditions)"
    by (simp add: elems_at_def load_field_def slice_elems_def window_def example_link_mem_def example_conditions_def
        LocalVolumeDeviceLink_type_def LocalVolumeDeviceLinkStatus_type_def)
  have "setConditions ?c example_conditions = [example_conditions ! 0, ?c]"
    by (simp add: setConditions_def lastIndex_def example_conditions_def getCondition_def)
  with condition_set_on_copy[OF wf ty _ el, of ?c] show ?thesis by auto
qed

subsection \<open>Defaults and finalizer of a LocalVolume\<close>

lemma set_path_typed:
  "path_type path ty = Some t \<Longrightarrow> has_type ty v m \<Longrightarrow> has_type t x m
    \<Longrightarrow> has_type ty (set_path path x v) m \<and> reach ty (set_path path x v) m \<subseteq> reach ty v m \<union> reach t x m"
proof (induction path arbitrary: ty v)
  case (Cons f path)
  then obtain ts u where ty: "ty = TStruct ts" "distinct (map fst ts)" "map_of ts f = Some u" "path_type path u = Some t"
    by (auto split: gty.splits option.splits if_splits)
  with Cons.prems obtain vs where v: "v = StructV vs" "map fst vs = map fst ts" "fields_typed ts vs m"
    by (auto split: gval.splits)
  have mem: "(f, u) \<in> set ts" using ty(3) by (rule map_of_SomeD)
  with v obtain w where w: "map_of vs f = Some w" "has_type u w m"
    unfolding fields_typed_iff by blast
  let ?w = "set_path path x w"
  note IH = Cons.IH[OF ty(4) w(2) Cons.prems(3)]
  have keys: "map fst (AList.update f ?w vs) = map fst ts"
    using v(2) by (simp add: update_keys rev_image_eqI[OF mem])
  have uniq: "g = f \<Longrightarrow> t' = u" if "(g, t') \<in> set ts" for g t'
    using that mem ty(2) by (auto dest: eq_key_imp_eq_value)
  have "fields_typed ts (AList.update f ?w vs) m"
    using v(3) IH uniq unfolding fields_typed_iff by (metis map_of_update)
  moreover have "field_reach ts (AList.update f ?w vs) m \<subseteq> field_reach ts vs m \<union> reach t x m"
  proof
    fix a
    assume "a \<in> field_reach ts (AList.update f ?w vs) m"
    then obtain g t' y where g: "(g, t') \<in> set ts" "map_of (AList.update f ?w vs) g = Some y" "a \<in> reach t' y m"
      by (auto simp: field_reach_eq split: option.splits)
    show "a \<in> field_reach ts vs m \<union> reach t x m"
    proof (cases "g = f")
      case True
      with g uniq IH have "a \<in> reach u w m \<union> reach t x m" by (auto simp: map_of_update)
      with mem w(1) show ?thesis by (force simp: field_reach_eq)
    next
      case False
      with g show ?thesis by (force simp: field_reach_eq map_of_update)
    qed
  qed
  ultimately show ?case using v w keys ty by simp
qed simp

text \<open>An object whose own address is not among those it refers to.\<close>

definition rooted :: "gty \<Rightarrow> addr \<Rightarrow> gval \<Rightarrow> mem \<Rightarrow> bool" where
  "rooted ty a v m \<longleftrightarrow> wf_mem m \<and> cells m a = Some [v] \<and> has_type ty v m \<and> a \<notin> reach ty v m"

lemma store_leaf:
  assumes r: "rooted ty a v m" and t: "path_type path ty = Some t" "flat t" "has_type t x m"
  shows "\<exists>m'. store_field (PtrV (Some a)) path x m = Some m' \<and> rooted ty a (set_path path x v) m'
     \<and> agree (- {a}) m m' \<and> next_addr m' = next_addr m \<and> reach ty (set_path path x v) m' \<subseteq> reach ty v m"
proof -
  let ?v = "set_path path x v" and ?m = "put_array a [set_path path x v] m"
  have v: "has_type ty ?v m" "a \<notin> reach ty ?v m" "reach ty ?v m \<subseteq> reach ty v m"
    using set_path_typed[OF t(1) _ t(3), of v] r flat_reach(1)[OF t(2), of x m] by (auto simp: rooted_def)
  have a: "a < next_addr m" using r by (auto simp: rooted_def wf_mem_def)
  have "agree (reach ty ?v m) m ?m" using v(2) by (intro put_array_outside)
  from frame(1)[OF this] v a r have "rooted ty a ?v ?m" "reach ty ?v ?m \<subseteq> reach ty v m"
    by (simp_all add: rooted_def wf_put_array)
  moreover have "store_field (PtrV (Some a)) path x m = Some ?m"
    using r by (simp add: rooted_def store_field_def)
  moreover have "agree (- {a}) m ?m" by (intro put_array_outside) simp
  ultimately show ?thesis by auto
qed

definition with_default :: "string list \<Rightarrow> string \<Rightarrow> gval \<Rightarrow> gval" where
  "with_default path d v = (if get_path path v = Some (StrV '''') then set_path path (StrV d) v else v)"

text \<open>A step that only rewrites the object itself.\<close>

definition rewrote :: "gty \<Rightarrow> addr \<Rightarrow> gval \<Rightarrow> mem \<Rightarrow> gval \<Rightarrow> mem \<Rightarrow> bool" where
  "rewrote ty a v m v' m' \<longleftrightarrow> rooted ty a v' m' \<and> agree (- {a}) m m' \<and> next_addr m' = next_addr m \<and> reach ty v' m' \<subseteq> reach ty v m"

lemma rewrote_trans: "rewrote ty a v m v1 m1 \<Longrightarrow> rewrote ty a v1 m1 v2 m2 \<Longrightarrow> rewrote ty a v m v2 m2"
  by (auto simp: rewrote_def agree_def)

lemma default_field_at:
  assumes r: "rooted ty a v m" and t: "path_type path ty = Some TString"
  shows "\<exists>m'. default_field path d (PtrV (Some a)) m = Some m' \<and> rewrote ty a v m (with_default path d v) m'"
proof -
  obtain w where "get_path path v = Some w" "has_type TString w m"
    using get_path_typed[OF t, of v m] r by (auto simp: rooted_def)
  then obtain x where x: "get_path path v = Some (StrV x)" by (cases w) auto
  then have l: "load_field (PtrV (Some a)) path m = Some (StrV x)"
    using r by (simp add: load_field_def rooted_def)
  show ?thesis
  proof (cases "x = ''''")
    case True
    then have "default_field path d (PtrV (Some a)) m = store_field (PtrV (Some a)) path (StrV d) m"
      "with_default path d v = set_path path (StrV d) v"
      using x l by (simp_all add: default_field_def with_default_def)
    with store_leaf[OF r t, of "StrV d"] show ?thesis by (simp add: rewrote_def)
  next
    case False
    then show ?thesis using r x l by (simp add: default_field_def with_default_def rewrote_def agree_def)
  qed
qed

definition defaulted :: "gval \<Rightarrow> gval" where
  "defaulted v = with_default [''Spec'', ''ManagementState''] ''Managed'' (with_default [''Spec'', ''LogLevel''] ''Normal'' v)"

lemma lv_paths:
  "path_type [''Spec'', ''LogLevel''] LocalVolume_type = Some TString"
  "path_type [''Spec'', ''ManagementState''] LocalVolume_type = Some TString"
  "path_type finalizers_path LocalVolume_type = Some (TSlice TString)"
  by (simp_all add: LocalVolume_type_def LocalVolumeSpec_type_def ObjectMeta_type_def)

lemma lv_unlike_string: "unlike LocalVolume_type TString"
  by (auto simp: unlike_def LocalVolume_type_def split: gval.splits)

lemma SetDefaults_at_rewrote:
  assumes "rooted LocalVolume_type a v m"
  shows "\<exists>m'. SetDefaults_at (PtrV (Some a)) m = Some m' \<and> rewrote LocalVolume_type a v m (defaulted v) m'"
proof -
  obtain m1 where m1: "default_field [''Spec'', ''LogLevel''] ''Normal'' (PtrV (Some a)) m = Some m1"
      "rewrote LocalVolume_type a v m (with_default [''Spec'', ''LogLevel''] ''Normal'' v) m1"
    using default_field_at[OF assms lv_paths(1)] by blast
  then have "rooted LocalVolume_type a (with_default [''Spec'', ''LogLevel''] ''Normal'' v) m1" by (simp add: rewrote_def)
  from default_field_at[OF this lv_paths(2), of "''Managed''"] m1 show ?thesis
    by (auto simp: SetDefaults_at_def defaulted_def intro: rewrote_trans)
qed

lemma defaulted_fields:
  "get_path finalizers_path (defaulted v) = get_path finalizers_path v"
  "get_path [''Spec'', ''LogLevel''] v = Some (StrV l) \<Longrightarrow> get_path [''Spec'', ''LogLevel''] (defaulted v) = Some (StrV (if l = '''' then ''Normal'' else l))"
  "get_path [''Spec'', ''ManagementState''] v = Some (StrV s) \<Longrightarrow>
     get_path [''Spec'', ''ManagementState''] (defaulted v) = Some (StrV (if s = '''' then ''Managed'' else s))"
  by (simp_all add: defaulted_def with_default_def get_set_path get_set_path_other get_set_path_inner
      del: get_path.simps(2) set_path.simps(2))

text \<open>What the value model has of a LocalVolume that these functions read and change.\<close>

fun state_text :: "management_state \<Rightarrow> string" where
  "state_text StateUnset = ''''"
| "state_text Managed = ''Managed''"
| "state_text Unmanaged = ''Unmanaged''"
| "state_text Force = ''Force''"
| "state_text Removed = ''Removed''"

definition lv_shown :: "local_volume \<Rightarrow> gval \<Rightarrow> mem \<Rightarrow> bool" where
  "lv_shown lv p m \<longleftrightarrow> elems_at p finalizers_path m = Some (map StrV (om_Finalizers (lv_meta lv)))
     \<and> load_field p [''Spec'', ''LogLevel''] m = Some (StrV (lv_LogLevel lv))
     \<and> load_field p [''Spec'', ''ManagementState''] m = Some (StrV (state_text (lv_ManagementState lv)))"

lemma contains_set: "contains fs f \<longleftrightarrow> StrV f \<in> set (map StrV fs)"
  by (induction fs) auto

lemma load_root: "cells m a = Some [v] \<Longrightarrow> load_field (PtrV (Some a)) path m = get_path path v"
  by (simp add: load_field_def)

lemma leaf_shown:
  assumes "path_type path ty = Some t" "leaf_type t" "has_type (TPtr ty) p m" "has_type (TPtr ty) q m'"
    "contents (TPtr ty) q m' = contents (TPtr ty) p m" "p \<noteq> PtrV None" "q \<noteq> PtrV None"
  shows "load_field q path m' = load_field p path m"
  using load_path_shown[OF assms(1,3-7)] leaf_contents[OF assms(2)] by auto

lemma lv_shown_same:
  assumes "has_type (TPtr LocalVolume_type) p m" "has_type (TPtr LocalVolume_type) q m'"
    "contents (TPtr LocalVolume_type) q m' = contents (TPtr LocalVolume_type) p m" "p \<noteq> PtrV None" "q \<noteq> PtrV None"
  shows "lv_shown lv q m' = lv_shown lv p m"
proof -
  have "leaf_type TString" "simple_type TString" by (simp_all add: leaf_type_def simple_type_def)
  then show ?thesis
    using elems_at_shown[OF lv_paths(3) _ assms] leaf_shown[OF lv_paths(1) _ assms] leaf_shown[OF lv_paths(2) _ assms]
    by (simp add: lv_shown_def)
qed

lemma SetDefaults_at_refines:
  assumes r: "rooted LocalVolume_type a v m" and s: "lv_shown lv (PtrV (Some a)) m"
  shows "\<exists>v' m'. SetDefaults_at (PtrV (Some a)) m = Some m' \<and> rewrote LocalVolume_type a v m v' m'
     \<and> lv_shown (SetDefaults lv) (PtrV (Some a)) m'"
proof -
  obtain m' where m': "SetDefaults_at (PtrV (Some a)) m = Some m'" "rewrote LocalVolume_type a v m (defaulted v) m'"
    using SetDefaults_at_rewrote[OF r] by blast
  have c: "cells m a = Some [v]" "cells m' a = Some [defaulted v]"
    using r m'(2) by (simp_all add: rooted_def rewrote_def)
  have g: "get_path [''Spec'', ''LogLevel''] v = Some (StrV (lv_LogLevel lv))"
    "get_path [''Spec'', ''ManagementState''] v = Some (StrV (state_text (lv_ManagementState lv)))"
    using s c(1) by (simp_all add: lv_shown_def load_root)
  obtain fs where f: "load_field (PtrV (Some a)) finalizers_path m = Some fs"
      "slice_elems fs m = Some (map StrV (om_Finalizers (lv_meta lv)))"
    using s elems_atD unfolding lv_shown_def by blast
  have "slice_elems fs m' = slice_elems fs m"
  proof (cases "\<exists>b off n. fs = SliceV (Some (b, off, n))")
    case True
    then obtain b off n where fs: "fs = SliceV (Some (b, off, n))" by blast
    have "has_type LocalVolume_type v m" "wf_mem m" using r by (simp_all add: rooted_def)
    then have "b \<noteq> a"
      using slice_in_object[OF _ refl c(1) _ lv_paths(3) lv_unlike_string] f(1) fs by metis
    with m'(2) fs show ?thesis by (simp add: slice_elems_def rewrote_def agree_def)
  qed (auto simp: slice_elems_def split: gval.splits option.splits)
  then have "elems_at (PtrV (Some a)) finalizers_path m' = Some (map StrV (om_Finalizers (lv_meta lv)))"
    using f c defaulted_fields(1)[of v] by (simp add: elems_at_def load_root del: get_path.simps)
  moreover have "state_text (lv_ManagementState lv) = '''' \<longleftrightarrow> lv_ManagementState lv = StateUnset"
    by (cases "lv_ManagementState lv") auto
  ultimately have "lv_shown (SetDefaults lv) (PtrV (Some a)) m'"
    using c(2) defaulted_fields(2)[OF g(1)] defaulted_fields(3)[OF g(2)]
    by (simp add: lv_shown_def SetDefaults_def Let_def load_root del: get_path.simps)
  with m' show ?thesis by blast
qed

lemma addFinalizer_at_refines:
  assumes r: "rooted LocalVolume_type a v m" and s: "lv_shown lv (PtrV (Some a)) m"
  shows "\<exists>m'. addFinalizer_at (PtrV (Some a)) m = Some (snd (addFinalizer lv), m')
     \<and> lv_shown (fst (addFinalizer lv)) (PtrV (Some a)) m' \<and> confined LocalVolume_type (PtrV (Some a)) m m'"
proof -
  let ?p = "PtrV (Some a)" and ?fs = "om_Finalizers (lv_meta lv)"
  obtain fs where f: "load_field ?p finalizers_path m = Some fs" "slice_elems fs m = Some (map StrV ?fs)"
    using s elems_atD unfolding lv_shown_def by blast
  have v: "wf_mem m" "cells m a = Some [v]" "has_type LocalVolume_type v m" using r by (simp_all add: rooted_def)
  note mem = contains_set[of ?fs localVolumeFinalizer]
  show ?thesis
  proof (cases "contains ?fs localVolumeFinalizer")
    case True
    then have "addFinalizer_at ?p m = Some (False, m)" "addFinalizer lv = (lv, False)"
      using f mem by (simp_all add: addFinalizer_at_def addFinalizer_def)
    with s confined_refl show ?thesis by simp
  next
    case False
    obtain s' m1 m2 where ap: "slice_append fs (StrV localVolumeFinalizer) m = Some (s', m1)" "store_field ?p finalizers_path s' m1 = Some m2"
        "elems_at ?p finalizers_path m2 = Some (map StrV ?fs @ [StrV localVolumeFinalizer])" "confined LocalVolume_type ?p m m2"
        "cells m2 a = Some [set_path finalizers_path s' v]"
      using slice_append_at[OF v(1) refl v(2,3) lv_paths(3) lv_unlike_string f, of "StrV localVolumeFinalizer"] by blast
    have "lv_shown (fst (addFinalizer lv)) ?p m2"
      using s ap(3,5) v(2) False
      by (simp add: lv_shown_def addFinalizer_def load_root get_set_path_other del: get_path.simps set_path.simps)
    moreover have "addFinalizer_at ?p m = Some (True, m2)" "snd (addFinalizer lv)"
      using False f ap(1,2) mem by (simp_all add: addFinalizer_at_def addFinalizer_def)
    ultimately show ?thesis using ap(4) by simp
  qed
qed


definition example_lv :: local_volume where
  "example_lv = emptyLV\<lparr>lv_meta := (lv_meta emptyLV)\<lparr>om_Finalizers := [''other'']\<rparr>\<rparr>"

definition example_lv_mem :: mem where
  "example_lv_mem = \<lparr>cells = [0 \<mapsto> [set_path finalizers_path (SliceV (Some (1, 1, 1))) (zero_value LocalVolume_type)],
      1 \<mapsto> [StrV '''', StrV ''other'', StrV '''']], next_addr = 2\<rparr>"


section \<open>Interfaces and reads into a copy\<close>

text \<open>
  \<open>isNilOwnerObject\<close> of the device link handler: an interface value is nil, or it holds a nil
  pointer. The copies of the scheme never are of the second kind, so that for them the plain
  comparison with nil would do.
\<close>

definition isNilOwnerObject :: "(string \<times> gval) option \<Rightarrow> bool" where
  "isNilOwnerObject ownerObj = (case ownerObj of None \<Rightarrow> True | Some (kind, v) \<Rightarrow> (case v of PtrV p \<Rightarrow> p = None | _ \<Rightarrow> False))"

theorem copied_owner_not_typed_nil:
  assumes "((g, ver, kind), t, dco) \<in> set known_objects" "wf_mem m" "has_type (TPtr t) p m"
  shows "\<exists>ob m'. dco p m = Some (ob, m') \<and> (isNilOwnerObject ob \<longleftrightarrow> p = PtrV None) \<and> (isNilOwnerObject ob \<longleftrightarrow> ob = None)"
proof -
  obtain into where i: "deep_copier t into" "dco = deep_copy_object kind (deep_copy t into)"
    using known_objects_are_deep[OF assms(1)] by blast
  show ?thesis
  proof (cases "p = PtrV None")
    case True
    then show ?thesis using deep_copier.deep_copy_object_nil[OF i(1)] i(2) by (simp add: isNilOwnerObject_def)
  next
    case False
    then obtain q m' where q: "dco p m = Some (Some (kind, q), m')" "isolated (TPtr t) p m q m'"
      using deep_copier.deep_copy_object_isolated[OF i(1) assms(2,3)] i(2) by blast
    then have "has_type (TPtr t) q m'" by (simp add: isolated_def)
    moreover have "q \<noteq> PtrV None" using q(1) i(2) by (auto simp: deep_copy_object_def split: option.splits if_splits)
    ultimately obtain b x where "q = PtrV (Some b)" by (rule has_type_ptrE)
    with q(1) False show ?thesis by (simp add: isNilOwnerObject_def)
  qed
qed

text \<open>
  \<open>getLocalVolume\<close> of the diskmaker's client reads the object into a deep copy of its argument and
  returns the argument; for nil it panics at the name. \<open>Get\<close> is the call of the client library, which fills the object it is given.
\<close>

definition getLocalVolume_at :: "(gval \<Rightarrow> mem \<Rightarrow> error option \<times> mem) \<Rightarrow> gval \<Rightarrow> mem \<Rightarrow> (gval \<times> error option \<times> mem) option" where
  "getLocalVolume_at Get lv m = (case LocalVolume_DeepCopy lv m of
     None \<Rightarrow> None
   | Some (newLocalVolume, m1) \<Rightarrow>
       if newLocalVolume = PtrV None then None
       else (case Get newLocalVolume m1 of (err, m2) \<Rightarrow> Some (lv, err, m2)))"

text \<open>So the caller never sees what was read: the object that is returned shows what the argument showed.\<close>

theorem getLocalVolume_returns_old:
  assumes "\<And>q m1. confined LocalVolume_type q m1 (snd (Get q m1))"
    and "wf_mem m" "has_type (TPtr LocalVolume_type) lv m" "lv \<noteq> PtrV None"
  shows "\<exists>err m'. getLocalVolume_at Get lv m = Some (lv, err, m')
    \<and> contents (TPtr LocalVolume_type) lv m' = contents (TPtr LocalVolume_type) lv m"
proof -
  obtain q m1 where q: "LocalVolume_DeepCopy lv m = Some (q, m1)" "isolated (TPtr LocalVolume_type) lv m q m1" "q \<noteq> PtrV None"
    using LocalVolume.deep_copy_isolated[OF assms(2,3)] assms(4) unfolding LocalVolume_DeepCopy_def by blast
  obtain err m2 where g: "Get q m1 = (err, m2)" by fastforce
  with assms(1)[of q m1] q(2) have "contents (TPtr LocalVolume_type) lv m2 = contents (TPtr LocalVolume_type) lv m"
    unfolding isolated_def confined_def by simp
  with q(1,3) g show ?thesis by (simp add: getLocalVolume_at_def)
qed

end
