(* ===== verification/PvSettled.thy ===== *)
theory PvSettled
  imports PvOwnership
begin

text \<open>
  Repeated synchronisation. Every reconcile of the diskmaker synchronises all PVs of its node
  again (\<^verbatim>\<open>SyncPVAndLVDL\<close>); the cluster is not written to without end because a PV, once written, has the
  labels and annotations that the next run wants. This theory shows that the writes come to an
  end.
\<close>

section \<open>PVs that need no change\<close>

definition pv_settled :: "runtime_config \<Rightarrow> sync_args \<Rightarrow> string \<Rightarrow> bool \<Rightarrow> pv \<Rightarrow> bool" where
  "pv_settled rc a hostname idExists q \<longleftrightarrow>
     (\<forall>k \<in> fst ` set (pvLabels a hostname). map_of (pv_Labels q) k \<noteq> None)
   \<and> (\<forall>k \<in> set DeprecatedLabels. map_of (pv_Labels q) k = None)
   \<and> (\<forall>k \<in> fst ` set (pvAnnotations rc a idExists). map_of (pv_Annotations q) k \<noteq> None)"

lemma addMissing_present: "\<forall>k \<in> fst ` set new. map_of m k \<noteq> None \<Longrightarrow> addMissing new m = m"
  unfolding addMissing_def by (induction new) auto

lemma fold_delete_absent: "\<forall>k \<in> set ks. map_of m k = None \<Longrightarrow> fold AList.delete ks m = m"
  by (induction ks) (auto simp: map_of_eq_None_iff)

lemma two_keys: "map_of m k \<noteq> None \<Longrightarrow> map_of m l \<noteq> None \<Longrightarrow> k \<noteq> l \<Longrightarrow> 1 < length m"
  by (cases m; cases "tl m") (auto split: if_splits)

lemma keys_fold_update: "fst ` set (fold (\<lambda>(k, v). AList.update k v) es m) = fst ` set es \<union> fst ` set m"
proof (induction es arbitrary: m)
  case (Cons e es)
  then show ?case by (cases e) (simp add: dom_update)
qed simp

lemma pvLabels_keys:
  "fst ` set (pvLabels a hostname)
     = fst ` set (sa_extra a) \<union> {LabelHostname, PVOwnerKindLabel, PVOwnerNamespaceLabel, PVOwnerNameLabel}"
  unfolding pvLabels_def keys_fold_update by simp

lemma pvLabels_not_deprecated:
  assumes "extra_labels a" "k \<in> set DeprecatedLabels"
  shows "map_of (pvLabels a hostname) k = None"
  using assms unfolding map_of_eq_None_iff pvLabels_keys
  by (auto simp: extra_labels_def list_all_iff DeprecatedLabels_def label_defs LocalVolumeOwnerNameForPV_def LocalVolumeOwnerNamespaceForPV_def)

lemma mutatePV_settled:
  assumes "pv_settled rc a hostname i q" "om_CreationTimestamp (pv_meta q) \<noteq> None"
  shows "mutatePV new (pvLabels a hostname) (pvAnnotations rc a i) q = q"
proof -
  have l: "\<forall>k \<in> fst ` set (pvLabels a hostname). map_of (pv_Labels q) k \<noteq> None"
    and d: "\<forall>k \<in> set DeprecatedLabels. map_of (pv_Labels q) k = None"
    and an: "\<forall>k \<in> fst ` set (pvAnnotations rc a i). map_of (pv_Annotations q) k \<noteq> None"
    using assms(1) by (simp_all add: pv_settled_def)
  have "1 < length (pv_Labels q)"
    using l by (intro two_keys[of _ PVOwnerKindLabel PVOwnerNameLabel]) (auto simp: pvLabels_keys label_defs)
  moreover have "1 < length (pv_Annotations q)"
    using an by (intro two_keys[of _ PVDeviceNameLabel AnnProvisionedBy]) (auto simp: pvAnnotations_def label_defs)
  moreover obtain t where "om_CreationTimestamp (pv_meta q) = Some t" using assms(2) by blast
  ultimately show ?thesis
    using fold_delete_absent[OF d] addMissing_present[OF l] addMissing_present[OF an]
    by (simp add: mutatePV_def Let_def InitMapIfNil_def)
qed

lemma mutatePV_settles:
  assumes "extra_labels a"
  shows "pv_settled rc a hostname i (mutatePV new (pvLabels a hostname) (pvAnnotations rc a i) q)"
  unfolding pv_settled_def
proof (intro conjI ballI)
  let ?p = "mutatePV new (pvLabels a hostname) (pvAnnotations rc a i) q"
  let ?q = "if om_CreationTimestamp (pv_meta q) = None then new else q"
  have ls: "map_of (pv_Labels ?p) k = (case if k \<in> set DeprecatedLabels then None else map_of (InitMapIfNil (pv_Labels ?q)) k of
      Some v \<Rightarrow> Some v | None \<Rightarrow> map_of (pvLabels a hostname) k)" for k
    by (simp add: mutatePV_def Let_def map_of_addMissing map_of_fold_delete)
  have as: "map_of (pv_Annotations ?p) k = (case map_of (InitMapIfNil (pv_Annotations ?q)) k of
      Some v \<Rightarrow> Some v | None \<Rightarrow> map_of (pvAnnotations rc a i) k)" for k
    by (simp add: mutatePV_def Let_def map_of_addMissing)
  have present: "map_of m k \<noteq> None" if "k \<in> fst ` set m" for m :: smap and k
    using that by (metis map_of_eq_None_iff)
  show "map_of (pv_Labels ?p) k \<noteq> None" if "k \<in> fst ` set (pvLabels a hostname)" for k
    unfolding ls using present[OF that] by (simp split: option.split)
  show "map_of (pv_Labels ?p) k = None" if "k \<in> set DeprecatedLabels" for k
    unfolding ls using pvLabels_not_deprecated[OF assms that] that by simp
  show "map_of (pv_Annotations ?p) k \<noteq> None" if "k \<in> fst ` set (pvAnnotations rc a i)" for k
    unfolding as using present[OF that] by (simp split: option.split)
qed

lemma pv_settled_mono: "pv_settled rc a hostname True q \<Longrightarrow> pv_settled rc a hostname i q"
  by (auto simp: pv_settled_def pvAnnotations_def)

section \<open>Writes of PVs come to an end\<close>

text \<open>What a run may still write when the stored PV is settled: the annotation for a stable name that it got since.\<close>

definition last_write :: "runtime_config \<Rightarrow> sync_args \<Rightarrow> string \<Rightarrow> bool \<Rightarrow> action \<Rightarrow> bool" where
  "last_write rc a hostname i b \<longleftrightarrow> no_pv_write b
     \<or> (\<not> i \<and> (\<exists>p r. b = Api (UpdatePV p) r \<and> pv_settled rc a hostname True p))"

definition writes_settled :: "runtime_config \<Rightarrow> sync_args \<Rightarrow> string \<Rightarrow> action \<Rightarrow> bool" where
  "writes_settled rc a hostname b \<longleftrightarrow> no_pv_write b
     \<or> (\<exists>p r i. (b = Api (CreatePV p) r \<or> b = Api (UpdatePV p) r) \<and> pv_settled rc a hostname i p)"

lemma event_writes_nothing: "no_pv_write (Event ob t rs m)"
  by (simp add: no_pv_write_def)

lemma log_writes_settled:
  assumes "extra_labels a"
  shows "always (log_ext (writes_settled rc a hostname))
    (CreateOrUpdatePV E new p (pvLabels a hostname) (pvAnnotations rc a i) vm)"
proof -
  have "writes_settled rc a hostname (Api (CreatePV (mutatePV new (pvLabels a hostname) (pvAnnotations rc a i) q)) s)"
    "writes_settled rc a hostname (Api (UpdatePV (mutatePV new (pvLabels a hostname) (pvAnnotations rc a i) q)) s)" for q s
    using mutatePV_settles[OF assms, of rc hostname i new q] unfolding writes_settled_def by blast+
  moreover have "writes_settled rc a hostname (Event ob t rs m)" for ob t rs m
    by (simp add: writes_settled_def event_writes_nothing)
  ultimately show ?thesis
    unfolding CreateOrUpdatePV_def by (intro log.rules log_queries log_api log_mutateEvent)
qed

lemma log_last_write:
  assumes get: "\<forall>t. e_get_pv E t (pvNameFor rc a) = Inr q" "pv_Name q = pvNameFor rc a"
    and q: "om_CreationTimestamp (pv_meta q) \<noteq> None" "pv_settled rc a hostname i q" and a: "extra_labels a"
  shows "always (log_ext (last_write rc a hostname i))
    (CreateOrUpdatePV E new q (pvLabels a hostname) (pvAnnotations rc a j) vm)"
proof -
  let ?q = "mutatePV new (pvLabels a hostname) (pvAnnotations rc a j) q"
  have up: "?q = q \<or> last_write rc a hostname i (Api (UpdatePV ?q) s)" for s
  proof (cases "j \<and> \<not> i")
    case True
    then have "j = True" by simp
    with True mutatePV_settles[OF a, of rc hostname j new q] show ?thesis by (auto simp: last_write_def)
  next
    case False
    then have "pv_settled rc a hostname j q"
      using q(2) pv_settled_mono by (cases i; cases j) auto
    then show ?thesis using mutatePV_settled[OF _ q(1)] by blast
  qed
  show ?thesis
    unfolding CreateOrUpdatePV_def
    by (rule log_get_then [where Q = "\<lambda>g. g = Inr q"])
      (use get up in \<open>auto simp: last_write_def event_writes_nothing intro!: log.rules log_api log_mutateEvent\<close>)
qed


definition stored_pv :: pv where
  "stored_pv = mutatePV (emptyPV '''') (pvLabels demo_args ''host1'') (pvAnnotations demo_rc demo_args True)
     (emptyPV (pvNameFor demo_rc demo_args)\<lparr>pv_meta := (pv_meta (emptyPV (pvNameFor demo_rc demo_args)))\<lparr>om_CreationTimestamp := Some 1\<rparr>\<rparr>)"


end
