(* ===== verification/Volumes.thy ===== *)
theory Volumes
  imports Controllers "HOL-Library.Sublist"
begin

text \<open>
  The volume definitions of \<^verbatim>\<open>pkg/common/volume_definitions.go\<close>: four volumes of the host or of the
  cluster and the mounts that go with them. Their order is that of the file; the location of the
  local disks comes from the environment of the process. A pod that takes volumes and mounts in
  pairs is accepted by the API server, which wants every mount to name a volume of the pod, and
  volume names and mount paths without duplicates.
\<close>

datatype mount_propagation = MountPropagationNone | MountPropagationHostToContainer | MountPropagationBidirectional

datatype volume_source =
    HostPath string "string option"  \<comment> \<open>path and type\<close>
  | ConfigMapSource string

record volume =
  vol_Name :: string
  vol_Source :: volume_source

record volume_mount =
  vm_Name :: string
  vm_ReadOnly :: bool
  vm_MountPath :: string
  vm_MountPropagation :: "mount_propagation option"

definition symlinkDirVolName :: string where "symlinkDirVolName = ''local-disks''"
definition devDirVolName :: string where "devDirVolName = ''device-dir''"
definition devDirPath :: string where "devDirPath = ''/dev''"
definition provisionerConfigVolName :: string where "provisionerConfigVolName = ''provisioner-config''"
definition udevVolName :: string where "udevVolName = ''run-udev''"
definition udevPath :: string where "udevPath = ''/run/udev''"

definition hostContainerPropagation :: mount_propagation where
  "hostContainerPropagation = MountPropagationHostToContainer"

definition directoryHostPath :: string where "directoryHostPath = ''Directory''"

definition SymlinkHostDirVolume :: "(string \<Rightarrow> string) \<Rightarrow> volume" where
  "SymlinkHostDirVolume getenv = \<lparr>vol_Name = ''local-disks'', vol_Source = HostPath (GetLocalDiskLocationPath getenv) None\<rparr>"

definition SymlinkMount :: "(string \<Rightarrow> string) \<Rightarrow> volume_mount" where
  "SymlinkMount getenv = \<lparr>vm_Name = ''local-disks'', vm_ReadOnly = False, vm_MountPath = GetLocalDiskLocationPath getenv,
     vm_MountPropagation = Some hostContainerPropagation\<rparr>"

definition DevHostDirVolume :: volume where
  "DevHostDirVolume = \<lparr>vol_Name = devDirVolName, vol_Source = HostPath devDirPath (Some directoryHostPath)\<rparr>"

definition DevMount :: volume_mount where
  "DevMount = \<lparr>vm_Name = devDirVolName, vm_ReadOnly = False, vm_MountPath = devDirPath,
     vm_MountPropagation = Some hostContainerPropagation\<rparr>"

definition ProvisionerConfigHostDirVolume :: volume where
  "ProvisionerConfigHostDirVolume = \<lparr>vol_Name = provisionerConfigVolName, vol_Source = ConfigMapSource ProvisionerConfigMapName\<rparr>"

definition ProvisionerConfigMount :: volume_mount where
  "ProvisionerConfigMount = \<lparr>vm_Name = provisionerConfigVolName, vm_ReadOnly = True, vm_MountPath = ''/etc/provisioner/config'',
     vm_MountPropagation = None\<rparr>"

definition UDevHostDirVolume :: volume where
  "UDevHostDirVolume = \<lparr>vol_Name = udevVolName, vol_Source = HostPath udevPath None\<rparr>"

definition UDevMount :: volume_mount where
  "UDevMount = \<lparr>vm_Name = udevVolName, vm_ReadOnly = False, vm_MountPath = udevPath,
     vm_MountPropagation = Some hostContainerPropagation\<rparr>"

definition volume_pairs :: "(string \<Rightarrow> string) \<Rightarrow> (volume \<times> volume_mount) list" where
  "volume_pairs getenv = [(SymlinkHostDirVolume getenv, SymlinkMount getenv), (DevHostDirVolume, DevMount),
     (ProvisionerConfigHostDirVolume, ProvisionerConfigMount), (UDevHostDirVolume, UDevMount)]"

text \<open>What the API server asks of the volumes and mounts of a container.\<close>

definition mounts_valid :: "volume list \<Rightarrow> volume_mount list \<Rightarrow> bool" where
  "mounts_valid vols mounts \<longleftrightarrow> distinct (map vol_Name vols) \<and> distinct (map vm_MountPath mounts)
     \<and> (\<forall>mnt \<in> set mounts. vm_Name mnt \<in> set (map vol_Name vols))"

lemmas volume_defs = volume_pairs_def SymlinkHostDirVolume_def SymlinkMount_def DevHostDirVolume_def DevMount_def
  ProvisionerConfigHostDirVolume_def ProvisionerConfigMount_def UDevHostDirVolume_def UDevMount_def
  devDirVolName_def devDirPath_def provisionerConfigVolName_def udevVolName_def udevPath_def

lemma subseq_distinct: "subseq xs ys \<Longrightarrow> distinct ys \<Longrightarrow> distinct xs"
  by (induction rule: list_emb.induct) (auto dest: list_emb_set)

text \<open>Any selection of the pairs makes a valid pod, unless the disks are kept where something else is mounted.\<close>

theorem volume_pairs_valid:
  assumes "GetLocalDiskLocationPath getenv \<notin> {''/dev'', ''/etc/provisioner/config'', ''/run/udev''}"
    and "subseq pairs (volume_pairs getenv)"
  shows "mounts_valid (map fst pairs) (map snd pairs)"
proof -
  have all: "distinct (map vol_Name (map fst (volume_pairs getenv)))" "distinct (map vm_MountPath (map snd (volume_pairs getenv)))"
    using assms(1) by (simp_all add: volume_defs eq_commute)
  have same: "vm_Name (snd x) = vol_Name (fst x)" if "x \<in> set (volume_pairs getenv)" for x
    using that by (auto simp: volume_defs)
  have sub: "subseq (map f pairs) (map f (volume_pairs getenv))" for f :: "volume \<times> volume_mount \<Rightarrow> string"
    using assms(2) by (rule subseq_map)
  have "distinct (map vol_Name (map fst pairs))" "distinct (map vm_MountPath (map snd pairs))"
    using subseq_distinct[OF sub, of "vol_Name \<circ> fst"] subseq_distinct[OF sub, of "vm_MountPath \<circ> snd"] all
    by (simp_all add: comp_def)
  moreover have "vm_Name (snd x) = vol_Name (fst x)" if "x \<in> set pairs" for x
    using that assms(2) same by (auto dest: list_emb_set)
  ultimately show ?thesis
    unfolding mounts_valid_def by (simp add: image_iff) metis
qed

text \<open>Every mount of a directory of the host has the path of its volume, so that paths read from the host are valid inside the container.\<close>

theorem host_paths_kept:
  "(v, mnt) \<in> set (volume_pairs getenv) \<Longrightarrow> vol_Source v = HostPath p t \<Longrightarrow> vm_MountPath mnt = p \<and> vm_MountPropagation mnt = Some MountPropagationHostToContainer"
  by (auto simp: volume_defs hostContainerPropagation_def)

end
