(* ===== verification/Spec2Isabelle.thy ===== *)
theory Spec2Isabelle
  imports Capacity Cluster Watches Startup UdevMonitor DiskTable CopyClients PvSettled Volumes
begin

text \<open>
  Verification library of the OpenShift Local Storage Operator, a Kubernetes operator that turns the
  local disks of cluster nodes into persistent volumes (PVs).

  \<^bold>\<open>The program.\<close> Four processes work on shared objects of the cluster.

    \<^item> The \<^emph>\<open>operator\<close> (\<^verbatim>\<open>pkg/controllers\<close>) runs once per cluster. Its LocalVolume and LocalVolumeSet controllers keep the
      storage classes, the status and the protection finalizer of these objects; its node daemon
      controller aggregates all of them into one ConfigMap and one DaemonSet, the diskmaker; its discovery
      controller deploys the discovery daemon.
    \<^item> The \<^emph>\<open>diskmaker\<close> (\<^verbatim>\<open>pkg/diskmaker/controllers\<close>) runs on every selected node. It reads lsblk, blkid and
      the mount table, decides which devices belong to which LocalVolume or LocalVolumeSet, links them into the directory
      of the storage class, creates a PV for each link, and keeps a LocalVolumeDeviceLink object for each PV, with which
      a symlink is replaced when the device gets a better stable name. On deletion it wipes the data and removes the links.
    \<^item> The \<^emph>\<open>discovery daemon\<close> (\<^verbatim>\<open>pkg/diskmaker/discovery\<close>) publishes the devices of its node.
    \<^item> \<^verbatim>\<open>pkg/common\<close>, \<^verbatim>\<open>pkg/internal\<close> and \<^verbatim>\<open>pkg/localmetrics\<close> are shared by them.

  \<^bold>\<open>How it is modelled.\<close> Pure functions are functions. Code with effects is a program of the state
  monad over \<open>world\<close> (theory World): the state the process owns (the directories it links into, its
  caches, reported events, remembered devices), a log of the calls it made, newest first, and a trace of the file system after
  each change. Everything outside is a record \<open>env\<close> of functions of a logical clock: API reads and
  writes, commands, the mount table, the clock, the volume utilities of the provisioner library,
  the embedded files and the decoders of manifests, faults of system calls, and the changes the device manager makes to \<^verbatim>\<open>/dev\<close>. Each call takes one tick, so two reads may
  see different worlds, and every theorem holds for every behaviour of these services, failures
  included, unless it names a hypothesis. A helper of \<^verbatim>\<open>pkg/internal\<close> reads the host at one instant. Errors are values of
  the datatype \<open>error\<close>, with a constructor for every error some caller tests for; a run-time panic is
  the error \<open>Panic\<close>. Go maps are association lists with unique keys; no result depends on their order
  where the code ranges over a map, or the order is an argument. Reconciles are functions of a
  request; the handlers of watched PVs (theories Naming and Watches) run between reconciles, not inside one.
  Objects are immutable values; that the code may share and change them in place is the subject of GoHeap, DeepCopy and
  CopyClients, where pointers, slices and maps are references into a memory.

  \<^bold>\<open>Theories\<close>, in the order of the imports.

    \<^item> Prelude: collections of rewrite rules, weakest preconditions \<open>wp\<close> of monadic programs, lists and options.
    \<^item> GoLib: strings, paths and numbers of the Go library. Sha256: \<^verbatim>\<open>crypto/sha256\<close> and \<^verbatim>\<open>encoding/hex\<close>.
    \<^item> ApiTypes: the custom resources (\<^verbatim>\<open>api/v1\<close>, \<^verbatim>\<open>api/v1alpha1\<close>), the Kubernetes objects with the fields that are used, errors.
    \<^item> Capacity (\<^verbatim>\<open>capacity.go\<close>), DiskUtil (\<^verbatim>\<open>pkg/internal\<close>), DiskTable (\<^verbatim>\<open>lv/disktable.go\<close> and the lsblk round trip), Naming (\<^verbatim>\<open>names.go\<close>,
      \<^verbatim>\<open>types.go\<close>, the PV cache), OwnerMap (\<^verbatim>\<open>storage_class_owner.go\<close>), LinkCache (\<^verbatim>\<open>pv_link_cache.go\<close>).
    \<^item> GlobMatch and HostFs: \<^verbatim>\<open>filepath.Glob\<close> patterns and a file system of directories, devices and symlinks.
    \<^item> LocalMetrics (\<^verbatim>\<open>localmetrics.go\<close>): vectors of gauges, the calls that set them and their effect.
    \<^item> World: the environment, the state, sequencing, and the relations every run keeps, as the locale
      \<open>step_order\<close>: the log grows by permitted actions only (\<open>log_ext\<close>), the file system keeps an invariant
      at every intermediate state (\<open>keeps\<close>), later \<open>timed\<close> and \<open>silent\<close>.
    \<^item> Assets (\<^verbatim>\<open>assets/assets.go\<close>): manifests with placeholders and \<^verbatim>\<open>strings.Replacer\<close>.
    \<^item> SymlinkUtils (\<^verbatim>\<open>symlink_utils.go\<close>, \<^verbatim>\<open>current_block_device_info.go\<close>), DeviceLinkHandler (\<^verbatim>\<open>device_link_handler.go\<close>), Provisioner
      (\<^verbatim>\<open>provisioner_utils.go\<close>), Events (the reporters), Matcher (\<^verbatim>\<open>lvset/matcher.go\<close>), Controllers (runtime configuration, results of a
      reconcile).
    \<^item> LvReconcile (\<^verbatim>\<open>lv/reconcile.go\<close>, \<^verbatim>\<open>lv/diskconfig.go\<close>), LvsetDevices and LvsetReconcile (\<^verbatim>\<open>lvset/reconcile.go\<close>): the diskmaker.
    \<^item> Operator (\<^verbatim>\<open>finalizer_util.go\<close>, \<^verbatim>\<open>resourceapply.go\<close>), LvController, LvsetController, Monitoring (\<^verbatim>\<open>exporter.go\<close>, \<^verbatim>\<open>alerts.go\<close>,
      \<^verbatim>\<open>custom_metrics_collector.go\<close>), TlsProfile (\<^verbatim>\<open>pkg/tls\<close>), NodeDaemon, DiscoveryController: the operator. Watches: which changes wake which controllers.
    \<^item> Discovery (\<^verbatim>\<open>discovery.go\<close>, \<^verbatim>\<open>sync_result.go\<close>) and UdevMonitor (\<^verbatim>\<open>monitor.go\<close>): the discovery daemon.
    \<^item> PvOwnership: whom the PVs written by the diskmaker name as their owner; Cluster: the stored LocalVolumes, LocalVolumeSets
      and PVs under the steps of users, of the operator and of the diskmaker (\<open>cluster_step\<close>), and what every reachable state satisfies.
      PvSettled: the writes of a repeated synchronisation. Volumes (\<^verbatim>\<open>volume_definitions.go\<close>).
    \<^item> GoHeap: memory, Go types, what a value shows and where it lies, the statements of a copy function. DeepCopy
      (\<^verbatim>\<open>zz_generated.deepcopy.go\<close>, the vendored copy functions, registration with a scheme). CopyClients: the updates in place of
      \<^verbatim>\<open>device_link_handler.go\<close> and \<^verbatim>\<open>localvolume_controller.go\<close> on a copy.
    \<^item> Gauges: the gauges of a diskmaker after its calls. Startup (\<^verbatim>\<open>cmd\<close>, \<^verbatim>\<open>config.go\<close>, \<^verbatim>\<open>leaderelection.go\<close>): how the processes start.
    \<^item> This theory: properties that need the diskmaker and the operator together.

  \<^bold>\<open>Interfaces.\<close> Locales state what one part relies on, each interpreted on the model: \<open>step_order\<close> (above);
  the reporters behind one contract of deduplication (Events); the index of device links as a map (LinkCache); the registry of storage class owners (OwnerMap);
  \<open>finalizer_contract\<close> (Operator), interpreted by both controllers, from which the protection of objects in
  use follows; \<open>pv_writers\<close> (PvOwnership), the walk over both diskmaker controllers by what they write, interpreted for the owners
  of PVs and for the gauges; \<open>api_server\<close> (Cluster), what the store promises, interpreted by a reference server;
  \<open>deep_copier\<close> (GoHeap), what a copy function promises, interpreted for every API type.

  \<^bold>\<open>What is shown.\<close> Effects: for every reconcile and for the discovery probe, the complete list of
  what it may do, in particular that a device is wiped only with the user's consent under the creation lock, that symlinks
  are removed only for PVs in deletion, and that no controller writes other objects. Protection: an
  object keeps its finalizer while PVs of it exist, and a deletion completes once none is left; in the closed loop of users,
  operator, diskmaker and API server no PV outlives its owner, provided the finalizer was there before the first PV. File
  system: a symlink is replaced atomically, so that at every intermediate state it has its old or its new target. Functional
  behaviour: the PV that is created, the devices that are chosen and their maximal number, the
  matchers and filters, the stable name that is preferred, the aggregation independent of the order of lists,
  duplicates, udev events from the process to the probe, manifests filled in, the TLS profile of the proxy, the gauges. Composition: a change of
  a PV wakes its owner in both processes; the controllers run only when all of a process is set up. Refinement: the index of links and the map of owners hold what the history of events
  says; updates in place of a deep copy compute what the functions on values compute and leave the original alone, because no
  generated copy shares memory with its original. Rest: a synchronised PV is not written again. Round trip: what lsblk prints is read back. Bounds: capacities, names, polls of the backoff. Errors: cases
  in which the code does less than its comments say are theorems of their own.

  \<^bold>\<open>Bounds and fuel.\<close> Resolving symlinks uses 255 steps like Go's \<^verbatim>\<open>filepath.EvalSymlinks\<close> and then
  reports too many links (\<open>max_links\<close>, HostFs). The wait for old pods makes 20 steps, the number in the code. SHA-256 is
  recursive on the blocks. All functions are total; no theorem is restricted by fuel.

  \<^bold>\<open>Not modelled.\<close> The controller runtime (work queues, caches, the elector) and the API server
  behave as the environment says; the handlers of the runtime that turn events into requests are modelled. Renaming of directories, which the program never
  does, and permissions are left out of the file system; sleeping, jitter and the wall clock are visible only through the environment. Parameters
  are: the YAML decoders, the tables of TLS profiles and cipher names, the registry of collectors, the listener and the HTTP server, the process udevadm
  with its pipes. Flags, logging, the version banner and the parser of command lines are left out, as are mocks and test support. A
  \<^verbatim>\<open>metav1.Time\<close> and the digits of a decimal are single numbers in memory, and a pointer leads to a whole object, never into one.
\<close>

section \<open>The diskmaker and the operator together\<close>

text \<open>
  An API server that lists PVs truthfully: at every time there is a set of stored PVs, and a list
  by labels returns those that carry them.
\<close>

definition lists_pvs :: "env \<Rightarrow> (nat \<Rightarrow> pv list) \<Rightarrow> bool" where
  "lists_pvs E stored \<longleftrightarrow> (\<forall>t sel. e_list_pv E t sel = Inr (filter (selected sel) (stored t)))"

lemma provisioned_labels:
  assumes "pv_for rc a hostname p" "extra_labels a"
  shows "map_of (pv_Labels p) PVOwnerKindLabel = Some (fst (owner_gvk (sa_obj a)))"
    "map_of (pv_Labels p) PVOwnerNamespaceLabel = Some (om_Namespace (owner_meta (sa_obj a)))"
    "map_of (pv_Labels p) PVOwnerNameLabel = Some (om_Name (owner_meta (sa_obj a)))"
  using assms(1) pvLabels_owner [OF assms(2)] by (simp_all add: pv_for_def)

lemma provisioned_selected:
  "pv_for rc a hostname p \<Longrightarrow> extra_labels a \<Longrightarrow> selected (ownerSelector (sa_obj a)) p"
  by (simp add: selected_def ownerSelector_def provisioned_labels)


text \<open>
  A PV protects its owner, end to end. As long as a PV that the diskmaker created for a LocalVolume or
  LocalVolumeSet is stored in the cluster, no sequence of reconciles of either of the operator's controllers takes the
  finalizer off that object, so that the object outlives its volumes.
\<close>

theorem pv_keeps_owner:
  assumes "lists_pvs E stored" "\<forall>t. \<exists>p \<in> set (stored t). pv_for rc a hostname p" "extra_labels a"
  shows "log_ext (\<lambda>b. \<not> lv_unprotected b (sa_obj a)) w
      (snd (run_state (for_each (\<lambda>request. do { _ \<leftarrow> operator_lv_Reconcile E request; State_Monad.return () }) requests) w))
    \<and> log_ext (\<lambda>b. \<not> lvset_unprotected b (sa_obj a)) w
      (snd (run_state (for_each (\<lambda>request. do { _ \<leftarrow> operator_lvset_Reconcile E request; State_Monad.return () }) requests) w))"
proof -
  have "e_list_pv E t (ownerSelector (sa_obj a)) \<noteq> Inr []" for t
  proof -
    obtain p where "p \<in> set (stored t)" "pv_for rc a hostname p" using assms(2) by blast
    then have "p \<in> set (filter (selected (ownerSelector (sa_obj a))) (stored t))"
      using provisioned_selected [OF _ assms(3)] by simp
    then have "filter (selected (ownerSelector (sa_obj a))) (stored t) \<noteq> []" by (metis empty_iff empty_set)
    then show ?thesis using assms(1) by (simp add: lists_pvs_def)
  qed
  then show ?thesis by (intro conjI lv_finalizer.protected_while_used lvset_finalizer.protected_while_used)
qed

definition lv_demo_args :: sync_args where
  "lv_demo_args = demo_args\<lparr>sa_extra := [(LocalVolumeOwnerNameForPV, ''lv''), (LocalVolumeOwnerNamespaceForPV, ''ns'')]\<rparr>"

definition owned_pv :: pv where
  "owned_pv = mutatePV (desiredPV demo_rc lv_demo_args ''host1'' (snd (hd demo_config)) 10) (pvLabels lv_demo_args ''host1'')
     (pvAnnotations demo_rc lv_demo_args True) (emptyPV (pvNameFor demo_rc lv_demo_args))"

lemma owned_pv_for: "pv_for demo_rc lv_demo_args ''host1'' owned_pv"
  unfolding owned_pv_def by (rule conjunct1 [OF mutatePV_new])

lemma demo_extra: "extra_labels lv_demo_args"
  by (simp add: extra_labels_def lv_demo_args_def)


definition storing_env :: env where
  "storing_env = demo_env\<lparr>e_list_pv := (\<lambda>t sel. Inr (filter (selected sel) [owned_pv])), e_get_lv := (\<lambda>t n. Inr deleted_lv)\<rparr>"

theorem pv_keeps_owner_witness:
  "log_ext (\<lambda>b. \<not> lv_unprotected b (OwnerLV demo_lv)) demo_world
     (snd (run_state (for_each (\<lambda>request. do { _ \<leftarrow> operator_lv_Reconcile storing_env request; State_Monad.return () })
       [(''ns'', ''lv''), (''ns'', ''lv'')]) demo_world))"
proof -
  have stored: "lists_pvs storing_env (\<lambda>t. [owned_pv])" by (simp add: lists_pvs_def storing_env_def)
  have "\<forall>t::nat. \<exists>p \<in> set [owned_pv]. pv_for demo_rc lv_demo_args ''host1'' p" by (simp add: owned_pv_for)
  moreover have "sa_obj lv_demo_args = OwnerLV demo_lv" by (simp add: lv_demo_args_def demo_args_def)
  ultimately show ?thesis using pv_keeps_owner [OF stored _ demo_extra] by metis
qed

end
